(* ===== verification/Prelude.thy ===== *)
theory Prelude
  imports Main "HOL-Library.Word" "HOL-Library.AList" "HOL-Library.Multiset"
begin

text \<open>
  Shared vocabulary of the development: the machine integers, durations and results the
  Rust sources use, the iterator functions of the Rust standard library that the model
  calls (\<open>position\<close>, \<open>Vec::remove\<close>, saturating arithmetic, decimal formatting), and the
  notion of a reachable state of a transition system with its invariant rule. The lemmas
  are declared \<open>[simp]\<close> or collected in the two named collections below, so that the
  component theories need only mention their own definitions.
\<close>

named_theorems state_simps \<open>unfolding rules of the operations on component states\<close>
named_theorems inv_rules \<open>preservation rules of the component invariants\<close>

section \<open>Machine integers, durations, results\<close>

type_synonym u8 = "8 word"
type_synonym u32 = "32 word"
type_synonym u64 = "64 word"
type_synonym usize = "64 word"

text \<open>
  A \<open>std::time::Duration\<close> and a \<open>std::time::Instant\<close> are counts of nanoseconds; the
  largest \<open>Duration\<close> is \<open>u64::MAX\<close> seconds and 999999999 nanoseconds, and
  \<open>saturating_mul\<close> stops there. \<open>Instant::duration_since\<close> of a later instant is zero,
  as subtraction on \<open>nat\<close> is.
\<close>

type_synonym duration = nat
type_synonym instant = nat

definition duration_max :: duration where
  "duration_max = (2 ^ 64 - 1) * 1000000000 + 999999999"

definition from_secs :: "nat \<Rightarrow> duration" where
  "from_secs s = s * 1000000000"

definition from_millis :: "nat \<Rightarrow> duration" where
  "from_millis ms = ms * 1000000"

definition duration_saturating_mul :: "duration \<Rightarrow> nat \<Rightarrow> duration" where
  "duration_saturating_mul d k = min (d * k) duration_max"

definition saturating_add1 :: "u32 \<Rightarrow> u32" where
  "saturating_add1 x = (if x = -1 then x else x + 1)"

definition saturating_sub1 :: "u32 \<Rightarrow> u32" where
  "saturating_sub1 x = (if x = 0 then 0 else x - 1)"

lemma unat_saturating_add1: "unat (saturating_add1 x) = min (Suc (unat x)) (2 ^ 32 - 1)"
proof (cases "x = -1")
  case True
  have "unat (-1 :: u32) = 2 ^ 32 - 1" by (simp add: unsigned_minus_1_eq_mask mask_eq_exp_minus_1)
  with True show ?thesis by (simp add: saturating_add1_def)
next
  case False
  then have ne: "x + 1 \<noteq> 0" by (metis add.commute eq_neg_iff_add_eq_0)
  then have "unat (1 + x) = Suc (unat x)" by (metis add.commute unatSuc)
  then have "unat (x + 1) = Suc (unat x)" by (simp add: add.commute)
  moreover have "unat (x + 1) < 2 ^ 32" using unsigned_less [of "x + 1"] by simp
  ultimately show ?thesis using False by (simp add: saturating_add1_def)
qed

lemma unat_saturating_sub1: "unat (saturating_sub1 x) = unat x - 1"
proof (cases "x = 0")
  case True
  then show ?thesis by (simp add: saturating_sub1_def)
next
  case False
  then have "1 \<le> x" by (simp add: word_le_nat_alt unat_gt_0 Suc_le_eq)
  then show ?thesis using False by (simp add: saturating_sub1_def unat_sub)
qed

text \<open>A \<open>Result<A, E>\<close> is \<open>'e + 'a\<close>, with \<open>Inl\<close> the error.\<close>

definition is_ok :: "'e + 'a \<Rightarrow> bool" where
  "is_ok r = (case r of Inl _ \<Rightarrow> False | Inr _ \<Rightarrow> True)"

lemma is_ok_simps [simp]: "is_ok (Inr x)" "\<not> is_ok (Inl e)"
  by (simp_all add: is_ok_def)

lemma is_ok_map_sum [simp]: "is_ok (map_sum f g x) = is_ok x"
  by (cases x) simp_all

lemma map_err_Inr_iff [simp]: "map_sum f id r = Inr x \<longleftrightarrow> r = Inr x"
  by (cases r) simp_all

section \<open>Iterators and vectors\<close>

fun position :: "('a \<Rightarrow> bool) \<Rightarrow> 'a list \<Rightarrow> nat option" where
  "position p [] = None"
| "position p (x # xs) = (if p x then Some 0 else map_option Suc (position p xs))"

definition vec_remove :: "nat \<Rightarrow> 'a list \<Rightarrow> 'a list" where
  "vec_remove i xs = take i xs @ drop (Suc i) xs"

lemma position_None_iff: "position p xs = None \<longleftrightarrow> (\<forall>x \<in> set xs. \<not> p x)"
  by (induction xs) auto

lemma position_SomeD:
  "position p xs = Some i \<Longrightarrow> i < length xs \<and> p (xs ! i) \<and> (\<forall>j < i. \<not> p (xs ! j))"
proof (induction xs arbitrary: i)
  case Nil
  then show ?case by simp
next
  case (Cons x xs)
  show ?case
  proof (cases "p x")
    case True
    with Cons.prems show ?thesis by simp
  next
    case False
    with Cons.prems obtain k where k: "position p xs = Some k" "i = Suc k" by auto
    from Cons.IH [OF k(1)] have "k < length xs" "p (xs ! k)" "\<forall>j < k. \<not> p (xs ! j)" by auto
    with k(2) False show ?thesis by (auto simp: nth_Cons split: nat.splits)
  qed
qed

lemma position_append_first:
  "\<forall>x \<in> set xs. \<not> p x \<Longrightarrow> p y \<Longrightarrow> position p (xs @ y # ys) = Some (length xs)"
  by (induction xs) auto

lemma position_eq_find: "map_option ((!) xs) (position p xs) = find p xs"
  by (induction xs) (auto simp: option.map_comp comp_def)

lemma length_vec_remove: "i < length xs \<Longrightarrow> length (vec_remove i xs) = length xs - 1"
  by (simp add: vec_remove_def)

lemma set_vec_remove_subset: "set (vec_remove i xs) \<subseteq> set xs"
  by (auto simp: vec_remove_def dest: in_set_takeD in_set_dropD)

lemma filter_vec_remove:
  "i < length xs \<Longrightarrow> \<not> p (xs ! i) \<Longrightarrow> filter p (vec_remove i xs) = filter p xs"
  by (metis (no_types, lifting) filter.simps(2) filter_append id_take_nth_drop vec_remove_def)

lemma map_vec_remove: "map f (vec_remove i xs) = vec_remove i (map f xs)"
  by (simp add: vec_remove_def take_map drop_map)

lemma distinct_vec_remove:
  assumes "distinct xs" shows "distinct (vec_remove i xs)"
proof (cases "i < length xs")
  case True
  then have "xs = take i xs @ xs ! i # drop (Suc i) xs" by (rule id_take_nth_drop)
  with assms have "distinct (take i xs @ xs ! i # drop (Suc i) xs)" by simp
  then show ?thesis by (simp add: vec_remove_def)
next
  case False
  with assms show ?thesis by (simp add: vec_remove_def)
qed

lemma vec_remove_filter_distinct:
  assumes "distinct (map f xs)" and "position (\<lambda>x. f x = k) xs = Some i"
  shows "vec_remove i xs = filter (\<lambda>x. f x \<noteq> k) xs"
proof -
  from position_SomeD [OF assms(2)] have i: "i < length xs" "f (xs ! i) = k" by auto
  define as bs where ab: "as = take i xs" "bs = drop (Suc i) xs"
  have split: "xs = as @ xs ! i # bs"
    unfolding ab using i(1) by (rule id_take_nth_drop)
  from assms(1) have "distinct (map f (as @ xs ! i # bs))" using split by simp
  then have "k \<notin> f ` set as" "k \<notin> f ` set bs" using i(2) by auto
  then have "filter (\<lambda>x. f x \<noteq> k) as = as" "filter (\<lambda>x. f x \<noteq> k) bs = bs"
    by (auto intro: filter_True)
  then have "filter (\<lambda>x. f x \<noteq> k) (as @ xs ! i # bs) = as @ bs" using i(2) by simp
  then have "filter (\<lambda>x. f x \<noteq> k) xs = as @ bs" using split by metis
  then show ?thesis by (simp add: vec_remove_def ab)
qed

text \<open>Counting the elements of a list with a property, under an update of one element.\<close>

definition count_where :: "('a \<Rightarrow> bool) \<Rightarrow> 'a list \<Rightarrow> nat" where
  "count_where p xs = length (filter p xs)"

lemma count_where_update:
  assumes "i < length xs"
  shows "count_where p (xs[i := y]) + (if p (xs ! i) then 1 else 0)
    = count_where p xs + (if p y then 1 else 0)"
proof -
  have 1: "xs = take i xs @ xs ! i # drop (Suc i) xs"
    using assms by (rule id_take_nth_drop)
  have 2: "xs[i := y] = take i xs @ y # drop (Suc i) xs"
    using assms by (rule upd_conv_take_nth_drop)
  have "count_where p xs = count_where p (take i xs @ xs ! i # drop (Suc i) xs)"
    using 1 by metis
  then show ?thesis unfolding 2 by (simp add: count_where_def)
qed

lemma count_where_pos: "i < length xs \<Longrightarrow> p (xs ! i) \<Longrightarrow> 0 < count_where p xs"
  by (auto simp: count_where_def length_greater_0_conv filter_empty_conv)

section \<open>Association lists standing for hash maps that are iterated\<close>

text \<open>
  A \<open>HashMap\<close> that the code only looks up, inserts into and removes from is a map
  \<open>'k \<rightharpoonup> 'v\<close>. One that the code iterates over is an association list with distinct keys,
  whose order stands for the unspecified iteration order; no property depends on it.
\<close>

lemma map_of_update [simp]: "map_of (AList.update k v al) = (map_of al)(k \<mapsto> v)"
  by (rule update_conv')

lemma alist_update_fresh: "k \<notin> fst ` set al \<Longrightarrow> AList.update k v al = al @ [(k, v)]"
  by (induction al) auto

lemma map_of_delete [simp]: "map_of (AList.delete k al) = (map_of al)(k := None)"
  by (rule delete_conv')

lemma distinct_delete [simp]: "distinct (map fst al) \<Longrightarrow> distinct (map fst (AList.delete k al))"
  by (rule distinct_delete)

lemma in_keys_iff: "k \<in> set (map fst al) \<longleftrightarrow> map_of al k \<noteq> None"
  by (simp add: map_of_eq_None_iff)

section \<open>Decimal formatting\<close>

fun digit_char :: "nat \<Rightarrow> char" where
  "digit_char d = char_of (48 + d)"

fun nat_str :: "nat \<Rightarrow> string" where
  "nat_str n = (if n < 10 then [digit_char n] else nat_str (n div 10) @ [digit_char (n mod 10)])"

declare nat_str.simps [simp del]

definition str_nat :: "string \<Rightarrow> nat" where
  "str_nat s = foldl (\<lambda>a c. a * 10 + (of_char c - 48)) 0 s"

lemma of_char_digit: "d < 10 \<Longrightarrow> (of_char (digit_char d) :: nat) = 48 + d"
  by simp

lemma str_nat_nat_str [simp]: "str_nat (nat_str n) = n"
proof (induction n rule: nat_str.induct)
  case (1 n)
  show ?case
  proof (cases "n < 10")
    case True
    then show ?thesis by (simp add: nat_str.simps [of n] str_nat_def)
  next
    case False
    with 1 have IH: "str_nat (nat_str (n div 10)) = n div 10" by simp
    have "n mod 10 < 10" by simp
    with False IH show ?thesis
      by (simp add: nat_str.simps [of n] str_nat_def of_char_digit del: digit_char.simps)
  qed
qed

lemma nat_str_inject [simp]: "nat_str m = nat_str n \<longleftrightarrow> m = n"
  by (metis str_nat_nat_str)

lemma nat_str_chars: "c \<in> set (nat_str n) \<Longrightarrow> 48 \<le> (of_char c :: nat) \<and> (of_char c :: nat) < 58"
proof (induction n rule: nat_str.induct)
  case (1 n)
  show ?case
  proof (cases "n < 10")
    case True
    with 1 show ?thesis by (auto simp: nat_str.simps [of n])
  next
    case False
    have m: "n mod 10 < 10" by simp
    from False "1.prems" have "c \<in> set (nat_str (n div 10)) \<or> c = digit_char (n mod 10)"
      by (auto simp: nat_str.simps [of n] simp del: digit_char.simps)
    with False "1.IH" m show ?thesis by (auto simp: of_char_digit simp del: digit_char.simps)
  qed
qed

lemma hash_not_in_nat_str [simp]: "CHR ''#'' \<notin> set (nat_str n)"
  using nat_str_chars [of "CHR ''#''" n] by auto

section \<open>Transition systems\<close>

text \<open>
  The states reachable from an initial predicate by a step relation, and the interface of
  an inductive invariant: what holds initially and is kept by every step holds in every
  reachable state. The concurrent components interpret it with their step relations.
\<close>

inductive reach :: "('s \<Rightarrow> bool) \<Rightarrow> ('s \<Rightarrow> 's \<Rightarrow> bool) \<Rightarrow> 's \<Rightarrow> bool"
  for init :: "'s \<Rightarrow> bool" and step :: "'s \<Rightarrow> 's \<Rightarrow> bool" where
  reach_init: "init s \<Longrightarrow> reach init step s"
| reach_step: "reach init step s \<Longrightarrow> step s t \<Longrightarrow> reach init step t"

locale inductive_invariant =
  fixes init :: "'s \<Rightarrow> bool"
    and step :: "'s \<Rightarrow> 's \<Rightarrow> bool"
    and invar :: "'s \<Rightarrow> bool"
  assumes init_invar: "init s \<Longrightarrow> invar s"
    and step_invar: "invar s \<Longrightarrow> step s t \<Longrightarrow> invar t"
begin

lemma reach_invar: "reach init step s \<Longrightarrow> invar s"
  by (induction rule: reach.induct) (auto intro: init_invar step_invar)

lemma steps_invar: "step\<^sup>*\<^sup>* s t \<Longrightarrow> invar s \<Longrightarrow> invar t"
  by (induction rule: rtranclp_induct) (auto intro: step_invar)

end

section \<open>Outcomes of handlers that wait\<close>

text \<open>
  A handler that waits for another actor or node may never return, and one that starts a
  child may panic; both end the sequence of its effects.
\<close>

datatype 'a run = Returns 'a | Hangs | Panics

fun run_then :: "'a run \<Rightarrow> ('a \<Rightarrow> 'b run) \<Rightarrow> 'b run" where
  "run_then (Returns x) f = f x"
| "run_then Hangs f = Hangs"
| "run_then Panics f = Panics"

fun run_each :: "('x \<Rightarrow> 's \<Rightarrow> 's run) \<Rightarrow> 'x list \<Rightarrow> 's \<Rightarrow> 's run" where
  "run_each f [] s = Returns s"
| "run_each f (x # xs) s = run_then (f x s) (run_each f xs)"

lemma run_each_append: "run_each f (xs @ ys) s = run_then (run_each f xs s) (run_each f ys)"
proof (induction xs arbitrary: s)
  case Nil
  then show ?case by simp
next
  case (Cons x xs)
  then show ?case by (cases "f x s") simp_all
qed

text \<open>An invariant of the steps is an invariant of the loop.\<close>

lemma run_each_inv:
  assumes "\<And>x s. x \<in> set xs \<Longrightarrow> I s \<Longrightarrow> \<exists>s'. f x s = Returns s' \<and> I s'" and "I s"
  shows "\<exists>s'. run_each f xs s = Returns s' \<and> I s'"
  using assms
proof (induction xs arbitrary: s)
  case Nil
  then show ?case by simp
next
  case (Cons x xs)
  from Cons.prems obtain s1 where s1: "f x s = Returns s1" "I s1" by (metis list.set_intros(1))
  have "\<exists>s'. run_each f xs s1 = Returns s' \<and> I s'"
    by (rule Cons.IH) (use Cons.prems(1) s1(2) in \<open>auto intro: list.set_intros(2)\<close>)
  with s1(1) show ?case by simp
qed

text \<open>What each step of a loop that returns establishes for the next.\<close>

lemma run_each_keeps:
  assumes "\<And>k x s s'. k < length xs \<Longrightarrow> x = xs ! k \<Longrightarrow> f x s = Returns s' \<Longrightarrow> I k s \<Longrightarrow> I (Suc k) s'"
    "run_each f xs s = Returns s'" "I 0 s"
  shows "I (length xs) s'"
  using assms
proof (induction xs arbitrary: s I)
  case Nil
  then show ?case by simp
next
  case (Cons x xs)
  from Cons.prems(2) obtain s1 where s1: "f x s = Returns s1" "run_each f xs s1 = Returns s'" by (cases "f x s") auto
  have "I (Suc 0) s1" using Cons.prems(1) [of 0] s1(1) Cons.prems(3) by simp
  with Cons.IH [of "\<lambda>k. I (Suc k)" s1] Cons.prems(1) s1(2) show ?case by force
qed

end
