(* ===== verification/Address.thy ===== *)
theory Address
  imports Prelude
begin

text \<open>
  Location-aware addressing (\<open>address/src/lib.rs\<close>): actor identifiers drawn from a
  process-wide atomic counter, node names, actor addresses and their printed form, and the
  write-once cell that holds the name of this node. The two statics of the crate are the
  fields of \<^verbatim>\<open>address_state\<close>; the environment variable read by \<open>local_node\<close> is an
  argument.
\<close>

section \<open>Identifiers and addresses\<close>

datatype actor_id = ActorId u64

datatype node_id = NodeId string

datatype locality = Local | Remote node_id

record actor_address =
  node :: node_id
  actor_id :: actor_id

record address_state =
  next_actor_id :: u64
  local_node_cell :: "node_id option"

definition address_init :: address_state where
  "address_init = \<lparr>next_actor_id = 1, local_node_cell = None\<rparr>"

fun from_raw :: "u64 \<Rightarrow> actor_id" where
  "from_raw n = ActorId n"

fun raw :: "actor_id \<Rightarrow> u64" where
  "raw (ActorId n) = n"

definition actor_id_next :: "address_state \<Rightarrow> actor_id \<times> address_state" where
  "actor_id_next st = (ActorId (next_actor_id st), st\<lparr>next_actor_id := next_actor_id st + 1\<rparr>)"

fun display_actor_id :: "actor_id \<Rightarrow> string" where
  "display_actor_id (ActorId n) = ''ActorId('' @ nat_str (unat n) @ '')''"

fun node_new :: "string \<Rightarrow> node_id" where
  "node_new name = NodeId name"

fun as_str :: "node_id \<Rightarrow> string" where
  "as_str (NodeId name) = name"

fun display_node :: "node_id \<Rightarrow> string" where
  "display_node (NodeId name) = name"

definition display_address :: "actor_address \<Rightarrow> string" where
  "display_address a = display_node (node a) @ ''#'' @ display_actor_id (actor_id a)"

definition local_node :: "string option \<Rightarrow> address_state \<Rightarrow> node_id \<times> address_state" where
  "local_node env st =
     (case local_node_cell st of
        Some n \<Rightarrow> (n, st)
      | None \<Rightarrow>
          let n = (case env of Some name \<Rightarrow> node_new name | None \<Rightarrow> node_new ''spawned@localhost'')
          in (n, st\<lparr>local_node_cell := Some n\<rparr>))"

definition set_local_node_for_test :: "node_id \<Rightarrow> address_state \<Rightarrow> address_state" where
  "set_local_node_for_test n st =
     (case local_node_cell st of
        None \<Rightarrow> st\<lparr>local_node_cell := Some n\<rparr>
      | Some _ \<Rightarrow> st)"

text \<open>
  The address operations below take the name of this node as the argument \<open>here\<close>: the value
  of \<^const>\<open>local_node\<close>, which \<open>local_node_stable\<close> shows to be fixed after its first use.
\<close>

definition address_local :: "node_id \<Rightarrow> actor_id \<Rightarrow> actor_address" where
  "address_local here i = \<lparr>node = here, actor_id = i\<rparr>"

definition address_on :: "node_id \<Rightarrow> actor_id \<Rightarrow> actor_address" where
  "address_on n i = \<lparr>node = n, actor_id = i\<rparr>"

definition is_local :: "node_id \<Rightarrow> actor_address \<Rightarrow> bool" where
  "is_local here a \<longleftrightarrow> node a = here"

definition locality_of :: "node_id \<Rightarrow> actor_address \<Rightarrow> locality" where
  "locality_of here a = (if is_local here a then Local else Remote (node a))"

text \<open>A run of allocations: the identifiers drawn by \<open>n\<close> successive calls.\<close>

fun next_ids :: "nat \<Rightarrow> address_state \<Rightarrow> actor_id list" where
  "next_ids 0 st = []"
| "next_ids (Suc n) st = (case actor_id_next st of (i, st') \<Rightarrow> i # next_ids n st')"

section \<open>Lemmas\<close>

lemma address_local_sel [simp]:
  "node (address_local here i) = here" "actor_id (address_local here i) = i"
  by (simp_all add: address_local_def)

lemma address_on_sel [simp]:
  "node (address_on n i) = n" "actor_id (address_on n i) = i"
  by (simp_all add: address_on_def)

lemma is_local_simps [simp]:
  "is_local here (address_local here i)" "is_local here (address_on n i) \<longleftrightarrow> n = here"
  by (simp_all add: is_local_def)

lemma raw_inverse [simp]: "raw (from_raw n) = n" "from_raw (raw i) = i"
  by (simp, cases i, simp)

lemma nth_next_ids:
  "k < n \<Longrightarrow> next_ids n st ! k = ActorId (next_actor_id st + of_nat k)"
proof (induction n arbitrary: st k)
  case 0
  then show ?case by simp
next
  case (Suc n)
  then show ?case by (cases k) (auto simp: actor_id_next_def algebra_simps)
qed

lemma length_next_ids [simp]: "length (next_ids n st) = n"
  by (induction n arbitrary: st) (auto simp: actor_id_next_def)

lemma of_nat_u64_inject:
  assumes "j < 2 ^ 64" and "k < 2 ^ 64"
  shows "(of_nat j :: u64) = of_nat k \<longleftrightarrow> j = k"
proof -
  have "unat (of_nat j :: u64) = j" "unat (of_nat k :: u64) = k"
    using assms by (simp_all add: unat_of_nat take_bit_nat_eq_self)
  then show ?thesis by metis
qed

lemma append_hash_inject:
  assumes "xs @ CHR ''#'' # as = ys @ CHR ''#'' # bs"
    and "CHR ''#'' \<notin> set as" and "CHR ''#'' \<notin> set bs"
  shows "xs = ys \<and> as = bs"
  using assms by (auto simp: append_eq_append_conv2 Cons_eq_append_conv append_eq_Cons_conv)

lemma display_actor_id_inject [simp]: "display_actor_id i = display_actor_id j \<longleftrightarrow> i = j"
  by (cases i; cases j) (simp add: word_unat_eq_iff)

lemma hash_not_in_display_actor_id [simp]: "CHR ''#'' \<notin> set (display_actor_id i)"
  by (cases i) simp

section \<open>Properties\<close>

text \<open>
  Actor identifiers are unique: however many actors a process starts, up to the
  \<open>2^64\<close> values of the counter, no two allocations of \<open>ActorId::next\<close> return the same
  identifier. (The counter is an \<open>AtomicU64\<close> whose \<open>fetch_add\<close> wraps, so this bound is
  exact.)
\<close>

lemma actor_ids_unique:
  assumes "n \<le> 2 ^ 64"
  shows "distinct (next_ids n st)"
proof -
  have "next_ids n st ! j \<noteq> next_ids n st ! k" if "j < n" "k < n" "j \<noteq> k" for j k
  proof -
    have "(of_nat j :: u64) \<noteq> of_nat k"
      using that assms by (subst of_nat_u64_inject) auto
    then show ?thesis using that by (simp add: nth_next_ids)
  qed
  then show ?thesis by (simp add: distinct_conv_nth)
qed

text \<open>
  The printed form of an address, \<open>node#ActorId(n)\<close>, determines the address, even when
  the node name itself contains a hash sign.
\<close>

lemma display_address_injective: "display_address a = display_address b \<longleftrightarrow> a = b"
proof
  assume "display_address a = display_address b"
  then have "display_node (node a) @ CHR ''#'' # display_actor_id (actor_id a) =
      display_node (node b) @ CHR ''#'' # display_actor_id (actor_id b)"
    by (simp add: display_address_def)
  then have "display_node (node a) = display_node (node b)"
    and "display_actor_id (actor_id a) = display_actor_id (actor_id b)"
    by (auto dest: append_hash_inject)
  then have "node a = node b" "actor_id a = actor_id b"
    by (cases "node a"; cases "node b"; simp)+
  then show "a = b" by simp
qed simp

text \<open>
  The name of this node never changes once it has been read: after the first
  \<open>local_node()\<close>, neither another read (whatever the environment variable has become) nor
  \<open>set_local_node_for_test\<close> changes it, and the locality of an address is decided by it.
\<close>

theorem local_node_stable:
  assumes "local_node env st = (here, st')"
  shows "local_node env2 st' = (here, st') \<and> set_local_node_for_test n st' = st' \<and>
    (locality_of here a = Local \<longleftrightarrow> node a = here)"
  using assms
  by (auto simp: local_node_def set_local_node_for_test_def locality_of_def is_local_def Let_def
      split: option.splits)

theorem local_node_stable_witness:
  "local_node (Some ''b@host'') (snd (local_node None address_init))
     = (NodeId ''spawned@localhost'', snd (local_node None address_init))"
proof -
  have "local_node None address_init
      = (NodeId ''spawned@localhost'', snd (local_node None address_init))"
    by (simp add: local_node_def address_init_def Let_def)
  from local_node_stable [OF this] show ?thesis by blast
qed

end
