(* ===== verification/Exit_Reason.thy ===== *)
theory Exit_Reason
  imports Address
begin

text \<open>
  Exit reasons and errors (\<open>concurrency/src/error.rs\<close>), the \<open>Exit\<close> notification of
  \<open>link.rs\<close>, and the rule of \<open>exit_request.rs\<close> that merges the reason a handler loop ended
  with, the reason requested through a \<open>ChildHandle\<close> and the reason received over a link.
\<close>

section \<open>Reasons and errors\<close>

datatype exit_reason = Normal | Shutdown | Panic string | Kill

fun is_abnormal :: "exit_reason \<Rightarrow> bool" where
  "is_abnormal Normal = False"
| "is_abnormal Shutdown = False"
| "is_abnormal (Panic _) = True"
| "is_abnormal Kill = True"

fun display_exit_reason :: "exit_reason \<Rightarrow> string" where
  "display_exit_reason Normal = ''normal''"
| "display_exit_reason Shutdown = ''shutdown''"
| "display_exit_reason (Panic msg) = ''panic: '' @ msg"
| "display_exit_reason Kill = ''kill''"

text \<open>
  A caught panic carries a payload that is a \<open>&str\<close>, a \<open>String\<close> or anything else; the last
  is known only through its debug rendering.
\<close>

datatype panic_payload = StrPayload string | StringPayload string | OtherPayload string

fun panic_message :: "panic_payload \<Rightarrow> string" where
  "panic_message (StrPayload s) = s"
| "panic_message (StringPayload s) = s"
| "panic_message (OtherPayload dbg) = dbg"

datatype actor_error = ActorStopped | RequestTimeout | MailboxFull | RemoteUnreachable

fun display_actor_error :: "actor_error \<Rightarrow> string" where
  "display_actor_error ActorStopped = ''Actor stopped''"
| "display_actor_error RequestTimeout = ''Request to Actor timed out''"
| "display_actor_error MailboxFull = ''Actor mailbox is full''"
| "display_actor_error RemoteUnreachable = ''Remote actor is unreachable''"

record exit_msg =
  exit_from :: actor_address
  exit_cause :: exit_reason

section \<open>The final exit reason of an actor\<close>

text \<open>
  \<open>resolve_exit_reason\<close> takes the two shared slots and leaves behind what \<open>take()\<close> leaves.
\<close>

definition resolve_exit_reason ::
  "exit_reason \<Rightarrow> exit_reason option \<Rightarrow> exit_reason option
    \<Rightarrow> exit_reason \<times> exit_reason option \<times> exit_reason option" where
  "resolve_exit_reason reason requested linked =
     (case requested of
        Some r \<Rightarrow> (r, None, linked)
      | None \<Rightarrow>
          if reason = Normal
          then (case linked of
                  Some l \<Rightarrow> (l, None, None)
                | None \<Rightarrow> (reason, None, None))
          else (reason, None, linked))"

abbreviation resolved :: "exit_reason \<Rightarrow> exit_reason option \<Rightarrow> exit_reason option \<Rightarrow> exit_reason" where
  "resolved reason requested linked \<equiv> fst (resolve_exit_reason reason requested linked)"

lemma display_exit_reason_inject:
  "display_exit_reason r = display_exit_reason s \<longleftrightarrow> r = s"
  by (cases r; cases s) auto

lemma resolved_requested [simp]: "resolved reason (Some r) linked = r"
  by (simp add: resolve_exit_reason_def)

lemma resolved_linked [simp]: "resolved Normal None (Some l) = l"
  by (simp add: resolve_exit_reason_def)

lemma resolved_plain [simp]: "resolved reason None None = reason"
  by (simp add: resolve_exit_reason_def)

lemma resolved_not_normal [simp]: "reason \<noteq> Normal \<Longrightarrow> resolved reason None linked = reason"
  by (simp add: resolve_exit_reason_def)

lemma resolved_cases:
  "resolved reason requested linked \<in> {reason} \<union> set_option requested \<union> set_option linked"
  by (auto simp: resolve_exit_reason_def split: option.splits)

end
