(* ===== verification/Mailbox.thy ===== *)
theory Mailbox
  imports Exit_Reason
begin

text \<open>
  Actor mailboxes (\<open>concurrency/src/mailbox.rs\<close>): the capacity policy, the four channels
  (OS signals, stop, supervision, user messages) and the priority in which \<open>recv\<close> drains
  them, in the tasks and in the threads runtime, and the shared depth counter that applies
  backpressure to user messages. The counter is first given as sequential functions and
  then as the interleaved steps of concurrent senders and the receiving actor, with the
  compare-and-swap loop and the condition variable written out.
\<close>

section \<open>Configuration\<close>

datatype backpressure_mode = FailFast | Block

record mailbox_config =
  cfg_capacity :: "usize option"
  cfg_mode :: backpressure_mode

definition DEFAULT_WORKER_CAPACITY :: usize where
  "DEFAULT_WORKER_CAPACITY = 64"

definition unbounded :: mailbox_config where
  "unbounded = \<lparr>cfg_capacity = None, cfg_mode = FailFast\<rparr>"

definition default_worker :: mailbox_config where
  "default_worker = \<lparr>cfg_capacity = Some DEFAULT_WORKER_CAPACITY, cfg_mode = FailFast\<rparr>"

text \<open>The two bounded constructors assert a positive capacity; \<open>None\<close> is the panic.\<close>

definition bounded :: "usize \<Rightarrow> mailbox_config option" where
  "bounded capacity =
     (if capacity > 0 then Some \<lparr>cfg_capacity = Some capacity, cfg_mode = FailFast\<rparr> else None)"

definition bounded_blocking :: "usize \<Rightarrow> mailbox_config option" where
  "bounded_blocking capacity =
     (if capacity > 0 then Some \<lparr>cfg_capacity = Some capacity, cfg_mode = Block\<rparr> else None)"

section \<open>Channels\<close>

text \<open>
  An unbounded channel of tokio or crossbeam: its queue, whether the receiver is still
  there and whether some sender is. Sending fails exactly when the receiver is gone;
  receiving reports disconnection only when the queue is empty and all senders are gone.
\<close>

record 'a chan =
  queue :: "'a list"
  rx_alive :: bool
  tx_alive :: bool

datatype 'a try_recv = Received 'a | Empty | Disconnected

definition chan_new :: "'a chan" where
  "chan_new = \<lparr>queue = [], rx_alive = True, tx_alive = True\<rparr>"

definition chan_send :: "'a chan \<Rightarrow> 'a \<Rightarrow> ('a + unit) \<times> 'a chan" where
  "chan_send c x = (if rx_alive c then (Inr (), c\<lparr>queue := queue c @ [x]\<rparr>) else (Inl x, c))"

definition chan_try_recv :: "'a chan \<Rightarrow> 'a try_recv \<times> 'a chan" where
  "chan_try_recv c =
     (case queue c of
        x # xs \<Rightarrow> (Received x, c\<lparr>queue := xs\<rparr>)
      | [] \<Rightarrow> (if tx_alive c then Empty else Disconnected, c))"

datatype os_signal = CtrlC | Terminate

datatype signal_item = OsShutdown os_signal

datatype 'm mailbox_item = Message 'm | Signal os_signal | Exit exit_msg | StopItem

record 'm mailbox =
  user :: "'m chan"
  signal :: "signal_item chan"
  stop :: "unit chan"
  supervision :: "exit_msg chan"
  user_closed :: bool
  signal_closed :: bool
  stop_closed :: bool
  supervision_closed :: bool

text \<open>
  The sending half of a channel and its receiving half share the queue, so one record holds
  the four channels; the \<open>closed\<close> flags belong to the receiving half.
\<close>

definition tasks_channel :: "'m mailbox" where
  "tasks_channel = \<lparr>user = chan_new, signal = chan_new, stop = chan_new, supervision = chan_new,
     user_closed = False, signal_closed = False, stop_closed = False, supervision_closed = False\<rparr>"

definition threads_channel :: "'m mailbox" where
  "threads_channel = \<lparr>user = chan_new, signal = chan_new, stop = chan_new, supervision = chan_new,
     user_closed = False, signal_closed = False, stop_closed = False, supervision_closed = False\<rparr>"

section \<open>Receiving\<close>

text \<open>
  One call of \<open>recv\<close> on the channels as they stand: it returns an item, returns \<open>None\<close>
  (\<open>Closed\<close>), or reaches the \<open>select!\<close> with nothing to receive. A \<open>select!\<close> of tokio with
  every branch disabled and no \<open>else\<close> panics. A \<open>select!\<close> of crossbeam completes at once
  with an error on a disconnected channel, whatever its flag, so the loop goes round again
  without waiting (\<open>Spinning\<close>). Otherwise the call waits (\<open>Pending\<close>).
\<close>

datatype 'm recv_outcome = Item "'m mailbox_item" | Closed | Pending | SelectPanic | Spinning

definition try_signal :: "'m mailbox \<Rightarrow> 'm mailbox_item option \<times> 'm mailbox" where
  "try_signal m =
     (if signal_closed m then (None, m)
      else case chan_try_recv (signal m) of
             (Received (OsShutdown s), c) \<Rightarrow> (Some (Signal s), m\<lparr>signal := c\<rparr>)
           | (Empty, c) \<Rightarrow> (None, m)
           | (Disconnected, c) \<Rightarrow> (None, m\<lparr>signal_closed := True\<rparr>))"

definition try_stop :: "'m mailbox \<Rightarrow> 'm mailbox_item option \<times> 'm mailbox" where
  "try_stop m =
     (if stop_closed m then (None, m)
      else case chan_try_recv (stop m) of
             (Received _, c) \<Rightarrow> (Some StopItem, m\<lparr>stop := c\<rparr>)
           | (Empty, c) \<Rightarrow> (None, m)
           | (Disconnected, c) \<Rightarrow> (None, m\<lparr>stop_closed := True\<rparr>))"

definition try_supervision :: "'m mailbox \<Rightarrow> 'm mailbox_item option \<times> 'm mailbox" where
  "try_supervision m =
     (if supervision_closed m then (None, m)
      else case chan_try_recv (supervision m) of
             (Received e, c) \<Rightarrow> (Some (Exit e), m\<lparr>supervision := c\<rparr>)
           | (Empty, c) \<Rightarrow> (None, m)
           | (Disconnected, c) \<Rightarrow> (None, m\<lparr>supervision_closed := True\<rparr>))"

definition try_user :: "'m mailbox \<Rightarrow> 'm mailbox_item option \<times> 'm mailbox" where
  "try_user m =
     (if user_closed m then (None, m)
      else case chan_try_recv (user m) of
             (Received x, c) \<Rightarrow> (Some (Message x), m\<lparr>user := c\<rparr>)
           | (Empty, c) \<Rightarrow> (None, m)
           | (Disconnected, c) \<Rightarrow> (None, m\<lparr>user_closed := True\<rparr>))"

definition all_closed :: "'m mailbox \<Rightarrow> bool" where
  "all_closed m \<longleftrightarrow> signal_closed m \<and> stop_closed m \<and> supervision_closed m \<and> user_closed m"

definition any_closed :: "'m mailbox \<Rightarrow> bool" where
  "any_closed m \<longleftrightarrow> signal_closed m \<or> stop_closed m \<or> supervision_closed m \<or> user_closed m"

definition tasks_recv :: "'m mailbox \<Rightarrow> 'm recv_outcome \<times> 'm mailbox" where
  "tasks_recv m =
     (if all_closed m then (Closed, m)
      else case try_signal m of
        (Some it, m) \<Rightarrow> (Item it, m)
      | (None, m) \<Rightarrow> (case try_stop m of
        (Some it, m) \<Rightarrow> (Item it, m)
      | (None, m) \<Rightarrow> (case try_supervision m of
        (Some it, m) \<Rightarrow> (Item it, m)
      | (None, m) \<Rightarrow> (case try_user m of
        (Some it, m) \<Rightarrow> (Item it, m)
      | (None, m) \<Rightarrow> (if all_closed m then SelectPanic else Pending, m)))))"

definition threads_recv :: "'m mailbox \<Rightarrow> 'm recv_outcome \<times> 'm mailbox" where
  "threads_recv m =
     (if all_closed m then (Closed, m)
      else case try_signal m of
        (Some it, m) \<Rightarrow> (Item it, m)
      | (None, m) \<Rightarrow> (case try_stop m of
        (Some it, m) \<Rightarrow> (Item it, m)
      | (None, m) \<Rightarrow> (case try_supervision m of
        (Some it, m) \<Rightarrow> (Item it, m)
      | (None, m) \<Rightarrow> (case try_user m of
        (Some it, m) \<Rightarrow> (Item it, m)
      | (None, m) \<Rightarrow>
          (if all_closed m then Closed else if any_closed m then Spinning else Pending, m)))))"

section \<open>The depth counter, one operation at a time\<close>

datatype mailbox_runtime = Tasks | Threads

record mailbox_limits =
  capacity :: "usize option"
  mode :: backpressure_mode
  depth :: usize
  block_cvar :: bool
  block_notify :: bool

definition limits_new :: "mailbox_config \<Rightarrow> mailbox_runtime \<Rightarrow> mailbox_limits" where
  "limits_new cfg rt =
     (let needs_block = cfg_capacity cfg \<noteq> None \<and> cfg_mode cfg = Block;
          (cv, nt) = (case (needs_block, rt) of
             (True, Threads) \<Rightarrow> (True, False)
           | (True, Tasks) \<Rightarrow> (False, True)
           | _ \<Rightarrow> (False, False))
      in \<lparr>capacity = cfg_capacity cfg, mode = cfg_mode cfg, depth = 0,
          block_cvar = cv, block_notify = nt\<rparr>)"

definition try_acquire :: "mailbox_limits \<Rightarrow> (actor_error + unit) \<times> mailbox_limits" where
  "try_acquire l =
     (case capacity l of
        None \<Rightarrow> (Inr (), l)
      | Some cap \<Rightarrow>
          if depth l \<ge> cap then (Inl MailboxFull, l)
          else (Inr (), l\<lparr>depth := depth l + 1\<rparr>))"

definition rollback_acquire :: "mailbox_limits \<Rightarrow> mailbox_limits" where
  "rollback_acquire l = (if capacity l \<noteq> None then l\<lparr>depth := depth l - 1\<rparr> else l)"

definition on_message_dequeued :: "mailbox_limits \<Rightarrow> mailbox_limits" where
  "on_message_dequeued l = (if capacity l = None then l else l\<lparr>depth := depth l - 1\<rparr>)"

text \<open>
  Sending a user message with nobody interfering. In \<open>Block\<close> mode a full mailbox makes the
  caller wait, and a \<open>MailboxLimits\<close> built for the other runtime lacks the primitive to
  wait on, which is the panic of the \<open>expect\<close>.
\<close>

datatype 'a blocking = Done 'a | Waits | ExpectPanic

definition acquire_blocking_threads :: "mailbox_limits \<Rightarrow> mailbox_limits blocking" where
  "acquire_blocking_threads l =
     (case capacity l of
        None \<Rightarrow> Done l
      | Some cap \<Rightarrow>
          if \<not> block_cvar l then ExpectPanic
          else if depth l < cap then Done (l\<lparr>depth := depth l + 1\<rparr>) else Waits)"

definition acquire_async_tasks :: "mailbox_limits \<Rightarrow> mailbox_limits blocking" where
  "acquire_async_tasks l =
     (case capacity l of
        None \<Rightarrow> Done l
      | Some cap \<Rightarrow>
          if \<not> block_notify l then ExpectPanic
          else if depth l < cap then Done (l\<lparr>depth := depth l + 1\<rparr>) else Waits)"

definition send_after_acquire ::
  "mailbox_limits \<Rightarrow> 'm chan \<Rightarrow> 'm \<Rightarrow> (actor_error + unit) \<times> mailbox_limits \<times> 'm chan" where
  "send_after_acquire l c x =
     (case chan_send c x of
        (Inr _, c') \<Rightarrow> (Inr (), l, c')
      | (Inl _, c') \<Rightarrow> (Inl ActorStopped, rollback_acquire l, c'))"

definition send_user_threads ::
  "mailbox_limits \<Rightarrow> 'm chan \<Rightarrow> 'm \<Rightarrow> ((actor_error + unit) \<times> mailbox_limits \<times> 'm chan) blocking" where
  "send_user_threads l c x =
     (case (capacity l, mode l) of
        (None, _) \<Rightarrow> Done (send_after_acquire l c x)
      | (Some _, FailFast) \<Rightarrow>
          (case try_acquire l of
             (Inl e, l') \<Rightarrow> Done (Inl e, l', c)
           | (Inr _, l') \<Rightarrow> Done (send_after_acquire l' c x))
      | (Some _, Block) \<Rightarrow>
          (case acquire_blocking_threads l of
             Waits \<Rightarrow> Waits
           | ExpectPanic \<Rightarrow> ExpectPanic
           | Done l' \<Rightarrow> Done (send_after_acquire l' c x)))"

text \<open>
  In the tasks runtime the caller blocks on the async acquisition, through \<open>block_in_place\<close>
  inside a runtime and through \<open>block_on\<close> outside; both wait for the same future.
\<close>

definition send_user_tasks_sync ::
  "mailbox_limits \<Rightarrow> 'm chan \<Rightarrow> 'm \<Rightarrow> ((actor_error + unit) \<times> mailbox_limits \<times> 'm chan) blocking" where
  "send_user_tasks_sync l c x =
     (case (capacity l, mode l) of
        (None, _) \<Rightarrow> Done (send_after_acquire l c x)
      | (Some _, FailFast) \<Rightarrow>
          (case try_acquire l of
             (Inl e, l') \<Rightarrow> Done (Inl e, l', c)
           | (Inr _, l') \<Rightarrow> Done (send_after_acquire l' c x))
      | (Some _, Block) \<Rightarrow>
          (case acquire_async_tasks l of
             Waits \<Rightarrow> Waits
           | ExpectPanic \<Rightarrow> ExpectPanic
           | Done l' \<Rightarrow> Done (send_after_acquire l' c x)))"

text \<open>Signals, stop items and exits are never subject to the user limits.\<close>

definition send_control :: "'a chan \<Rightarrow> 'a \<Rightarrow> (actor_error + unit) \<times> 'a chan" where
  "send_control c x =
     (case chan_send c x of
        (Inr _, c') \<Rightarrow> (Inr (), c')
      | (Inl _, c') \<Rightarrow> (Inl ActorStopped, c'))"

definition send_signal_threads ::
  "signal_item chan \<Rightarrow> os_signal \<Rightarrow> (actor_error + unit) \<times> signal_item chan" where
  "send_signal_threads c s = send_control c (OsShutdown s)"

definition send_signal_tasks ::
  "signal_item chan \<Rightarrow> os_signal \<Rightarrow> (actor_error + unit) \<times> signal_item chan" where
  "send_signal_tasks c s = send_control c (OsShutdown s)"

definition send_stop_threads :: "unit chan \<Rightarrow> (actor_error + unit) \<times> unit chan" where
  "send_stop_threads c = send_control c ()"

definition send_stop_tasks :: "unit chan \<Rightarrow> (actor_error + unit) \<times> unit chan" where
  "send_stop_tasks c = send_control c ()"

definition send_supervision_threads ::
  "exit_msg chan \<Rightarrow> exit_msg \<Rightarrow> (actor_error + unit) \<times> exit_msg chan" where
  "send_supervision_threads c e = send_control c e"

definition send_supervision_tasks ::
  "exit_msg chan \<Rightarrow> exit_msg \<Rightarrow> (actor_error + unit) \<times> exit_msg chan" where
  "send_supervision_tasks c e = send_control c e"

section \<open>The mailbox as one prioritised queue\<close>

text \<open>
  What a mailbox promises is a single queue: all signals, then all stop items, then all
  exits, then all user messages, each in the order it was sent.
\<close>

fun signal_of :: "signal_item \<Rightarrow> os_signal" where
  "signal_of (OsShutdown s) = s"

definition contents :: "'m mailbox \<Rightarrow> 'm mailbox_item list" where
  "contents m = map (\<lambda>s. Signal (signal_of s)) (queue (signal m))
     @ map (\<lambda>_. StopItem) (queue (stop m))
     @ map Exit (queue (supervision m))
     @ map Message (queue (user m))"

text \<open>
  The receiving loop keeps its own \<open>Context\<close>, hence a sender of every channel, so its
  channels are never seen disconnected.
\<close>

definition open_mailbox :: "'m mailbox \<Rightarrow> bool" where
  "open_mailbox m \<longleftrightarrow>
     \<not> signal_closed m \<and> \<not> stop_closed m \<and> \<not> supervision_closed m \<and> \<not> user_closed m \<and>
     tx_alive (signal m) \<and> tx_alive (stop m) \<and> tx_alive (supervision m) \<and> tx_alive (user m)"

lemma open_not_closed: "open_mailbox m \<Longrightarrow> \<not> all_closed m \<and> \<not> any_closed m"
  by (simp add: open_mailbox_def all_closed_def any_closed_def)

lemmas try_defs = try_signal_def try_stop_def try_supervision_def try_user_def chan_try_recv_def

text \<open>The interface the actor loop relies on, whichever runtime provides it.\<close>

locale mailbox_receiver =
  fixes recv :: "'m mailbox \<Rightarrow> 'm recv_outcome \<times> 'm mailbox"
  assumes recv_head: "open_mailbox m \<Longrightarrow> contents m = it # its \<Longrightarrow>
      \<exists>m'. recv m = (Item it, m') \<and> contents m' = its \<and> open_mailbox m'"
    and recv_waits: "open_mailbox m \<Longrightarrow> contents m = [] \<Longrightarrow> recv m = (Pending, m)"

primrec receive_n ::
  "('m mailbox \<Rightarrow> 'm recv_outcome \<times> 'm mailbox) \<Rightarrow> nat \<Rightarrow> 'm mailbox \<Rightarrow> 'm mailbox_item list" where
  "receive_n recv 0 m = []"
| "receive_n recv (Suc n) m =
     (case recv m of (Item it, m') \<Rightarrow> it # receive_n recv n m' | _ \<Rightarrow> [])"

context mailbox_receiver
begin

lemma receive_n_take: "open_mailbox m \<Longrightarrow> receive_n recv n m = take n (contents m)"
proof (induction n arbitrary: m)
  case 0
  then show ?case by simp
next
  case (Suc n)
  show ?case
  proof (cases "contents m")
    case Nil
    with Suc.prems show ?thesis by (simp add: recv_waits)
  next
    case (Cons it its)
    then obtain m' where "recv m = (Item it, m')" "contents m' = its" "open_mailbox m'"
      using recv_head [OF Suc.prems] by blast
    with Cons Suc.IH show ?thesis by simp
  qed
qed

lemma recv_never_fails: "open_mailbox m \<Longrightarrow> fst (recv m) \<notin> {Closed, SelectPanic, Spinning}"
  by (cases "contents m") (auto simp: recv_waits dest: recv_head)

end

lemma recv_eq: "open_mailbox m \<Longrightarrow> threads_recv m = tasks_recv m"
  by (auto simp: tasks_recv_def threads_recv_def try_defs open_mailbox_def all_closed_def
      any_closed_def split: list.splits signal_item.splits)

lemma tasks_recv_head:
  assumes "open_mailbox m" and "contents m = it # its"
  shows "\<exists>m'. tasks_recv m = (Item it, m') \<and> contents m' = its \<and> open_mailbox m'"
proof (cases "queue (signal m)")
  case (Cons s ss)
  with assms show ?thesis
    by (cases s) (auto simp: tasks_recv_def try_defs open_mailbox_def all_closed_def contents_def)
next
  case Nil
  note signal = Nil
  show ?thesis
  proof (cases "queue (stop m)")
    case (Cons s ss)
    with signal assms show ?thesis
      by (auto simp: tasks_recv_def try_defs open_mailbox_def all_closed_def contents_def)
  next
    case Nil
    note stop = Nil
    show ?thesis
    proof (cases "queue (supervision m)")
      case (Cons e es)
      with signal stop assms show ?thesis
        by (auto simp: tasks_recv_def try_defs open_mailbox_def all_closed_def contents_def)
    next
      case Nil
      with signal stop assms show ?thesis
        by (cases "queue (user m)")
          (auto simp: tasks_recv_def try_defs open_mailbox_def all_closed_def contents_def)
    qed
  qed
qed

lemma tasks_recv_waits: "open_mailbox m \<Longrightarrow> contents m = [] \<Longrightarrow> tasks_recv m = (Pending, m)"
  by (auto simp: tasks_recv_def try_defs open_mailbox_def all_closed_def contents_def)

interpretation tasks_rx: mailbox_receiver tasks_recv
  by unfold_locales (rule tasks_recv_head tasks_recv_waits; assumption)+

interpretation threads_rx: mailbox_receiver threads_recv
  by unfold_locales (simp_all add: recv_eq tasks_recv_head tasks_recv_waits)

section \<open>Properties\<close>

text \<open>
  C5. A mailbox is drained in priority order: \<open>n\<close> calls of \<open>recv\<close> on a running actor's
  mailbox return the first \<open>n\<close> items of the queue made of all OS signals, then all stop
  requests, then all exit notifications, then all user messages, each in the order sent; the
  tasks and the threads receivers return the same items.
\<close>

theorem mailbox_priority_order:
  assumes "open_mailbox m"
  shows "receive_n tasks_recv n m = take n (contents m) \<and>
    receive_n threads_recv n m = take n (contents m)"
  using assms by (simp add: tasks_rx.receive_n_take threads_rx.receive_n_take)

theorem mailbox_priority_order_witness:
  "let m = tasks_channel
       \<lparr>user := chan_new\<lparr>queue := [1, 2 :: nat]\<rparr>, stop := chan_new\<lparr>queue := [()]\<rparr>,
        signal := chan_new\<lparr>queue := [OsShutdown CtrlC]\<rparr>\<rparr>
   in open_mailbox m \<and> receive_n tasks_recv 3 m = [Signal CtrlC, StopItem, Message 1] \<and>
      receive_n threads_recv 3 m = [Signal CtrlC, StopItem, Message 1]"
proof -
  define m where "m = tasks_channel
       \<lparr>user := chan_new\<lparr>queue := [1, 2 :: nat]\<rparr>, stop := chan_new\<lparr>queue := [()]\<rparr>,
        signal := chan_new\<lparr>queue := [OsShutdown CtrlC]\<rparr>\<rparr>"
  have o: "open_mailbox m"
    by (simp add: m_def tasks_channel_def open_mailbox_def chan_new_def)
  have "take 3 (contents m) = [Signal CtrlC, StopItem, Message 1]"
    by (simp add: m_def tasks_channel_def contents_def chan_new_def)
  with o mailbox_priority_order [OF o, of 3] show ?thesis
    unfolding Let_def m_def [symmetric] by simp
qed

text \<open>
  Only the tasks receiver can panic: if every sender of all four channels is gone and the
  queues are empty, \<open>threads::recv\<close> returns \<open>None\<close>, as the code intends, but the tasks
  \<open>recv\<close> marks the four channels closed in one pass and then enters a \<open>select!\<close> with every
  branch disabled, which panics.
\<close>

lemma tasks_recv_all_disconnected_panics:
  assumes "queue (user m) = []" "queue (signal m) = []" "queue (stop m) = []"
    and "queue (supervision m) = []"
    and "\<not> tx_alive (user m)" "\<not> tx_alive (signal m)" "\<not> tx_alive (stop m)"
    and "\<not> tx_alive (supervision m)" and "\<not> all_closed m"
  shows "fst (tasks_recv m) = SelectPanic \<and> fst (threads_recv m) = Closed"
  using assms by (auto simp: tasks_recv_def threads_recv_def try_defs all_closed_def any_closed_def)

text \<open>
  Backpressure, sequentially: on a bounded fail-fast mailbox a send returns
  \<open>MailboxFull\<close>, changing nothing, exactly when the depth has reached the capacity; below it,
  the message is appended and the depth grows by one; and if the actor has stopped, the
  reservation is rolled back and \<open>ActorStopped\<close> is returned.
\<close>

lemma fail_fast_send:
  assumes "capacity l = Some cap" and "mode l = FailFast"
  shows "send_user_tasks_sync l c x =
    Done (if depth l \<ge> cap then (Inl MailboxFull, l, c)
          else if rx_alive c then (Inr (), l\<lparr>depth := depth l + 1\<rparr>, c\<lparr>queue := queue c @ [x]\<rparr>)
          else (Inl ActorStopped, l, c)) \<and>
    send_user_threads l c x = send_user_tasks_sync l c x"
  using assms
  by (auto simp: send_user_tasks_sync_def send_user_threads_def try_acquire_def
      send_after_acquire_def chan_send_def rollback_acquire_def)

end
