(* ===== verification/Mailbox_Concurrent.thy ===== *)
theory Mailbox_Concurrent
  imports Mailbox
begin

text \<open>
  The depth counter of a bounded mailbox under concurrency: any number of sender threads run
  the compare-and-swap loop of \<open>try_acquire\<close>, or the condition-variable loop of
  \<open>acquire_blocking_threads\<close>, interleaved with the receiving actor. A step is one atomic
  access; the threads' program counters are part of the state.
\<close>

section \<open>Fail-fast senders: the compare-and-swap loop\<close>

datatype 'm sender_pc = SIdle | STrying 'm | SLoaded 'm usize | SAcquired 'm

fun acquired :: "'m sender_pc \<Rightarrow> bool" where
  "acquired (SAcquired _) = True"
| "acquired _ = False"

text \<open>
  \<open>ff_popped\<close> is set between the receiver's dequeue and its decrement of the counter;
  \<open>ff_lost\<close> is a ghost count of the messages dropped with the queue when the receiver goes
  away.
\<close>

record 'm ff_state =
  ff_cap :: usize
  ff_depth :: usize
  ff_senders :: "'m sender_pc list"
  ff_queue :: "'m list"
  ff_open :: bool
  ff_popped :: bool
  ff_lost :: nat

definition ff_init :: "usize \<Rightarrow> 'm ff_state \<Rightarrow> bool" where
  "ff_init cap s \<longleftrightarrow> ff_cap s = cap \<and> ff_depth s = 0 \<and> ff_queue s = [] \<and> ff_open s \<and>
     \<not> ff_popped s \<and> ff_lost s = 0 \<and> (\<forall>pc \<in> set (ff_senders s). pc = SIdle)"

inductive ff_step :: "'m ff_state \<Rightarrow> 'm ff_state \<Rightarrow> bool" where
  call: "i < length (ff_senders s) \<Longrightarrow> ff_senders s ! i = SIdle \<Longrightarrow>
    ff_step s (s\<lparr>ff_senders := (ff_senders s)[i := STrying x]\<rparr>)"
| load: "i < length (ff_senders s) \<Longrightarrow> ff_senders s ! i = STrying x \<Longrightarrow>
    ff_step s (s\<lparr>ff_senders := (ff_senders s)[i := SLoaded x (ff_depth s)]\<rparr>)"
| full: "i < length (ff_senders s) \<Longrightarrow> ff_senders s ! i = SLoaded x c \<Longrightarrow> c \<ge> ff_cap s \<Longrightarrow>
    ff_step s (s\<lparr>ff_senders := (ff_senders s)[i := SIdle]\<rparr>)"
| cas_ok: "i < length (ff_senders s) \<Longrightarrow> ff_senders s ! i = SLoaded x c \<Longrightarrow> c < ff_cap s \<Longrightarrow>
    ff_depth s = c \<Longrightarrow>
    ff_step s (s\<lparr>ff_depth := c + 1, ff_senders := (ff_senders s)[i := SAcquired x]\<rparr>)"
| cas_fail: "i < length (ff_senders s) \<Longrightarrow> ff_senders s ! i = SLoaded x c \<Longrightarrow> c < ff_cap s \<Longrightarrow>
    ff_step s (s\<lparr>ff_senders := (ff_senders s)[i := STrying x]\<rparr>)"
| send_ok: "i < length (ff_senders s) \<Longrightarrow> ff_senders s ! i = SAcquired x \<Longrightarrow> ff_open s \<Longrightarrow>
    ff_step s (s\<lparr>ff_queue := ff_queue s @ [x], ff_senders := (ff_senders s)[i := SIdle]\<rparr>)"
| send_err: "i < length (ff_senders s) \<Longrightarrow> ff_senders s ! i = SAcquired x \<Longrightarrow> \<not> ff_open s \<Longrightarrow>
    ff_step s (s\<lparr>ff_depth := ff_depth s - 1, ff_senders := (ff_senders s)[i := SIdle]\<rparr>)"
| dequeue: "ff_open s \<Longrightarrow> \<not> ff_popped s \<Longrightarrow> ff_queue s = x # xs \<Longrightarrow>
    ff_step s (s\<lparr>ff_queue := xs, ff_popped := True\<rparr>)"
| dequeued: "ff_popped s \<Longrightarrow>
    ff_step s (s\<lparr>ff_depth := ff_depth s - 1, ff_popped := False\<rparr>)"
| close: "ff_open s \<Longrightarrow> \<not> ff_popped s \<Longrightarrow>
    ff_step s (s\<lparr>ff_open := False, ff_lost := ff_lost s + length (ff_queue s), ff_queue := []\<rparr>)"

text \<open>
  The counter equals what it is meant to count: queued messages, reservations not yet sent,
  a message dequeued but not yet counted out, and what was dropped at the end.
\<close>

definition ff_inv :: "usize \<Rightarrow> 'm ff_state \<Rightarrow> bool" where
  "ff_inv cap s \<longleftrightarrow> ff_cap s = cap \<and>
     unat (ff_depth s) = length (ff_queue s) + count_where acquired (ff_senders s)
       + (if ff_popped s then 1 else 0) + ff_lost s \<and>
     ff_depth s \<le> cap"

lemma unat_Suc_less: "(c :: usize) < cap \<Longrightarrow> unat (c + 1) = Suc (unat c)"
proof -
  assume "c < cap"
  then have "c \<noteq> -1" using word_order.extremum_strict by blast
  then have "1 + c \<noteq> 0" by (metis add.commute eq_neg_iff_add_eq_0)
  then have "unat (1 + c) = Suc (unat c)" by (rule unatSuc)
  then show ?thesis by (simp add: add.commute)
qed

lemma unat_pred: "0 < unat (c :: usize) \<Longrightarrow> unat (c - 1) = unat c - 1"
  by (metis gr_implies_not_zero unat_0 unat_minus_one)

lemma ff_step_inv: "ff_inv cap s \<Longrightarrow> ff_step s t \<Longrightarrow> ff_inv cap t"
proof (erule ff_step.cases, goal_cases)
  case (1 i s x)
  then show ?case using count_where_update [of i "ff_senders s" acquired "STrying x"]
    by (simp add: ff_inv_def)
next
  case (2 i s x)
  then show ?case using count_where_update [of i "ff_senders s" acquired "SLoaded x (ff_depth s)"]
    by (simp add: ff_inv_def)
next
  case (3 i s x c)
  then show ?case using count_where_update [of i "ff_senders s" acquired SIdle]
    by (simp add: ff_inv_def)
next
  case (4 i s x c)
  then show ?case
    using count_where_update [of i "ff_senders s" acquired "SAcquired x"]
    by (simp add: ff_inv_def unat_Suc_less inc_le)
next
  case (5 i s x c)
  then show ?case using count_where_update [of i "ff_senders s" acquired "STrying x"]
    by (simp add: ff_inv_def)
next
  case (6 i s x)
  then show ?case using count_where_update [of i "ff_senders s" acquired SIdle]
    by (simp add: ff_inv_def)
next
  case (7 i s x)
  then have "0 < count_where acquired (ff_senders s)" by (auto intro: count_where_pos)
  with 7 show ?case
    using count_where_update [of i "ff_senders s" acquired SIdle]
    by (auto simp: ff_inv_def unat_pred word_le_nat_alt)
next
  case (8 s x xs)
  then show ?case by (simp add: ff_inv_def)
next
  case (9 s)
  then show ?case by (auto simp: ff_inv_def unat_pred word_le_nat_alt)
next
  case (10 s)
  then show ?case by (simp add: ff_inv_def)
qed

lemma ff_init_inv: "ff_init cap s \<Longrightarrow> ff_inv cap s"
  by (auto simp: ff_init_def ff_inv_def count_where_def filter_empty_conv)

interpretation ff: inductive_invariant "ff_init cap" ff_step "ff_inv cap" for cap
  by unfold_locales (auto intro: ff_init_inv ff_step_inv)

section \<open>Blocking senders: the condition variable\<close>

text \<open>
  A sender of a \<open>Block\<close> mailbox in the threads runtime holds the mutex while it reads the
  counter and releases it when it waits; the receiver decrements the counter and calls
  \<open>notify_all\<close> without the mutex. The \<open>wait\<close> of a condition variable returns here only
  because of a notification.
\<close>

datatype blocker_pc = BIdle | BWantLock | BHoldsLock | BSawRoom | BSawFull | BWaiting | BAcquired

datatype receiver_pc = RIdle | RPopped | RDecremented

record block_state =
  bl_cap :: usize
  bl_depth :: usize
  bl_locked :: bool
  bl_senders :: "blocker_pc list"
  bl_queued :: nat
  bl_receiver :: receiver_pc

definition bl_init :: "usize \<Rightarrow> nat \<Rightarrow> block_state \<Rightarrow> bool" where
  "bl_init cap n s \<longleftrightarrow> s = \<lparr>bl_cap = cap, bl_depth = 0, bl_locked = False,
     bl_senders = replicate n BIdle, bl_queued = 0, bl_receiver = RIdle\<rparr>"

fun wake :: "blocker_pc \<Rightarrow> blocker_pc" where
  "wake BWaiting = BWantLock"
| "wake pc = pc"

inductive bl_step :: "block_state \<Rightarrow> block_state \<Rightarrow> bool" where
  bl_call: "i < length (bl_senders s) \<Longrightarrow> bl_senders s ! i = BIdle \<Longrightarrow>
    bl_step s (s\<lparr>bl_senders := (bl_senders s)[i := BWantLock]\<rparr>)"
| bl_lock: "i < length (bl_senders s) \<Longrightarrow> bl_senders s ! i = BWantLock \<Longrightarrow> \<not> bl_locked s \<Longrightarrow>
    bl_step s (s\<lparr>bl_locked := True, bl_senders := (bl_senders s)[i := BHoldsLock]\<rparr>)"
| bl_saw_room: "i < length (bl_senders s) \<Longrightarrow> bl_senders s ! i = BHoldsLock \<Longrightarrow>
    bl_depth s < bl_cap s \<Longrightarrow>
    bl_step s (s\<lparr>bl_senders := (bl_senders s)[i := BSawRoom]\<rparr>)"
| bl_acquire: "i < length (bl_senders s) \<Longrightarrow> bl_senders s ! i = BSawRoom \<Longrightarrow>
    bl_step s (s\<lparr>bl_depth := bl_depth s + 1, bl_locked := False,
      bl_senders := (bl_senders s)[i := BAcquired]\<rparr>)"
| bl_saw_full: "i < length (bl_senders s) \<Longrightarrow> bl_senders s ! i = BHoldsLock \<Longrightarrow>
    \<not> bl_depth s < bl_cap s \<Longrightarrow>
    bl_step s (s\<lparr>bl_senders := (bl_senders s)[i := BSawFull]\<rparr>)"
| bl_wait: "i < length (bl_senders s) \<Longrightarrow> bl_senders s ! i = BSawFull \<Longrightarrow>
    bl_step s (s\<lparr>bl_locked := False, bl_senders := (bl_senders s)[i := BWaiting]\<rparr>)"
| bl_send: "i < length (bl_senders s) \<Longrightarrow> bl_senders s ! i = BAcquired \<Longrightarrow>
    bl_step s (s\<lparr>bl_queued := Suc (bl_queued s), bl_senders := (bl_senders s)[i := BIdle]\<rparr>)"
| bl_pop: "bl_receiver s = RIdle \<Longrightarrow> 0 < bl_queued s \<Longrightarrow>
    bl_step s (s\<lparr>bl_queued := bl_queued s - 1, bl_receiver := RPopped\<rparr>)"
| bl_decrement: "bl_receiver s = RPopped \<Longrightarrow>
    bl_step s (s\<lparr>bl_depth := bl_depth s - 1, bl_receiver := RDecremented\<rparr>)"
| bl_notify: "bl_receiver s = RDecremented \<Longrightarrow>
    bl_step s (s\<lparr>bl_senders := map wake (bl_senders s), bl_receiver := RIdle\<rparr>)"

inductive_simps bl_step_from: "bl_step s t"

abbreviation lost_state :: block_state where
  "lost_state \<equiv> \<lparr>bl_cap = 1, bl_depth = 0, bl_locked = False, bl_senders = [BWaiting],
     bl_queued = 0, bl_receiver = RIdle\<rparr>"

lemma bl_run: "bl_step s t \<Longrightarrow> reach (bl_init c n) bl_step s \<Longrightarrow> reach (bl_init c n) bl_step t"
  by (rule reach_step)

text \<open>The first message fills the mailbox.\<close>

abbreviation one_sender :: "usize \<Rightarrow> bool \<Rightarrow> blocker_pc \<Rightarrow> nat \<Rightarrow> receiver_pc \<Rightarrow> block_state" where
  "one_sender d lk pc q r \<equiv> \<lparr>bl_cap = 1, bl_depth = d, bl_locked = lk, bl_senders = [pc],
     bl_queued = q, bl_receiver = r\<rparr>"

lemmas bl_one = bl_step_from less_Suc0 nth_Cons_0 list_update.simps

lemma reach_filled: "reach (bl_init 1 1) bl_step (one_sender 1 False BIdle 1 RIdle)"
proof -
  have 0: "reach (bl_init 1 1) bl_step (one_sender 0 False BIdle 0 RIdle)"
    by (rule reach_init) (simp add: bl_init_def)
  have 1: "bl_step (one_sender 0 False BIdle 0 RIdle) (one_sender 0 False BWantLock 0 RIdle)"
    by (simp add: bl_one)
  have 2: "bl_step (one_sender 0 False BWantLock 0 RIdle) (one_sender 0 True BHoldsLock 0 RIdle)"
    by (simp add: bl_one)
  have 3: "bl_step (one_sender 0 True BHoldsLock 0 RIdle) (one_sender 0 True BSawRoom 0 RIdle)"
    by (simp add: bl_one)
  have room: "bl_step (one_sender 0 True BSawRoom 0 RIdle) (one_sender 1 False BAcquired 0 RIdle)"
    by (simp add: bl_one)
  have 4: "bl_step (one_sender 1 False BAcquired 0 RIdle) (one_sender 1 False BIdle 1 RIdle)"
    by (simp add: bl_one)
  show ?thesis by (rule bl_run [OF 4 bl_run [OF room bl_run [OF 3 bl_run [OF 2 bl_run [OF 1 0]]]]])
qed

text \<open>
  The second call sees the mailbox full; before it waits, the receiver takes the message,
  decrements the counter and notifies nobody.
\<close>

lemma reach_lost: "reach (bl_init 1 1) bl_step lost_state"
proof -
  have 1: "bl_step (one_sender 1 False BIdle 1 RIdle) (one_sender 1 False BWantLock 1 RIdle)"
    by (simp add: bl_one)
  have 2: "bl_step (one_sender 1 False BWantLock 1 RIdle) (one_sender 1 True BHoldsLock 1 RIdle)"
    by (simp add: bl_one)
  have 3: "bl_step (one_sender 1 True BHoldsLock 1 RIdle) (one_sender 1 True BSawFull 1 RIdle)"
    by (simp add: bl_one)
  have 4: "bl_step (one_sender 1 True BSawFull 1 RIdle) (one_sender 1 True BSawFull 0 RPopped)"
    by (simp add: bl_one)
  have 5: "bl_step (one_sender 1 True BSawFull 0 RPopped) (one_sender 0 True BSawFull 0 RDecremented)"
    by (simp add: bl_one)
  have 6: "bl_step (one_sender 0 True BSawFull 0 RDecremented) (one_sender 0 True BSawFull 0 RIdle)"
    by (simp add: bl_one)
  have 7: "bl_step (one_sender 0 True BSawFull 0 RIdle) lost_state"
    by (simp add: bl_one)
  show ?thesis
    by (rule bl_run [OF 7 bl_run [OF 6 bl_run [OF 5 bl_run [OF 4 bl_run [OF 3
      bl_run [OF 2 bl_run [OF 1 reach_filled]]]]]]])
qed

fun holds_lock :: "blocker_pc \<Rightarrow> bool" where
  "holds_lock BHoldsLock = True"
| "holds_lock BSawRoom = True"
| "holds_lock BSawFull = True"
| "holds_lock _ = False"

text \<open>
  The invariant: the counter is exact, the mutex has at most one holder, and the sender
  that saw room still has it when it increments the counter.
\<close>

definition bl_inv :: "usize \<Rightarrow> block_state \<Rightarrow> bool" where
  "bl_inv cap s \<longleftrightarrow> bl_cap s = cap \<and> bl_depth s \<le> cap \<and>
     unat (bl_depth s) = bl_queued s + count_where ((=) BAcquired) (bl_senders s)
       + (if bl_receiver s = RPopped then 1 else 0) \<and>
     count_where holds_lock (bl_senders s) = (if bl_locked s then 1 else 0) \<and>
     (0 < count_where ((=) BSawRoom) (bl_senders s) \<longrightarrow> bl_depth s < cap)"

lemma wake_eq_iff: "pc \<noteq> BWaiting \<Longrightarrow> pc \<noteq> BWantLock \<Longrightarrow> (pc = wake x) = (pc = x)"
  by (cases x) auto

lemma holds_lock_wake [simp]: "holds_lock (wake x) = holds_lock x"
  by (cases x) auto

lemma count_where_wake [simp]:
  "count_where ((=) BAcquired) (map wake xs) = count_where ((=) BAcquired) xs"
  "count_where ((=) BSawRoom) (map wake xs) = count_where ((=) BSawRoom) xs"
  "count_where holds_lock (map wake xs) = count_where holds_lock xs"
  by (simp_all add: count_where_def filter_map comp_def wake_eq_iff)

lemma count_where_mono: "(\<And>x. p x \<Longrightarrow> q x) \<Longrightarrow> count_where p xs \<le> count_where q xs"
  by (induction xs) (auto simp: count_where_def)

lemma count_saw_room: "count_where ((=) BSawRoom) xs \<le> count_where holds_lock xs"
  by (rule count_where_mono) auto

text \<open>How the three counts move when the sender \<open>i\<close> changes its program counter.\<close>

lemmas bl_counts = count_where_update [of _ _ "(=) BAcquired"]
  count_where_update [of _ _ holds_lock] count_where_update [of _ _ "(=) BSawRoom"]

lemma bl_senders_inv:
  assumes inv: "bl_inv cap s" and i: "i < length (bl_senders s)"
    and acq: "bl_senders s ! i \<noteq> BAcquired" "pc \<noteq> BAcquired"
    and lock: "(if holds_lock pc then 1 else 0) + (if bl_locked s then 1 else 0)
      = (if holds_lock (bl_senders s ! i) then 1 else 0) + (if lk then 1 else (0 :: nat))"
    and room: "pc = BSawRoom \<Longrightarrow> bl_depth s < cap"
  shows "bl_inv cap (s\<lparr>bl_locked := lk, bl_senders := (bl_senders s)[i := pc]\<rparr>)"
  using inv acq lock room bl_counts [OF i, of pc]
  by (cases "pc = BSawRoom"; cases "bl_senders s ! i = BSawRoom")
     (simp_all add: bl_inv_def split: if_splits)

lemma bl_inv_cap: "bl_inv cap s \<Longrightarrow> bl_cap s = cap"
  by (simp add: bl_inv_def)

lemma bl_inv_locked:
  "bl_inv cap s \<Longrightarrow> i < length (bl_senders s) \<Longrightarrow> holds_lock (bl_senders s ! i) \<Longrightarrow> bl_locked s"
  using count_where_pos [of i "bl_senders s" holds_lock]
  by (simp add: bl_inv_def split: if_splits)

lemma bl_senders_inv_same:
  assumes "bl_inv cap s" "i < length (bl_senders s)"
    "bl_senders s ! i \<noteq> BAcquired" "pc \<noteq> BAcquired" "holds_lock pc = holds_lock (bl_senders s ! i)"
    "pc = BSawRoom \<Longrightarrow> bl_depth s < cap"
  shows "bl_inv cap (s\<lparr>bl_senders := (bl_senders s)[i := pc]\<rparr>)"
  using bl_senders_inv [OF assms(1-4), of "bl_locked s"] assms(5,6) by simp

lemma bl_acquire_inv:
  assumes inv: "bl_inv cap s" and i: "i < length (bl_senders s)" "bl_senders s ! i = BSawRoom"
  shows "bl_inv cap (s\<lparr>bl_depth := bl_depth s + 1, bl_locked := False,
      bl_senders := (bl_senders s)[i := BAcquired]\<rparr>)"
proof -
  have room: "0 < count_where ((=) BSawRoom) (bl_senders s)"
    using i by (auto intro: count_where_pos)
  with inv have "bl_depth s < cap" by (simp add: bl_inv_def)
  moreover have "count_where holds_lock (bl_senders s) = 1"
    using inv room count_saw_room [of "bl_senders s"]
    by (simp add: bl_inv_def split: if_splits)
  ultimately show ?thesis
    using inv bl_counts [OF i(1), of BAcquired] i(2) count_saw_room [of "bl_senders s"]
    by (simp add: bl_inv_def unat_Suc_less inc_le)
qed

lemma bl_step_inv: "bl_inv cap s \<Longrightarrow> bl_step s t \<Longrightarrow> bl_inv cap t"
proof (erule bl_step.cases, goal_cases)
  case (1 i s)
  then show ?case by (auto intro: bl_senders_inv_same)
next
  case (2 i s)
  then show ?case by (auto intro: bl_senders_inv)
next
  case (3 i s)
  then show ?case by (auto intro!: bl_senders_inv_same dest: bl_inv_cap)
next
  case (4 i s)
  then show ?case by (auto intro: bl_acquire_inv)
next
  case (5 i s)
  then show ?case by (auto intro!: bl_senders_inv_same)
next
  case (6 i s)
  then show ?case by (auto intro!: bl_senders_inv dest: bl_inv_locked)
next
  case (7 i s)
  then show ?case using bl_counts [of i "bl_senders s" BIdle]
    by (auto simp: bl_inv_def)
next
  case (8 s)
  then show ?case by (simp add: bl_inv_def)
next
  case (9 s)
  then show ?case by (auto simp: bl_inv_def unat_pred word_le_nat_alt word_less_nat_alt)
next
  case (10 s)
  then show ?case by (simp add: bl_inv_def)
qed

lemma bl_init_inv: "bl_init cap n s \<Longrightarrow> bl_inv cap s"
  by (simp add: bl_init_def bl_inv_def count_where_def)

interpretation bl: inductive_invariant "bl_init cap n" bl_step "bl_inv cap" for cap n
  by unfold_locales (auto intro: bl_init_inv bl_step_inv)

section \<open>Properties\<close>

text \<open>
  A bounded fail-fast mailbox never holds more than its capacity, however the senders'
  compare-and-swap loops, their sends, the receiver and its termination interleave; the
  counter is exact, so whenever the receiver or a rollback decrements it, it is positive and
  does not wrap.
\<close>

lemma fail_fast_capacity:
  assumes "reach (ff_init cap) ff_step s"
  shows "length (ff_queue s) \<le> unat cap \<and>
    unat (ff_depth s) = length (ff_queue s) + count_where acquired (ff_senders s)
       + (if ff_popped s then 1 else 0) + ff_lost s \<and>
    (ff_popped s \<or> (\<exists>i < length (ff_senders s). acquired (ff_senders s ! i)) \<longrightarrow> 0 < ff_depth s)"
proof -
  from assms have inv: "ff_inv cap s" by (rule ff.reach_invar)
  then have "length (ff_queue s) \<le> unat (ff_depth s)" "unat (ff_depth s) \<le> unat cap"
    by (auto simp: ff_inv_def word_le_nat_alt)
  moreover have "0 < unat (ff_depth s)"
    if "ff_popped s \<or> (\<exists>i < length (ff_senders s). acquired (ff_senders s ! i))"
    using that inv count_where_pos [of _ "ff_senders s" acquired]
    by (fastforce simp: ff_inv_def)
  ultimately show ?thesis using inv by (auto simp: ff_inv_def word_less_nat_alt)
qed

text \<open>
  A blocking mailbox never holds more than its capacity either: the counter is read and
  incremented under the mutex, and the unlocked decrement only makes room.
\<close>

lemma blocking_capacity:
  assumes "reach (bl_init cap n) bl_step s"
  shows "bl_queued s \<le> unat cap \<and> bl_depth s \<le> cap \<and>
    (bl_receiver s = RPopped \<longrightarrow> 0 < bl_depth s)"
proof -
  from assms have "bl_inv cap s" by (rule bl.reach_invar)
  then show ?thesis by (auto simp: bl_inv_def word_le_nat_alt word_less_nat_alt)
qed



text \<open>
  C37. A blocking sender can sleep forever beside an empty mailbox: because \<open>notify_all\<close> is
  called without the mutex, it can fall between the sender's check of the counter and its
  wait. In the reachable state below the mailbox is empty, the sender waits, and no thread
  can take a step.
\<close>

theorem blocking_lost_wakeup:
  "\<exists>s. reach (bl_init 1 1) bl_step s \<and> bl_senders s = [BWaiting] \<and> bl_queued s = 0 \<and>
     bl_depth s < bl_cap s \<and> (\<forall>t. \<not> bl_step s t)"
proof -
  have "\<not> bl_step lost_state t" for t by (simp add: bl_one)
  with reach_lost show ?thesis by (intro exI [of _ lost_state]) simp
qed

end
