(* ===== verification/Links.thy ===== *)
theory Links
  imports Mailbox
begin

text \<open>
  The shared state of running actors (\<open>concurrency/src/child_handle.rs\<close>) and the links
  between them (\<open>concurrency/src/link.rs\<close>). A \<open>ChildHandle\<close> is a bundle of reference-counted
  cells, so a handle is modelled by the actor's id and the cells by a \<open>cell\<close> record per id;
  \<open>cells\<close> is the heap of them. A \<open>LinkEntry\<close> holds the peer's id, the function that signals
  the peer and the peer's link table: the last two are functions of the peer's cell, so an
  entry is the peer's id.
\<close>

section \<open>Cells and handles\<close>

record 'm cell =
  cl_trap_exit :: bool
  cl_links :: "actor_id list"
  cl_linked_reason :: "exit_reason option"
  cl_requested_exit :: "exit_reason option"
  cl_skip_stopped :: bool
  cl_cancelled :: bool
  cl_mailbox :: "'m mailbox"
  cl_limits :: mailbox_limits
  cl_completion :: "exit_reason option"

type_synonym 'm cells = "actor_id \<Rightarrow> 'm cell"

definition new_cell :: "'m cell" where
  "new_cell = \<lparr>cl_trap_exit = False, cl_links = [], cl_linked_reason = None,
     cl_requested_exit = None, cl_skip_stopped = False, cl_cancelled = False,
     cl_mailbox = tasks_channel, cl_limits = limits_new unbounded Tasks, cl_completion = None\<rparr>"

definition modify :: "actor_id \<Rightarrow> ('m cell \<Rightarrow> 'm cell) \<Rightarrow> 'm cells \<Rightarrow> 'm cells" where
  "modify a f w = w(a := f (w a))"

definition cancel :: "'m cell \<Rightarrow> 'm cell" where
  "cancel c = c\<lparr>cl_cancelled := True\<rparr>"

definition send_exit :: "exit_msg \<Rightarrow> 'm cell \<Rightarrow> 'm cell" where
  "send_exit e c =
     c\<lparr>cl_mailbox := (cl_mailbox c)\<lparr>supervision :=
        snd (send_supervision_tasks (supervision (cl_mailbox c)) e)\<rparr>\<rparr>"

definition handle_stop :: "actor_id \<Rightarrow> 'm cells \<Rightarrow> 'm cells" where
  "handle_stop a = modify a cancel"

definition handle_shutdown :: "actor_id \<Rightarrow> 'm cells \<Rightarrow> 'm cells" where
  "handle_shutdown a = modify a (\<lambda>c. cancel (c\<lparr>cl_requested_exit := Some Shutdown\<rparr>))"

definition handle_kill :: "actor_id \<Rightarrow> 'm cells \<Rightarrow> 'm cells" where
  "handle_kill a =
     modify a (\<lambda>c. cancel (c\<lparr>cl_requested_exit := Some Kill, cl_skip_stopped := True\<rparr>))"

definition exit_reason_of :: "actor_id \<Rightarrow> 'm cells \<Rightarrow> exit_reason option" where
  "exit_reason_of a w = cl_completion (w a)"

definition is_alive :: "actor_id \<Rightarrow> 'm cells \<Rightarrow> bool" where
  "is_alive a w = (exit_reason_of a w = None)"

definition set_trap_exit :: "actor_id \<Rightarrow> bool \<Rightarrow> 'm cells \<Rightarrow> 'm cells" where
  "set_trap_exit a b = modify a (\<lambda>c. c\<lparr>cl_trap_exit := b\<rparr>)"

section \<open>Exit signals\<close>

definition record_linked_reason :: "exit_reason \<Rightarrow> 'm cell \<Rightarrow> 'm cell" where
  "record_linked_reason r c =
     (if cl_linked_reason c = None then c\<lparr>cl_linked_reason := Some r\<rparr> else c)"

text \<open>The function \<open>make_signal\<close> builds from the peer's cells, applied to sender and reason.\<close>

definition make_signal :: "node_id \<Rightarrow> actor_id \<Rightarrow> exit_reason \<Rightarrow> 'm cell \<Rightarrow> 'm cell" where
  "make_signal here sender r c =
     (if r = Kill then cancel (record_linked_reason Kill c)
      else if r = Normal \<and> \<not> cl_trap_exit c then c
      else if cl_trap_exit c
           then send_exit \<lparr>exit_from = address_local here sender, exit_cause = r\<rparr> c
           else cancel (record_linked_reason r c))"

section \<open>Link tables\<close>

definition push_link :: "actor_id \<Rightarrow> 'm cell \<Rightarrow> 'm cell" where
  "push_link peer c =
     (if \<exists>e \<in> set (cl_links c). e = peer then c else c\<lparr>cl_links := cl_links c @ [peer]\<rparr>)"

definition drop_link :: "actor_id \<Rightarrow> 'm cell \<Rightarrow> 'm cell" where
  "drop_link peer c = c\<lparr>cl_links := filter (\<lambda>e. e \<noteq> peer) (cl_links c)\<rparr>"

definition register_link :: "actor_id \<Rightarrow> actor_id \<Rightarrow> 'm cells \<Rightarrow> 'm cells" where
  "register_link own peer w = modify peer (push_link own) (modify own (push_link peer) w)"

definition unregister_link :: "actor_id \<Rightarrow> actor_id \<Rightarrow> 'm cells \<Rightarrow> 'm cells" where
  "unregister_link own peer w = modify peer (drop_link own) (modify own (drop_link peer) w)"

definition take_self_from_peer_table ::
  "actor_id \<Rightarrow> actor_id \<Rightarrow> 'm cells \<Rightarrow> bool \<times> 'm cells" where
  "take_self_from_peer_table own peer w =
     (let w' = modify peer (drop_link own) w
      in (length (cl_links (w peer)) \<noteq> length (cl_links (w' peer)), w'))"

definition link_handles :: "node_id \<Rightarrow> actor_id \<Rightarrow> actor_id \<Rightarrow> 'm cells \<Rightarrow> 'm cells" where
  "link_handles here owner target w =
     (let w1 = register_link owner target w
      in case exit_reason_of target w1 of
           None \<Rightarrow> w1
         | Some reason \<Rightarrow>
             (case take_self_from_peer_table owner target w1 of
                (taken, w2) \<Rightarrow>
                  if taken then modify owner (make_signal here target reason) w2 else w2))"

text \<open>One round of the loop of \<open>propagate_exit\<close>, for one drained entry.\<close>

definition notify_peer ::
  "node_id \<Rightarrow> actor_id \<Rightarrow> exit_reason \<Rightarrow> actor_id \<Rightarrow> 'm cells \<Rightarrow> 'm cells" where
  "notify_peer here own r peer w =
     modify peer (make_signal here own r) (modify peer (drop_link own) w)"

definition propagate_exit :: "node_id \<Rightarrow> actor_id \<Rightarrow> exit_reason \<Rightarrow> 'm cells \<Rightarrow> 'm cells" where
  "propagate_exit here own r w =
     fold (notify_peer here own r) (cl_links (w own)) (modify own (\<lambda>c. c\<lparr>cl_links := []\<rparr>) w)"

text \<open>
  What the spawned future does when \<open>run_actor\<close> has returned: it propagates the exit, then
  publishes the reason in the completion channel.
\<close>

definition set_completion :: "actor_id \<Rightarrow> exit_reason \<Rightarrow> 'm cells \<Rightarrow> 'm cells" where
  "set_completion a r = modify a (\<lambda>c. c\<lparr>cl_completion := Some r\<rparr>)"

definition actor_exit :: "node_id \<Rightarrow> actor_id \<Rightarrow> exit_reason \<Rightarrow> 'm cells \<Rightarrow> 'm cells" where
  "actor_exit here own r w = set_completion own r (propagate_exit here own r w)"

section \<open>Basic facts\<close>

lemma modify_apply [simp]: "modify a f w b = (if b = a then f (w a) else w b)"
  by (simp add: modify_def)

lemma new_cell_simps [simp]:
  "cl_trap_exit new_cell = False" "cl_links new_cell = []" "cl_linked_reason new_cell = None"
  "cl_requested_exit new_cell = None" "cl_skip_stopped new_cell = False"
  "cl_cancelled new_cell = False" "cl_mailbox new_cell = tasks_channel" "cl_completion new_cell = None"
  by (simp_all add: new_cell_def)

lemma cell_of_signal [simp]:
  "cl_links (make_signal here s r c) = cl_links c"
  "cl_trap_exit (make_signal here s r c) = cl_trap_exit c"
  "cl_completion (make_signal here s r c) = cl_completion c"
  "cl_requested_exit (make_signal here s r c) = cl_requested_exit c"
  by (simp_all add: make_signal_def cancel_def record_linked_reason_def send_exit_def)

lemma cell_of_drop_link [simp]:
  "cl_links (drop_link p c) = filter (\<lambda>e. e \<noteq> p) (cl_links c)"
  "cl_trap_exit (drop_link p c) = cl_trap_exit c"
  "cl_completion (drop_link p c) = cl_completion c"
  "cl_requested_exit (drop_link p c) = cl_requested_exit c"
  "cl_linked_reason (drop_link p c) = cl_linked_reason c"
  "cl_cancelled (drop_link p c) = cl_cancelled c"
  by (simp_all add: drop_link_def)

lemma cell_of_push_link [simp]:
  "set (cl_links (push_link p c)) = insert p (set (cl_links c))"
  "distinct (cl_links (push_link p c)) = distinct (cl_links c)"
  "cl_completion (push_link p c) = cl_completion c"
  by (auto simp: push_link_def)

lemma push_link_idem: "p \<in> set (cl_links c) \<Longrightarrow> push_link p c = c"
  by (simp add: push_link_def)

lemma drop_link_absent: "p \<notin> set (cl_links c) \<Longrightarrow> drop_link p c = c"
proof -
  assume "p \<notin> set (cl_links c)"
  then have "filter (\<lambda>e. e \<noteq> p) (cl_links c) = cl_links c" by (auto intro: filter_True)
  then show ?thesis by (simp add: drop_link_def)
qed

text \<open>
  Propagation acts on each peer once, in isolation: the fold over a table without duplicates
  is a pointwise update.
\<close>

lemma fold_notify_peer:
  "distinct ps \<Longrightarrow>
   fold (notify_peer here own r) ps w b =
     (if b \<in> set ps then make_signal here own r (drop_link own (w b)) else w b)"
  by (induction ps arbitrary: w) (auto simp: notify_peer_def)

lemma propagate_exit_apply:
  assumes "distinct (cl_links (w own))" and "own \<notin> set (cl_links (w own))"
  shows "propagate_exit here own r w b =
    (if b = own then (w own)\<lparr>cl_links := []\<rparr>
     else if b \<in> set (cl_links (w own)) then make_signal here own r (drop_link own (w b))
     else w b)"
  using assms by (simp add: propagate_exit_def fold_notify_peer)

lemma actor_exit_apply:
  assumes "distinct (cl_links (w own))" and "own \<notin> set (cl_links (w own))"
  shows "actor_exit here own r w b =
    (if b = own then (w own)\<lparr>cl_links := [], cl_completion := Some r\<rparr>
     else if b \<in> set (cl_links (w own)) then make_signal here own r (drop_link own (w b))
     else w b)"
  using propagate_exit_apply [where w = w and own = own and here = here and r = r, OF assms]
  by (simp add: actor_exit_def set_completion_def)

section \<open>The link invariant\<close>

text \<open>
  No table has duplicates, no actor is linked to itself, a dead actor's table is empty, and a
  link towards a live actor is known to that actor. (A link towards a dead actor may be left
  behind in the table of the actor that asked for it.)
\<close>

definition link_inv :: "'m cells \<Rightarrow> bool" where
  "link_inv w \<longleftrightarrow>
     (\<forall>a. distinct (cl_links (w a)) \<and> a \<notin> set (cl_links (w a))) \<and>
     (\<forall>a. \<not> is_alive a w \<longrightarrow> cl_links (w a) = []) \<and>
     (\<forall>a b. b \<in> set (cl_links (w a)) \<longrightarrow> is_alive b w \<longrightarrow> a \<in> set (cl_links (w b)))"

lemma link_invD:
  assumes "link_inv w"
  shows "distinct (cl_links (w a))" "a \<notin> set (cl_links (w a))"
    "\<not> is_alive a w \<Longrightarrow> cl_links (w a) = []"
    "b \<in> set (cl_links (w a)) \<Longrightarrow> is_alive b w \<Longrightarrow> a \<in> set (cl_links (w b))"
  using assms by (auto simp: link_inv_def)

lemmas alive_simps = is_alive_def exit_reason_of_def

lemma link_inv_fresh: "link_inv (\<lambda>_. new_cell)"
  by (simp add: link_inv_def alive_simps)

lemma completion_register [simp]: "cl_completion (register_link a b w c) = cl_completion (w c)"
  by (simp add: register_link_def)

lemma link_handles_alive:
  "is_alive target w \<Longrightarrow> link_handles here owner target w = register_link owner target w"
  by (simp add: link_handles_def alive_simps)

lemma link_handles_dead:
  assumes "link_inv w" "owner \<noteq> target" "cl_completion (w target) = Some r"
  shows "link_handles here owner target w =
    modify owner (\<lambda>c. make_signal here target r (push_link target c)) w"
proof -
  have empty: "cl_links (w target) = []"
    using assms by (intro link_invD(3)) (auto simp: alive_simps)
  then have "drop_link owner (push_link owner (w target)) = w target"
    by (simp add: push_link_def drop_link_def)
  with assms empty show ?thesis
    by (auto simp: link_handles_def register_link_def take_self_from_peer_table_def
        exit_reason_of_def push_link_def)
qed

lemma link_inv_link [inv_rules]:
  assumes inv: "link_inv w" and ne: "owner \<noteq> target" and alive: "is_alive owner w"
  shows "link_inv (link_handles here owner target w)"
proof (cases "is_alive target w")
  case True
  with inv ne alive show ?thesis
    by (auto simp: link_handles_alive link_inv_def register_link_def alive_simps)
next
  case False
  then obtain r where r: "cl_completion (w target) = Some r" by (auto simp: alive_simps)
  with inv ne alive show ?thesis
    by (auto simp: link_handles_dead [OF inv ne r] link_inv_def alive_simps)
qed

lemma link_inv_unlink [inv_rules]: "link_inv w \<Longrightarrow> link_inv (unregister_link a b w)"
  by (auto simp: link_inv_def unregister_link_def alive_simps)

lemma link_inv_exit [inv_rules]:
  assumes inv: "link_inv w"
  shows "link_inv (actor_exit here a r w)"
proof -
  note ap = actor_exit_apply [where w = w and own = a and here = here and r = r,
    OF link_invD(1,2) [OF inv]]
  have alive: "is_alive b (actor_exit here a r w) \<longleftrightarrow> b \<noteq> a \<and> is_alive b w" for b
    by (simp add: alive_simps ap)
  show ?thesis
    using link_invD [OF inv] unfolding link_inv_def alive by (simp add: ap)
qed

lemma send_exit_open:
  "rx_alive (supervision (cl_mailbox c)) \<Longrightarrow>
   queue (supervision (cl_mailbox (send_exit e c))) = queue (supervision (cl_mailbox c)) @ [e]"
  by (simp add: send_exit_def send_supervision_tasks_def send_control_def chan_send_def)

lemma signal_kill:
  "cl_cancelled (make_signal here s Kill c)"
  "cl_linked_reason (make_signal here s Kill c) \<noteq> None"
  by (auto simp: make_signal_def cancel_def record_linked_reason_def)

lemma signal_trapping:
  assumes "cl_trap_exit c" "r \<noteq> Kill"
  shows "cl_cancelled (make_signal here s r c) = cl_cancelled c"
    "rx_alive (supervision (cl_mailbox c)) \<Longrightarrow>
     queue (supervision (cl_mailbox (make_signal here s r c)))
       = queue (supervision (cl_mailbox c)) @ [\<lparr>exit_from = address_local here s, exit_cause = r\<rparr>]"
  using assms by (auto simp: make_signal_def send_exit_def send_supervision_tasks_def
      send_control_def chan_send_def)

lemma signal_plain:
  assumes "\<not> cl_trap_exit c" "r \<noteq> Normal"
  shows "cl_cancelled (make_signal here s r c)"
    "cl_linked_reason (make_signal here s r c) =
       (if cl_linked_reason c = None then Some r else cl_linked_reason c)"
  using assms by (auto simp: make_signal_def cancel_def record_linked_reason_def)

lemma signal_normal: "\<not> cl_trap_exit c \<Longrightarrow> make_signal here s Normal c = c"
  by (simp add: make_signal_def)

section \<open>Properties\<close>

text \<open>
  C4. When an actor exits, every linked peer is signalled exactly once and nobody else is
  touched: a kill cancels the peer whether it traps exits or not; otherwise a trapping peer
  stays up and finds one \<open>Exit\<close> message at the end of its supervision queue, a peer that does
  not trap ignores a normal exit and is cancelled, with the first reason recorded, by any
  other. Afterwards no table mentions the dead actor and the link invariant holds.
\<close>

theorem exit_propagation:
  assumes inv: "link_inv w" and alive: "is_alive a w" and w': "w' = actor_exit here a r w"
  shows "link_inv w' \<and> exit_reason_of a w' = Some r \<and> (\<forall>b. a \<notin> set (cl_links (w' b))) \<and>
    (\<forall>b. b \<noteq> a \<and> b \<notin> set (cl_links (w a)) \<longrightarrow> w' b = w b) \<and>
    (\<forall>b \<in> set (cl_links (w a)).
       (r = Kill \<longrightarrow> cl_cancelled (w' b) \<and> cl_linked_reason (w' b) \<noteq> None) \<and>
       (r \<noteq> Kill \<and> cl_trap_exit (w b) \<longrightarrow> cl_cancelled (w' b) = cl_cancelled (w b) \<and>
          (rx_alive (supervision (cl_mailbox (w b))) \<longrightarrow>
             queue (supervision (cl_mailbox (w' b))) = queue (supervision (cl_mailbox (w b)))
               @ [\<lparr>exit_from = address_local here a, exit_cause = r\<rparr>])) \<and>
       (r = Normal \<and> \<not> cl_trap_exit (w b) \<longrightarrow> w' b = drop_link a (w b)) \<and>
       (r \<noteq> Normal \<and> \<not> cl_trap_exit (w b) \<longrightarrow> cl_cancelled (w' b) \<and>
          cl_linked_reason (w' b) =
            (if cl_linked_reason (w b) = None then Some r else cl_linked_reason (w b))))"
proof -
  note ap = actor_exit_apply [where w = w and own = a and here = here and r = r,
      OF link_invD(1,2) [OF inv], folded w']
  have none: "a \<notin> set (cl_links (w' b))" for b
    using link_invD(4) [OF inv _ alive] by (auto simp: ap)
  have peer: "w' b = make_signal here a r (drop_link a (w b))" if "b \<in> set (cl_links (w a))" for b
    using that link_invD(2) [OF inv, of a] by (auto simp: ap)
  have "link_inv w'" unfolding w' using inv by (rule link_inv_exit)
  moreover have "exit_reason_of a w' = Some r" by (simp add: exit_reason_of_def ap)
  moreover have "\<forall>b. b \<noteq> a \<and> b \<notin> set (cl_links (w a)) \<longrightarrow> w' b = w b" by (simp add: ap)
  moreover have "supervision (cl_mailbox (drop_link p c)) = supervision (cl_mailbox c)"
    for p and c :: "'a cell" by (simp add: drop_link_def)
  ultimately show ?thesis
    using none by (simp add: peer signal_kill signal_trapping signal_plain signal_normal)
qed

definition demo_cells :: "nat cells" where
  "demo_cells = (\<lambda>a. if a = ActorId 1 then new_cell\<lparr>cl_links := [ActorId 2]\<rparr>
     else if a = ActorId 2 then new_cell\<lparr>cl_links := [ActorId 1], cl_trap_exit := True\<rparr>
     else new_cell)"

lemma demo_cells_inv: "link_inv demo_cells"
  by (simp add: link_inv_def demo_cells_def alive_simps)

theorem exit_propagation_witness:
  "link_inv demo_cells \<and> is_alive (ActorId 1) demo_cells \<and>
   queue (supervision (cl_mailbox (actor_exit (NodeId ''n'') (ActorId 1) Shutdown demo_cells (ActorId 2))))
     = [\<lparr>exit_from = address_local (NodeId ''n'') (ActorId 1), exit_cause = Shutdown\<rparr>]"
proof -
  have alive: "is_alive (ActorId 1) demo_cells"
    by (simp add: alive_simps demo_cells_def)
  show ?thesis
    using demo_cells_inv alive
      exit_propagation [OF demo_cells_inv alive refl, of "NodeId ''n''" Shutdown]
    by (simp add: demo_cells_def tasks_channel_def chan_new_def)
qed

text \<open>
  Linking before the target exits and linking after it has published its exit reason
  leave the owner with the same signal: its cells agree but for the stale link entry.
\<close>

lemma link_exit_order:
  assumes inv: "link_inv w" and ne: "owner \<noteq> target"
    and alive: "is_alive owner w" "is_alive target w"
    and unlinked: "target \<notin> set (cl_links (w owner))"
  shows "drop_link target (actor_exit here target r (link_handles here owner target w) owner)
    = drop_link target (link_handles here owner target (actor_exit here target r w) owner)"
proof -
  let ?w1 = "link_handles here owner target w" and ?w2 = "actor_exit here target r w"
  have inv1: "link_inv ?w1" using inv ne alive(1) by (rule link_inv_link)
  have inv2: "link_inv ?w2" using inv by (rule link_inv_exit)
  have o: "owner \<notin> set (cl_links (w target))"
    using unlinked link_invD(4) [OF inv _ alive(1)] by blast
  have peer: "owner \<in> set (cl_links (?w1 target))"
    using alive(2) by (simp add: link_handles_alive register_link_def)
  have own1: "?w1 owner = push_link target (w owner)"
    using alive(2) ne by (simp add: link_handles_alive register_link_def)
  have dead: "cl_completion (?w2 target) = Some r" and same: "?w2 owner = w owner"
    using actor_exit_apply [where w = w and own = target and here = here and r = r,
        OF link_invD(1,2) [OF inv]] ne o by auto
  have "actor_exit here target r ?w1 owner
      = make_signal here target r (drop_link target (push_link target (w owner)))"
    using actor_exit_apply [where w = ?w1 and own = target and here = here and r = r,
        OF link_invD(1,2) [OF inv1]] ne peer by (simp add: own1)
  moreover have "link_handles here owner target ?w2 owner
      = make_signal here target r (push_link target (w owner))"
    using link_handles_dead [OF inv2 ne dead, of here] same by simp
  ultimately show ?thesis
    by (auto simp: make_signal_def drop_link_def push_link_def cancel_def record_linked_reason_def
        send_exit_def)
qed

text \<open>
  C38. Between the draining of its link table and the publication of its exit reason an actor
  can still be linked to, and then the exit signal, even a kill, never reaches the owner: the
  owner keeps a link to a dead actor and nothing else changes in its cell.
\<close>

theorem link_in_exit_window_loses_signal:
  assumes inv: "link_inv w" and ne: "owner \<noteq> target"
    and alive: "is_alive owner w" "is_alive target w"
    and unlinked: "target \<notin> set (cl_links (w owner))"
  shows "set_completion target r (link_handles here owner target (propagate_exit here target r w))
      owner = push_link target (w owner)"
proof -
  have o: "owner \<notin> set (cl_links (w target))"
    using unlinked link_invD(4) [OF inv _ alive(1)] by blast
  note ap = propagate_exit_apply [where w = w and own = target and here = here and r = r,
      OF link_invD(1,2) [OF inv]]
  have "is_alive target (propagate_exit here target r w)"
    using alive(2) by (simp add: alive_simps ap)
  then show ?thesis
    using ne o by (simp add: link_handles_alive register_link_def set_completion_def ap)
qed

theorem link_in_exit_window_loses_signal_witness:
  "let o1 = ActorId 3; t = ActorId 1; h = NodeId ''n''
   in \<not> cl_cancelled (set_completion t Kill (link_handles h o1 t (propagate_exit h t Kill demo_cells)) o1)"
proof -
  have "ActorId 3 \<noteq> ActorId 1" "is_alive (ActorId 3) demo_cells" "is_alive (ActorId 1) demo_cells"
    "ActorId 1 \<notin> set (cl_links (demo_cells (ActorId 3)))"
    by (simp_all add: alive_simps demo_cells_def)
  from link_in_exit_window_loses_signal [OF demo_cells_inv this]
  show ?thesis by (simp add: Let_def demo_cells_def push_link_def)
qed

end
