(* ===== verification/Link_Cascade.thy ===== *)
theory Link_Cascade
  imports Links
begin

text \<open>
  What happens after the first exit: an actor that a link signal cancels leaves its loop,
  resolves its own exit reason and propagates it in turn. The step relation below lets the
  cancelled actors exit in any order; the property is that a failure reaches every actor
  that is connected to it through actors that do not trap exits, and that the cascade ends.
\<close>

section \<open>The end of an actor's run\<close>

definition drop_rx :: "'a chan \<Rightarrow> 'a chan" where
  "drop_rx c = c\<lparr>queue := [], rx_alive := False\<rparr>"

definition drop_receiver :: "'m mailbox \<Rightarrow> 'm mailbox" where
  "drop_receiver m = m\<lparr>user := drop_rx (user m), signal := drop_rx (signal m),
     stop := drop_rx (stop m), supervision := drop_rx (supervision m)\<rparr>"

text \<open>
  The tail of \<open>run_actor\<close> after the message loop: the token is cancelled, the final reason
  is resolved from the shared slots, and the mailbox receiver is dropped.
\<close>

definition run_end :: "exit_reason \<Rightarrow> 'm cell \<Rightarrow> exit_reason \<times> 'm cell" where
  "run_end r0 c =
     (case resolve_exit_reason r0 (cl_requested_exit c) (cl_linked_reason c) of
        (r, req, lnk) \<Rightarrow>
          (r, cancel (c\<lparr>cl_requested_exit := req, cl_linked_reason := lnk,
                        cl_mailbox := drop_receiver (cl_mailbox c)\<rparr>)))"

definition finish_actor :: "node_id \<Rightarrow> actor_id \<Rightarrow> exit_reason \<Rightarrow> 'm cells \<Rightarrow> 'm cells" where
  "finish_actor here a r0 w =
     (case run_end r0 (w a) of (r, c) \<Rightarrow> actor_exit here a r (w(a := c)))"

inductive cascade :: "node_id \<Rightarrow> 'm cells \<Rightarrow> 'm cells \<Rightarrow> bool" for here where
  cascade_step: "is_alive a w \<Longrightarrow> cl_cancelled (w a) \<Longrightarrow> cascade here w (finish_actor here a r0 w)"

lemma cascadeE:
  assumes "cascade here w w'"
  obtains a r0 where "is_alive a w" "cl_cancelled (w a)" "w' = finish_actor here a r0 w"
  using assms by (auto elim: cascade.cases)

lemma run_end_cell [simp]:
  "cl_links (snd (run_end r0 c)) = cl_links c"
  "cl_trap_exit (snd (run_end r0 c)) = cl_trap_exit c"
  "cl_completion (snd (run_end r0 c)) = cl_completion c"
  by (simp_all add: run_end_def cancel_def split: prod.splits)

lemma run_end_reason: "fst (run_end r0 c) = resolved r0 (cl_requested_exit c) (cl_linked_reason c)"
  by (simp add: run_end_def split: prod.splits)

lemma run_end_slots:
  "cl_requested_exit (snd (run_end r0 c)) \<in> {None, cl_requested_exit c}"
  "cl_linked_reason (snd (run_end r0 c)) \<in> {None, cl_linked_reason c}"
  by (auto simp: run_end_def cancel_def resolve_exit_reason_def split: option.splits)

lemma finish_actor_apply:
  assumes inv: "link_inv w"
  shows "finish_actor here a r0 w b =
    (if b = a then (snd (run_end r0 (w a)))\<lparr>cl_links := [], cl_completion := Some (fst (run_end r0 (w a)))\<rparr>
     else if b \<in> set (cl_links (w a)) then make_signal here a (fst (run_end r0 (w a))) (drop_link a (w b))
     else w b)"
proof -
  obtain r c where rc: "run_end r0 (w a) = (r, c)" by fastforce
  then have c: "cl_links c = cl_links (w a)" using run_end_cell(1) [of r0 "w a"] by simp
  with link_invD(1,2) [OF inv, of a] show ?thesis
    using actor_exit_apply [where w = "w(a := c)" and own = a and here = here and r = r and b = b]
    by (simp add: finish_actor_def rc)
qed

lemma link_inv_finish [inv_rules]:
  assumes inv: "link_inv w"
  shows "link_inv (finish_actor here a r0 w)"
proof -
  obtain r c where rc: "run_end r0 (w a) = (r, c)" by fastforce
  have "link_inv (w(a := c))"
    using inv run_end_cell [of r0 "w a"] by (auto simp: rc link_inv_def alive_simps)
  then show ?thesis by (simp add: finish_actor_def rc link_inv_exit)
qed

section \<open>How far a failure has spread\<close>

text \<open>No slot holds a normal reason: the code only ever stores shutdown, kill and failures there.\<close>

definition slots_inv :: "'m cells \<Rightarrow> bool" where
  "slots_inv w \<longleftrightarrow> (\<forall>a. cl_requested_exit (w a) \<noteq> Some Normal \<and> cl_linked_reason (w a) \<noteq> Some Normal)"

lemma signal_slots:
  "r \<noteq> Normal \<Longrightarrow> cl_linked_reason c \<noteq> Some Normal \<Longrightarrow>
   cl_linked_reason (make_signal here s r c) \<noteq> Some Normal"
  by (auto simp: make_signal_def cancel_def record_linked_reason_def send_exit_def)

lemma signal_cancelled_reason:
  "cl_cancelled (make_signal here s r c) \<Longrightarrow>
   (cl_cancelled c \<longrightarrow> cl_linked_reason c \<noteq> None) \<Longrightarrow>
   cl_linked_reason (make_signal here s r c) \<noteq> None"
  by (auto simp: make_signal_def cancel_def record_linked_reason_def send_exit_def split: if_splits)

lemma signal_keeps_cancelled: "cl_cancelled c \<Longrightarrow> cl_cancelled (make_signal here s r c)"
  by (simp add: make_signal_def cancel_def record_linked_reason_def send_exit_def)

text \<open>
  \<open>spread w0 w\<close>: the state \<open>w\<close> came from \<open>w0\<close> by exits with a reason other than normal, and
  the live neighbours of the actors that died, unless they trap exits, are on their way out.
\<close>

definition spread :: "'m cells \<Rightarrow> 'm cells \<Rightarrow> bool" where
  "spread w0 w \<longleftrightarrow> link_inv w \<and> slots_inv w \<and>
     (\<forall>b. cl_trap_exit (w b) = cl_trap_exit (w0 b)) \<and>
     (\<forall>b. is_alive b w \<longrightarrow> is_alive b w0) \<and>
     (\<forall>b. is_alive b w \<and> cl_cancelled (w b) \<longrightarrow> cl_linked_reason (w b) \<noteq> None) \<and>
     (\<forall>b. is_alive b w0 \<and> \<not> is_alive b w \<longrightarrow> cl_completion (w b) \<noteq> Some Normal) \<and>
     (\<forall>b c. is_alive b w \<and> is_alive c w \<and> c \<in> set (cl_links (w0 b)) \<longrightarrow> c \<in> set (cl_links (w b))) \<and>
     (\<forall>b c. is_alive b w0 \<and> \<not> is_alive b w \<and> c \<in> set (cl_links (w0 b)) \<and> is_alive c w \<and>
        \<not> cl_trap_exit (w0 c) \<longrightarrow> cl_cancelled (w c))"

lemma spreadD:
  assumes "spread w0 w"
  shows "link_inv w" "slots_inv w" "cl_trap_exit (w b) = cl_trap_exit (w0 b)"
    "is_alive b w \<Longrightarrow> is_alive b w0"
    "is_alive b w \<Longrightarrow> cl_cancelled (w b) \<Longrightarrow> cl_linked_reason (w b) \<noteq> None"
    "is_alive b w0 \<Longrightarrow> \<not> is_alive b w \<Longrightarrow> cl_completion (w b) \<noteq> Some Normal"
    "is_alive b w \<Longrightarrow> is_alive c w \<Longrightarrow> c \<in> set (cl_links (w0 b)) \<Longrightarrow> c \<in> set (cl_links (w b))"
    "is_alive b w0 \<Longrightarrow> \<not> is_alive b w \<Longrightarrow> c \<in> set (cl_links (w0 b)) \<Longrightarrow> is_alive c w \<Longrightarrow>
       \<not> cl_trap_exit (w0 c) \<Longrightarrow> cl_cancelled (w c)"
  using assms unfolding spread_def by blast+

lemma spread_finish:
  assumes sp: "spread w0 w" and alive: "is_alive a w"
    and reason: "fst (run_end r0 (w a)) \<noteq> Normal"
  shows "spread w0 (finish_actor here a r0 w)"
proof -
  let ?w = "finish_actor here a r0 w" and ?r = "fst (run_end r0 (w a))"
  note inv = spreadD(1) [OF sp]
  note ap = finish_actor_apply [OF inv, of here a r0]
  have live: "is_alive b ?w \<longleftrightarrow> b \<noteq> a \<and> is_alive b w" for b
    by (simp add: alive_simps ap)
  have 1: "slots_inv ?w"
    using spreadD(2) [OF sp] run_end_slots [of r0 "w a"] reason
    by (auto simp: slots_inv_def ap signal_slots)
  have 2: "cl_trap_exit (?w b) = cl_trap_exit (w0 b)" for b
    using spreadD(3) [OF sp] by (simp add: ap)
  have 3: "cl_linked_reason (?w b) \<noteq> None" if "is_alive b ?w" "cl_cancelled (?w b)" for b
  proof (cases "b \<in> set (cl_links (w a))")
    case True
    with that show ?thesis using spreadD(5) [OF sp, of b]
      signal_cancelled_reason [of here a ?r "drop_link a (w b)"] by (simp add: live ap)
  next
    case False
    with that show ?thesis using spreadD(5) [OF sp, of b] by (simp add: live ap)
  qed
  have 4: "cl_completion (?w b) \<noteq> Some Normal" if "is_alive b w0" "\<not> is_alive b ?w" for b
    using that spreadD(6) [OF sp, of b] reason by (auto simp: live ap)
  have 5: "c \<in> set (cl_links (?w b))"
    if "is_alive b ?w" "is_alive c ?w" "c \<in> set (cl_links (w0 b))" for b c
    using that spreadD(7) [OF sp, of b c] by (auto simp: live ap)
  have 6: "cl_cancelled (?w c)"
    if "is_alive b w0" "\<not> is_alive b ?w" "c \<in> set (cl_links (w0 b))" "is_alive c ?w"
      "\<not> cl_trap_exit (w0 c)" for b c
  proof (cases "b = a")
    case True
    with that alive have "c \<in> set (cl_links (w a))" "c \<noteq> a"
      using spreadD(7) [OF sp, of a c] by (auto simp: live)
    with that(5) reason spreadD(3) [OF sp, of c] show ?thesis
      by (simp add: ap signal_plain(1))
  next
    case False
    with that have "cl_cancelled (w c)" "c \<noteq> a"
      using spreadD(8) [OF sp, of b c] by (auto simp: live)
    then show ?thesis by (simp add: ap signal_keeps_cancelled)
  qed
  have 7: "is_alive b w0" if "is_alive b ?w" for b
    using that spreadD(4) [OF sp, of b] by (simp add: live)
  from link_inv_finish [OF inv] 1 2 3 4 5 6 7 show ?thesis
    unfolding spread_def by blast
qed

lemma spread_step:
  assumes sp: "spread w0 w" and step: "cascade here w w'"
  shows "spread w0 w'"
proof -
  from step obtain a r0 where 1: "is_alive a w" "cl_cancelled (w a)" "w' = finish_actor here a r0 w"
    by (rule cascadeE)
  have "cl_linked_reason (w a) \<noteq> None" using spreadD(5) [OF sp 1(1,2)] .
  then have "fst (run_end r0 (w a)) \<noteq> Normal"
    using spreadD(2) [OF sp]
    by (auto simp: run_end_reason resolve_exit_reason_def slots_inv_def split: option.splits)
  then show ?thesis using spread_finish [OF sp 1(1)] 1(3) by simp
qed

lemma spread_steps: "(cascade here)\<^sup>*\<^sup>* w w' \<Longrightarrow> spread w0 w \<Longrightarrow> spread w0 w'"
  by (induction rule: rtranclp_induct) (auto intro: spread_step)

lemma spread_start:
  assumes "link_inv w0" "slots_inv w0" "\<forall>b. is_alive b w0 \<longrightarrow> \<not> cl_cancelled (w0 b)"
  shows "spread w0 w0"
  using assms unfolding spread_def by blast

text \<open>The actors a failure can reach: linked, alive, and not trapping exits.\<close>

definition exposed :: "'m cells \<Rightarrow> actor_id \<Rightarrow> actor_id \<Rightarrow> bool" where
  "exposed w b c \<longleftrightarrow> c \<in> set (cl_links (w b)) \<and> is_alive c w \<and> \<not> cl_trap_exit (w c)"

lemma spread_quiet:
  assumes sp: "spread w0 w" and quiet: "\<nexists>w'. cascade here w w'"
    and path: "(exposed w0)\<^sup>*\<^sup>* a b" and dead: "is_alive a w0" "\<not> is_alive a w"
  shows "is_alive b w0 \<and> \<not> is_alive b w"
  using path
proof (induction rule: rtranclp_induct)
  case base
  with dead show ?case by simp
next
  case (step b c)
  have "\<not> is_alive c w"
  proof
    assume "is_alive c w"
    with step spreadD(8) [OF sp, of b c] have "cl_cancelled (w c)" by (auto simp: exposed_def)
    with \<open>is_alive c w\<close> quiet show False by (metis cascade_step)
  qed
  with step show ?case by (simp add: exposed_def)
qed

lemma cascade_alive:
  assumes "cascade here w w'" and "link_inv w" and "finite {a. is_alive a w}"
  shows "finite {a. is_alive a w'} \<and> Suc (card {a. is_alive a w'}) = card {a. is_alive a w}
    \<and> link_inv w'"
proof -
  from assms(1) obtain a r0 where 1: "is_alive a w" "w' = finish_actor here a r0 w"
    by (rule cascadeE)
  have "{b. is_alive b w'} = {b. is_alive b w} - {a}"
    unfolding 1(2) by (auto simp: alive_simps finish_actor_apply [OF assms(2)])
  with 1 assms(3) show ?thesis
    using link_inv_finish [OF assms(2)] card_Suc_Diff1 [of "{b. is_alive b w}" a] by simp
qed

lemma cascade_dead:
  "(cascade here)\<^sup>*\<^sup>* w w' \<Longrightarrow> link_inv w \<Longrightarrow> \<not> is_alive a w \<Longrightarrow> link_inv w' \<and> \<not> is_alive a w'"
proof (induction rule: rtranclp_induct)
  case base
  then show ?case by simp
next
  case (step v w')
  then have v: "link_inv v" "\<not> is_alive a v" by simp_all
  from step(2) obtain b r0 where "w' = finish_actor here b r0 v" by (rule cascadeE)
  moreover have "\<not> is_alive a (finish_actor here b r0 v)"
    using v by (simp add: alive_simps finish_actor_apply)
  ultimately show ?case using link_inv_finish [OF v(1)] by simp
qed

lemma cascade_length:
  "(cascade here ^^ n) w w' \<Longrightarrow> link_inv w \<Longrightarrow> finite {a. is_alive a w} \<Longrightarrow>
   n + card {a. is_alive a w'} = card {a. is_alive a w}"
proof (induction n arbitrary: w)
  case 0
  then show ?case by simp
next
  case (Suc n)
  from relpowp_Suc_D2 [OF Suc.prems(1)]
  obtain v where v: "cascade here w v" "(cascade here ^^ n) v w'" by blast
  note alive = cascade_alive [OF v(1) Suc.prems(2,3)]
  then have "n + card {a. is_alive a w'} = card {a. is_alive a v}"
    using Suc.IH [OF v(2)] by blast
  with alive show ?case by linarith
qed

section \<open>Properties\<close>

text \<open>
  C8. A failure spreads through links. Let an actor of a quiet system exit with a reason
  other than normal and let the cancelled actors finish in any order, each with whatever its
  own loop ended with. The cascade takes at most as many steps as there are live actors, and
  once no cancelled actor is left running, every actor connected to the first one through
  actors that do not trap exits is dead, with an exit reason other than normal.
\<close>

theorem crash_cascade:
  assumes inv: "link_inv w0" "slots_inv w0"
    and quiet0: "\<forall>b. is_alive b w0 \<longrightarrow> \<not> cl_cancelled (w0 b)"
    and first: "is_alive a w0" "r0 \<noteq> Normal"
    and steps: "(cascade here ^^ n) (finish_actor here a r0 w0) w"
    and fin: "finite {b. is_alive b w0}"
  shows "n < card {b. is_alive b w0} \<and>
    ((\<nexists>w'. cascade here w w') \<longrightarrow>
     (\<forall>b. (exposed w0)\<^sup>*\<^sup>* a b \<longrightarrow> \<not> is_alive b w \<and> exit_reason_of b w \<noteq> Some Normal))"
proof -
  let ?w1 = "finish_actor here a r0 w0"
  have "fst (run_end r0 (w0 a)) \<noteq> Normal"
    using inv(2) first(2)
    by (auto simp: run_end_reason resolve_exit_reason_def slots_inv_def split: option.splits)
  then have sp1: "spread w0 ?w1"
    using spread_finish [OF spread_start [OF inv quiet0] first(1)] by blast
  then have sp: "spread w0 w" using spread_steps steps by (metis relpowp_imp_rtranclp)
  have alive1: "{b. is_alive b ?w1} = {b. is_alive b w0} - {a}"
    by (auto simp: alive_simps finish_actor_apply [OF inv(1)])
  have "finite {b. is_alive b ?w1}" using fin alive1 by simp
  with cascade_length [OF steps spreadD(1) [OF sp1]]
  have "n \<le> card {b. is_alive b ?w1}" by linarith
  also have "\<dots> < card {b. is_alive b w0}"
    unfolding alive1 using fin first(1) by (intro card_Diff1_less) auto
  finally have "n < card {b. is_alive b w0}" .
  moreover have dead: "\<not> is_alive a w"
    using cascade_dead [OF relpowp_imp_rtranclp [OF steps] spreadD(1) [OF sp1], of a] alive1
    by blast
  ultimately show ?thesis
    using spread_quiet [OF sp _ _ first(1) dead] spreadD(6) [OF sp]
    unfolding exit_reason_of_def by blast
qed

definition pair_cells :: "nat cells" where
  "pair_cells = (\<lambda>a. if a = ActorId 1 then new_cell\<lparr>cl_links := [ActorId 2]\<rparr>
     else if a = ActorId 2 then new_cell\<lparr>cl_links := [ActorId 1]\<rparr>
     else new_cell\<lparr>cl_completion := Some Normal\<rparr>)"

lemma pair_cells_facts:
  "link_inv pair_cells" "slots_inv pair_cells"
  "\<forall>b. is_alive b pair_cells \<longrightarrow> \<not> cl_cancelled (pair_cells b)"
  "is_alive (ActorId 1) pair_cells"
  "{b. is_alive b pair_cells} = {ActorId 1, ActorId 2}"
  by (auto simp: link_inv_def slots_inv_def alive_simps pair_cells_def split: if_splits)

abbreviation pair_crash :: "nat cells" where
  "pair_crash \<equiv> finish_actor (NodeId ''n'') (ActorId 1) (Panic ''x'') pair_cells"

lemma pair_crash_peer:
  "is_alive b pair_crash \<longleftrightarrow> b = ActorId 2" "cl_cancelled (pair_crash (ActorId 2))"
  by (auto simp: alive_simps finish_actor_apply [OF pair_cells_facts(1)])
     (auto simp: pair_cells_def run_end_def resolve_exit_reason_def make_signal_def
       drop_link_def cancel_def record_linked_reason_def split: if_splits)

theorem crash_cascade_witness:
  "let w = finish_actor (NodeId ''n'') (ActorId 2) Normal pair_crash
   in \<not> is_alive (ActorId 2) w \<and> exit_reason_of (ActorId 2) w \<noteq> Some Normal"
proof -
  let ?w = "finish_actor (NodeId ''n'') (ActorId 2) Normal pair_crash"
  have "cascade (NodeId ''n'') pair_crash ?w"
    using pair_crash_peer by (intro cascade_step) simp_all
  then have steps: "(cascade (NodeId ''n'') ^^ 1) pair_crash ?w" by (simp add: relcompp_apply)
  have dead: "\<not> is_alive b ?w" for b
    using pair_crash_peer(1) [of b]
    by (auto simp: alive_simps finish_actor_apply [OF link_inv_finish [OF pair_cells_facts(1)]])
  then have quiet: "\<nexists>w'. cascade (NodeId ''n'') ?w w'" by (meson cascadeE)
  have "exposed pair_cells (ActorId 1) (ActorId 2)"
    by (simp add: exposed_def pair_cells_def alive_simps)
  then have path: "(exposed pair_cells)\<^sup>*\<^sup>* (ActorId 1) (ActorId 2)" by (rule r_into_rtranclp)
  have fin: "finite {b. is_alive b pair_cells}" by (simp add: pair_cells_facts(5))
  from crash_cascade [OF pair_cells_facts(1-4) _ steps fin] quiet path
  show ?thesis by (simp add: Let_def)
qed

end
