(* ===== verification/Child_Spec.thy ===== *)
theory Child_Spec
  imports Links
begin

text \<open>
  Child specifications (\<open>concurrency/src/child_spec.rs\<close>): restart, shutdown and backoff
  policies, and the shutdown protocol of one child. What a child does while its supervisor
  waits for it is up to the child's own handlers and the scheduler: a parameter \<open>sched\<close>
  gives the cells after other actors have run for a bounded time (\<open>Some d\<close>) or until the
  child exits, if it ever does (\<open>None\<close>).
\<close>

section \<open>Policies\<close>

datatype restart_type = Permanent | Transient | Temporary

datatype shutdown_type = Infinity | Timeout duration | BrutalKill

datatype child_type = Worker | SupervisorChild

record restart_intensity =
  max_restarts :: u32
  within :: duration

definition default_intensity :: restart_intensity where
  "default_intensity = \<lparr>max_restarts = 3, within = from_secs 5\<rparr>"

definition DEFAULT_WORKER_SHUTDOWN :: shutdown_type where
  "DEFAULT_WORKER_SHUTDOWN = Timeout (from_secs 5)"

datatype restart_backoff = NoBackoff | Fixed duration | Exponential duration duration

definition delay_for_attempt :: "restart_backoff \<Rightarrow> u32 \<Rightarrow> duration" where
  "delay_for_attempt b attempt =
     (case b of
        NoBackoff \<Rightarrow> 0
      | Fixed delay \<Rightarrow> delay
      | Exponential base mx \<Rightarrow>
          (let shift = min (unat (saturating_sub1 attempt)) 20;
               factor = unat (push_bit shift (1 :: u32))
           in min (duration_saturating_mul base factor) mx))"

fun should_restart :: "restart_type \<Rightarrow> exit_reason \<Rightarrow> bool" where
  "should_restart Permanent reason = (reason \<noteq> Shutdown)"
| "should_restart Transient reason = is_abnormal reason"
| "should_restart Temporary reason = False"

record pg_membership =
  pm_scope :: string
  pm_group :: string

section \<open>Shutting one child down\<close>

type_synonym 'm sched = "duration option \<Rightarrow> actor_id \<Rightarrow> 'm cells \<Rightarrow> 'm cells"

text \<open>
  A wait without a bound returns only if the child exits; \<open>None\<close> is the wait that never
  returns. A bounded wait returns \<open>None\<close> on timeout.
\<close>

definition wait_exit :: "'m sched \<Rightarrow> actor_id \<Rightarrow> 'm cells \<Rightarrow> exit_reason option \<times> 'm cells" where
  "wait_exit sched a w = (let w' = sched None a w in (exit_reason_of a w', w'))"

definition wait_exit_with_timeout ::
  "'m sched \<Rightarrow> actor_id \<Rightarrow> duration \<Rightarrow> 'm cells \<Rightarrow> exit_reason option \<times> 'm cells" where
  "wait_exit_with_timeout sched a d w =
     (case exit_reason_of a w of
        Some reason \<Rightarrow> (Some reason, w)
      | None \<Rightarrow> (let w' = sched (Some d) a w in (exit_reason_of a w', w')))"

definition shutdown_child_async ::
  "'m sched \<Rightarrow> actor_id \<Rightarrow> shutdown_type \<Rightarrow> 'm cells \<Rightarrow> exit_reason option \<times> 'm cells" where
  "shutdown_child_async sched h sd w =
     (case exit_reason_of h w of
        Some reason \<Rightarrow> (Some reason, w)
      | None \<Rightarrow>
          (case sd of
             BrutalKill \<Rightarrow> wait_exit sched h (handle_kill h w)
           | Infinity \<Rightarrow> wait_exit sched h (handle_shutdown h w)
           | Timeout d \<Rightarrow>
               (case wait_exit_with_timeout sched h d (handle_shutdown h w) of
                  (Some reason, w') \<Rightarrow> (Some reason, w')
                | (None, w') \<Rightarrow> wait_exit sched h (handle_kill h w'))))"

definition shutdown_child_blocking ::
  "'m sched \<Rightarrow> actor_id \<Rightarrow> shutdown_type \<Rightarrow> 'm cells \<Rightarrow> exit_reason option \<times> 'm cells" where
  "shutdown_child_blocking sched h sd w =
     (case exit_reason_of h w of
        Some reason \<Rightarrow> (Some reason, w)
      | None \<Rightarrow>
          (case sd of
             BrutalKill \<Rightarrow> wait_exit sched h (handle_kill h w)
           | Infinity \<Rightarrow> wait_exit sched h (handle_shutdown h w)
           | Timeout d \<Rightarrow>
               (case wait_exit_with_timeout sched h d (handle_shutdown h w) of
                  (Some reason, w') \<Rightarrow> (Some reason, w')
                | (None, w') \<Rightarrow> wait_exit sched h (handle_kill h w'))))"

section \<open>What the shutdown protocol guarantees\<close>

text \<open>
  \<open>terminating\<close>: an actor whose token is cancelled gets to run until it exits, with the
  requested reason if there is one, and nobody but the caller overwrites the request;
  a bounded wait may or may not see the exit, and exit reasons never change.
\<close>

definition exits_as :: "actor_id \<Rightarrow> 'm cells \<Rightarrow> 'm cells \<Rightarrow> bool" where
  "exits_as a w w' \<longleftrightarrow> (\<forall>r. cl_requested_exit (w a) = Some r \<longrightarrow> exit_reason_of a w' = Some r)"

definition terminating :: "'m sched \<Rightarrow> bool" where
  "terminating sched \<longleftrightarrow>
     (\<forall>a w. is_alive a w \<and> cl_cancelled (w a) \<longrightarrow>
        \<not> is_alive a (sched None a w) \<and> exits_as a w (sched None a w)) \<and>
     (\<forall>a d w. is_alive a w \<longrightarrow>
        is_alive a (sched (Some d) a w) \<or> exits_as a w (sched (Some d) a w))"

lemma handle_kill_cell [simp]:
  "cl_requested_exit (handle_kill a w a) = Some Kill" "cl_cancelled (handle_kill a w a)"
  "is_alive a (handle_kill a w) = is_alive a w"
  by (simp_all add: handle_kill_def cancel_def alive_simps)

lemma handle_shutdown_cell [simp]:
  "cl_requested_exit (handle_shutdown a w a) = Some Shutdown" "cl_cancelled (handle_shutdown a w a)"
  "is_alive a (handle_shutdown a w) = is_alive a w"
  by (simp_all add: handle_shutdown_def cancel_def alive_simps)

lemma wait_exit_terminating:
  assumes "terminating sched" "is_alive a w" "cl_cancelled (w a)" "cl_requested_exit (w a) = Some r"
  shows "wait_exit sched a w = (Some r, sched None a w)"
proof -
  from assms(1-3) have "exits_as a w (sched None a w)" by (simp add: terminating_def)
  with assms(4) show ?thesis by (simp add: exits_as_def wait_exit_def Let_def)
qed

section \<open>Backoff\<close>

lemma exponential_factor: "s \<le> 20 \<Longrightarrow> unat ((2 :: u32) ^ s) = 2 ^ s"
proof -
  assume "s \<le> 20"
  then have "2 ^ s < (2 ^ 32 :: nat)" by (intro power_strict_increasing) auto
  then have "unat (of_nat (2 ^ s) :: u32) = 2 ^ s" unfolding unat_of_nat by simp
  then show ?thesis by simp
qed

lemma delay_exponential:
  "delay_for_attempt (Exponential base mx) n =
     min (min (base * 2 ^ min (unat n - 1) 20) duration_max) mx"
  using exponential_factor [of "min (unat n - 1) 20"]
  by (simp add: delay_for_attempt_def Let_def unat_saturating_sub1 duration_saturating_mul_def)

lemma shutdown_child_alive:
  assumes fair: "terminating sched" and alive: "is_alive h w"
  shows "case sd of
        BrutalKill \<Rightarrow> fst (shutdown_child_async sched h sd w) = Some Kill
      | Infinity \<Rightarrow> fst (shutdown_child_async sched h sd w) = Some Shutdown
      | Timeout d \<Rightarrow> fst (shutdown_child_async sched h sd w) \<in> {Some Shutdown, Some Kill}" (is ?res)
    and "\<not> is_alive h (snd (shutdown_child_async sched h sd w))" (is ?dead)
proof -
  have None: "exit_reason_of h w = None" using alive by (simp add: is_alive_def)
  have kill: "wait_exit sched h (handle_kill h v) = (Some Kill, sched None h (handle_kill h v))"
    if "is_alive h v" for v
    using wait_exit_terminating [OF fair, of h "handle_kill h v" Kill] that by simp
  have shut: "wait_exit sched h (handle_shutdown h w) = (Some Shutdown, sched None h (handle_shutdown h w))"
    using wait_exit_terminating [OF fair, of h "handle_shutdown h w" Shutdown] alive by simp
  let ?v = "\<lambda>d. sched (Some d) h (handle_shutdown h w)"
  have bounded: "wait_exit_with_timeout sched h d (handle_shutdown h w) = (exit_reason_of h (?v d), ?v d)" for d
    using alive handle_shutdown_cell(3) [of h w]
    by (simp add: wait_exit_with_timeout_def Let_def is_alive_def)
  have in_time: "exit_reason_of h (?v d) = Some Shutdown \<or> is_alive h (?v d)" for d
    using fair alive unfolding terminating_def exits_as_def
    by (metis handle_shutdown_cell(1,3))
  have dead_kill: "\<not> is_alive h (sched None h (handle_kill h v))" if "is_alive h v" for v
    using fair that unfolding terminating_def by simp
  have dead_shut: "\<not> is_alive h (sched None h (handle_shutdown h w))"
    using fair alive unfolding terminating_def by simp
  have "?res \<and> ?dead"
  proof (cases sd)
    case (Timeout d)
    show ?thesis
    proof (cases "is_alive h (?v d)")
      case True
      with None Timeout show ?thesis
        using kill [OF True] dead_kill [OF True]
        by (simp add: shutdown_child_async_def bounded is_alive_def)
    next
      case False
      with in_time [of d] have "exit_reason_of h (?v d) = Some Shutdown" by simp
      with None Timeout show ?thesis
        by (simp add: shutdown_child_async_def bounded is_alive_def)
    qed
  qed (use None kill [OF alive] shut dead_kill [OF alive] dead_shut in
      \<open>simp_all add: shutdown_child_async_def\<close>)
  then show ?res ?dead by simp_all
qed

lemma shutdown_child_dead:
  "exit_reason_of h w = Some r \<Longrightarrow> shutdown_child_async sched h sd w = (Some r, w)"
  by (simp add: shutdown_child_async_def)

lemma shutdown_child_ends:
  assumes "terminating sched"
  shows "\<exists>r. fst (shutdown_child_async sched h sd w) = Some r"
    and "\<not> is_alive h (snd (shutdown_child_async sched h sd w))"
proof -
  have "(\<exists>r. fst (shutdown_child_async sched h sd w) = Some r) \<and>
      \<not> is_alive h (snd (shutdown_child_async sched h sd w))"
  proof (cases "is_alive h w")
    case True
    from shutdown_child_alive [OF assms True, of sd] show ?thesis by (cases sd) auto
  next
    case False
    then obtain r where "exit_reason_of h w = Some r" by (auto simp: is_alive_def)
    with False show ?thesis by (simp add: shutdown_child_dead)
  qed
  then show "\<exists>r. fst (shutdown_child_async sched h sd w) = Some r"
    "\<not> is_alive h (snd (shutdown_child_async sched h sd w))" by simp_all
qed

lemma shutdown_blocking_eq_async: "shutdown_child_blocking = shutdown_child_async"
  by (simp add: fun_eq_iff shutdown_child_blocking_def shutdown_child_async_def)

section \<open>Properties\<close>


text \<open>A schedule under which a cancelled actor exits at once with the resolved reason.\<close>

definition prompt_sched :: "'m sched" where
  "prompt_sched t a w =
     (if cl_cancelled (w a) \<and> is_alive a w
      then set_completion a (resolved Normal (cl_requested_exit (w a)) (cl_linked_reason (w a))) w
      else w)"

lemma prompt_sched_terminating: "terminating prompt_sched"
  by (auto simp: terminating_def prompt_sched_def exits_as_def set_completion_def alive_simps)


text \<open>
  Exponential backoff doubles the base delay with each attempt, saturates instead of
  overflowing, never exceeds the maximum and never decreases from one attempt to the next.
\<close>

lemma exponential_backoff_bounded:
  "delay_for_attempt (Exponential base mx) n =
     min (min (base * 2 ^ min (unat n - 1) 20) duration_max) mx \<and>
   delay_for_attempt (Exponential base mx) n \<le> mx \<and>
   (m \<le> n \<longrightarrow> delay_for_attempt (Exponential base mx) m \<le> delay_for_attempt (Exponential base mx) n)"
proof -
  have mono: "delay_for_attempt (Exponential base mx) m \<le> delay_for_attempt (Exponential base mx) n"
    if "m \<le> n"
  proof -
    from that have "min (unat m - 1) 20 \<le> min (unat n - 1) 20"
      by (intro min.mono diff_le_mono) (auto simp: word_le_nat_alt)
    then have "base * 2 ^ min (unat m - 1) 20 \<le> base * 2 ^ min (unat n - 1) 20"
      by (intro mult_left_mono power_increasing) auto
    then show ?thesis unfolding delay_exponential by (intro min.mono) auto
  qed
  then show ?thesis by (simp add: delay_exponential)
qed

end
