(* ===== verification/Supervisor_Logic.thy ===== *)
theory Supervisor_Logic
  imports Child_Spec
begin

text \<open>
  The policy engine of the supervisors (\<open>concurrency/src/supervisor/mod.rs\<close>): the restart
  intensity window, the table of children, the decision on a child's exit for each strategy,
  and the bookkeeping of batch restarts. \<open>Instant::now()\<close> is an argument. Start indices are
  positions in a vector, so \<open>nat\<close>.
\<close>

section \<open>Data\<close>

datatype supervisor_strategy = OneForOne | OneForAll | RestForOne

datatype supervisor_action =
  Ignore | RestartOne string | TerminateBatch "string list" | Meltdown

record child_policy =
  cp_id :: string
  cp_restart :: restart_type
  cp_start_index :: nat

record child_handle_slot =
  sl_id :: actor_id
  sl_alive :: bool

record supervised_child =
  sc_policy :: child_policy
  sc_handle :: "child_handle_slot option"

record child_info =
  ci_id :: string
  ci_actor_id :: actor_id
  ci_alive :: bool
  ci_restart :: restart_type
  ci_start_index :: nat

record intensity_tracker =
  it_intensity :: restart_intensity
  it_timestamps :: "instant list"

datatype batch_restart = AllChildren | FromIndex nat

record supervisor_logic =
  lg_strategy :: supervisor_strategy
  lg_intensity :: intensity_tracker
  lg_children :: "supervised_child list"
  lg_suppress :: bool
  lg_pending :: "batch_restart option"
  lg_backoff :: "string \<rightharpoonup> u32"

section \<open>Restart intensity\<close>

definition tracker_new :: "restart_intensity \<Rightarrow> intensity_tracker" where
  "tracker_new i = \<lparr>it_intensity = i, it_timestamps = []\<rparr>"

fun pop_expired :: "duration \<Rightarrow> instant \<Rightarrow> instant list \<Rightarrow> instant list" where
  "pop_expired wn now [] = []"
| "pop_expired wn now (front # rest) =
     (if now - front > wn then pop_expired wn now rest else front # rest)"

definition record_restart :: "instant \<Rightarrow> intensity_tracker \<Rightarrow> (unit + unit) \<times> intensity_tracker" where
  "record_restart now t =
     (let ts = pop_expired (within (it_intensity t)) now (it_timestamps t)
      in if length ts \<ge> unat (max_restarts (it_intensity t))
         then (Inl (), t\<lparr>it_timestamps := ts\<rparr>)
         else (Inr (), t\<lparr>it_timestamps := ts @ [now]\<rparr>))"

definition restart_count :: "intensity_tracker \<Rightarrow> nat" where
  "restart_count t = length (it_timestamps t)"

section \<open>The table of children\<close>

definition logic_new :: "supervisor_strategy \<Rightarrow> restart_intensity \<Rightarrow> supervisor_logic" where
  "logic_new s i = \<lparr>lg_strategy = s, lg_intensity = tracker_new i, lg_children = [],
     lg_suppress = False, lg_pending = None, lg_backoff = Map.empty\<rparr>"

definition backoff_delay :: "string \<Rightarrow> restart_backoff \<Rightarrow> supervisor_logic \<Rightarrow> duration \<times> supervisor_logic" where
  "backoff_delay child_id policy l =
     (if policy = NoBackoff then (0, l)
      else let attempt = saturating_add1 (case lg_backoff l child_id of None \<Rightarrow> 0 | Some n \<Rightarrow> n)
           in (delay_for_attempt policy attempt,
               l\<lparr>lg_backoff := (lg_backoff l)(child_id \<mapsto> attempt)\<rparr>))"

definition reset_backoff :: "string \<Rightarrow> supervisor_logic \<Rightarrow> supervisor_logic" where
  "reset_backoff child_id l = l\<lparr>lg_backoff := (lg_backoff l)(child_id := None)\<rparr>"

definition set_suppress_restarts :: "bool \<Rightarrow> supervisor_logic \<Rightarrow> supervisor_logic" where
  "set_suppress_restarts v l = l\<lparr>lg_suppress := v\<rparr>"

definition has_slot :: "(child_handle_slot \<Rightarrow> bool) \<Rightarrow> supervised_child \<Rightarrow> bool" where
  "has_slot p c = (case sc_handle c of None \<Rightarrow> False | Some s \<Rightarrow> p s)"

abbreviation child_alive :: "supervised_child \<Rightarrow> bool" where
  "child_alive \<equiv> has_slot sl_alive"

definition child_index_by_actor :: "actor_id \<Rightarrow> supervisor_logic \<Rightarrow> nat option" where
  "child_index_by_actor a l = position (has_slot (\<lambda>s. sl_id s = a \<and> sl_alive s)) (lg_children l)"

definition child_id_by_actor :: "actor_id \<Rightarrow> supervisor_logic \<Rightarrow> string option" where
  "child_id_by_actor a l =
     map_option (\<lambda>i. cp_id (sc_policy (lg_children l ! i))) (child_index_by_actor a l)"

definition child_id_by_actor_any :: "actor_id \<Rightarrow> supervisor_logic \<Rightarrow> string option" where
  "child_id_by_actor_any a l =
     map_option (\<lambda>c. cp_id (sc_policy c)) (find (has_slot (\<lambda>s. sl_id s = a)) (lg_children l))"

definition child_count :: "supervisor_logic \<Rightarrow> nat" where
  "child_count l = length (filter child_alive (lg_children l))"

definition list_children :: "supervisor_logic \<Rightarrow> child_info list" where
  "list_children l =
     List.map_filter (\<lambda>c. map_option (\<lambda>s. \<lparr>ci_id = cp_id (sc_policy c), ci_actor_id = sl_id s,
        ci_alive = sl_alive s, ci_restart = cp_restart (sc_policy c),
        ci_start_index = cp_start_index (sc_policy c)\<rparr>) (sc_handle c)) (lg_children l)"

definition has_child_id :: "string \<Rightarrow> supervisor_logic \<Rightarrow> bool" where
  "has_child_id i l = list_ex (\<lambda>c. cp_id (sc_policy c) = i) (lg_children l)"

definition is_child_alive :: "string \<Rightarrow> supervisor_logic \<Rightarrow> bool" where
  "is_child_alive i l = list_ex (\<lambda>c. cp_id (sc_policy c) = i \<and> child_alive c) (lg_children l)"

definition next_start_index :: "supervisor_logic \<Rightarrow> nat" where
  "next_start_index l =
     (case map (\<lambda>c. cp_start_index (sc_policy c)) (lg_children l) of
        [] \<Rightarrow> 0
      | i # is \<Rightarrow> fold max is i + 1)"

definition remove_child_by_id :: "string \<Rightarrow> supervisor_logic \<Rightarrow> bool \<times> supervisor_logic" where
  "remove_child_by_id i l =
     (case position (\<lambda>c. cp_id (sc_policy c) = i) (lg_children l) of
        None \<Rightarrow> (False, l)
      | Some k \<Rightarrow> (True, l\<lparr>lg_children := vec_remove k (lg_children l)\<rparr>))"

definition remove_child_by_actor :: "actor_id \<Rightarrow> supervisor_logic \<Rightarrow> bool \<times> supervisor_logic" where
  "remove_child_by_actor a l =
     (case position (has_slot (\<lambda>s. sl_id s = a)) (lg_children l) of
        None \<Rightarrow> (False, l)
      | Some k \<Rightarrow> (True, l\<lparr>lg_children := vec_remove k (lg_children l)\<rparr>))"

definition kill_slot :: "supervised_child \<Rightarrow> supervised_child" where
  "kill_slot c = c\<lparr>sc_handle := map_option (\<lambda>s. s\<lparr>sl_alive := False\<rparr>) (sc_handle c)\<rparr>"

definition mark_child_dead :: "actor_id \<Rightarrow> supervisor_logic \<Rightarrow> supervisor_logic" where
  "mark_child_dead a l =
     (case child_index_by_actor a l of
        None \<Rightarrow> l
      | Some i \<Rightarrow> l\<lparr>lg_children := (lg_children l)[i := kill_slot (lg_children l ! i)]\<rparr>)"

definition register_child :: "child_policy \<Rightarrow> child_handle_slot \<Rightarrow> supervisor_logic \<Rightarrow> supervisor_logic" where
  "register_child p h l =
     l\<lparr>lg_children := lg_children l @ [\<lparr>sc_policy = p, sc_handle = Some h\<rparr>]\<rparr>"

definition replace_child_handle :: "string \<Rightarrow> child_handle_slot \<Rightarrow> supervisor_logic \<Rightarrow> supervisor_logic" where
  "replace_child_handle i h l =
     (case position (\<lambda>c. cp_id (sc_policy c) = i) (lg_children l) of
        None \<Rightarrow> l
      | Some k \<Rightarrow> l\<lparr>lg_children := (lg_children l)[k := (lg_children l ! k)\<lparr>sc_handle := Some h\<rparr>]\<rparr>)"

section \<open>Decisions\<close>

definition all_child_ids :: "supervised_child list \<Rightarrow> string list" where
  "all_child_ids cs = map (\<lambda>c. cp_id (sc_policy c)) cs"

definition rest_for_one_ids :: "supervised_child list \<Rightarrow> nat \<Rightarrow> string list" where
  "rest_for_one_ids cs k =
     map (\<lambda>c. cp_id (sc_policy c)) (filter (\<lambda>c. cp_start_index (sc_policy c) \<ge> k) cs)"

definition on_child_exit ::
  "actor_id \<Rightarrow> exit_reason \<Rightarrow> instant \<Rightarrow> supervisor_logic \<Rightarrow> supervisor_action \<times> supervisor_logic" where
  "on_child_exit a reason now l =
     (if lg_suppress l then (Ignore, l)
      else case child_index_by_actor a l of
        None \<Rightarrow> (Ignore, l)
      | Some i \<Rightarrow>
          (let p = sc_policy (lg_children l ! i);
               l1 = mark_child_dead a l
           in if \<not> should_restart (cp_restart p) reason
              then (Ignore, reset_backoff (cp_id p) l1)
              else (case record_restart now (lg_intensity l1) of
                (Inl _, t) \<Rightarrow> (Meltdown, l1\<lparr>lg_intensity := t\<rparr>)
              | (Inr _, t) \<Rightarrow>
                  (let l2 = l1\<lparr>lg_intensity := t\<rparr>
                   in case lg_strategy l of
                        OneForOne \<Rightarrow> (RestartOne (cp_id p), l2)
                      | OneForAll \<Rightarrow>
                          (TerminateBatch (all_child_ids (lg_children l2)),
                           l2\<lparr>lg_suppress := True, lg_pending := Some AllChildren\<rparr>)
                      | RestForOne \<Rightarrow>
                          (TerminateBatch (rest_for_one_ids (lg_children l2) (cp_start_index p)),
                           l2\<lparr>lg_suppress := True, lg_pending := Some (FromIndex (cp_start_index p))\<rparr>)))))"

definition note_exit_during_batch :: "actor_id \<Rightarrow> supervisor_logic \<Rightarrow> supervisor_logic" where
  "note_exit_during_batch a l = mark_child_dead a l"

fun pending_ids :: "batch_restart \<Rightarrow> supervised_child list \<Rightarrow> string list" where
  "pending_ids AllChildren cs = all_child_ids cs"
| "pending_ids (FromIndex k) cs = rest_for_one_ids cs k"

definition take_pending_restart_ids :: "supervisor_logic \<Rightarrow> string list option \<times> supervisor_logic" where
  "take_pending_restart_ids l =
     (case lg_pending l of
        None \<Rightarrow> (None, l)
      | Some b \<Rightarrow> (Some (pending_ids b (lg_children l)),
                   l\<lparr>lg_pending := None, lg_suppress := False\<rparr>))"

text \<open>\<open>get(index..)\<close> is \<open>None\<close> exactly when the index is beyond the length.\<close>

definition pending_batch_restart_complete :: "supervisor_logic \<Rightarrow> bool" where
  "pending_batch_restart_complete l =
     (case lg_pending l of
        None \<Rightarrow> False
      | Some AllChildren \<Rightarrow> \<not> list_ex child_alive (lg_children l)
      | Some (FromIndex k) \<Rightarrow>
          (if k \<le> length (lg_children l)
           then \<not> list_ex child_alive (drop k (lg_children l)) else False))"

text \<open>\<open>sort_by_key(Reverse(..))\<close> is a stable sort by decreasing start index.\<close>

definition shutdown_order :: "supervisor_logic \<Rightarrow> string list" where
  "shutdown_order l =
     map snd (sort_key (\<lambda>p. - int (fst p))
       (map (\<lambda>c. (cp_start_index (sc_policy c), cp_id (sc_policy c))) (lg_children l)))"

section \<open>The intensity window\<close>

text \<open>
  A run of the tracker over a history of restart attempts, with the attempts it accepted.
  The reference notion looks at the whole history; the tracker keeps only a suffix.
\<close>

primrec accepted :: "instant list \<Rightarrow> instant list \<Rightarrow> intensity_tracker \<Rightarrow> instant list \<times> intensity_tracker" where
  "accepted acc [] t = (acc, t)"
| "accepted acc (now # rest) t =
     (case record_restart now t of
        (Inl _, t') \<Rightarrow> accepted acc rest t'
      | (Inr _, t') \<Rightarrow> accepted (acc @ [now]) rest t')"

definition recent :: "restart_intensity \<Rightarrow> instant \<Rightarrow> instant list \<Rightarrow> instant list" where
  "recent i now = filter (\<lambda>x. now - x \<le> within i)"

lemma pop_expired_sorted:
  "sorted ts \<Longrightarrow> pop_expired wn now ts = filter (\<lambda>x. now - x \<le> wn) ts"
proof (induction ts)
  case Nil
  then show ?case by simp
next
  case (Cons x xs)
  show ?case
  proof (cases "now - x > wn")
    case True
    with Cons show ?thesis by simp
  next
    case False
    with Cons.prems have "\<forall>y \<in> set xs. now - y \<le> wn" by fastforce
    with False show ?thesis by simp
  qed
qed

text \<open>The state of a tracker after an attempt at time \<open>n\<close>, for the accepted history \<open>acc\<close>.\<close>

definition tracks :: "restart_intensity \<Rightarrow> instant \<Rightarrow> instant list \<Rightarrow> intensity_tracker \<Rightarrow> bool" where
  "tracks i n acc t \<longleftrightarrow> it_intensity t = i \<and> sorted acc \<and> (\<forall>x \<in> set acc. x \<le> n) \<and>
     it_timestamps t = recent i n acc \<and>
     (\<forall>s. length (filter (\<lambda>x. s \<le> x \<and> x \<le> s + within i) acc) \<le> unat (max_restarts i))"

lemma recent_recent: "n \<le> m \<Longrightarrow> recent i m (recent i n acc) = recent i m acc"
  by (induction acc) (auto simp: recent_def)

lemma record_restart_tracks:
  assumes t: "tracks i n acc t" and le: "n \<le> m"
  shows "is_ok (fst (record_restart m t)) \<longleftrightarrow> length (recent i m acc) < unat (max_restarts i)"
    and "tracks i m (if is_ok (fst (record_restart m t)) then acc @ [m] else acc) (snd (record_restart m t))"
proof -
  from t have int: "it_intensity t = i" and ts: "it_timestamps t = recent i n acc" and so: "sorted acc"
    and old: "\<forall>x \<in> set acc. x \<le> n"
    and win: "\<And>s. length (filter (\<lambda>x. s \<le> x \<and> x \<le> s + within i) acc) \<le> unat (max_restarts i)"
    by (auto simp: tracks_def)
  have "sorted (it_timestamps t)" using so by (simp add: ts recent_def sorted_wrt_filter)
  then have pop: "pop_expired (within i) m (it_timestamps t) = recent i m acc"
    using recent_recent [OF le, of i acc] by (simp add: pop_expired_sorted ts) (simp add: recent_def)
  show 1: "is_ok (fst (record_restart m t)) \<longleftrightarrow> length (recent i m acc) < unat (max_restarts i)"
    by (auto simp: record_restart_def Let_def int pop)
  have win': "length (filter (\<lambda>x. s \<le> x \<and> x \<le> s + within i) (acc @ [m])) \<le> unat (max_restarts i)"
    if ok: "length (recent i m acc) < unat (max_restarts i)" for s
  proof (cases "s \<le> m \<and> m \<le> s + within i")
    case True
    have "length (filter (\<lambda>x. s \<le> x \<and> x \<le> s + within i) acc) \<le> length (recent i m acc)"
      unfolding recent_def using True
      by (induction acc) auto
    with True ok show ?thesis by simp
  next
    case False
    with win [of s] show ?thesis by auto
  qed
  show "tracks i m (if is_ok (fst (record_restart m t)) then acc @ [m] else acc) (snd (record_restart m t))"
    using 1 win win' int so old le
    by (auto simp: tracks_def record_restart_def Let_def pop sorted_append recent_def)
qed

lemma accepted_tracks:
  assumes "tracks i n acc t" and "sorted (n # hist)" and "accepted acc hist t = (acc', t')"
  shows "\<exists>n'. tracks i n' acc' t' \<and> n' \<in> set (n # hist)"
  using assms
proof (induction hist arbitrary: n acc t)
  case Nil
  then show ?case by auto
next
  case (Cons m hist)
  let ?acc = "if is_ok (fst (record_restart m t)) then acc @ [m] else acc"
  have "tracks i m ?acc (snd (record_restart m t))"
    using record_restart_tracks(2) [OF Cons.prems(1), of m] Cons.prems(2) by simp
  moreover have "accepted ?acc hist (snd (record_restart m t)) = (acc', t')"
    using Cons.prems(3) by (auto simp: is_ok_def split: prod.splits sum.splits)
  ultimately show ?case using Cons.IH Cons.prems(2) by fastforce
qed

lemma tracks_new: "tracks i 0 [] (tracker_new i)"
  by (simp add: tracks_def tracker_new_def recent_def)

section \<open>Lemmas on the table of children\<close>

lemma has_slot_simps [simp]:
  "has_slot p \<lparr>sc_policy = q, sc_handle = Some s\<rparr> = p s"
  "has_slot p (c\<lparr>sc_handle := Some s\<rparr>) = p s"
  "sc_policy (kill_slot c) = sc_policy c"
  "\<not> child_alive (kill_slot c)"
  by (auto simp: has_slot_def kill_slot_def split: option.splits)

lemma has_slot_kill:
  "has_slot (\<lambda>s. sl_id s = a \<and> sl_alive s) (kill_slot c) = False"
  "has_slot (\<lambda>s. sl_id s = a) (kill_slot c) = has_slot (\<lambda>s. sl_id s = a) c"
  by (auto simp: has_slot_def kill_slot_def split: option.splits)

abbreviation runs :: "actor_id \<Rightarrow> supervised_child \<Rightarrow> bool" where
  "runs a \<equiv> has_slot (\<lambda>s. sl_id s = a \<and> sl_alive s)"

lemma runs_alive: "runs a c \<Longrightarrow> child_alive c"
  by (auto simp: has_slot_def split: option.splits)

lemma alive_runs: "child_alive c \<Longrightarrow> \<exists>a. runs a c"
  by (auto simp: has_slot_def split: option.splits)

lemma runs_unique: "runs a c \<Longrightarrow> runs b c \<Longrightarrow> a = b"
  by (auto simp: has_slot_def split: option.splits)

definition policies :: "supervisor_logic \<Rightarrow> child_policy list" where
  "policies l = map sc_policy (lg_children l)"

lemma mark_child_dead_frame [simp]:
  "lg_strategy (mark_child_dead a l) = lg_strategy l"
  "lg_intensity (mark_child_dead a l) = lg_intensity l"
  "lg_suppress (mark_child_dead a l) = lg_suppress l"
  "lg_pending (mark_child_dead a l) = lg_pending l"
  "lg_backoff (mark_child_dead a l) = lg_backoff l"
  by (simp_all add: mark_child_dead_def split: option.splits)

lemma policies_mark [simp]: "policies (mark_child_dead a l) = policies l"
proof (cases "child_index_by_actor a l")
  case None
  then show ?thesis by (simp add: mark_child_dead_def)
next
  case (Some i)
  then have "i < length (lg_children l)"
    using position_SomeD [of _ "lg_children l" i] by (auto simp: child_index_by_actor_def)
  with Some show ?thesis
    by (simp add: mark_child_dead_def policies_def map_update) (metis list_update_id nth_map)
qed

lemma length_mark [simp]: "length (lg_children (mark_child_dead a l)) = length (lg_children l)"
  by (simp add: mark_child_dead_def split: option.splits)

lemma mark_nth:
  assumes "k < length (lg_children l)"
  shows "lg_children (mark_child_dead a l) ! k =
    (if child_index_by_actor a l = Some k then kill_slot (lg_children l ! k) else lg_children l ! k)"
  using assms by (auto simp: mark_child_dead_def split: option.splits)

text \<open>Marking never revives a child.\<close>

lemma mark_alive_subset:
  "k < length (lg_children l) \<Longrightarrow> child_alive (lg_children (mark_child_dead a l) ! k) \<Longrightarrow>
   child_alive (lg_children l ! k)"
  by (auto simp: mark_nth split: if_splits)

text \<open>The children that run have different actors.\<close>

definition actors_distinct :: "supervisor_logic \<Rightarrow> bool" where
  "actors_distinct l \<longleftrightarrow> (\<forall>i < length (lg_children l). \<forall>j < length (lg_children l). \<forall>a.
     runs a (lg_children l ! i) \<longrightarrow> runs a (lg_children l ! j) \<longrightarrow> i = j)"

lemma index_of_runs:
  assumes "actors_distinct l" "k < length (lg_children l)" "runs a (lg_children l ! k)"
  shows "child_index_by_actor a l = Some k"
proof -
  have "child_index_by_actor a l \<noteq> None"
    using assms(2,3) by (auto simp: child_index_by_actor_def position_None_iff)
  then obtain j where j: "child_index_by_actor a l = Some j" by auto
  from position_SomeD [OF this [unfolded child_index_by_actor_def]]
  have "j < length (lg_children l)" "runs a (lg_children l ! j)" by auto
  with assms j show ?thesis unfolding actors_distinct_def by blast
qed

lemma actors_distinct_mark [inv_rules]:
  "actors_distinct l \<Longrightarrow> actors_distinct (mark_child_dead a l)"
  unfolding actors_distinct_def by (auto simp: mark_nth has_slot_kill split: if_splits)

lemma mark_dead:
  assumes "actors_distinct l" "k < length (lg_children l)"
  shows "child_alive (lg_children (mark_child_dead a l) ! k) \<longleftrightarrow>
    child_alive (lg_children l ! k) \<and> \<not> runs a (lg_children l ! k)"
proof (cases "runs a (lg_children l ! k)")
  case True
  with index_of_runs [OF assms] assms(2) show ?thesis by (simp add: mark_nth)
next
  case False
  have "child_index_by_actor a l \<noteq> Some k"
  proof
    assume "child_index_by_actor a l = Some k"
    from position_SomeD [OF this [unfolded child_index_by_actor_def]] False show False by simp
  qed
  with False assms(2) show ?thesis by (simp add: mark_nth)
qed

text \<open>Marking a list of actors dead leaves alive exactly the children that run none of them.\<close>

definition mark_all :: "actor_id list \<Rightarrow> supervisor_logic \<Rightarrow> supervisor_logic" where
  "mark_all as l = fold mark_child_dead as l"

lemma mark_all_frame [simp]:
  "lg_strategy (mark_all as l) = lg_strategy l"
  "lg_suppress (mark_all as l) = lg_suppress l"
  "lg_pending (mark_all as l) = lg_pending l"
  "policies (mark_all as l) = policies l"
  "length (lg_children (mark_all as l)) = length (lg_children l)"
  unfolding mark_all_def by (induction as arbitrary: l) simp_all

lemma mark_all_dead:
  assumes "actors_distinct l" "k < length (lg_children l)"
  shows "child_alive (lg_children (mark_all as l) ! k) \<longleftrightarrow>
    child_alive (lg_children l ! k) \<and> (\<forall>a \<in> set as. \<not> runs a (lg_children l ! k))"
  using assms
proof (induction as arbitrary: l)
  case Nil
  then show ?case by (simp add: mark_all_def)
next
  case (Cons a as)
  have "actors_distinct (mark_child_dead a l)" using Cons.prems(1) by (rule actors_distinct_mark)
  from Cons.IH [OF this] Cons.prems mark_dead [OF Cons.prems, of a]
  have "child_alive (lg_children (mark_all (a # as) l) ! k) \<longleftrightarrow>
      (child_alive (lg_children l ! k) \<and> \<not> runs a (lg_children l ! k)) \<and>
      (\<forall>b \<in> set as. \<not> runs b (lg_children (mark_child_dead a l) ! k))"
    by (simp add: mark_all_def)
  moreover have "runs b (lg_children (mark_child_dead a l) ! k) \<longleftrightarrow> runs b (lg_children l ! k)"
    if "\<not> runs a (lg_children l ! k)" "child_alive (lg_children l ! k)" for b
    using that mark_dead [OF Cons.prems, of a] Cons.prems(2)
    by (auto simp: mark_nth has_slot_kill split: if_splits)
  ultimately show ?case by auto
qed

section \<open>Batches\<close>

text \<open>A static supervisor registers its children in the order of their start indices.\<close>

definition indexed :: "supervisor_logic \<Rightarrow> bool" where
  "indexed l \<longleftrightarrow> (\<forall>i < length (lg_children l). cp_start_index (sc_policy (lg_children l ! i)) = i)"

lemma indexed_policies: "indexed l \<longleftrightarrow> (\<forall>i < length (policies l). cp_start_index (policies l ! i) = i)"
  by (simp add: indexed_def policies_def)

lemma ids_policies: "all_child_ids (lg_children l) = map cp_id (policies l)"
  "rest_for_one_ids (lg_children l) k = map cp_id (filter (\<lambda>p. cp_start_index p \<ge> k) (policies l))"
  by (simp_all add: all_child_ids_def rest_for_one_ids_def policies_def filter_map comp_def)

lemma filter_ge_indexed:
  assumes "\<forall>i < length xs. f (xs ! i) = i"
  shows "filter (\<lambda>x. f x \<ge> k) xs = drop k xs"
  using assms
proof (induction xs rule: rev_induct)
  case Nil
  then show ?case by simp
next
  case (snoc x xs)
  from snoc.prems have "\<forall>i < length xs. f (xs ! i) = i" by (metis length_append less_SucI nth_append
        length_append_singleton)
  moreover from snoc.prems have "f x = length xs"
    by (metis lessI length_append_singleton nth_append_length)
  ultimately show ?case using snoc.IH by auto
qed

lemma rest_for_one_indexed:
  assumes "indexed l"
  shows "rest_for_one_ids (lg_children l) k = drop k (all_child_ids (lg_children l))"
proof -
  have "\<forall>i < length (policies l). cp_start_index (policies l ! i) = i"
    using assms by (simp only: indexed_policies)
  from filter_ge_indexed [where f = cp_start_index, OF this] show ?thesis
    by (simp add: ids_policies drop_map)
qed

lemma not_alive_drop_iff:
  "\<not> list_ex p (drop k xs) \<longleftrightarrow> (\<forall>j. k \<le> j \<and> j < length xs \<longrightarrow> \<not> p (xs ! j))"
proof
  assume *: "\<forall>j. k \<le> j \<and> j < length xs \<longrightarrow> \<not> p (xs ! j)"
  show "\<not> list_ex p (drop k xs)"
  proof
    assume "list_ex p (drop k xs)"
    then obtain i where "i < length (drop k xs)" "p (drop k xs ! i)"
      by (auto simp: list_ex_iff in_set_conv_nth)
    then have "k + i < length xs" "p (xs ! (k + i))" by auto
    with * show False by simp
  qed
next
  assume *: "\<not> list_ex p (drop k xs)"
  show "\<forall>j. k \<le> j \<and> j < length xs \<longrightarrow> \<not> p (xs ! j)"
  proof (intro allI impI notI)
    fix j assume j: "k \<le> j \<and> j < length xs" "p (xs ! j)"
    then have "drop k xs ! (j - k) = xs ! j" "j - k < length (drop k xs)" by auto
    then have "xs ! j \<in> set (drop k xs)" by (metis nth_mem)
    with * j(2) show False by (auto simp: list_ex_iff)
  qed
qed

text \<open>The first index of the batch that the exit of child \<open>k\<close> brings down.\<close>

fun batch_from :: "supervisor_strategy \<Rightarrow> nat \<Rightarrow> nat" where
  "batch_from RestForOne k = k"
| "batch_from _ k = 0"

lemma on_child_exit_batch:
  assumes "\<not> lg_suppress l" "actors_distinct l" "k < length (lg_children l)" "runs a (lg_children l ! k)"
    "should_restart (cp_restart (sc_policy (lg_children l ! k))) reason"
    "is_ok (fst (record_restart now (lg_intensity l)))"
    "lg_strategy l \<noteq> OneForOne" "indexed l"
  shows "\<exists>t. on_child_exit a reason now l =
    (TerminateBatch (drop (batch_from (lg_strategy l) k) (all_child_ids (lg_children l))),
     (mark_child_dead a l)\<lparr>lg_intensity := t, lg_suppress := True,
       lg_pending := Some (if lg_strategy l = OneForAll then AllChildren else FromIndex k)\<rparr>)"
proof -
  obtain t where t: "record_restart now (lg_intensity l) = (Inr (), t)"
    using assms(6) by (cases "record_restart now (lg_intensity l)") (auto simp: is_ok_def split: sum.splits)
  have idx: "child_index_by_actor a l = Some k" using assms(2-4) by (rule index_of_runs)
  have "indexed (mark_child_dead a l)" using assms(8) by (simp add: indexed_policies)
  moreover have "all_child_ids (lg_children (mark_child_dead a l)) = all_child_ids (lg_children l)"
    by (simp add: ids_policies)
  moreover have "cp_start_index (sc_policy (lg_children l ! k)) = k"
    using assms(3,8) by (simp add: indexed_def)
  ultimately show ?thesis
    using assms(1,5,7) idx t
    by (intro exI [of _ t], cases "lg_strategy l") (simp_all add: on_child_exit_def Let_def rest_for_one_indexed)
qed

lemma batch_complete_iff:
  assumes dist: "actors_distinct l" and k: "k < length (lg_children l)" "runs a (lg_children l ! k)"
    and pend: "lg_pending l' = Some (if lg_strategy l = OneForAll then AllChildren else FromIndex k)"
    and strat: "lg_strategy l \<noteq> OneForOne"
    and children: "lg_children l' = lg_children (mark_child_dead a l)"
  shows "pending_batch_restart_complete (mark_all as l') \<longleftrightarrow>
    (\<forall>j b. batch_from (lg_strategy l) k \<le> j \<and> j < length (lg_children l) \<and>
       runs b (lg_children l ! j) \<longrightarrow> b \<in> insert a (set as))"
proof -
  let ?f = "batch_from (lg_strategy l) k"
  have len: "length (lg_children l') = length (lg_children l)" using children by simp
  have dist': "actors_distinct l'"
    using actors_distinct_mark [OF dist] children by (simp add: actors_distinct_def)
  have "pending_batch_restart_complete (mark_all as l') \<longleftrightarrow>
      \<not> list_ex child_alive (drop ?f (lg_children (mark_all as l')))"
    using k strat by (cases "lg_strategy l") (simp_all add: pending_batch_restart_complete_def pend len)
  also have "\<dots> \<longleftrightarrow> (\<forall>j. ?f \<le> j \<and> j < length (lg_children l) \<longrightarrow>
      \<not> child_alive (lg_children (mark_all as l') ! j))"
    by (simp add: not_alive_drop_iff len)
  also have "\<dots> \<longleftrightarrow> (\<forall>j b. ?f \<le> j \<and> j < length (lg_children l) \<and> runs b (lg_children l ! j) \<longrightarrow>
      b \<in> insert a (set as))"
  proof -
    have "child_alive (lg_children (mark_all as l') ! j) \<longleftrightarrow>
        (\<exists>b. runs b (lg_children l ! j) \<and> b \<notin> insert a (set as))"
      if j: "j < length (lg_children l)" for j
    proof -
      have "child_alive (lg_children (mark_all as l') ! j) \<longleftrightarrow>
          child_alive (lg_children (mark_all (a # as) l) ! j)"
        using mark_all_dead [OF dist', of j as] mark_all_dead [OF actors_distinct_mark [OF dist], of j a as] j
        by (simp add: len children mark_all_def)
      also have "\<dots> \<longleftrightarrow> child_alive (lg_children l ! j) \<and>
          (\<forall>b \<in> insert a (set as). \<not> runs b (lg_children l ! j))"
        using mark_all_dead [OF dist j, of "a # as"] by simp
      finally show ?thesis using alive_runs runs_alive runs_unique by metis
    qed
    then show ?thesis by blast
  qed
  finally show ?thesis .
qed

section \<open>Properties\<close>

text \<open>
  C15. The tracker, which forgets old restarts, decides as if it saw the whole history: an
  attempt is accepted exactly when fewer than \<open>max_restarts\<close> accepted attempts lie within the
  window before it, and in no window of that length are more than \<open>max_restarts\<close> accepted.
\<close>

theorem restart_intensity_window:
  assumes hist: "sorted (hist @ [now])" and run: "accepted [] hist (tracker_new i) = (acc, t)"
  shows "(is_ok (fst (record_restart now t)) \<longleftrightarrow>
      length (filter (\<lambda>x. now - x \<le> within i) acc) < unat (max_restarts i)) \<and>
    (\<forall>s. length (filter (\<lambda>x. s \<le> x \<and> x \<le> s + within i) acc) \<le> unat (max_restarts i))"
proof -
  from hist have "sorted (0 # hist)" by (simp add: sorted_append)
  from accepted_tracks [OF tracks_new this run]
  obtain n where n: "tracks i n acc t" "n \<in> set (0 # hist)" by blast
  moreover from n(2) hist have "n \<le> now" by (auto simp: sorted_append)
  ultimately show ?thesis
    using record_restart_tracks(1) [of i n acc t now] by (auto simp: tracks_def recent_def)
qed

theorem restart_intensity_window_witness:
  "accepted [] [1, 2] (tracker_new \<lparr>max_restarts = 2, within = 5\<rparr>)
     = ([1, 2], \<lparr>it_intensity = \<lparr>max_restarts = 2, within = 5\<rparr>, it_timestamps = [1, 2]\<rparr>) \<and>
   \<not> is_ok (fst (record_restart 4 \<lparr>it_intensity = \<lparr>max_restarts = 2, within = 5\<rparr>, it_timestamps = [1, 2]\<rparr>))"
proof -
  have run: "accepted [] [1, 2] (tracker_new \<lparr>max_restarts = 2, within = 5\<rparr>)
     = ([1, 2], \<lparr>it_intensity = \<lparr>max_restarts = 2, within = 5\<rparr>, it_timestamps = [1, 2]\<rparr>)"
    by (simp add: record_restart_def tracker_new_def Let_def)
  show ?thesis
    using run restart_intensity_window [OF _ run, of 4] by simp
qed

text \<open>
  A batch restart under \<open>OneForAll\<close> or \<open>RestForOne\<close> terminates exactly the affected
  children (all of them, or the dead one and those started after it), waits until the last
  of them is known to be dead and no longer, and then restarts exactly the same children and
  accepts exits again.
\<close>

lemma batch_restart_completes:
  assumes "\<not> lg_suppress l" "actors_distinct l" "k < length (lg_children l)" "runs a (lg_children l ! k)"
    and "should_restart (cp_restart (sc_policy (lg_children l ! k))) reason"
    and "is_ok (fst (record_restart now (lg_intensity l)))"
    and "lg_strategy l \<noteq> OneForOne" "indexed l"
  shows "\<exists>l'. on_child_exit a reason now l =
      (TerminateBatch (drop (batch_from (lg_strategy l) k) (all_child_ids (lg_children l))), l') \<and>
    lg_suppress l' \<and>
    (\<forall>as. pending_batch_restart_complete (mark_all as l') \<longleftrightarrow>
       (\<forall>j b. batch_from (lg_strategy l) k \<le> j \<and> j < length (lg_children l) \<and>
          runs b (lg_children l ! j) \<longrightarrow> b \<in> insert a (set as))) \<and>
    (\<forall>as. take_pending_restart_ids (mark_all as l') =
       (Some (drop (batch_from (lg_strategy l) k) (all_child_ids (lg_children l))),
        (mark_all as l')\<lparr>lg_pending := None, lg_suppress := False\<rparr>))"
proof -
  from on_child_exit_batch [OF assms] obtain t where
    t: "on_child_exit a reason now l =
      (TerminateBatch (drop (batch_from (lg_strategy l) k) (all_child_ids (lg_children l))),
       (mark_child_dead a l)\<lparr>lg_intensity := t, lg_suppress := True,
         lg_pending := Some (if lg_strategy l = OneForAll then AllChildren else FromIndex k)\<rparr>)"
    by blast
  define l' where "l' = (mark_child_dead a l)\<lparr>lg_intensity := t, lg_suppress := True,
     lg_pending := Some (if lg_strategy l = OneForAll then AllChildren else FromIndex k)\<rparr>"
  have "policies l' = policies l" using policies_mark [of a l] by (simp add: l'_def policies_def)
  then have pol: "policies (mark_all as l') = policies l" for as by simp
  then have "indexed (mark_all as l')" for as using assms(8) by (simp add: indexed_policies)
  moreover have "all_child_ids (lg_children (mark_all as l')) = all_child_ids (lg_children l)" for as
    using pol by (simp add: ids_policies)
  ultimately have "pending_ids (if lg_strategy l = OneForAll then AllChildren else FromIndex k)
      (lg_children (mark_all as l')) =
      drop (batch_from (lg_strategy l) k) (all_child_ids (lg_children l))" for as
    using assms(7) by (cases "lg_strategy l") (simp_all add: rest_for_one_indexed)
  then have "take_pending_restart_ids (mark_all as l') =
       (Some (drop (batch_from (lg_strategy l) k) (all_child_ids (lg_children l))),
        (mark_all as l')\<lparr>lg_pending := None, lg_suppress := False\<rparr>)" for as
    by (simp add: take_pending_restart_ids_def l'_def)
  moreover have "pending_batch_restart_complete (mark_all as l') \<longleftrightarrow>
       (\<forall>j b. batch_from (lg_strategy l) k \<le> j \<and> j < length (lg_children l) \<and>
          runs b (lg_children l ! j) \<longrightarrow> b \<in> insert a (set as))" for as
    by (rule batch_complete_iff [OF assms(2-4)]) (simp_all add: l'_def assms(7))
  ultimately show ?thesis using t by (intro exI [of _ l']) (simp add: l'_def)
qed

definition two_children :: supervisor_logic where
  "two_children = (logic_new RestForOne default_intensity)\<lparr>lg_children :=
     [\<lparr>sc_policy = \<lparr>cp_id = ''a'', cp_restart = Permanent, cp_start_index = 0\<rparr>,
       sc_handle = Some \<lparr>sl_id = ActorId 1, sl_alive = True\<rparr>\<rparr>,
      \<lparr>sc_policy = \<lparr>cp_id = ''b'', cp_restart = Temporary, cp_start_index = 1\<rparr>,
       sc_handle = Some \<lparr>sl_id = ActorId 2, sl_alive = True\<rparr>\<rparr>]\<rparr>"


definition gap_logic :: supervisor_logic where
  "gap_logic = (logic_new RestForOne default_intensity)\<lparr>lg_children :=
     [\<lparr>sc_policy = \<lparr>cp_id = ''c'', cp_restart = Permanent, cp_start_index = 2\<rparr>,
       sc_handle = Some \<lparr>sl_id = ActorId 1, sl_alive = True\<rparr>\<rparr>]\<rparr>"


text \<open>
  A batch restart brings back every child it covers, whatever its restart type: a
  \<open>Temporary\<close> child is restarted with the others.
\<close>

lemma batch_restarts_temporary:
  "\<exists>l'. on_child_exit (ActorId 1) Normal 0 two_children = (TerminateBatch [''a'', ''b''], l') \<and>
     pending_batch_restart_complete (mark_all [ActorId 2] l') \<and>
     fst (take_pending_restart_ids (mark_all [ActorId 2] l')) = Some [''a'', ''b'']"
  by (simp add: on_child_exit_def two_children_def logic_new_def child_index_by_actor_def Let_def
      mark_child_dead_def record_restart_def tracker_new_def default_intensity_def rest_for_one_ids_def
      mark_all_def take_pending_restart_ids_def pending_batch_restart_complete_def has_slot_def kill_slot_def)

lemma shutdown_order_pairs:
  "shutdown_order l = map snd (sort_key (\<lambda>p. - int (fst p)) (map (\<lambda>p. (cp_start_index p, cp_id p)) (policies l)))"
  by (simp add: shutdown_order_def policies_def comp_def)

lemma shutdown_order_sorted:
  assumes s: "sorted_wrt (<) (map cp_start_index (policies l))"
  shows "shutdown_order l = rev (map cp_id (policies l))"
proof -
  let ?xs = "map (\<lambda>p. (cp_start_index p, cp_id p)) (policies l)"
  let ?key = "\<lambda>p :: nat \<times> string. - int (fst p)"
  have "sorted_wrt (\<lambda>x y. fst x < fst y) ?xs" using s by (simp add: sorted_wrt_map)
  then have r: "sorted_wrt (\<lambda>x y. fst y < fst x) (rev ?xs)" by (simp add: sorted_wrt_rev)
  then have "sorted (map ?key (rev ?xs))"
    unfolding sorted_map by (rule sorted_wrt_mono_rel [rotated]) auto
  moreover have "inj_on ?key (set ?xs)"
  proof -
    have "distinct (map cp_start_index (policies l))" using s by (simp add: strict_sorted_iff)
    then show ?thesis by (auto simp: distinct_map inj_on_def)
  qed
  ultimately have "sort_key ?key ?xs = rev ?xs" by (intro sort_key_inj_key_eq) simp_all
  then show ?thesis unfolding shutdown_order_pairs by (simp add: rev_map comp_def)
qed

text \<open>
  A supervisor shuts its children down in reverse start order: the order is a
  permutation of the children, sorted by decreasing start index, and for children registered
  in start order it is the reverse of the table.
\<close>

theorem shutdown_order_reverses:
  "mset (shutdown_order l) = mset (map cp_id (policies l)) \<and>
   (\<exists>ps. shutdown_order l = map snd ps \<and> sorted_wrt (\<lambda>p q. fst q \<le> fst p) ps \<and>
      set ps = (\<lambda>p. (cp_start_index p, cp_id p)) ` set (policies l)) \<and>
   (sorted_wrt (<) (map cp_start_index (policies l)) \<longrightarrow>
      shutdown_order l = rev (map cp_id (policies l)))"
proof -
  let ?xs = "map (\<lambda>p. (cp_start_index p, cp_id p)) (policies l)"
  let ?key = "\<lambda>p :: nat \<times> string. - int (fst p)"
  let ?ps = "sort_key ?key ?xs"
  have 1: "mset (shutdown_order l) = mset (map cp_id (policies l))"
    unfolding shutdown_order_pairs by (simp add: image_mset.compositionality comp_def)
  have "sorted (map ?key ?ps)" by (rule sorted_sort_key)
  then have 2: "sorted_wrt (\<lambda>p q. fst q \<le> fst p) ?ps"
    by (simp add: sorted_map sorted_wrt_mono_rel)
  from 1 2 shutdown_order_sorted [of l] show ?thesis
    by (auto simp: shutdown_order_pairs)
qed

theorem shutdown_order_reverses_witness:
  "shutdown_order two_children = [''b'', ''a'']"
  using shutdown_order_reverses [of two_children] by (simp add: two_children_def policies_def)

end
