(* ===== verification/Process_Groups.thy ===== *)
theory Process_Groups
  imports Links
begin

text \<open>
  Process groups (\<open>concurrency/src/pg.rs\<close>): refcounted membership of actors in scoped groups,
  the reverse index, the typed buckets used for dispatch, and the federation of membership
  between nodes. Hash maps that are iterated are association lists. The events an operation
  publishes to the peers are returned beside the new store. The name of the local node and
  the liveness of the members' handles are arguments.
\<close>

section \<open>The store\<close>

record group_key =
  gk_scope :: string
  gk_group :: string

definition DEFAULT_SCOPE :: string where
  "DEFAULT_SCOPE = ''default''"

datatype pg_error = NotJoined actor_id string string

record member =
  mb_handle :: actor_id
  mb_joins :: u32

record remote_member =
  rm_joins :: u32

type_synonym type_id = nat

record 'v pg_store =
  pg_groups :: "(group_key \<times> (actor_address \<times> member) list) list"
  pg_remote :: "(group_key \<times> (actor_address \<times> remote_member) list) list"
  pg_index :: "(actor_address \<times> group_key list) list"
  pg_typed :: "((group_key \<times> type_id) \<times> (actor_address \<times> 'v) list) list"

record pg_member_entry =
  pe_scope :: string
  pe_group :: string
  pe_address :: actor_address

datatype pg_event =
    PgJoin string string actor_address
  | PgLeave string string actor_address
  | PgSnapshot "pg_member_entry list"

definition pg_empty :: "'v pg_store" where
  "pg_empty = \<lparr>pg_groups = [], pg_remote = [], pg_index = [], pg_typed = []\<rparr>"

text \<open>\<open>entry(k).or_default()\<close>: the value at a key, empty when there is none.\<close>

definition at :: "('k \<times> 'a list) list \<Rightarrow> 'k \<Rightarrow> 'a list" where
  "at al k = (case map_of al k of None \<Rightarrow> [] | Some v \<Rightarrow> v)"

section \<open>Operations on the store\<close>

definition store_typed_join :: "type_id \<Rightarrow> group_key \<Rightarrow> actor_address \<Rightarrow> 'v \<Rightarrow> 'v pg_store \<Rightarrow> 'v pg_store" where
  "store_typed_join t k a v st =
     st\<lparr>pg_typed := AList.update (k, t) (AList.update a v (at (pg_typed st) (k, t))) (pg_typed st)\<rparr>"

definition store_typed_members :: "type_id \<Rightarrow> group_key \<Rightarrow> 'v pg_store \<Rightarrow> 'v list" where
  "store_typed_members t k st = map snd (at (pg_typed st) (k, t))"

definition remove_group_if_empty :: "group_key \<Rightarrow> 'v pg_store \<Rightarrow> 'v pg_store" where
  "remove_group_if_empty k st =
     (let local_empty = (at (pg_groups st) k = []);
          remote_empty = (at (pg_remote st) k = [])
      in if local_empty \<and> remote_empty
         then st\<lparr>pg_groups := AList.delete k (pg_groups st),
                 pg_remote := AList.delete k (pg_remote st),
                 pg_index := filter (\<lambda>(a, ks). ks \<noteq> [])
                   (map (\<lambda>(a, ks). (a, removeAll k ks)) (pg_index st)),
                 pg_typed := filter (\<lambda>((gk, t), b). if gk = k then False else b \<noteq> []) (pg_typed st)\<rparr>
         else if local_empty then st\<lparr>pg_groups := AList.delete k (pg_groups st)\<rparr>
         else if remote_empty then st\<lparr>pg_remote := AList.delete k (pg_remote st)\<rparr>
         else st)"

definition remove_remote_if_empty :: "group_key \<Rightarrow> 'v pg_store \<Rightarrow> 'v pg_store" where
  "remove_remote_if_empty k st =
     remove_group_if_empty k
       (if map_of (pg_remote st) k = Some [] then st\<lparr>pg_remote := AList.delete k (pg_remote st)\<rparr> else st)"

text \<open>\<open>if let Some(members) = map.get_mut(&key) { members.remove(&address) }\<close>\<close>

definition delete_at :: "'k \<Rightarrow> 'b \<Rightarrow> ('k \<times> ('b \<times> 'c) list) list \<Rightarrow> ('k \<times> ('b \<times> 'c) list) list" where
  "delete_at k a al =
     (case map_of al k of None \<Rightarrow> al | Some ms \<Rightarrow> AList.update k (AList.delete a ms) al)"

definition remove_from_group :: "actor_address \<Rightarrow> group_key \<Rightarrow> 'v pg_store \<Rightarrow> 'v pg_store" where
  "remove_from_group a k st =
     remove_group_if_empty k
       (st\<lparr>pg_groups := delete_at k a (pg_groups st), pg_remote := delete_at k a (pg_remote st)\<rparr>)"

definition store_remove_actor :: "actor_address \<Rightarrow> 'v pg_store \<Rightarrow> 'v pg_store" where
  "store_remove_actor a st =
     (let st1 = (case map_of (pg_index st) a of
                   None \<Rightarrow> st
                 | Some ks \<Rightarrow>
                     fold (remove_from_group a) ks (st\<lparr>pg_index := AList.delete a (pg_index st)\<rparr>))
      in st1\<lparr>pg_typed := filter (\<lambda>(_, b). b \<noteq> []) (map (\<lambda>(bk, b). (bk, AList.delete a b)) (pg_typed st1))\<rparr>)"

section \<open>Joining and leaving\<close>

definition pg_join_scoped ::
  "node_id \<Rightarrow> string \<Rightarrow> string \<Rightarrow> actor_id \<Rightarrow> 'v pg_store \<Rightarrow> pg_event list \<times> 'v pg_store" where
  "pg_join_scoped here scope grp h st =
     (let k = \<lparr>gk_scope = scope, gk_group = grp\<rparr>;
          a = address_local here h;
          ms = at (pg_groups st) k;
          m = (case map_of ms a of
                 Some m \<Rightarrow> m\<lparr>mb_joins := mb_joins m + 1\<rparr>
               | None \<Rightarrow> \<lparr>mb_handle = h, mb_joins = 1\<rparr>)
      in ([PgJoin scope grp a],
          st\<lparr>pg_groups := AList.update k (AList.update a m ms) (pg_groups st),
             pg_index := AList.update a (List.insert k (at (pg_index st) a)) (pg_index st)\<rparr>))"

definition pg_join :: "node_id \<Rightarrow> string \<Rightarrow> actor_id \<Rightarrow> 'v pg_store \<Rightarrow> pg_event list \<times> 'v pg_store" where
  "pg_join here grp h st = pg_join_scoped here DEFAULT_SCOPE grp h st"

definition drop_index :: "actor_address \<Rightarrow> group_key \<Rightarrow> (actor_address \<times> group_key list) list
    \<Rightarrow> (actor_address \<times> group_key list) list" where
  "drop_index a k ix =
     (case map_of ix a of
        None \<Rightarrow> ix
      | Some ks \<Rightarrow> if removeAll k ks = [] then AList.delete a ix else AList.update a (removeAll k ks) ix)"

definition pg_leave_scoped ::
  "node_id \<Rightarrow> string \<Rightarrow> string \<Rightarrow> actor_id \<Rightarrow> 'v pg_store \<Rightarrow> (pg_error + pg_event list) \<times> 'v pg_store" where
  "pg_leave_scoped here scope grp h st =
     (let k = \<lparr>gk_scope = scope, gk_group = grp\<rparr>;
          a = address_local here h
      in case map_of (pg_groups st) k of
           None \<Rightarrow> (Inl (NotJoined h grp scope), st)
         | Some ms \<Rightarrow>
             (case map_of ms a of
                None \<Rightarrow> (Inl (NotJoined h grp scope), st)
              | Some m \<Rightarrow>
                  if mb_joins m - 1 = 0
                  then let st1 = remove_group_if_empty k
                                   (st\<lparr>pg_groups := AList.update k (AList.delete a ms) (pg_groups st)\<rparr>);
                           st2 = st1\<lparr>pg_index := drop_index a k (pg_index st1)\<rparr>
                       in (Inr [PgLeave scope grp a],
                           st2\<lparr>pg_typed := filter (\<lambda>(_, b). b \<noteq> [])
                             (map (\<lambda>((gk, t), b). ((gk, t), if gk = k then AList.delete a b else b))
                               (pg_typed st2))\<rparr>)
                  else (Inr [],
                        st\<lparr>pg_groups := AList.update k
                           (AList.update a (m\<lparr>mb_joins := mb_joins m - 1\<rparr>) ms) (pg_groups st)\<rparr>)))"

definition pg_leave :: "node_id \<Rightarrow> string \<Rightarrow> actor_id \<Rightarrow> 'v pg_store \<Rightarrow> (pg_error + pg_event list) \<times> 'v pg_store" where
  "pg_leave here grp h st = pg_leave_scoped here DEFAULT_SCOPE grp h st"

text \<open>
  \<open>remove_actor\<close> publishes one \<open>Leave\<close> per group of the index; the removal of the actor's
  names from the named registry is in the theory of that registry.
\<close>

definition pg_remove_actor :: "node_id \<Rightarrow> actor_id \<Rightarrow> 'v pg_store \<Rightarrow> pg_event list \<times> 'v pg_store" where
  "pg_remove_actor here h st =
     (let a = address_local here h
      in (map (\<lambda>k. PgLeave (gk_scope k) (gk_group k) a) (at (pg_index st) a),
          store_remove_actor a st))"

section \<open>Queries\<close>

definition retain_alive :: "(actor_id \<Rightarrow> bool) \<Rightarrow> (actor_address \<times> member) list \<Rightarrow> (actor_address \<times> member) list" where
  "retain_alive alive = filter (\<lambda>(_, m). alive (mb_handle m))"

definition member_addresses_scoped ::
  "(actor_id \<Rightarrow> bool) \<Rightarrow> string \<Rightarrow> string \<Rightarrow> 'v pg_store \<Rightarrow> actor_address list \<times> 'v pg_store" where
  "member_addresses_scoped alive scope grp st =
     (let k = \<lparr>gk_scope = scope, gk_group = grp\<rparr>;
          st1 = (case map_of (pg_groups st) k of
                   None \<Rightarrow> st
                 | Some ms \<Rightarrow>
                     if retain_alive alive ms = [] then st\<lparr>pg_groups := AList.delete k (pg_groups st)\<rparr>
                     else st\<lparr>pg_groups := AList.update k (retain_alive alive ms) (pg_groups st)\<rparr>)
      in (map fst (at (pg_groups st1) k) @ map fst (at (pg_remote st1) k),
          remove_group_if_empty k st1))"

definition get_local_members_scoped ::
  "(actor_id \<Rightarrow> bool) \<Rightarrow> string \<Rightarrow> string \<Rightarrow> 'v pg_store \<Rightarrow> actor_id list \<times> 'v pg_store" where
  "get_local_members_scoped alive scope grp st =
     (let k = \<lparr>gk_scope = scope, gk_group = grp\<rparr>
      in case map_of (pg_groups st) k of
           None \<Rightarrow> ([], st)
         | Some ms \<Rightarrow>
             (let ms' = retain_alive alive ms;
                  st1 = st\<lparr>pg_groups := AList.update k ms' (pg_groups st)\<rparr>
              in if ms' = [] then ([], remove_group_if_empty k st1)
                 else (map (mb_handle \<circ> snd) ms', st1)))"

definition get_members_scoped ::
  "(actor_id \<Rightarrow> bool) \<Rightarrow> string \<Rightarrow> string \<Rightarrow> 'v pg_store \<Rightarrow> actor_id list \<times> 'v pg_store" where
  "get_members_scoped alive scope grp st = get_local_members_scoped alive scope grp st"

definition pg_typed_join :: "node_id \<Rightarrow> type_id \<Rightarrow> string \<Rightarrow> string \<Rightarrow> actor_id \<Rightarrow> 'v \<Rightarrow> 'v pg_store \<Rightarrow> 'v pg_store" where
  "pg_typed_join here t scope grp h v st =
     store_typed_join t \<lparr>gk_scope = scope, gk_group = grp\<rparr> (address_local here h) v st"

definition pg_typed_members :: "type_id \<Rightarrow> string \<Rightarrow> string \<Rightarrow> 'v pg_store \<Rightarrow> 'v list" where
  "pg_typed_members t scope grp st = store_typed_members t \<lparr>gk_scope = scope, gk_group = grp\<rparr> st"

section \<open>Federation\<close>

definition local_pg_snapshot :: "'v pg_store \<Rightarrow> pg_member_entry list" where
  "local_pg_snapshot st =
     concat (map (\<lambda>(k, ms). map (\<lambda>(a, _). \<lparr>pe_scope = gk_scope k, pe_group = gk_group k, pe_address = a\<rparr>) ms)
       (pg_groups st))"

definition apply_remote_join :: "node_id \<Rightarrow> string \<Rightarrow> string \<Rightarrow> actor_address \<Rightarrow> 'v pg_store \<Rightarrow> 'v pg_store" where
  "apply_remote_join here scope grp a st =
     (if is_local here a then st
      else let k = \<lparr>gk_scope = scope, gk_group = grp\<rparr>;
               ms = at (pg_remote st) k;
               m = (case map_of ms a of
                      Some m \<Rightarrow> m\<lparr>rm_joins := rm_joins m + 1\<rparr>
                    | None \<Rightarrow> \<lparr>rm_joins = 1\<rparr>)
           in st\<lparr>pg_remote := AList.update k (AList.update a m ms) (pg_remote st)\<rparr>)"

definition apply_remote_leave :: "node_id \<Rightarrow> string \<Rightarrow> string \<Rightarrow> actor_address \<Rightarrow> 'v pg_store \<Rightarrow> 'v pg_store" where
  "apply_remote_leave here scope grp a st =
     (if is_local here a then st
      else let k = \<lparr>gk_scope = scope, gk_group = grp\<rparr>
           in case map_of (pg_remote st) k of
                None \<Rightarrow> st
              | Some ms \<Rightarrow>
                  (case map_of ms a of
                     None \<Rightarrow> st
                   | Some m \<Rightarrow>
                       (let j = saturating_sub1 (rm_joins m);
                            ms' = (if j = 0 then AList.delete a ms else AList.update a (m\<lparr>rm_joins := j\<rparr>) ms)
                        in remove_remote_if_empty k (st\<lparr>pg_remote := AList.update k ms' (pg_remote st)\<rparr>))))"

fun apply_remote_pg_event :: "node_id \<Rightarrow> pg_event \<Rightarrow> 'v pg_store \<Rightarrow> 'v pg_store" where
  "apply_remote_pg_event here (PgJoin scope grp a) st = apply_remote_join here scope grp a st"
| "apply_remote_pg_event here (PgLeave scope grp a) st = apply_remote_leave here scope grp a st"
| "apply_remote_pg_event here (PgSnapshot entries) st =
     fold (\<lambda>e. apply_remote_join here (pe_scope e) (pe_group e) (pe_address e)) entries st"

section \<open>Membership as a count\<close>

text \<open>
  The abstract view of the store: how many times an address has joined a group, locally and
  as far as the peers have said. Groups that are absent and groups that are empty look alike.
\<close>

definition joins_of :: "'v pg_store \<Rightarrow> group_key \<Rightarrow> actor_address \<Rightarrow> nat" where
  "joins_of st k a = (case map_of (at (pg_groups st) k) a of None \<Rightarrow> 0 | Some m \<Rightarrow> unat (mb_joins m))"

definition remote_joins_of :: "'v pg_store \<Rightarrow> group_key \<Rightarrow> actor_address \<Rightarrow> nat" where
  "remote_joins_of st k a = (case map_of (at (pg_remote st) k) a of None \<Rightarrow> 0 | Some m \<Rightarrow> unat (rm_joins m))"

lemma at_update [simp]: "at (AList.update k v al) j = (if j = k then v else at al j)"
  by (simp add: at_def)

lemma at_delete [simp]: "at (AList.delete k al) j = (if j = k then [] else at al j)"
  by (simp add: at_def)

lemma at_None: "map_of al k = None \<Longrightarrow> at al k = []"
  by (simp add: at_def)

lemma at_Some: "map_of al k = Some v \<Longrightarrow> at al k = v"
  by (simp add: at_def)

lemma at_delete_at [simp]: "at (delete_at k a al) j = (if j = k then AList.delete a (at al k) else at al j)"
  by (simp add: delete_at_def at_def split: option.splits)

lemma remove_group_at [simp]:
  "at (pg_groups (remove_group_if_empty k st)) j = at (pg_groups st) j"
  "at (pg_remote (remove_group_if_empty k st)) j = at (pg_remote st) j"
  by (auto simp: remove_group_if_empty_def Let_def)

lemma joins_remove_group [simp]:
  "joins_of (remove_group_if_empty k st) = joins_of st"
  "remote_joins_of (remove_group_if_empty k st) = remote_joins_of st"
  by (simp_all add: joins_of_def remote_joins_of_def fun_eq_iff)

section \<open>The invariant\<close>

text \<open>
  Local members are local, remote ones are not, no count is zero, and the index knows every
  group of every address that satisfies \<open>P\<close>; the store promises it for all addresses.
\<close>

definition pg_inv_for :: "(actor_address \<Rightarrow> bool) \<Rightarrow> node_id \<Rightarrow> 'v pg_store \<Rightarrow> bool" where
  "pg_inv_for P here st \<longleftrightarrow> distinct (map fst (pg_index st)) \<and>
     (\<forall>k a m. map_of (at (pg_groups st) k) a = Some m \<longrightarrow>
        a = address_local here (mb_handle m) \<and> 0 < mb_joins m \<and> (P a \<longrightarrow> k \<in> set (at (pg_index st) a))) \<and>
     (\<forall>k a m. map_of (at (pg_remote st) k) a = Some m \<longrightarrow> \<not> is_local here a \<and> 0 < rm_joins m)"

abbreviation pg_inv :: "node_id \<Rightarrow> 'v pg_store \<Rightarrow> bool" where
  "pg_inv \<equiv> pg_inv_for (\<lambda>_. True)"

lemma pg_inv_empty: "pg_inv here pg_empty"
  by (simp add: pg_inv_for_def pg_empty_def at_def)

lemma pg_invD:
  assumes "pg_inv_for P here st"
  shows "distinct (map fst (pg_index st))"
    "map_of (at (pg_groups st) k) a = Some m \<Longrightarrow> a = address_local here (mb_handle m) \<and> 0 < mb_joins m"
    "map_of (at (pg_groups st) k) a = Some m \<Longrightarrow> P a \<Longrightarrow> k \<in> set (at (pg_index st) a)"
    "map_of (at (pg_remote st) k) a = Some r \<Longrightarrow> \<not> is_local here a \<and> 0 < rm_joins r"
  using assms unfolding pg_inv_for_def by blast+

lemma map_of_filter_distinct:
  "distinct (map fst al) \<Longrightarrow>
   map_of (filter (\<lambda>(k, v). p v) al) k = (case map_of al k of None \<Rightarrow> None | Some v \<Rightarrow> if p v then Some v else None)"
proof (induction al)
  case Nil
  then show ?case by simp
next
  case (Cons kv al)
  obtain k' v' where kv: "kv = (k', v')" by fastforce
  from Cons.prems kv have "map_of al k' = None" by (simp add: map_of_eq_None_iff)
  with Cons kv show ?case by (auto split: option.splits)
qed

lemma map_of_map_snd: "map_of (map (\<lambda>(k, v). (k, f v)) al) k = map_option f (map_of al k)"
  by (induction al) auto

lemma distinct_map_values:
  "distinct (map fst (map (\<lambda>(k, v). (k, f v)) al)) = distinct (map fst al)"
  by (simp add: comp_def case_prod_beta)

lemma at_prune_index:
  assumes "distinct (map fst ix)"
  shows "at (filter (\<lambda>(a, ks). ks \<noteq> []) (map (\<lambda>(a, ks). (a, removeAll k ks)) ix)) a = removeAll k (at ix a)"
proof -
  have "distinct (map fst (map (\<lambda>(a, ks). (a, removeAll k ks)) ix))"
    using assms by (simp only: distinct_map_values)
  from map_of_filter_distinct [OF this, of "\<lambda>ks. ks \<noteq> []" a] show ?thesis
    unfolding at_def map_of_map_snd by (cases "map_of ix a") simp_all
qed

lemma distinct_prune_index:
  assumes "distinct (map fst ix)"
  shows "distinct (map fst (filter (\<lambda>(a, ks). ks \<noteq> []) (map (\<lambda>(a, ks). (a, removeAll k ks)) ix)))"
  by (rule distinct_map_filter) (simp only: distinct_map_values assms)

lemma inv_remove_group [inv_rules]:
  assumes inv: "pg_inv_for P here st"
  shows "pg_inv_for P here (remove_group_if_empty k st)"
proof -
  let ?st = "remove_group_if_empty k st"
  have dist: "distinct (map fst (pg_index ?st))"
    using pg_invD(1) [OF inv] distinct_prune_index [of "pg_index st" k]
    by (simp add: remove_group_if_empty_def Let_def)
  have ix: "j \<in> set (at (pg_index ?st) a)"
    if "j \<in> set (at (pg_index st) a)" "at (pg_groups st) j \<noteq> []" for j a
    using that at_prune_index [OF pg_invD(1) [OF inv], of k a]
    by (auto simp: remove_group_if_empty_def Let_def)
  have "j \<in> set (at (pg_index ?st) a)" if "map_of (at (pg_groups st) j) a = Some m" "P a" for j a m
    using ix [of j a] that pg_invD(3) [OF inv, of j a m] by (cases "at (pg_groups st) j") auto
  with dist inv show ?thesis by (simp add: pg_inv_for_def)
qed

text \<open>Dropping members keeps the invariant.\<close>

lemma inv_shrink:
  assumes inv: "pg_inv_for P here st"
    and "\<And>k. map_of (at gs k) \<subseteq>\<^sub>m map_of (at (pg_groups st) k)"
    and "\<And>k. map_of (at rs k) \<subseteq>\<^sub>m map_of (at (pg_remote st) k)"
  shows "pg_inv_for P here (st\<lparr>pg_groups := gs, pg_remote := rs\<rparr>)"
proof -
  have "map_of (at (pg_groups st) k) a = Some m" if "map_of (at gs k) a = Some m" for k a m
    using assms(2) [of k] that by (force simp: map_le_def)
  moreover have "map_of (at (pg_remote st) k) a = Some m" if "map_of (at rs k) a = Some m" for k a m
    using assms(3) [of k] that by (force simp: map_le_def)
  ultimately show ?thesis using inv unfolding pg_inv_for_def by simp blast
qed

lemma map_of_delete_le: "map_of (AList.delete a ms) \<subseteq>\<^sub>m map_of ms"
  by (simp add: map_le_def)

lemma inv_remove_from_group [inv_rules]:
  assumes inv: "pg_inv_for P here st"
  shows "pg_inv_for P here (remove_from_group a k st)"
  unfolding remove_from_group_def
  by (intro inv_remove_group inv_shrink inv) (simp_all add: map_of_delete_le)

lemma inv_fold_remove [inv_rules]:
  "pg_inv_for P here st \<Longrightarrow> pg_inv_for P here (fold (remove_from_group a) ks st)"
  by (induction ks arbitrary: st) (simp_all add: inv_remove_from_group)

lemma at_fold_remove:
  "at (pg_groups (fold (remove_from_group a) ks st)) k =
     (if k \<in> set ks then AList.delete a (at (pg_groups st) k) else at (pg_groups st) k)"
  "at (pg_remote (fold (remove_from_group a) ks st)) k =
     (if k \<in> set ks then AList.delete a (at (pg_remote st) k) else at (pg_remote st) k)"
  by (induction ks arbitrary: st) (auto simp: remove_from_group_def delete_idem)

lemma inv_typed [simp]: "pg_inv_for P here (st\<lparr>pg_typed := ty\<rparr>) = pg_inv_for P here st"
  by (simp add: pg_inv_for_def)

lemma inv_drop_index_of:
  assumes inv: "pg_inv here st"
  shows "pg_inv_for (\<lambda>b. b \<noteq> a) here (st\<lparr>pg_index := AList.delete a (pg_index st)\<rparr>)"
  using inv unfolding pg_inv_for_def by simp

lemma store_remove_actor_at:
  assumes inv: "pg_inv here st"
  shows "at (pg_groups (store_remove_actor a st)) k =
      (if k \<in> set (at (pg_index st) a) then AList.delete a (at (pg_groups st) k) else at (pg_groups st) k)"
    and "at (pg_remote (store_remove_actor a st)) k =
      (if k \<in> set (at (pg_index st) a) then AList.delete a (at (pg_remote st) k) else at (pg_remote st) k)"
  by (cases "map_of (pg_index st) a";
      simp add: store_remove_actor_def Let_def at_fold_remove at_None at_Some)+

lemma inv_remove_actor [inv_rules]:
  assumes inv: "pg_inv here st"
  shows "pg_inv here (store_remove_actor a st)"
proof -
  let ?st = "store_remove_actor a st"
  have "pg_inv_for (\<lambda>b. b \<noteq> a) here ?st"
  proof (cases "map_of (pg_index st) a")
    case None
    with inv show ?thesis by (simp add: store_remove_actor_def Let_def) (simp add: pg_inv_for_def)
  next
    case (Some ks)
    then show ?thesis
      using inv_fold_remove [OF inv_drop_index_of [OF inv, of a]] by (simp add: store_remove_actor_def Let_def)
  qed
  moreover have "map_of (at (pg_groups ?st) k) a = None" for k
    using pg_invD(3) [OF inv, of k a] store_remove_actor_at(1) [OF inv, of a k]
    by (cases "map_of (at (pg_groups st) k) a") auto
  ultimately show ?thesis unfolding pg_inv_for_def by (metis option.distinct(1))
qed

lemma at_index_join:
  "at (pg_index (snd (pg_join_scoped here scope grp h st))) a =
     (if a = address_local here h
      then List.insert \<lparr>gk_scope = scope, gk_group = grp\<rparr> (at (pg_index st) a) else at (pg_index st) a)"
  by (simp add: pg_join_scoped_def Let_def)

lemma unat_plus1_u32: "unat (x :: u32) < 2 ^ 32 - 1 \<Longrightarrow> unat (x + 1) = Suc (unat x)"
  by (simp add: unat_word_ariths)

lemma unat_minus1_u32: "0 < (x :: u32) \<Longrightarrow> unat (x - 1) = unat x - 1"
  by (simp add: unat_minus_one word_gt_0)

lemma joins_join:
  assumes "joins_of st \<lparr>gk_scope = scope, gk_group = grp\<rparr> (address_local here h) < 2 ^ 32 - 1"
  shows "joins_of (snd (pg_join_scoped here scope grp h st)) k a =
    joins_of st k a + (if k = \<lparr>gk_scope = scope, gk_group = grp\<rparr> \<and> a = address_local here h then 1 else 0)"
  using assms unat_plus1_u32
  by (auto simp: joins_of_def pg_join_scoped_def Let_def split: option.splits)

lemma inv_join [inv_rules]:
  assumes inv: "pg_inv here st"
    and room: "joins_of st \<lparr>gk_scope = scope, gk_group = grp\<rparr> (address_local here h) < 2 ^ 32 - 1"
  shows "pg_inv here (snd (pg_join_scoped here scope grp h st))"
proof -
  let ?k = "\<lparr>gk_scope = scope, gk_group = grp\<rparr>" and ?a = "address_local here h"
  have pos: "0 < mb_joins m + 1" if "map_of (at (pg_groups st) ?k) ?a = Some m" for m
    using room that unat_plus1_u32 [of "mb_joins m"] by (simp add: joins_of_def word_less_nat_alt)
  have "mb_handle m = h" if "map_of (at (pg_groups st) ?k) ?a = Some m" for m
    using pg_invD(2) [OF inv that] by (simp add: address_local_def)
  with pos inv show ?thesis
    by (auto simp: pg_inv_for_def pg_join_scoped_def Let_def distinct_update split: option.splits if_splits)
qed

section \<open>Leaving\<close>

lemma at_drop_index:
  "at (drop_index a k ix) b = (if b = a then removeAll k (at ix a) else at ix b)"
  by (auto simp: drop_index_def at_def split: option.splits)

lemma distinct_drop_index: "distinct (map fst ix) \<Longrightarrow> distinct (map fst (drop_index a k ix))"
  by (auto simp: drop_index_def distinct_update split: option.splits)

lemma leave_not_joined:
  assumes inv: "pg_inv here st"
    and "joins_of st \<lparr>gk_scope = scope, gk_group = grp\<rparr> (address_local here h) = 0"
  shows "pg_leave_scoped here scope grp h st = (Inl (NotJoined h grp scope), st)"
proof -
  let ?k = "\<lparr>gk_scope = scope, gk_group = grp\<rparr>" and ?a = "address_local here h"
  have "map_of (at (pg_groups st) ?k) ?a = None"
  proof (rule ccontr)
    assume "map_of (at (pg_groups st) ?k) ?a \<noteq> None"
    then obtain m where m: "map_of (at (pg_groups st) ?k) ?a = Some m" by auto
    with pg_invD(2) [OF inv m] assms(2) show False by (simp add: joins_of_def word_less_nat_alt)
  qed
  then show ?thesis
    by (auto simp: pg_leave_scoped_def Let_def at_def split: option.splits)
qed

lemma leave_joined:
  assumes inv: "pg_inv here st"
    and pos: "0 < joins_of st \<lparr>gk_scope = scope, gk_group = grp\<rparr> (address_local here h)"
  shows "\<exists>ev st'. pg_leave_scoped here scope grp h st = (Inr ev, st') \<and>
    (\<forall>k a. joins_of st' k a = joins_of st k a -
       (if k = \<lparr>gk_scope = scope, gk_group = grp\<rparr> \<and> a = address_local here h then 1 else 0)) \<and>
    ev = (if joins_of st \<lparr>gk_scope = scope, gk_group = grp\<rparr> (address_local here h) = 1
          then [PgLeave scope grp (address_local here h)] else []) \<and> pg_inv here st'"
proof -
  let ?k = "\<lparr>gk_scope = scope, gk_group = grp\<rparr>" and ?a = "address_local here h"
  obtain m where m: "map_of (at (pg_groups st) ?k) ?a = Some m"
    using pos by (auto simp: joins_of_def split: option.splits)
  then obtain ms where ms: "map_of (pg_groups st) ?k = Some ms" "map_of ms ?a = Some m"
    by (auto simp: at_def split: option.splits)
  have at: "at (pg_groups st) ?k = ms" using ms(1) by (rule at_Some)
  have m0: "0 < mb_joins m" using pg_invD(2) [OF inv m] by blast
  have j: "joins_of st ?k ?a = unat (mb_joins m)" by (simp add: joins_of_def m)
  show ?thesis
  proof (cases "mb_joins m = 1")
    case True
    let ?st1 = "remove_group_if_empty ?k (st\<lparr>pg_groups := AList.update ?k (AList.delete ?a ms) (pg_groups st)\<rparr>)"
    let ?st' = "snd (pg_leave_scoped here scope grp h st)"
    have res: "pg_leave_scoped here scope grp h st = (Inr [PgLeave scope grp ?a], ?st')"
      by (simp add: pg_leave_scoped_def Let_def ms True)
    have groups: "at (pg_groups ?st') k = (if k = ?k then AList.delete ?a ms else at (pg_groups st) k)"
      "at (pg_remote ?st') k = at (pg_remote st) k" for k
      by (simp_all add: pg_leave_scoped_def Let_def ms True)
    have "pg_inv here (st\<lparr>pg_groups := AList.update ?k (AList.delete ?a ms) (pg_groups st), pg_remote := pg_remote st\<rparr>)"
      by (intro inv_shrink inv) (simp_all add: at map_of_delete_le)
    then have inv1: "pg_inv here ?st1" by (intro inv_remove_group) simp
    then have "pg_inv here ?st'"
      by (auto simp: pg_leave_scoped_def Let_def ms True pg_inv_for_def at_drop_index distinct_drop_index)
    moreover have "joins_of ?st' k a = joins_of st k a - (if k = ?k \<and> a = ?a then 1 else 0)" for k a
      using True by (auto simp: joins_of_def groups at ms(2))
    ultimately show ?thesis using res j True by auto
  next
    case False
    then have "mb_joins m - 1 \<noteq> 0" by simp
    let ?m = "m\<lparr>mb_joins := mb_joins m - 1\<rparr>"
    let ?st' = "st\<lparr>pg_groups := AList.update ?k (AList.update ?a ?m ms) (pg_groups st)\<rparr>"
    have res: "pg_leave_scoped here scope grp h st = (Inr [], ?st')"
      using \<open>mb_joins m - 1 \<noteq> 0\<close> by (simp add: pg_leave_scoped_def Let_def ms)
    have "unat (mb_joins m) \<noteq> 1" using False by (metis unat_1 unsigned_word_eqI)
    then have pos': "0 < mb_joins m - 1"
      using m0 unat_minus1_u32 [OF m0] by (simp add: word_less_nat_alt)
    have "pg_inv here ?st'"
      using inv pos' pg_invD(2,3) [OF inv m] pg_invD(2,3) [OF inv, of ?k, unfolded at]
      unfolding pg_inv_for_def by (auto split: if_splits)
    moreover have "joins_of ?st' k a = joins_of st k a - (if k = ?k \<and> a = ?a then 1 else 0)" for k a
      using unat_minus1_u32 [OF m0] by (auto simp: joins_of_def at ms(2))
    ultimately show ?thesis using res j \<open>unat (mb_joins m) \<noteq> 1\<close> by auto
  qed
qed

section \<open>Queries and federation keep the invariant\<close>

lemma map_of_filter_le:
  "distinct (map fst ms) \<Longrightarrow> map_of (filter (\<lambda>(_, m). p m) ms) \<subseteq>\<^sub>m map_of ms"
  by (auto simp: map_le_def map_of_filter_distinct split: option.splits if_splits)

lemma remote_joins_join:
  assumes "\<not> is_local here a"
    and "remote_joins_of st \<lparr>gk_scope = scope, gk_group = grp\<rparr> a < 2 ^ 32 - 1"
  shows "remote_joins_of (apply_remote_join here scope grp a st) k b =
    remote_joins_of st k b + (if k = \<lparr>gk_scope = scope, gk_group = grp\<rparr> \<and> b = a then 1 else 0)"
  using assms unat_plus1_u32
  by (auto simp: remote_joins_of_def apply_remote_join_def Let_def split: option.splits)

lemma remove_remote_at [simp]: "at (pg_remote (remove_remote_if_empty k st)) j = at (pg_remote st) j"
  by (auto simp: remove_remote_if_empty_def at_Some)

lemma remote_joins_leave:
  assumes "\<not> is_local here a"
  shows "remote_joins_of (apply_remote_leave here scope grp a st) k b =
    remote_joins_of st k b - (if k = \<lparr>gk_scope = scope, gk_group = grp\<rparr> \<and> b = a then 1 else 0)"
proof -
  let ?k = "\<lparr>gk_scope = scope, gk_group = grp\<rparr>"
  have z: "unat (saturating_sub1 j) = 0" if "saturating_sub1 j = 0" for j using that by simp
  show ?thesis
  proof (cases "map_of (at (pg_remote st) ?k) a")
    case None
    then have "apply_remote_leave here scope grp a st = st"
      by (auto simp: apply_remote_leave_def Let_def at_def split: option.splits)
    with None show ?thesis by (simp add: remote_joins_of_def)
  next
    case (Some m)
    then obtain ms where ms: "map_of (pg_remote st) ?k = Some ms" "map_of ms a = Some m"
      by (auto simp: at_def split: option.splits)
    with assms z [of "rm_joins m"] unat_saturating_sub1 [of "rm_joins m"] at_Some [OF ms(1)] show ?thesis
      by (auto simp: remote_joins_of_def apply_remote_leave_def Let_def)
  qed
qed

section \<open>Properties\<close>

text \<open>
  C22. Process group membership is a counter per group and actor. From a store that satisfies
  the invariant, joining adds one to the counter of that actor in that group and to nothing
  else; leaving subtracts one, announces the departure exactly when the counter reaches zero,
  and fails with \<open>NotJoined\<close>, changing nothing, exactly when the actor is not a member;
  when an actor exits its counters all drop to zero and no other counter moves.
\<close>

theorem pg_membership_counts:
  assumes inv: "pg_inv here st"
    and room: "\<forall>k a. joins_of st k a < 2 ^ 32 - 1"
    and k: "k = \<lparr>gk_scope = scope, gk_group = grp\<rparr>" and a: "a = address_local here h"
  shows "(joins_of (snd (pg_join_scoped here scope grp h st)) =
        (joins_of st)(k := (joins_of st k)(a := joins_of st k a + 1)) \<and>
      pg_inv here (snd (pg_join_scoped here scope grp h st))) \<and>
    (joins_of st k a = 0 \<longrightarrow> pg_leave_scoped here scope grp h st = (Inl (NotJoined h grp scope), st)) \<and>
    (0 < joins_of st k a \<longrightarrow> (\<exists>st'. pg_leave_scoped here scope grp h st =
        (Inr (if joins_of st k a = 1 then [PgLeave scope grp a] else []), st') \<and> pg_inv here st' \<and>
        joins_of st' = (joins_of st)(k := (joins_of st k)(a := joins_of st k a - 1)))) \<and>
    joins_of (snd (pg_remove_actor here h st)) = (\<lambda>j. (joins_of st j)(a := 0)) \<and>
    pg_inv here (snd (pg_remove_actor here h st))"
proof -
  have 1: "joins_of (snd (pg_join_scoped here scope grp h st)) =
      (joins_of st)(k := (joins_of st k)(a := joins_of st k a + 1))"
    using joins_join [of st scope grp here h] room by (auto simp: fun_eq_iff k a)
  have 2: "pg_inv here (snd (pg_join_scoped here scope grp h st))"
    using inv_join [OF inv] room by simp
  have 3: "\<exists>st'. pg_leave_scoped here scope grp h st =
        (Inr (if joins_of st k a = 1 then [PgLeave scope grp a] else []), st') \<and> pg_inv here st' \<and>
        joins_of st' = (joins_of st)(k := (joins_of st k)(a := joins_of st k a - 1))"
    if "0 < joins_of st k a"
    using leave_joined [OF inv, of scope grp h] that by (auto simp: fun_eq_iff k a)
  have 4: "joins_of (snd (pg_remove_actor here h st)) j b = ((joins_of st j)(a := 0)) b" for j b
    using store_remove_actor_at(1) [OF inv, of a j] pg_invD(3) [OF inv, of j a]
    by (cases "map_of (at (pg_groups st) j) a")
       (auto simp: pg_remove_actor_def Let_def joins_of_def simp flip: a)
  have 5: "pg_inv here (snd (pg_remove_actor here h st))"
    using inv_remove_actor [OF inv] by (simp add: pg_remove_actor_def Let_def)
  show ?thesis
    using 1 2 3 4 5 leave_not_joined [OF inv, of scope grp h] unfolding k a by (simp add: fun_eq_iff)
qed

theorem pg_membership_counts_witness:
  "let st = (pg_empty :: nat pg_store); k = \<lparr>gk_scope = ''s'', gk_group = ''g''\<rparr>;
       a = address_local (NodeId ''n'') (ActorId 1)
   in joins_of (snd (pg_join_scoped (NodeId ''n'') ''s'' ''g'' (ActorId 1) st)) k a = 1 \<and>
      pg_leave_scoped (NodeId ''n'') ''s'' ''g'' (ActorId 1) st = (Inl (NotJoined (ActorId 1) ''g'' ''s''), st)"
proof -
  have z: "joins_of (pg_empty :: nat pg_store) k a = 0" for k a
    by (simp add: joins_of_def pg_empty_def at_def)
  have inv: "pg_inv (NodeId ''n'') (pg_empty :: nat pg_store)" by (rule pg_inv_empty)
  show ?thesis
    using pg_membership_counts [OF inv _ refl refl, of "''s''" "''g''" "ActorId 1"]
    by (simp add: Let_def z)
qed

text \<open>
  C40. A peer does not keep the same count: every join is announced but only the last leave
  is, so after an actor has joined a group twice and left it twice, the peer that applied the
  announcements still lists it as a member.
\<close>

theorem federated_double_join_never_leaves:
  assumes inv: "pg_inv here st" and out: "joins_of st k a = 0"
    and k: "k = \<lparr>gk_scope = scope, gk_group = grp\<rparr>" and a: "a = address_local here h"
    and peer: "there \<noteq> here" "remote_joins_of ps k a = 0"
    and s1: "pg_join_scoped here scope grp h st = (e1, st1)"
    and s2: "pg_join_scoped here scope grp h st1 = (e2, st2)"
    and s3: "pg_leave_scoped here scope grp h st2 = (Inr e3, st3)"
    and s4: "pg_leave_scoped here scope grp h st3 = (Inr e4, st4)"
  shows "joins_of st4 k a = 0 \<and>
    remote_joins_of (fold (apply_remote_pg_event there) (e1 @ e2 @ e3 @ e4) ps) k a = 1"
proof -
  have e12: "e1 = [PgJoin scope grp a]" "e2 = [PgJoin scope grp a]"
    using s1 s2 by (auto simp: pg_join_scoped_def Let_def a)
  have st1: "st1 = snd (pg_join_scoped here scope grp h st)" and st2: "st2 = snd (pg_join_scoped here scope grp h st1)"
    using s1 s2 by simp_all
  have j1: "joins_of st1 k a = 1" "pg_inv here st1"
    using joins_join [of st scope grp here h k a] inv_join [OF inv, of scope grp h] out
    by (simp_all add: st1 k a)
  have j2: "joins_of st2 k a = 2" "pg_inv here st2"
    using joins_join [of st1 scope grp here h k a] inv_join [OF j1(2), of scope grp h] j1
    by (simp_all add: st2 k a)
  have j3: "e3 = []" "joins_of st3 k a = 1" "pg_inv here st3"
    using leave_joined [OF j2(2), of scope grp h] j2(1) s3 by (auto simp: k a)
  have j4: "e4 = [PgLeave scope grp a]" "joins_of st4 k a = 0"
    using leave_joined [OF j3(3), of scope grp h] j3(2) s4 by (auto simp: k a)
  have rem: "\<not> is_local there a" using peer(1) by (simp add: is_local_def a address_local_def)
  have "remote_joins_of (apply_remote_join there scope grp a ps) k a = 1"
    using remote_joins_join [OF rem, of ps scope grp k a] peer(2) k by simp
  then have "remote_joins_of (apply_remote_join there scope grp a (apply_remote_join there scope grp a ps)) k a = 2"
    using remote_joins_join [OF rem, of "apply_remote_join there scope grp a ps" scope grp k a] k by simp
  then have "remote_joins_of (apply_remote_leave there scope grp a
      (apply_remote_join there scope grp a (apply_remote_join there scope grp a ps))) k a = 1"
    by (simp add: remote_joins_leave [OF rem] k)
  with j4 show ?thesis by (simp add: e12 j3(1))
qed

theorem federated_double_join_never_leaves_witness:
  "\<exists>st1 st2 st3 st4 e1 e2 e3 e4.
     pg_join_scoped (NodeId ''n'') ''s'' ''g'' (ActorId 1) (pg_empty :: nat pg_store) = (e1, st1) \<and>
     pg_join_scoped (NodeId ''n'') ''s'' ''g'' (ActorId 1) st1 = (e2, st2) \<and>
     pg_leave_scoped (NodeId ''n'') ''s'' ''g'' (ActorId 1) st2 = (Inr e3, st3) \<and>
     pg_leave_scoped (NodeId ''n'') ''s'' ''g'' (ActorId 1) st3 = (Inr e4, st4) \<and>
     remote_joins_of (fold (apply_remote_pg_event (NodeId ''m'')) (e1 @ e2 @ e3 @ e4) (pg_empty :: nat pg_store))
       \<lparr>gk_scope = ''s'', gk_group = ''g''\<rparr> (address_local (NodeId ''n'') (ActorId 1)) = 1"
proof -
  let ?k = "\<lparr>gk_scope = ''s'', gk_group = ''g''\<rparr>" and ?a = "address_local (NodeId ''n'') (ActorId 1)"
  let ?join = "pg_join_scoped (NodeId ''n'') ''s'' ''g'' (ActorId 1) :: nat pg_store \<Rightarrow> _"
  let ?leave = "pg_leave_scoped (NodeId ''n'') ''s'' ''g'' (ActorId 1) :: nat pg_store \<Rightarrow> _"
  have z: "joins_of (pg_empty :: nat pg_store) k a = 0" "remote_joins_of (pg_empty :: nat pg_store) k a = 0" for k a
    by (simp_all add: joins_of_def remote_joins_of_def pg_empty_def at_def)
  have inv: "pg_inv (NodeId ''n'') (pg_empty :: nat pg_store)" by (rule pg_inv_empty)
  obtain e1 st1 where 1: "?join pg_empty = (e1, st1)" by fastforce
  obtain e2 st2 where 2: "?join st1 = (e2, st2)" by fastforce
  have i1: "pg_inv (NodeId ''n'') st1" "joins_of st1 ?k ?a = 1"
    using inv_join [OF inv, of "''s''" "''g''" "ActorId 1"]
      joins_join [of "pg_empty :: nat pg_store" "''s''" "''g''" "NodeId ''n''" "ActorId 1" ?k ?a] 1 z by (simp_all)
  have i2: "pg_inv (NodeId ''n'') st2" "joins_of st2 ?k ?a = 2"
    using inv_join [OF i1(1), of "''s''" "''g''" "ActorId 1"]
      joins_join [of st1 "''s''" "''g''" "NodeId ''n''" "ActorId 1" ?k ?a] 2 i1(2) by (simp_all)
  obtain e3 st3 where 3: "?leave st2 = (Inr e3, st3)" "pg_inv (NodeId ''n'') st3" "joins_of st3 ?k ?a = 1"
    using leave_joined [OF i2(1), of "''s''" "''g''" "ActorId 1"] i2(2) by auto
  obtain e4 st4 where 4: "?leave st3 = (Inr e4, st4)"
    using leave_joined [OF 3(2), of "''s''" "''g''" "ActorId 1"] 3(3) by auto
  have "NodeId ''m'' \<noteq> NodeId ''n''" by simp
  from federated_double_join_never_leaves [OF inv z(1) refl refl this z(2) 1 2 3(1) 4] 1 2 3(1) 4
  show ?thesis by blast
qed

end
