(* ===== verification/Protocol.thy ===== *)
theory Protocol
  imports Child_Spec
begin

text \<open>
  The data that crosses the network: message envelopes (\<open>wire/src/lib.rs\<close>), supervision
  events and envelopes (\<open>cluster/src/protocol.rs\<close>), their validation
  (\<open>cluster/src/supervision_validate.rs\<close>, \<open>supervision_sync.rs\<close>), their routing and the
  conversion of exit reasons (\<open>concurrency/src/cluster/supervision_routing.rs\<close>,
  \<open>supervision_exit.rs\<close>). The serializer (the \<open>postcard\<close> crate) is a parameter: a pair of
  functions that may fail with a text. A message built by \<open>format!\<close> is a constructor that
  carries what is formatted.
\<close>

section \<open>Messages on the wire\<close>

type_synonym bytes = "u8 list"
type_synonym 'a ser = "'a \<Rightarrow> string + bytes"
type_synonym 'a de = "bytes \<Rightarrow> string + 'a"

record wire_envelope =
  we_to :: actor_address
  we_remote_msg_id :: string
  we_payload :: bytes
  we_correlation_id :: u64

datatype wire_error = WireEncode string | WireDecode string | MessageIdMismatch string string

definition encode_payload :: "'m ser \<Rightarrow> 'm \<Rightarrow> wire_error + bytes" where
  "encode_payload ser m = map_sum WireEncode id (ser m)"

definition decode_payload :: "string \<Rightarrow> 'm de \<Rightarrow> wire_envelope \<Rightarrow> wire_error + 'm" where
  "decode_payload remote_id de env =
     (if we_remote_msg_id env \<noteq> remote_id
      then Inl (MessageIdMismatch remote_id (we_remote_msg_id env))
      else map_sum WireDecode id (de (we_payload env)))"

definition fire_and_forget :: "string \<Rightarrow> 'm ser \<Rightarrow> actor_address \<Rightarrow> 'm \<Rightarrow> wire_error + wire_envelope" where
  "fire_and_forget remote_id ser dest m =
     (case encode_payload ser m of
        Inl e \<Rightarrow> Inl e
      | Inr p \<Rightarrow> Inr \<lparr>we_to = dest, we_remote_msg_id = remote_id, we_payload = p, we_correlation_id = 0\<rparr>)"

definition wire_request ::
  "string \<Rightarrow> 'm ser \<Rightarrow> actor_address \<Rightarrow> 'm \<Rightarrow> u64 \<Rightarrow> wire_error + wire_envelope" where
  "wire_request remote_id ser dest m cid =
     (case encode_payload ser m of
        Inl e \<Rightarrow> Inl e
      | Inr p \<Rightarrow> Inr \<lparr>we_to = dest, we_remote_msg_id = remote_id, we_payload = p, we_correlation_id = cid\<rparr>)"

definition encode_envelope :: "wire_envelope ser \<Rightarrow> wire_envelope \<Rightarrow> wire_error + bytes" where
  "encode_envelope ser env = map_sum WireEncode id (ser env)"

definition decode_envelope :: "wire_envelope de \<Rightarrow> bytes \<Rightarrow> wire_error + wire_envelope" where
  "decode_envelope de bs = map_sum WireDecode id (de bs)"

definition encode_reply :: "'r ser \<Rightarrow> 'r \<Rightarrow> wire_error + bytes" where
  "encode_reply ser v = map_sum WireEncode id (ser v)"

definition decode_reply :: "'r de \<Rightarrow> bytes \<Rightarrow> wire_error + 'r" where
  "decode_reply de bs = map_sum WireDecode id (de bs)"

section \<open>Supervision events\<close>

definition PROTOCOL_VERSION :: u32 where
  "PROTOCOL_VERSION = 3"

definition MAX_REMOTE_SPAWN_INIT_BYTES :: nat where
  "MAX_REMOTE_SPAWN_INIT_BYTES = 64 * 1024"

record handshake =
  hs_version :: u32
  hs_node :: node_id

definition handshake_local :: "node_id \<Rightarrow> handshake" where
  "handshake_local n = \<lparr>hs_version = PROTOCOL_VERSION, hs_node = n\<rparr>"

datatype wire_exit_reason = WNormal | WShutdown | WPanic string | WKill

datatype wire_restart_type = WPermanent | WTransient | WTemporary

record remote_spec_overrides =
  ro_restart :: "wire_restart_type option"
  ro_pg_scope :: "string option"
  ro_pg_group :: "string option"

datatype remote_spawn_spec =
    WorkerSpec (worker_type: string) (worker_init: bytes)
  | NamedSpec string remote_spec_overrides

datatype supervision_signal = SigStop | SigShutdown | SigKill

datatype supervision_event =
    SpawnRequest actor_address node_id remote_spawn_spec bool
  | SpawnOk actor_address
  | SpawnErr string
  | SignalEv actor_address supervision_signal
  | ChildExit actor_address actor_address wire_exit_reason
  | DownEv actor_address u64 actor_address wire_exit_reason
  | MonitorEv actor_address actor_address u64
  | DemonitorEv actor_address actor_address u64
  | LinkEv actor_address actor_address
  | UnlinkEv actor_address actor_address

record supervision_envelope =
  se_correlation_id :: u64
  se_event :: supervision_event

datatype protocol_text =
    NeedsCorrelation supervision_event
  | ForbidsCorrelation supervision_event
  | InitTooLarge nat
  | CorrelationMismatch u64 u64
  | InvalidReplyFor supervision_event supervision_event
  | NotOnThisNode string node_id node_id
  | NeitherOnThisNode node_id node_id node_id
  | HandleMismatch actor_id actor_id
  | FrameTooLarge nat
  | UnsupportedVersion u32
  | NoHandlerFor actor_address
  | NoHandlerAccepted string actor_address
  | UnexpectedTarget actor_address
  | UnknownLocalActor string actor_id
  | ProtocolText string

datatype transport_error =
    TeRemoteUnreachable
  | TeWire wire_error
  | TeIo string
  | TeProtocol protocol_text

section \<open>Validation\<close>

fun requires_correlation :: "supervision_event \<Rightarrow> bool" where
  "requires_correlation (SpawnRequest _ _ _ _) = True"
| "requires_correlation (SpawnOk _) = True"
| "requires_correlation (SpawnErr _) = True"
| "requires_correlation _ = False"

fun validate_spawn_spec :: "remote_spawn_spec \<Rightarrow> transport_error + unit" where
  "validate_spawn_spec (WorkerSpec _ ini) =
     (if length ini > MAX_REMOTE_SPAWN_INIT_BYTES
      then Inl (TeProtocol (InitTooLarge (length ini))) else Inr ())"
| "validate_spawn_spec (NamedSpec _ _) = Inr ()"

definition validate_envelope :: "supervision_envelope \<Rightarrow> transport_error + unit" where
  "validate_envelope env =
     (if requires_correlation (se_event env) \<and> se_correlation_id env = 0
      then Inl (TeProtocol (NeedsCorrelation (se_event env)))
      else if \<not> requires_correlation (se_event env) \<and> se_correlation_id env \<noteq> 0
      then Inl (TeProtocol (ForbidsCorrelation (se_event env)))
      else case se_event env of
             SpawnRequest _ _ spec _ \<Rightarrow> validate_spawn_spec spec
           | _ \<Rightarrow> Inr ())"

definition validate_reply :: "supervision_envelope \<Rightarrow> supervision_envelope \<Rightarrow> transport_error + unit" where
  "validate_reply request reply =
     (case validate_envelope reply of
        Inl e \<Rightarrow> Inl e
      | Inr _ \<Rightarrow>
          if se_correlation_id reply \<noteq> se_correlation_id request
          then Inl (TeProtocol (CorrelationMismatch (se_correlation_id request) (se_correlation_id reply)))
          else (case (se_event request, se_event reply) of
                  (SpawnRequest _ _ _ _, SpawnOk _) \<Rightarrow> Inr ()
                | (SpawnRequest _ _ _ _, SpawnErr _) \<Rightarrow> Inr ()
                | (rq, rp) \<Rightarrow> Inl (TeProtocol (InvalidReplyFor rp rq))))"

text \<open>An inbound hook acts on the state \<open>'s\<close> of the node; it may wait for ever or panic.\<close>

type_synonym 's supervision_hook =
  "supervision_envelope \<Rightarrow> 's \<Rightarrow> ((transport_error + supervision_envelope option) \<times> 's) run"

definition apply_supervision ::
  "'s supervision_hook option \<Rightarrow> supervision_envelope \<Rightarrow> 's
    \<Rightarrow> ((transport_error + supervision_envelope option) \<times> 's) run" where
  "apply_supervision hooks env s =
     (case validate_envelope env of
        Inl e \<Rightarrow> Returns (Inl e, s)
      | Inr _ \<Rightarrow> (case hooks of Some inbound \<Rightarrow> inbound env s | None \<Rightarrow> Returns (Inr None, s)))"

definition stub_supervision_hooks :: "'s supervision_hook" where
  "stub_supervision_hooks env s =
     (case validate_envelope env of
        Inl e \<Rightarrow> Returns (Inl e, s)
      | Inr _ \<Rightarrow>
          (case se_event env of
             SpawnRequest _ _ _ _ \<Rightarrow>
               Returns (Inr (Some \<lparr>se_correlation_id = se_correlation_id env,
                          se_event = SpawnErr ''supervision broker not running''\<rparr>), s)
           | _ \<Rightarrow> Returns (Inr None, s)))"

definition decode_supervision_reply ::
  "supervision_envelope de \<Rightarrow> supervision_envelope \<Rightarrow> bytes \<Rightarrow> transport_error + supervision_envelope" where
  "decode_supervision_reply de request bs =
     (case de bs of
        Inl e \<Rightarrow> Inl (TeProtocol (ProtocolText e))
      | Inr reply \<Rightarrow> (case validate_reply request reply of Inl e \<Rightarrow> Inl e | Inr _ \<Rightarrow> Inr reply))"

section \<open>Routing and exit reasons\<close>

fun route_node :: "supervision_event \<Rightarrow> node_id option" where
  "route_node (SpawnRequest _ placement _ _) = Some placement"
| "route_node (SignalEv target _) = Some (node target)"
| "route_node (ChildExit _ parent _) = Some (node parent)"
| "route_node (DownEv own _ _ _) = Some (node own)"
| "route_node (MonitorEv _ target _) = Some (node target)"
| "route_node (DemonitorEv _ target _) = Some (node target)"
| "route_node (LinkEv _ b) = Some (node b)"
| "route_node (UnlinkEv _ b) = Some (node b)"
| "route_node (SpawnOk _) = None"
| "route_node (SpawnErr _) = None"

text \<open>\<open>publish_routed\<close> runs one of two closures, which act on the state \<open>'s\<close>.\<close>

definition publish_routed ::
  "node_id \<Rightarrow> supervision_envelope
    \<Rightarrow> (supervision_envelope \<Rightarrow> 's \<Rightarrow> ((transport_error + unit) \<times> 's) run)
    \<Rightarrow> (node_id \<Rightarrow> supervision_envelope \<Rightarrow> 's \<Rightarrow> ((transport_error + unit) \<times> 's) run)
    \<Rightarrow> 's \<Rightarrow> ((transport_error + unit) \<times> 's) run" where
  "publish_routed here env apply_local send_remote s =
     (case route_node (se_event env) of
        None \<Rightarrow> Returns (Inr (), s)
      | Some n \<Rightarrow> if n = here then apply_local env s else send_remote n env s)"

fun exit_reason_to_wire :: "exit_reason \<Rightarrow> wire_exit_reason" where
  "exit_reason_to_wire Normal = WNormal"
| "exit_reason_to_wire Shutdown = WShutdown"
| "exit_reason_to_wire (Panic msg) = WPanic msg"
| "exit_reason_to_wire Kill = WKill"

fun wire_to_exit_reason :: "wire_exit_reason \<Rightarrow> exit_reason" where
  "wire_to_exit_reason WNormal = Normal"
| "wire_to_exit_reason WShutdown = Shutdown"
| "wire_to_exit_reason (WPanic msg) = Panic msg"
| "wire_to_exit_reason WKill = Kill"

definition child_exit_envelope :: "actor_address \<Rightarrow> actor_address \<Rightarrow> exit_reason \<Rightarrow> supervision_envelope" where
  "child_exit_envelope child parent r =
     \<lparr>se_correlation_id = 0, se_event = ChildExit child parent (exit_reason_to_wire r)\<rparr>"

section \<open>Properties\<close>

lemma wire_exit_roundtrip [simp]: "wire_to_exit_reason (exit_reason_to_wire r) = r"
  by (cases r) simp_all

lemma validate_envelope_ok:
  "is_ok (validate_envelope env) \<longleftrightarrow>
     (requires_correlation (se_event env) \<longleftrightarrow> se_correlation_id env \<noteq> 0) \<and>
     (case se_event env of
        SpawnRequest _ _ (WorkerSpec _ ini) _ \<Rightarrow> length ini \<le> MAX_REMOTE_SPAWN_INIT_BYTES
      | _ \<Rightarrow> True)"
  by (auto simp: validate_envelope_def split: supervision_event.splits remote_spawn_spec.splits)

lemma validate_reply_ok:
  "is_ok (validate_reply request reply) \<longleftrightarrow>
     se_correlation_id reply \<noteq> 0 \<and> se_correlation_id reply = se_correlation_id request \<and>
     (\<exists>p n s l. se_event request = SpawnRequest p n s l) \<and>
     ((\<exists>c. se_event reply = SpawnOk c) \<or> (\<exists>e. se_event reply = SpawnErr e))"
proof (cases "validate_envelope reply")
  case (Inl e)
  then have "\<not> is_ok (validate_envelope reply)" by simp
  then have "\<not> (se_correlation_id reply \<noteq> 0 \<and>
      ((\<exists>c. se_event reply = SpawnOk c) \<or> (\<exists>e. se_event reply = SpawnErr e)))"
    unfolding validate_envelope_ok by (auto split: supervision_event.splits)
  with Inl show ?thesis by (auto simp: validate_reply_def)
next
  case (Inr u)
  then have "is_ok (validate_envelope reply)" by simp
  then have "requires_correlation (se_event reply) \<longleftrightarrow> se_correlation_id reply \<noteq> 0"
    unfolding validate_envelope_ok by blast
  with Inr show ?thesis
    by (cases "se_event request"; cases "se_event reply") (auto simp: validate_reply_def)
qed

text \<open>
  The checks on supervision traffic are exactly the protocol: an envelope is accepted
  when requests and replies, and only they, carry a correlation id and a worker's start data
  fits the limit; a reply is accepted for a request when the request asks for a spawn, the
  reply answers it and both carry the same non-zero id. Accepted traffic that is not a reply
  has a destination; replies have none; and exit reasons survive the wire.
\<close>

lemma supervision_validation_exact:
  "(is_ok (validate_envelope env) \<longleftrightarrow>
     (requires_correlation (se_event env) \<longleftrightarrow> se_correlation_id env \<noteq> 0) \<and>
     (\<forall>p n t ini l. se_event env = SpawnRequest p n (WorkerSpec t ini) l \<longrightarrow>
        length ini \<le> MAX_REMOTE_SPAWN_INIT_BYTES)) \<and>
   (is_ok (validate_reply env reply) \<longleftrightarrow>
     se_correlation_id reply \<noteq> 0 \<and> se_correlation_id reply = se_correlation_id env \<and>
     (\<exists>p n s l. se_event env = SpawnRequest p n s l) \<and>
     ((\<exists>c. se_event reply = SpawnOk c) \<or> (\<exists>e. se_event reply = SpawnErr e))) \<and>
   (route_node (se_event env) = None \<longleftrightarrow>
     (\<exists>c. se_event env = SpawnOk c) \<or> (\<exists>e. se_event env = SpawnErr e)) \<and>
   wire_to_exit_reason (exit_reason_to_wire r) = r"
proof -
  have "(route_node (se_event env) = None \<longleftrightarrow>
      (\<exists>c. se_event env = SpawnOk c) \<or> (\<exists>e. se_event env = SpawnErr e))"
    by (cases "se_event env") simp_all
  moreover have "is_ok (validate_envelope env) \<longleftrightarrow>
     (requires_correlation (se_event env) \<longleftrightarrow> se_correlation_id env \<noteq> 0) \<and>
     (\<forall>p n t ini l. se_event env = SpawnRequest p n (WorkerSpec t ini) l \<longrightarrow>
        length ini \<le> MAX_REMOTE_SPAWN_INIT_BYTES)"
    unfolding validate_envelope_ok by (auto split: supervision_event.splits remote_spawn_spec.splits)
  ultimately show ?thesis using validate_reply_ok by simp
qed


definition len_ser :: "nat ser" where
  "len_ser n = Inr (replicate n 0)"

definition len_de :: "nat de" where
  "len_de bs = Inr (length bs)"

definition env_ser :: "wire_envelope \<Rightarrow> string + bytes" where
  "env_ser env = (if env = \<lparr>we_to = \<lparr>node = NodeId ''n'', actor_id = ActorId 1\<rparr>, we_remote_msg_id = ''m'',
     we_payload = [0, 0], we_correlation_id = 0\<rparr> then Inr [7] else Inl ''other'')"

definition env_de :: "bytes \<Rightarrow> string + wire_envelope" where
  "env_de bs = Inr \<lparr>we_to = \<lparr>node = NodeId ''n'', actor_id = ActorId 1\<rparr>, we_remote_msg_id = ''m'',
     we_payload = [0, 0], we_correlation_id = 0\<rparr>"


end
