(* ===== verification/Registry.thy ===== *)
theory Registry
  imports Process_Groups
begin

text \<open>
  The process-wide registry of values by name (\<open>concurrency/src/registry.rs\<close>). The store is an
  association list, because \<open>registered\<close> lists its keys; a value is kept with the type it was
  registered at, which a lookup must repeat. The locale \<open>name_store\<close> is the contract that
  this registry and the named actor registry both keep; its lemma is that any sequence of
  operations answers as a finite map would.
\<close>

section \<open>The registry\<close>

datatype registry_error = AlreadyRegistered string

type_synonym 'v registry = "(string \<times> type_id \<times> 'v) list"

definition register :: "type_id \<Rightarrow> string \<Rightarrow> 'v \<Rightarrow> 'v registry \<Rightarrow> (registry_error + unit) \<times> 'v registry" where
  "register t name v st =
     (case map_of st name of
        Some _ \<Rightarrow> (Inl (AlreadyRegistered name), st)
      | None \<Rightarrow> (Inr (), AList.update name (t, v) st))"

definition whereis :: "type_id \<Rightarrow> string \<Rightarrow> 'v registry \<Rightarrow> 'v option" where
  "whereis t name st =
     (case map_of st name of
        None \<Rightarrow> None
      | Some (t', v) \<Rightarrow> if t' = t then Some v else None)"

definition unregister :: "string \<Rightarrow> 'v registry \<Rightarrow> 'v registry" where
  "unregister name st = AList.delete name st"

definition registered :: "'v registry \<Rightarrow> string list" where
  "registered st = map fst st"

section \<open>The contract of a store of names\<close>

datatype ('n, 'v) name_op = Put 'n 'v | Look 'n | Del 'n

datatype 'a name_answer = PutDone bool | Found "'a option" | DelDone

fun run_names ::
  "('n \<Rightarrow> 'v \<Rightarrow> 's \<Rightarrow> bool \<times> 's) \<Rightarrow> ('n \<Rightarrow> 's \<Rightarrow> 'a option) \<Rightarrow> ('n \<Rightarrow> 's \<Rightarrow> 's)
    \<Rightarrow> ('n, 'v) name_op list \<Rightarrow> 's \<Rightarrow> 'a name_answer list \<times> 's" where
  "run_names put look del [] s = ([], s)"
| "run_names put look del (Put n v # ops) s =
     (case put n v s of (ok, s1) \<Rightarrow> apfst ((#) (PutDone ok)) (run_names put look del ops s1))"
| "run_names put look del (Look n # ops) s =
     apfst ((#) (Found (look n s))) (run_names put look del ops s)"
| "run_names put look del (Del n # ops) s =
     apfst ((#) DelDone) (run_names put look del ops (del n s))"

text \<open>The specification: a map, in which the first registration of a name wins.\<close>

definition map_put :: "('v \<Rightarrow> 'a) \<Rightarrow> 'n \<Rightarrow> 'v \<Rightarrow> ('n \<rightharpoonup> 'a) \<Rightarrow> bool \<times> ('n \<rightharpoonup> 'a)" where
  "map_put val n v m = (if m n = None then (True, m(n \<mapsto> val v)) else (False, m))"

definition map_del :: "'n \<Rightarrow> ('n \<rightharpoonup> 'a) \<Rightarrow> ('n \<rightharpoonup> 'a)" where
  "map_del n m = m(n := None)"

abbreviation map_names :: "('v \<Rightarrow> 'a) \<Rightarrow> ('n, 'v) name_op list \<Rightarrow> ('n \<rightharpoonup> 'a) \<Rightarrow> 'a name_answer list \<times> ('n \<rightharpoonup> 'a)" where
  "map_names val \<equiv> run_names (map_put val) (\<lambda>n m. m n) map_del"

locale name_store =
  fixes put :: "'n \<Rightarrow> 'v \<Rightarrow> 's \<Rightarrow> bool \<times> 's"
    and look :: "'n \<Rightarrow> 's \<Rightarrow> 'a option"
    and del :: "'n \<Rightarrow> 's \<Rightarrow> 's"
    and val :: "'v \<Rightarrow> 'a"
    and invar :: "'s \<Rightarrow> bool"
  assumes put_free: "invar s \<Longrightarrow> look n s = None \<Longrightarrow>
      \<exists>s'. put n v s = (True, s') \<and> invar s' \<and> (\<lambda>m. look m s') = (\<lambda>m. look m s)(n \<mapsto> val v)"
    and put_taken: "look n s \<noteq> None \<Longrightarrow> put n v s = (False, s)"
    and del_look: "invar s \<Longrightarrow> invar (del n s) \<and> (\<lambda>m. look m (del n s)) = (\<lambda>m. look m s)(n := None)"
begin

lemma run_refines:
  "invar s \<Longrightarrow> run_names put look del ops s = (as, s') \<Longrightarrow>
   invar s' \<and> map_names val ops (\<lambda>n. look n s) = (as, \<lambda>n. look n s')"
proof (induction ops arbitrary: s as)
  case Nil
  then show ?case by simp
next
  case (Cons op ops)
  show ?case
  proof (cases op)
    case (Put n v)
    show ?thesis
    proof (cases "look n s")
      case None
      from put_free [OF Cons.prems(1) None, of v] obtain s1 where
        s1: "put n v s = (True, s1)" "invar s1" "(\<lambda>m. look m s1) = (\<lambda>m. look m s)(n \<mapsto> val v)" by blast
      obtain bs where bs: "run_names put look del ops s1 = (bs, s')" "as = PutDone True # bs"
        using Cons.prems(2) s1(1) by (auto simp: Put apfst_def map_prod_def split: prod.splits)
      from Cons.IH [OF s1(2) bs(1)] show ?thesis
        using None s1(3) bs(2) by (simp add: Put map_put_def)
    next
      case (Some a)
      then have "put n v s = (False, s)" using put_taken by simp
      with Cons.prems(2) obtain bs where bs: "run_names put look del ops s = (bs, s')" "as = PutDone False # bs"
        by (auto simp: Put apfst_def map_prod_def split: prod.splits)
      from Cons.IH [OF Cons.prems(1) bs(1)] show ?thesis
        using Some bs(2) by (simp add: Put map_put_def)
    qed
  next
    case (Look n)
    with Cons.prems(2) obtain bs where "run_names put look del ops s = (bs, s')" "as = Found (look n s) # bs"
      by (auto simp: apfst_def map_prod_def split: prod.splits)
    with Cons.IH [OF Cons.prems(1)] Look show ?thesis by simp
  next
    case (Del n)
    with Cons.prems(2) obtain bs where "run_names put look del ops (del n s) = (bs, s')" "as = DelDone # bs"
      by (auto simp: apfst_def map_prod_def split: prod.splits)
    moreover have "invar (del n s)" "(\<lambda>m. look m (del n s)) = map_del n (\<lambda>m. look m s)"
      using del_look [OF Cons.prems(1), of n] unfolding map_del_def by blast+
    ultimately show ?thesis using Cons.IH [of "del n s"] Del by simp
  qed
qed

lemma first_wins:
  "invar s \<Longrightarrow> look n s = None \<Longrightarrow> put n v s = (ok, s1) \<Longrightarrow>
   ok \<and> look n s1 = Some (val v) \<and> put n u s1 = (False, s1)"
  using put_free [of s n v] put_taken [of n s1 u] by (auto simp: fun_eq_iff)

end

section \<open>The registry keeps the contract\<close>

definition registry_put :: "string \<Rightarrow> type_id \<times> 'v \<Rightarrow> 'v registry \<Rightarrow> bool \<times> 'v registry" where
  "registry_put n tv st = (case register (fst tv) n (snd tv) st of (r, st') \<Rightarrow> (is_ok r, st'))"

interpretation reg: name_store registry_put "\<lambda>n (st :: 'v registry). map_of st n" unregister id "\<lambda>_. True"
  by unfold_locales (auto simp: registry_put_def register_def unregister_def fun_eq_iff)

lemma registered_set: "n \<in> set (registered st) \<longleftrightarrow> (\<exists>t v. whereis t n st = Some v)"
proof -
  have "n \<in> set (registered st) \<longleftrightarrow> map_of st n \<noteq> None"
    by (simp add: registered_def map_of_eq_None_iff)
  also have "\<dots> \<longleftrightarrow> (\<exists>t v. whereis t n st = Some v)"
    by (fastforce simp: whereis_def split: option.splits prod.splits)
  finally show ?thesis .
qed

lemma registered_distinct:
  "distinct (registered st) \<Longrightarrow> distinct (registered (snd (registry_put n tv st)))"
  "distinct (registered st) \<Longrightarrow> distinct (registered (unregister n st))"
  by (simp_all add: registered_def registry_put_def register_def unregister_def distinct_update
      split: option.splits)

section \<open>Properties\<close>

text \<open>
  C13. Whatever the sequence of registrations, lookups and removals, the registry answers as a
  map in which the first registration of a name wins and a removal frees the name; a lookup
  returns the value only at the type it was registered with, and the listed names are exactly
  those that some lookup finds.
\<close>

theorem registry_refines_map:
  assumes run: "run_names registry_put (\<lambda>n st. map_of st n) unregister ops [] = (answers, st)"
  shows "\<exists>m. map_names id ops Map.empty = (answers, m) \<and>
    (\<forall>t n. whereis t n st = (case m n of None \<Rightarrow> None | Some (t', v) \<Rightarrow> if t' = t then Some v else None)) \<and>
    set (registered st) = dom m"
proof -
  have "map_names id ops (\<lambda>n. map_of [] n) = (answers, map_of st)"
    using reg.run_refines [OF _ run] by simp
  moreover have "set (registered st) = dom (map_of st)"
    by (auto simp: registered_def dom_map_of_conv_image_fst)
  ultimately show ?thesis by (intro exI [of _ "map_of st"]) (simp add: whereis_def)
qed

theorem registry_refines_map_witness:
  "run_names registry_put (\<lambda>n st. map_of st n) unregister
     [Put ''a'' (1, True), Put ''a'' (1, False), Del ''a'', Put ''a'' (2, False)] []
     = ([PutDone True, PutDone False, DelDone, PutDone True], [(''a'', 2, False)]) \<and>
   whereis 2 ''a'' [(''a'', 2, False)] = Some False \<and> whereis 1 ''a'' [(''a'', 2, False)] = None"
proof -
  have run: "run_names registry_put (\<lambda>n st. map_of st n) unregister
     [Put ''a'' (1, True), Put ''a'' (1, False), Del ''a'', Put ''a'' (2, False)] []
     = ([PutDone True, PutDone False, DelDone, PutDone True], [(''a'', 2, False)])"
    by (simp add: registry_put_def register_def unregister_def)
  from registry_refines_map [OF run] run show ?thesis by (auto simp: map_put_def map_del_def whereis_def)
qed

end
