(* ===== verification/Named_Registry.thy ===== *)
theory Named_Registry
  imports Registry
begin

text \<open>
  Cluster-wide names of actors (\<open>concurrency/src/cluster/named_registry.rs\<close>): each node keeps the
  addresses of the names it knows and the handles of the names it owns, publishes what it
  changes (\<open>registry_sync.rs\<close>) and applies what its peers publish. Published events are
  returned in order. The property is that a peer that applies them agrees with the publisher.
\<close>

section \<open>State and operations\<close>

datatype named_registry_error = NameTaken string

datatype registry_event =
    RegRegister string actor_address
  | RegUnregister string actor_address
  | RegSnapshot "(string \<times> actor_address) list"

record named_store =
  ns_addresses :: "string \<rightharpoonup> actor_address"
  ns_handles :: "(string \<times> actor_id) list"

definition named_empty :: named_store where
  "named_empty = \<lparr>ns_addresses = Map.empty, ns_handles = []\<rparr>"

definition register_named ::
  "node_id \<Rightarrow> string \<Rightarrow> actor_id \<Rightarrow> named_store
    \<Rightarrow> (named_registry_error + unit) \<times> registry_event list \<times> named_store" where
  "register_named here name h st =
     (let a = address_local here h
      in case ns_addresses st name of
           Some _ \<Rightarrow> (Inl (NameTaken name), [], st)
         | None \<Rightarrow> (Inr (), [RegRegister name a],
             st\<lparr>ns_addresses := (ns_addresses st)(name \<mapsto> a),
                ns_handles := AList.update name h (ns_handles st)\<rparr>))"

definition lookup_address :: "string \<Rightarrow> named_store \<Rightarrow> actor_address option" where
  "lookup_address name st = ns_addresses st name"

definition lookup_handle :: "string \<Rightarrow> named_store \<Rightarrow> actor_id option" where
  "lookup_handle name st = map_of (ns_handles st) name"

definition forget_name :: "string \<Rightarrow> named_store \<Rightarrow> named_store" where
  "forget_name name st = st\<lparr>ns_addresses := (ns_addresses st)(name := None),
     ns_handles := AList.delete name (ns_handles st)\<rparr>"

definition unregister_named :: "string \<Rightarrow> named_store \<Rightarrow> registry_event list \<times> named_store" where
  "unregister_named name st =
     (case ns_addresses st name of
        None \<Rightarrow> ([], st)
      | Some a \<Rightarrow> ([RegUnregister name a], forget_name name st))"

definition remove_by_actor_id :: "node_id \<Rightarrow> actor_id \<Rightarrow> named_store \<Rightarrow> registry_event list \<times> named_store" where
  "remove_by_actor_id here h st =
     (let names = map fst (filter (\<lambda>(n, k). k = h) (ns_handles st))
      in (map (\<lambda>n. RegUnregister n (address_local here h)) names, fold forget_name names st))"

definition local_snapshot :: "named_store \<Rightarrow> (string \<times> actor_address) list" where
  "local_snapshot st =
     List.map_filter (\<lambda>(n, _). map_option (Pair n) (ns_addresses st n)) (ns_handles st)"

definition apply_register :: "string \<Rightarrow> actor_address \<Rightarrow> named_store \<Rightarrow> named_store" where
  "apply_register name a st =
     (if map_of (ns_handles st) name \<noteq> None then st
      else case ns_addresses st name of
             Some existing \<Rightarrow> if existing \<noteq> a then st else st\<lparr>ns_addresses := (ns_addresses st)(name \<mapsto> a)\<rparr>
           | None \<Rightarrow> st\<lparr>ns_addresses := (ns_addresses st)(name \<mapsto> a)\<rparr>)"

definition apply_unregister :: "string \<Rightarrow> actor_address \<Rightarrow> named_store \<Rightarrow> named_store" where
  "apply_unregister name a st =
     (if map_of (ns_handles st) name \<noteq> None then st
      else if ns_addresses st name = Some a
      then st\<lparr>ns_addresses := (ns_addresses st)(name := None)\<rparr> else st)"

fun apply_remote_event :: "registry_event \<Rightarrow> named_store \<Rightarrow> named_store" where
  "apply_remote_event (RegRegister name a) st = apply_register name a st"
| "apply_remote_event (RegUnregister name a) st = apply_unregister name a st"
| "apply_remote_event (RegSnapshot entries) st = fold (\<lambda>(name, a). apply_register name a) entries st"

section \<open>The invariant and the contract\<close>

definition named_inv :: "node_id \<Rightarrow> named_store \<Rightarrow> bool" where
  "named_inv here st \<longleftrightarrow> distinct (map fst (ns_handles st)) \<and>
     (\<forall>n h. map_of (ns_handles st) n = Some h \<longrightarrow> ns_addresses st n = Some (address_local here h))"

lemma named_inv_empty: "named_inv here named_empty"
  by (simp add: named_inv_def named_empty_def)

lemma named_inv_register [inv_rules]:
  "named_inv here st \<Longrightarrow> named_inv here (snd (snd (register_named here n h st)))"
  by (auto simp: named_inv_def register_named_def Let_def distinct_update simp del: map_of_eq_Some_iff
      split: option.splits if_splits)

lemma named_inv_forget [inv_rules]: "named_inv here st \<Longrightarrow> named_inv here (forget_name n st)"
  by (auto simp: named_inv_def forget_name_def split: if_splits)

lemma named_inv_unregister [inv_rules]: "named_inv here st \<Longrightarrow> named_inv here (snd (unregister_named n st))"
  by (simp add: unregister_named_def named_inv_forget split: option.splits)

definition named_put :: "node_id \<Rightarrow> string \<Rightarrow> actor_id \<Rightarrow> named_store \<Rightarrow> bool \<times> named_store" where
  "named_put here n h st = (case register_named here n h st of (r, _, st') \<Rightarrow> (is_ok r, st'))"

interpretation named: name_store "named_put here" lookup_address "\<lambda>n st. snd (unregister_named n st)"
    "address_local here" "named_inv here" for here
proof
  fix s n v
  assume "named_inv here s" "lookup_address n s = None"
  then show "\<exists>s'. named_put here n v s = (True, s') \<and> named_inv here s' \<and>
      (\<lambda>m. lookup_address m s') = (\<lambda>m. lookup_address m s)(n \<mapsto> address_local here v)"
    using named_inv_register [of here s n v]
    by (simp add: named_put_def register_named_def lookup_address_def fun_eq_iff Let_def)
next
  fix n s v
  assume "lookup_address n s \<noteq> None"
  then show "named_put here n v s = (False, s)"
    by (auto simp: named_put_def register_named_def lookup_address_def Let_def)
next
  fix s n
  assume "named_inv here s"
  then show "named_inv here (snd (unregister_named n s)) \<and>
      (\<lambda>m. lookup_address m (snd (unregister_named n s))) = (\<lambda>m. lookup_address m s)(n := None)"
    using named_inv_unregister [of here s n]
    by (auto simp: unregister_named_def lookup_address_def forget_name_def fun_eq_iff split: option.splits)
qed

section \<open>Replication\<close>

datatype named_op = RegName string actor_id | UnregName string | ActorGone actor_id

fun named_step :: "node_id \<Rightarrow> named_op \<Rightarrow> named_store \<Rightarrow> registry_event list \<times> named_store" where
  "named_step here (RegName n h) st = snd (register_named here n h st)"
| "named_step here (UnregName n) st = unregister_named n st"
| "named_step here (ActorGone h) st = remove_by_actor_id here h st"

fun named_run :: "node_id \<Rightarrow> named_op list \<Rightarrow> named_store \<Rightarrow> registry_event list \<times> named_store" where
  "named_run here [] st = ([], st)"
| "named_run here (op # ops) st =
     (case named_step here op st of
        (ev, st1) \<Rightarrow> apfst ((@) ev) (named_run here ops st1))"

text \<open>\<open>agree p st\<close>: the peer \<open>p\<close> sees every name it does not own as \<open>st\<close> does.\<close>

definition agree :: "named_store \<Rightarrow> named_store \<Rightarrow> bool" where
  "agree p st \<longleftrightarrow> (\<forall>n. map_of (ns_handles p) n = None \<longrightarrow> ns_addresses p n = ns_addresses st n)"

definition own_kept :: "named_store \<Rightarrow> named_store \<Rightarrow> bool" where
  "own_kept p q \<longleftrightarrow> ns_handles q = ns_handles p \<and>
     (\<forall>n. map_of (ns_handles p) n \<noteq> None \<longrightarrow> ns_addresses q n = ns_addresses p n)"

lemma own_kept_trans: "own_kept p q \<Longrightarrow> own_kept q r \<Longrightarrow> own_kept p r"
  by (simp add: own_kept_def)

lemma apply_register_kept: "own_kept p (apply_register n a p)"
  by (auto simp: own_kept_def apply_register_def split: option.splits)

lemma apply_unregister_kept: "own_kept p (apply_unregister n a p)"
  by (auto simp: own_kept_def apply_unregister_def)

lemma agree_register:
  assumes "agree p st" "ns_addresses st n = None"
    "ns_addresses st' = (ns_addresses st)(n \<mapsto> a)"
  shows "agree (apply_register n a p) st'"
  using assms by (auto simp: agree_def apply_register_def split: option.splits)

lemma agree_unregister:
  assumes "agree p st" "ns_addresses st n = Some a"
  shows "agree (apply_unregister n a p) (forget_name n st)"
  using assms by (auto simp: agree_def apply_unregister_def forget_name_def)

text \<open>The exit of an actor: every name it owned is forgotten and announced.\<close>

lemma agree_forget_all:
  assumes "agree p st" "named_inv here st" "distinct names"
    "\<forall>n \<in> set names. map_of (ns_handles st) n = Some h"
  shows "agree (fold apply_remote_event (map (\<lambda>n. RegUnregister n (address_local here h)) names) p)
           (fold forget_name names st) \<and>
    own_kept p (fold apply_remote_event (map (\<lambda>n. RegUnregister n (address_local here h)) names) p) \<and>
    named_inv here (fold forget_name names st)"
  using assms
proof (induction names arbitrary: p st)
  case Nil
  then show ?case by (simp add: own_kept_def)
next
  case (Cons n names)
  let ?a = "address_local here h"
  let ?p = "apply_unregister n ?a p" and ?st = "forget_name n st"
  have "ns_addresses st n = Some ?a" using Cons.prems(2,4) by (simp add: named_inv_def)
  then have "agree ?p ?st" using Cons.prems(1) by (rule agree_unregister [rotated])
  moreover have "\<forall>m \<in> set names. map_of (ns_handles ?st) m = Some h"
    using Cons.prems(3,4) by (auto simp: forget_name_def)
  ultimately have "agree (fold apply_remote_event (map (\<lambda>n. RegUnregister n ?a) names) ?p) (fold forget_name names ?st) \<and>
      own_kept ?p (fold apply_remote_event (map (\<lambda>n. RegUnregister n ?a) names) ?p) \<and>
      named_inv here (fold forget_name names ?st)"
    using Cons.prems(2,3) by (intro Cons.IH) (auto intro: named_inv_forget)
  then show ?case using own_kept_trans [OF apply_unregister_kept] by auto
qed

lemma names_of_actor:
  assumes "distinct (map fst hs)"
  shows "distinct (map fst (filter (\<lambda>(n, k). k = h) hs))"
    "\<forall>n \<in> set (map fst (filter (\<lambda>(n, k). k = h) hs)). map_of hs n = Some h"
  using assms by (auto simp: distinct_map_filter map_of_eq_Some_iff)

lemma agree_step:
  assumes "agree p st" "named_inv here st" "named_step here op st = (ev, st')"
  shows "agree (fold apply_remote_event ev p) st' \<and> own_kept p (fold apply_remote_event ev p) \<and> named_inv here st'"
proof (cases op)
  case (RegName n h)
  show ?thesis
  proof (cases "ns_addresses st n")
    case None
    then have ev: "ev = [RegRegister n (address_local here h)]"
      and st': "ns_addresses st' = (ns_addresses st)(n \<mapsto> address_local here h)"
      using assms(3) by (auto simp: RegName register_named_def Let_def)
    have "named_inv here st'" using named_inv_register [OF assms(2), of n h] assms(3) by (simp add: RegName)
    with agree_register [OF assms(1) None st'] show ?thesis by (simp add: ev apply_register_kept)
  next
    case (Some a)
    with assms show ?thesis by (auto simp: RegName register_named_def Let_def own_kept_def)
  qed
next
  case (UnregName n)
  show ?thesis
  proof (cases "ns_addresses st n")
    case None
    with assms show ?thesis by (auto simp: UnregName unregister_named_def own_kept_def)
  next
    case (Some a)
    then have "ev = [RegUnregister n a]" "st' = forget_name n st"
      using assms(3) by (auto simp: UnregName unregister_named_def)
    with agree_unregister [OF assms(1) Some] assms(2) show ?thesis
      by (simp add: apply_unregister_kept named_inv_forget)
  qed
next
  case (ActorGone h)
  have "distinct (map fst (ns_handles st))" using assms(2) by (simp add: named_inv_def)
  from agree_forget_all [OF assms(1,2) names_of_actor [OF this]] assms(3) show ?thesis
    by (auto simp: ActorGone remove_by_actor_id_def Let_def)
qed

lemma agree_run:
  "agree p st \<Longrightarrow> named_inv here st \<Longrightarrow> named_run here ops st = (ev, st') \<Longrightarrow>
   agree (fold apply_remote_event ev p) st' \<and> own_kept p (fold apply_remote_event ev p) \<and> named_inv here st'"
proof (induction ops arbitrary: p st ev)
  case Nil
  then show ?case by (auto simp: own_kept_def)
next
  case (Cons op ops)
  obtain e1 st1 where 1: "named_step here op st = (e1, st1)" by fastforce
  obtain e2 where 2: "named_run here ops st1 = (e2, st')" "ev = e1 @ e2"
    using Cons.prems(3) 1 by (auto simp: apfst_def map_prod_def split: prod.splits)
  note s = agree_step [OF Cons.prems(1,2) 1]
  with Cons.IH [of "fold apply_remote_event e1 p" st1 e2] 2(1)
  show ?case using own_kept_trans unfolding 2(2) by auto
qed

lemma snapshot_entries:
  "named_inv here st \<Longrightarrow> local_snapshot st = map (\<lambda>(n, h). (n, address_local here h)) (ns_handles st)"
proof -
  assume inv: "named_inv here st"
  have "ns_addresses st n = Some (address_local here h)" if "(n, h) \<in> set (ns_handles st)" for n h
    using that inv by (auto simp: named_inv_def)
  then have "List.map_filter (\<lambda>(n, _). map_option (Pair n) (ns_addresses st n)) xs = map (\<lambda>(n, h). (n, address_local here h)) xs"
    if "set xs \<subseteq> set (ns_handles st)" for xs
    using that by (induction xs) (auto simp: List.map_filter_simps)
  then show ?thesis by (simp add: local_snapshot_def)
qed

lemma apply_snapshot_fresh:
  "distinct (map fst es) \<Longrightarrow> ns_handles p = [] \<Longrightarrow> \<forall>n \<in> set (map fst es). ns_addresses p n = None \<Longrightarrow>
   ns_addresses (apply_remote_event (RegSnapshot es) p) = ns_addresses p ++ map_of es"
proof (induction es arbitrary: p)
  case Nil
  then show ?case by simp
next
  case (Cons e es)
  obtain n a where e: "e = (n, a)" by fastforce
  let ?p = "apply_register n a p"
  have p: "ns_handles ?p = []" "ns_addresses ?p = (ns_addresses p)(n \<mapsto> a)"
    using Cons.prems by (simp_all add: apply_register_def e)
  have "ns_addresses (apply_remote_event (RegSnapshot es) ?p) = ns_addresses ?p ++ map_of es"
    using Cons.prems p by (intro Cons.IH) (auto simp: e)
  moreover have "n \<notin> dom (map_of es)" using Cons.prems(1) by (auto simp: e dom_map_of_conv_image_fst)
  ultimately show ?case by (auto simp: p e fun_eq_iff map_add_def split: option.splits)
qed

text \<open>A node may unregister a name that a peer owns: everyone else drops it, the owner keeps it.\<close>

lemma unregister_foreign:
  assumes "lookup_address n a = Some (address_local na h)" "lookup_handle n a = Some h"
    and "agree b a" "lookup_handle n b = None" and "agree c a" "lookup_handle n c = None"
  shows "\<exists>b'. unregister_named n b = ([RegUnregister n (address_local na h)], b') \<and>
    lookup_address n (apply_unregister n (address_local na h) c) = None \<and>
    apply_unregister n (address_local na h) a = a"
  using assms by (auto simp: lookup_address_def lookup_handle_def agree_def unregister_named_def apply_unregister_def)

section \<open>Properties\<close>

text \<open>
  C23. Replication of names: a peer that sees every name it does not own as a node does, and
  applies in order what the node publishes while it registers and unregisters names and its
  actors exit, still sees them so, and its own names are untouched. A peer that knows nothing
  and applies a snapshot of the node knows exactly the names the node owns.
\<close>

theorem named_replication:
  assumes inv: "named_inv here st"
  shows "(agree p st \<and> named_run here ops st = (ev, st') \<longrightarrow>
      agree (fold apply_remote_event ev p) st' \<and> own_kept p (fold apply_remote_event ev p)) \<and>
    (\<forall>n. lookup_address n (apply_remote_event (RegSnapshot (local_snapshot st)) named_empty)
       = map_option (address_local here) (lookup_handle n st))"
proof -
  have d: "distinct (map fst (local_snapshot st))"
    using inv by (simp add: snapshot_entries [OF inv] named_inv_def comp_def case_prod_unfold)
  have "ns_addresses (apply_remote_event (RegSnapshot (local_snapshot st)) named_empty)
      = map_of (local_snapshot st)"
    using apply_snapshot_fresh [OF d, of named_empty] by (simp add: named_empty_def)
  then have "lookup_address n (apply_remote_event (RegSnapshot (local_snapshot st)) named_empty)
      = map_option (address_local here) (lookup_handle n st)" for n
    by (simp add: lookup_address_def lookup_handle_def snapshot_entries [OF inv] map_of_map)
  then show ?thesis using agree_run [OF _ inv] by blast
qed

theorem named_replication_witness:
  "named_inv (NodeId ''a'') named_empty \<and>
   lookup_address ''x'' (fold apply_remote_event
     (fst (named_run (NodeId ''a'') [RegName ''x'' (ActorId 1), RegName ''y'' (ActorId 1), UnregName ''y''] named_empty))
     named_empty) = Some (address_local (NodeId ''a'') (ActorId 1))"
proof -
  let ?run = "named_run (NodeId ''a'') [RegName ''x'' (ActorId 1), RegName ''y'' (ActorId 1), UnregName ''y''] named_empty"
  obtain ev st' where run: "?run = (ev, st')" by fastforce
  have "agree named_empty named_empty" by (simp add: agree_def)
  with named_replication [OF named_inv_empty, of named_empty "NodeId ''a''" _ ev st'] run
  have "agree (fold apply_remote_event ev named_empty) st'" "own_kept named_empty (fold apply_remote_event ev named_empty)"
    by blast+
  then have "ns_addresses (fold apply_remote_event ev named_empty) ''x'' = ns_addresses st' ''x''"
    by (simp add: agree_def own_kept_def named_empty_def)
  moreover have "ns_addresses st' ''x'' = Some (address_local (NodeId ''a'') (ActorId 1))"
    using run by (auto simp: register_named_def unregister_named_def forget_name_def named_empty_def Let_def)
  ultimately show ?thesis using run by (simp add: named_inv_empty lookup_address_def)
qed

end
