(* ===== verification/World.thy ===== *)
theory World
  imports Protocol Named_Registry
begin

text \<open>
  The process-wide state that supervisors act on, and the full child specification: the cells
  of the actors, the id counter, the process groups, the correlation counter and what has
  been published to other nodes, and the two registries of names. A child's start function (\<open>ChildStartFn\<close>) is built by the
  constructors of \<open>tasks/child_spec.rs\<close> and \<open>threads/child_spec.rs\<close>: it starts an actor that
  the user's factory returns, links it to the parent and joins it to its process group. The
  factory and the actor's own behaviour are the user's; the model keeps the actor's cells.
\<close>

section \<open>Child specifications\<close>

datatype placement = LocalPlacement | RemotePlacement node_id

datatype remote_child_spec = RcNamed string | RcWorker string bytes

text \<open>
  \<open>StartLinked rt t\<close> starts, on the runtime \<open>rt\<close>, an actor whose \<open>ActorRef\<close> has the type \<open>t\<close>.
\<close>

datatype child_start = StartLinked mailbox_runtime type_id | UnreachableStart

record child_spec =
  cs_id :: string
  cs_restart :: restart_type
  cs_shutdown :: shutdown_type
  cs_child_type :: child_type
  cs_mailbox :: mailbox_config
  cs_backoff :: restart_backoff
  cs_pg_membership :: "pg_membership option"
  cs_start :: child_start
  cs_placement :: placement
  cs_remote :: "remote_child_spec option"

section \<open>The state of a node\<close>

text \<open>
  The tables of the supervision broker (\<open>SupervisionBrokerInner\<close>), one per node; its
  operations on remote events are in their own theory.
\<close>

record broker =
  br_local :: node_id
  br_handles :: "actor_id \<rightharpoonup> actor_id"
  br_parents :: "actor_id \<rightharpoonup> actor_address"
  br_monitors :: "actor_address \<times> u64 \<rightharpoonup> bool"
  br_down_owners :: "actor_id set"
  br_exited :: "actor_id \<rightharpoonup> exit_reason"
  br_link_peers :: "actor_id \<rightharpoonup> actor_address list"
  br_link_waits :: "actor_id set"
  br_broker_handle :: "actor_id option"

text \<open>
  What the broker left running on the runtime: a task that waits for a monitored actor and
  one that waits for an actor with remote link peers.
\<close>

datatype broker_task =
    MonitorTask (task_owner: actor_address) (task_ref: u64) (task_target: actor_address)
  | LinkTask (task_local: actor_address)

text \<open>
  The registries of remotely startable actors (\<open>RemoteSpawnStore\<close>), per runtime: for a worker
  type the outcome of decoding its init bytes (\<open>Some\<close> error text or \<open>None\<close>), for a named
  specification the specification its factory returns. The store is completed by where the
  calling code runs (outside any tasks runtime, on a thread where blocking is allowed, or
  inside an asynchronous task) and by whether a runtime was installed for other threads.
\<close>

datatype caller = OutsideRuntime | BlockingThread | AsyncTask

record spawn_store =
  ss_tasks_workers :: "string \<rightharpoonup> (bytes \<Rightarrow> string option)"
  ss_threads_workers :: "string \<rightharpoonup> (bytes \<Rightarrow> string option)"
  ss_tasks_specs :: "string \<rightharpoonup> child_spec"
  ss_threads_specs :: "string \<rightharpoonup> child_spec"
  ss_caller :: caller
  ss_installed :: bool

record 'm world =
  wd_here :: node_id
  wd_addr :: address_state
  wd_cells :: "'m cells"
  wd_pg :: "actor_id pg_store"
  wd_pg_events :: "pg_event list"
  wd_corr :: u64
  wd_published :: "supervision_envelope list"
  wd_sleeps :: "duration list"
  wd_broker :: "broker option"
  wd_registry :: "actor_id registry"
  wd_names :: named_store
  wd_name_events :: "registry_event list"
  wd_remote_links :: "actor_id \<Rightarrow> actor_address list"
  wd_tasks :: "broker_task list"
  wd_spawn :: spawn_store
  wd_done_waits :: "actor_id list"

text \<open>The type tag of \<open>ChildHandle\<close> in the registry; a handle is known by its actor's id.\<close>

definition CHILD_HANDLE :: type_id where
  "CHILD_HANDLE = 0"

definition over_cells :: "('m cells \<Rightarrow> 'm cells) \<Rightarrow> 'm world \<Rightarrow> 'm world" where
  "over_cells f w = w\<lparr>wd_cells := f (wd_cells w)\<rparr>"

definition publish_supervision :: "supervision_envelope \<Rightarrow> 'm world \<Rightarrow> 'm world" where
  "publish_supervision env w = w\<lparr>wd_published := wd_published w @ [env]\<rparr>"

definition sleep :: "duration \<Rightarrow> 'm world \<Rightarrow> 'm world" where
  "sleep d w = w\<lparr>wd_sleeps := wd_sleeps w @ [d]\<rparr>"

definition broker_new :: "node_id \<Rightarrow> broker" where
  "broker_new n = \<lparr>br_local = n, br_handles = Map.empty, br_parents = Map.empty,
     br_monitors = Map.empty, br_down_owners = {}, br_exited = Map.empty, br_link_peers = Map.empty,
     br_link_waits = {}, br_broker_handle = None\<rparr>"

definition broker_register ::
  "actor_address \<Rightarrow> actor_id \<Rightarrow> broker \<Rightarrow> (transport_error + unit) \<times> broker" where
  "broker_register a h b =
     (if node a \<noteq> br_local b then (Inl (TeProtocol (NotOnThisNode ''supervision register'' (node a) (br_local b))), b)
      else if h \<noteq> actor_id a then (Inl (TeProtocol (HandleMismatch h (actor_id a))), b)
      else (Inr (), b\<lparr>br_handles := (br_handles b)(actor_id a \<mapsto> h)\<rparr>))"

definition register_supervision_actor ::
  "actor_address \<Rightarrow> actor_id \<Rightarrow> 'm world \<Rightarrow> (transport_error + unit) \<times> 'm world" where
  "register_supervision_actor a h w =
     (case wd_broker w of
        None \<Rightarrow> (Inl (TeProtocol (ProtocolText ''supervision broker not installed'')), w)
      | Some b \<Rightarrow> (case broker_register a h b of (r, b') \<Rightarrow> (r, w\<lparr>wd_broker := Some b'\<rparr>)))"

section \<open>Constructors of child specifications\<close>

definition worker :: "string \<Rightarrow> type_id \<Rightarrow> restart_type \<Rightarrow> child_spec" where
  "worker i t restart = \<lparr>cs_id = i, cs_restart = restart, cs_shutdown = DEFAULT_WORKER_SHUTDOWN,
     cs_child_type = Worker, cs_mailbox = default_worker, cs_backoff = NoBackoff,
     cs_pg_membership = None, cs_start = StartLinked Tasks t, cs_placement = LocalPlacement, cs_remote = None\<rparr>"

definition supervisor_spec :: "string \<Rightarrow> type_id \<Rightarrow> restart_type \<Rightarrow> child_spec" where
  "supervisor_spec i t restart = \<lparr>cs_id = i, cs_restart = restart, cs_shutdown = Infinity,
     cs_child_type = SupervisorChild, cs_mailbox = unbounded, cs_backoff = NoBackoff,
     cs_pg_membership = None, cs_start = StartLinked Tasks t, cs_placement = LocalPlacement, cs_remote = None\<rparr>"

definition remote_named :: "string \<Rightarrow> string \<Rightarrow> node_id \<Rightarrow> restart_type \<Rightarrow> child_spec" where
  "remote_named i name pl restart = \<lparr>cs_id = i, cs_restart = restart, cs_shutdown = DEFAULT_WORKER_SHUTDOWN,
     cs_child_type = Worker, cs_mailbox = default_worker, cs_backoff = NoBackoff,
     cs_pg_membership = None, cs_start = UnreachableStart, cs_placement = RemotePlacement pl,
     cs_remote = Some (RcNamed name)\<rparr>"

definition remote_worker :: "string \<Rightarrow> string \<Rightarrow> bytes \<Rightarrow> node_id \<Rightarrow> restart_type \<Rightarrow> child_spec" where
  "remote_worker i wt ini pl restart = \<lparr>cs_id = i, cs_restart = restart, cs_shutdown = DEFAULT_WORKER_SHUTDOWN,
     cs_child_type = Worker, cs_mailbox = default_worker, cs_backoff = NoBackoff,
     cs_pg_membership = None, cs_start = UnreachableStart, cs_placement = RemotePlacement pl,
     cs_remote = Some (RcWorker wt ini)\<rparr>"

text \<open>The constructors of \<open>threads/child_spec.rs\<close>.\<close>

definition threads_worker :: "string \<Rightarrow> type_id \<Rightarrow> restart_type \<Rightarrow> child_spec" where
  "threads_worker i t restart = \<lparr>cs_id = i, cs_restart = restart, cs_shutdown = DEFAULT_WORKER_SHUTDOWN,
     cs_child_type = Worker, cs_mailbox = default_worker, cs_backoff = NoBackoff,
     cs_pg_membership = None, cs_start = StartLinked Threads t, cs_placement = LocalPlacement, cs_remote = None\<rparr>"

definition threads_supervisor_spec :: "string \<Rightarrow> type_id \<Rightarrow> restart_type \<Rightarrow> child_spec" where
  "threads_supervisor_spec i t restart = \<lparr>cs_id = i, cs_restart = restart, cs_shutdown = Infinity,
     cs_child_type = SupervisorChild, cs_mailbox = unbounded, cs_backoff = NoBackoff,
     cs_pg_membership = None, cs_start = StartLinked Threads t, cs_placement = LocalPlacement, cs_remote = None\<rparr>"

definition with_pg_group_scoped :: "string \<Rightarrow> string \<Rightarrow> child_spec \<Rightarrow> child_spec" where
  "with_pg_group_scoped scope grp s = s\<lparr>cs_pg_membership := Some \<lparr>pm_scope = scope, pm_group = grp\<rparr>\<rparr>"

definition with_pg_group :: "string \<Rightarrow> child_spec \<Rightarrow> child_spec" where
  "with_pg_group grp s = with_pg_group_scoped DEFAULT_SCOPE grp s"

definition is_remote :: "child_spec \<Rightarrow> bool" where
  "is_remote s = (case cs_placement s of RemotePlacement _ \<Rightarrow> True | LocalPlacement \<Rightarrow> False)"

section \<open>Starting a child\<close>

definition cell_with :: "mailbox_runtime \<Rightarrow> mailbox_config \<Rightarrow> 'm cell" where
  "cell_with rt cfg = new_cell\<lparr>cl_limits := limits_new cfg rt\<rparr>"

definition spawn_actor :: "mailbox_runtime \<Rightarrow> mailbox_config \<Rightarrow> 'm world \<Rightarrow> actor_id \<times> 'm world" where
  "spawn_actor rt cfg w =
     (case actor_id_next (wd_addr w) of
        (i, ad) \<Rightarrow> (i, w\<lparr>wd_addr := ad, wd_cells := (wd_cells w)(i := cell_with rt cfg)\<rparr>))"

definition start_linked_to_handle :: "mailbox_runtime \<Rightarrow> actor_id \<Rightarrow> mailbox_config \<Rightarrow> 'm world \<Rightarrow> actor_id \<times> 'm world" where
  "start_linked_to_handle rt parent cfg w =
     (case spawn_actor rt cfg w of
        (i, w1) \<Rightarrow> (i, over_cells (link_handles (wd_here w1) parent i) w1))"

text \<open>\<open>tasks::pg::join_scoped\<close>: the membership and the typed bucket.\<close>

definition typed_join_scoped :: "type_id \<Rightarrow> string \<Rightarrow> string \<Rightarrow> actor_id \<Rightarrow> 'm world \<Rightarrow> 'm world" where
  "typed_join_scoped t scope grp a w =
     (case pg_join_scoped (wd_here w) scope grp a (wd_pg w) of
        (ev, st) \<Rightarrow> w\<lparr>wd_pg := pg_typed_join (wd_here w) t scope grp a a st,
                     wd_pg_events := wd_pg_events w @ ev\<rparr>)"

text \<open>A specification of a remote child panics when it is started locally: \<open>None\<close>.\<close>

definition spec_start_child :: "child_spec \<Rightarrow> actor_id \<Rightarrow> 'm world \<Rightarrow> (actor_id \<times> 'm world) option" where
  "spec_start_child s parent w =
     (case cs_start s of
        UnreachableStart \<Rightarrow> None
      | StartLinked rt t \<Rightarrow>
          (case start_linked_to_handle rt parent (cs_mailbox s) w of
             (i, w1) \<Rightarrow>
               Some (i, case cs_pg_membership s of
                          None \<Rightarrow> w1
                        | Some pm \<Rightarrow> typed_join_scoped t (pm_scope pm) (pm_group pm) i w1)))"

section \<open>Facts\<close>

lemma over_cells_simps [simp]:
  "wd_cells (over_cells f w) = f (wd_cells w)" "wd_here (over_cells f w) = wd_here w"
  "wd_addr (over_cells f w) = wd_addr w" "wd_pg (over_cells f w) = wd_pg w"
  "wd_corr (over_cells f w) = wd_corr w" "wd_published (over_cells f w) = wd_published w"
  "wd_sleeps (over_cells f w) = wd_sleeps w"
  by (simp_all add: over_cells_def)

lemma typed_join_cells [simp]:
  "wd_cells (typed_join_scoped t scope grp a w) = wd_cells w"
  "wd_here (typed_join_scoped t scope grp a w) = wd_here w"
  "wd_addr (typed_join_scoped t scope grp a w) = wd_addr w"
  by (simp_all add: typed_join_scoped_def split: prod.splits)

text \<open>
  Ids that were never handed out are untouched: their actors have no links and no table
  mentions them.
\<close>

definition fresh_id :: "'m world \<Rightarrow> actor_id \<Rightarrow> bool" where
  "fresh_id w i \<longleftrightarrow> raw i \<ge> next_actor_id (wd_addr w)"

definition untouched :: "actor_id \<Rightarrow> 'm cells \<Rightarrow> bool" where
  "untouched i c \<longleftrightarrow> is_alive i c \<and> cl_links (c i) = [] \<and> (\<forall>a. i \<notin> set (cl_links (c a)))"

definition world_inv :: "'m world \<Rightarrow> bool" where
  "world_inv w \<longleftrightarrow> link_inv (wd_cells w) \<and> (\<forall>i. fresh_id w i \<longrightarrow> untouched i (wd_cells w))"

lemma spawn_actor_eq:
  "spawn_actor rt cfg w = (ActorId (next_actor_id (wd_addr w)),
     w\<lparr>wd_addr := (wd_addr w)\<lparr>next_actor_id := next_actor_id (wd_addr w) + 1\<rparr>,
       wd_cells := (wd_cells w)(ActorId (next_actor_id (wd_addr w)) := cell_with rt cfg)\<rparr>)"
  by (simp add: spawn_actor_def actor_id_next_def)

text \<open>
  A started child has a new id, is alive, is linked to its parent both ways, and nobody else
  is affected.
\<close>

lemma start_linked_cells:
  assumes inv: "world_inv w" and p: "\<not> fresh_id w parent"
    and st: "start_linked_to_handle rt parent cfg w = (i, w')"
  shows "i = ActorId (next_actor_id (wd_addr w))" "i \<noteq> parent"
    "wd_cells w' = (wd_cells w)(i := (cell_with rt cfg)\<lparr>cl_links := [parent]\<rparr>,
       parent := push_link i (wd_cells w parent))"
    "wd_here w' = wd_here w" "wd_addr w' = (wd_addr w)\<lparr>next_actor_id := next_actor_id (wd_addr w) + 1\<rparr>"
proof -
  let ?i = "ActorId (next_actor_id (wd_addr w))"
  have i: "i = ?i" using st by (simp add: start_linked_to_handle_def spawn_actor_eq)
  then show "i = ?i" .
  have ne: "?i \<noteq> parent" using p by (auto simp: fresh_id_def)
  then show "i \<noteq> parent" using i by simp
  let ?w1 = "(wd_cells w)(?i := cell_with rt cfg)"
  have "is_alive ?i ?w1" by (simp add: alive_simps cell_with_def)
  then have "wd_cells w' = register_link parent ?i ?w1"
    using st by (simp add: start_linked_to_handle_def spawn_actor_eq link_handles_alive
        split: prod.splits) (auto simp: over_cells_def link_handles_alive)
  then show "wd_cells w' = (wd_cells w)(i := (cell_with rt cfg)\<lparr>cl_links := [parent]\<rparr>,
       parent := push_link i (wd_cells w parent))"
    using ne by (auto simp: register_link_def modify_def i push_link_def cell_with_def
        fun_eq_iff)
  show "wd_here w' = wd_here w" "wd_addr w' = (wd_addr w)\<lparr>next_actor_id := next_actor_id (wd_addr w) + 1\<rparr>"
    using st by (auto simp: start_linked_to_handle_def spawn_actor_eq)
qed

lemma inc_le_iff: "(n :: u64) \<noteq> -1 \<Longrightarrow> n + 1 \<le> x \<longleftrightarrow> n < x"
proof -
  assume "n \<noteq> -1"
  then have "1 + n \<noteq> 0" by (metis add.commute eq_neg_iff_add_eq_0)
  then have "unat (1 + n) = Suc (unat n)" by (rule unatSuc)
  then have "unat (n + 1) = Suc (unat n)" by (simp add: add.commute)
  then show ?thesis by (simp add: word_le_nat_alt word_less_nat_alt Suc_le_eq)
qed

lemma fresh_after:
  assumes "next_actor_id (wd_addr w) \<noteq> -1"
    and "wd_addr w' = (wd_addr w)\<lparr>next_actor_id := next_actor_id (wd_addr w) + 1\<rparr>"
  shows "fresh_id w' j \<longleftrightarrow> fresh_id w j \<and> j \<noteq> ActorId (next_actor_id (wd_addr w))"
proof -
  obtain x where j: "j = ActorId x" by (cases j)
  have "next_actor_id (wd_addr w') = next_actor_id (wd_addr w) + 1" by (simp add: assms(2))
  then have "fresh_id w' j \<longleftrightarrow> next_actor_id (wd_addr w) < x"
    using inc_le_iff [OF assms(1), of x] by (simp add: fresh_id_def j)
  also have "\<dots> \<longleftrightarrow> fresh_id w j \<and> j \<noteq> ActorId (next_actor_id (wd_addr w))"
    by (simp add: fresh_id_def j order.strict_iff_order eq_commute conj_commute)
  finally show ?thesis .
qed

lemma world_inv_start [inv_rules]:
  assumes inv: "world_inv w" and p: "\<not> fresh_id w parent" "is_alive parent (wd_cells w)"
    and room: "next_actor_id (wd_addr w) \<noteq> -1"
    and st: "start_linked_to_handle rt parent cfg w = (i, w')"
  shows "world_inv w'" "\<not> fresh_id w' i" "is_alive i (wd_cells w')"
    "\<not> fresh_id w j \<Longrightarrow> \<not> fresh_id w' j"
proof -
  note c = start_linked_cells [OF inv p(1) st]
  have fr: "fresh_id w' j \<longleftrightarrow> fresh_id w j \<and> j \<noteq> i" for j
    using fresh_after [OF room c(5)] c(1) by simp
  have fi: "fresh_id w i" by (simp add: fresh_id_def c(1))
  have li: "link_inv (wd_cells w)" and fri: "\<And>j. fresh_id w j \<Longrightarrow> is_alive j (wd_cells w) \<and>
      cl_links (wd_cells w j) = [] \<and> (\<forall>a. j \<notin> set (cl_links (wd_cells w a)))"
    using inv by (auto simp: world_inv_def untouched_def)
  show "\<not> fresh_id w' i" "\<not> fresh_id w j \<Longrightarrow> \<not> fresh_id w' j" using fr by simp_all
  show "is_alive i (wd_cells w')" using c(2) by (simp add: c(3) alive_simps cell_with_def)
  have "link_inv ((wd_cells w)(i := cell_with rt cfg))"
    using li fri [OF fi] by (auto simp: link_inv_def alive_simps cell_with_def)
  moreover have "is_alive parent ((wd_cells w)(i := cell_with rt cfg))"
    using p(2) c(2) by (simp add: alive_simps)
  moreover have "wd_cells w' = link_handles (wd_here w) parent i ((wd_cells w)(i := cell_with rt cfg))"
    using st c(1) by (auto simp: start_linked_to_handle_def spawn_actor_eq)
  ultimately have "link_inv (wd_cells w')" using c(2) by (simp add: link_inv_link)
  moreover have "is_alive j (wd_cells w') \<and> cl_links (wd_cells w' j) = [] \<and>
      (\<forall>a. j \<notin> set (cl_links (wd_cells w' a)))" if "fresh_id w' j" for j
  proof -
    have "fresh_id w j" "j \<noteq> i" "j \<noteq> parent" using that fr p(1) by auto
    with fri [of j] show ?thesis by (auto simp: c(3) alive_simps)
  qed
  ultimately show "world_inv w'" by (simp add: world_inv_def untouched_def)
qed

end
