(* ===== verification/Remote_Spawn.thy ===== *)
theory Remote_Spawn
  imports World
begin

text \<open>
  Spawning and shutting down children on other nodes
  (\<open>concurrency/src/cluster/remote_spawn.rs\<close>, \<open>supervision_remote.rs\<close>,
  \<open>supervision_sync.rs\<close>). The peers are not part of the model: \<open>rpc\<close> is the request hook
  that the node installs (\<open>None\<close> before it does), a function from the destination and the
  envelope to the reply; \<open>rwait\<close> is what a wait for a remote child's exit gives, given what
  was published so far (\<open>None\<close> when the wait never returns).
\<close>

section \<open>Errors, handles, policies\<close>

datatype remote_spawn_error =
    RsTransport transport_error
  | RsSpawnFailed string
  | RsInvalidReply
  | RsPublishNotInstalled
  | RsRequestNotInstalled

record remote_child_handle =
  rh_address :: actor_address
  rh_parent :: actor_address

definition remote_child_handle_new :: "actor_address \<Rightarrow> actor_address \<Rightarrow> remote_child_handle" where
  "remote_child_handle_new a p = \<lparr>rh_address = a, rh_parent = p\<rparr>"

record remote_spawn_meta =
  rsm_spec :: remote_spawn_spec
  rsm_placement :: node_id
  rsm_link :: bool

datatype remote_shutdown_error = RsdSignal remote_spawn_error | RsdTimeout | RsdInterrupted

record remote_spawn_retry_policy =
  rp_max_attempts :: u32
  rp_base_delay :: duration
  rp_max_delay :: duration

definition default_retry_policy :: remote_spawn_retry_policy where
  "default_retry_policy = \<lparr>rp_max_attempts = 3, rp_base_delay = from_millis 50, rp_max_delay = from_secs 2\<rparr>"

definition KILL_GRACE :: duration where
  "KILL_GRACE = from_millis 100"

type_synonym rpc = "(node_id \<Rightarrow> supervision_envelope \<Rightarrow> transport_error + supervision_envelope) option"

type_synonym rwait =
  "supervision_envelope list \<Rightarrow> actor_id \<Rightarrow> duration option \<Rightarrow> (remote_shutdown_error + unit) option"

section \<open>Requests\<close>

definition request_supervision ::
  "rpc \<Rightarrow> node_id \<Rightarrow> supervision_envelope \<Rightarrow> transport_error + supervision_envelope" where
  "request_supervision rpc n env = (case rpc of Some f \<Rightarrow> f n env | None \<Rightarrow> Inl TeRemoteUnreachable)"

definition next_correlation_id :: "'m world \<Rightarrow> u64 \<times> 'm world" where
  "next_correlation_id w = (wd_corr w, w\<lparr>wd_corr := wd_corr w + 1\<rparr>)"

definition request_spawn ::
  "rpc \<Rightarrow> node_id \<Rightarrow> actor_address \<Rightarrow> remote_spawn_spec \<Rightarrow> bool \<Rightarrow> 'm world
    \<Rightarrow> (remote_spawn_error + actor_address) \<times> 'm world" where
  "request_spawn rpc placement parent spec link w =
     (case next_correlation_id w of
        (cid, w1) \<Rightarrow>
          (case request_supervision rpc placement
                  \<lparr>se_correlation_id = cid, se_event = SpawnRequest parent placement spec link\<rparr> of
             Inl e \<Rightarrow> (Inl (RsTransport e), w1)
           | Inr reply \<Rightarrow>
               if se_correlation_id reply \<noteq> cid then (Inl RsInvalidReply, w1)
               else (case se_event reply of
                       SpawnOk child \<Rightarrow> (Inr child, w1)
                     | SpawnErr error \<Rightarrow> (Inl (RsSpawnFailed error), w1)
                     | _ \<Rightarrow> (Inl RsInvalidReply, w1))))"

fun is_transport_error :: "remote_spawn_error \<Rightarrow> bool" where
  "is_transport_error (RsTransport _) = True"
| "is_transport_error _ = False"

definition transport_retry_delay :: "nat \<Rightarrow> remote_spawn_retry_policy \<Rightarrow> duration" where
  "transport_retry_delay attempt policy =
     (let ex = min (attempt - 1) 16
      in min (duration_saturating_mul (rp_base_delay policy) (2 ^ ex)) (rp_max_delay policy))"

text \<open>
  The retry loop; \<open>attempt\<close> is the number of requests made so far, a \<open>u32\<close> that stays below
  \<open>max_attempts\<close>.
\<close>

function request_spawn_with_retry ::
  "rpc \<Rightarrow> node_id \<Rightarrow> actor_address \<Rightarrow> remote_spawn_spec \<Rightarrow> bool \<Rightarrow> remote_spawn_retry_policy \<Rightarrow> nat
    \<Rightarrow> 'm world \<Rightarrow> (remote_spawn_error + actor_address) \<times> 'm world" where
  "request_spawn_with_retry rpc placement parent spec link policy attempt w =
     (case request_spawn rpc placement parent spec link w of
        (Inr address, w1) \<Rightarrow> (Inr address, w1)
      | (Inl err, w1) \<Rightarrow>
          if is_transport_error err \<and> attempt + 1 < unat (rp_max_attempts policy)
          then request_spawn_with_retry rpc placement parent spec link policy (attempt + 1)
                 (sleep (transport_retry_delay (attempt + 1) policy) w1)
          else (Inl err, w1))"
  by pat_completeness auto
termination
  by (relation "measure (\<lambda>(_, _, _, _, _, policy, attempt, _). unat (rp_max_attempts policy) - attempt)") auto

declare request_spawn_with_retry.simps [simp del]

definition request_spawn_with_retry_async ::
  "rpc \<Rightarrow> node_id \<Rightarrow> actor_address \<Rightarrow> remote_spawn_spec \<Rightarrow> bool \<Rightarrow> remote_spawn_retry_policy \<Rightarrow> 'm world
    \<Rightarrow> (remote_spawn_error + actor_address) \<times> 'm world" where
  "request_spawn_with_retry_async rpc placement parent spec link policy w =
     request_spawn_with_retry rpc placement parent spec link policy 0 w"

definition request_spawn_with_retry_blocking ::
  "rpc \<Rightarrow> node_id \<Rightarrow> actor_address \<Rightarrow> remote_spawn_spec \<Rightarrow> bool \<Rightarrow> remote_spawn_retry_policy \<Rightarrow> 'm world
    \<Rightarrow> (remote_spawn_error + actor_address) \<times> 'm world" where
  "request_spawn_with_retry_blocking rpc placement parent spec link policy w =
     request_spawn_with_retry rpc placement parent spec link policy 0 w"

section \<open>Wire specifications\<close>

fun restart_to_wire :: "restart_type \<Rightarrow> wire_restart_type" where
  "restart_to_wire Permanent = WPermanent"
| "restart_to_wire Transient = WTransient"
| "restart_to_wire Temporary = WTemporary"

fun wire_restart :: "wire_restart_type \<Rightarrow> restart_type" where
  "wire_restart WPermanent = Permanent"
| "wire_restart WTransient = Transient"
| "wire_restart WTemporary = Temporary"

definition overrides_from_spec :: "child_spec \<Rightarrow> remote_spec_overrides" where
  "overrides_from_spec s =
     \<lparr>ro_restart = Some (restart_to_wire (cs_restart s)),
      ro_pg_scope = map_option pm_scope (cs_pg_membership s),
      ro_pg_group = map_option pm_group (cs_pg_membership s)\<rparr>"

definition remote_spawn_spec_from_inner :: "child_spec \<Rightarrow> remote_spawn_spec option" where
  "remote_spawn_spec_from_inner s =
     (case cs_remote s of
        None \<Rightarrow> None
      | Some (RcNamed name) \<Rightarrow> Some (NamedSpec name (overrides_from_spec s))
      | Some (RcWorker wt ini) \<Rightarrow> Some (WorkerSpec wt ini))"

definition apply_overrides :: "remote_spec_overrides \<Rightarrow> child_spec \<Rightarrow> child_spec" where
  "apply_overrides ov s =
     (let s1 = (case ro_restart ov of Some r \<Rightarrow> s\<lparr>cs_restart := wire_restart r\<rparr> | None \<Rightarrow> s)
      in case (ro_pg_scope ov, ro_pg_group ov) of
           (Some scope, Some grp) \<Rightarrow> s1\<lparr>cs_pg_membership := Some \<lparr>pm_scope = scope, pm_group = grp\<rparr>\<rparr>
         | _ \<Rightarrow> s1)"

section \<open>Signals and shutdown\<close>

definition remote_signal_event :: "supervision_signal \<Rightarrow> remote_child_handle \<Rightarrow> 'm world \<Rightarrow> 'm world" where
  "remote_signal_event sig rh w =
     publish_supervision \<lparr>se_correlation_id = 0, se_event = SignalEv (rh_address rh) sig\<rparr> w"

definition remote_stop :: "remote_child_handle \<Rightarrow> 'm world \<Rightarrow> 'm world" where
  "remote_stop = remote_signal_event SigStop"

definition remote_shutdown :: "remote_child_handle \<Rightarrow> 'm world \<Rightarrow> 'm world" where
  "remote_shutdown = remote_signal_event SigShutdown"

definition remote_kill :: "remote_child_handle \<Rightarrow> 'm world \<Rightarrow> 'm world" where
  "remote_kill = remote_signal_event SigKill"

fun remote_signal :: "remote_child_handle \<Rightarrow> shutdown_type \<Rightarrow> 'm world \<Rightarrow> 'm world" where
  "remote_signal rh BrutalKill w = remote_kill rh w"
| "remote_signal rh Infinity w = remote_shutdown rh w"
| "remote_signal rh (Timeout _) w = remote_shutdown rh w"

text \<open>
  The wait for a remote child's exit; publishing a signal never fails. The registration of
  the wait and its removal only serve the wait itself, whose outcome is \<open>rwait\<close>.
\<close>

definition shutdown_remote_and_wait ::
  "rwait \<Rightarrow> remote_child_handle \<Rightarrow> shutdown_type \<Rightarrow> 'm world
    \<Rightarrow> ((remote_shutdown_error + unit) \<times> 'm world) option" where
  "shutdown_remote_and_wait rwait rh sd w =
     (let a = actor_id (rh_address rh);
          w1 = remote_signal rh sd w
      in case sd of
           BrutalKill \<Rightarrow> map_option (\<lambda>r. (r, w1)) (rwait (wd_published w1) a (Some KILL_GRACE))
         | Infinity \<Rightarrow> map_option (\<lambda>r. (r, w1)) (rwait (wd_published w1) a None)
         | Timeout d \<Rightarrow>
             (case rwait (wd_published w1) a (Some d) of
                None \<Rightarrow> None
              | Some (Inr _) \<Rightarrow> Some (Inr (), w1)
              | Some (Inl RsdTimeout) \<Rightarrow>
                  (let w2 = remote_kill rh w1
                   in map_option (\<lambda>r. (r, w2)) (rwait (wd_published w2) a (Some KILL_GRACE)))
              | Some (Inl e) \<Rightarrow> Some (Inl e, w1)))"

definition shutdown_remote_and_wait_blocking ::
  "rwait \<Rightarrow> remote_child_handle \<Rightarrow> shutdown_type \<Rightarrow> 'm world
    \<Rightarrow> ((remote_shutdown_error + unit) \<times> 'm world) option" where
  "shutdown_remote_and_wait_blocking rwait rh sd w =
     (let a = actor_id (rh_address rh)
      in case sd of
           BrutalKill \<Rightarrow>
             (let w1 = remote_kill rh w
              in map_option (\<lambda>r. (r, w1)) (rwait (wd_published w1) a (Some KILL_GRACE)))
         | Infinity \<Rightarrow>
             (let w1 = remote_shutdown rh w
              in map_option (\<lambda>r. (r, w1)) (rwait (wd_published w1) a None))
         | Timeout d \<Rightarrow>
             (let w1 = remote_shutdown rh w
              in case rwait (wd_published w1) a (Some d) of
                   None \<Rightarrow> None
                 | Some (Inr _) \<Rightarrow> Some (Inr (), w1)
                 | Some (Inl _) \<Rightarrow>
                     (let w2 = remote_kill rh w1
                      in map_option (\<lambda>r. (r, w2)) (rwait (wd_published w2) a (Some KILL_GRACE)))))"

text \<open>The versions the two runtimes call.\<close>

definition spawn_with_retry_on ::
  "mailbox_runtime \<Rightarrow> rpc \<Rightarrow> node_id \<Rightarrow> actor_address \<Rightarrow> remote_spawn_spec \<Rightarrow> bool \<Rightarrow> remote_spawn_retry_policy
    \<Rightarrow> 'm world \<Rightarrow> (remote_spawn_error + actor_address) \<times> 'm world" where
  "spawn_with_retry_on rt = (case rt of Tasks \<Rightarrow> request_spawn_with_retry_async | Threads \<Rightarrow> request_spawn_with_retry_blocking)"

definition shutdown_remote_on ::
  "mailbox_runtime \<Rightarrow> rwait \<Rightarrow> remote_child_handle \<Rightarrow> shutdown_type \<Rightarrow> 'm world
    \<Rightarrow> ((remote_shutdown_error + unit) \<times> 'm world) option" where
  "shutdown_remote_on rt = (case rt of Tasks \<Rightarrow> shutdown_remote_and_wait | Threads \<Rightarrow> shutdown_remote_and_wait_blocking)"

section \<open>Facts\<close>

lemma wire_restart_roundtrip [simp]: "wire_restart (restart_to_wire r) = r"
  by (cases r) simp_all

lemma request_spawn_corr: "wd_corr (snd (request_spawn rpc n p s l w)) = wd_corr w + 1"
  by (simp add: request_spawn_def next_correlation_id_def split: sum.splits supervision_event.splits)

lemma request_spawn_frame:
  "wd_cells (snd (request_spawn rpc n p s l w)) = wd_cells w"
  "wd_sleeps (snd (request_spawn rpc n p s l w)) = wd_sleeps w"
  by (simp_all add: request_spawn_def next_correlation_id_def split: sum.splits supervision_event.splits)

text \<open>The outcome of the \<open>k\<close>-th request of a series starting with the correlation id \<open>c\<close>.\<close>

definition nth_request ::
  "rpc \<Rightarrow> node_id \<Rightarrow> actor_address \<Rightarrow> remote_spawn_spec \<Rightarrow> bool \<Rightarrow> u64 \<Rightarrow> nat
    \<Rightarrow> remote_spawn_error + actor_address" where
  "nth_request rpc n p s l c k =
     (let cid = c + of_nat k
      in case request_supervision rpc n \<lparr>se_correlation_id = cid, se_event = SpawnRequest p n s l\<rparr> of
           Inl e \<Rightarrow> Inl (RsTransport e)
         | Inr reply \<Rightarrow>
             if se_correlation_id reply \<noteq> cid then Inl RsInvalidReply
             else (case se_event reply of
                     SpawnOk child \<Rightarrow> Inr child
                   | SpawnErr error \<Rightarrow> Inl (RsSpawnFailed error)
                   | _ \<Rightarrow> Inl RsInvalidReply))"

lemma request_spawn_nth: "fst (request_spawn rpc n p s l w) = nth_request rpc n p s l (wd_corr w) 0"
  by (simp add: request_spawn_def nth_request_def next_correlation_id_def Let_def
      split: sum.splits supervision_event.splits)

lemma nth_request_Suc: "nth_request rpc n p s l (c + 1) k = nth_request rpc n p s l c (Suc k)"
  by (simp add: nth_request_def algebra_simps)

lemma retry_trace:
  "\<exists>k. fst (request_spawn_with_retry rpc n p s l policy a w) = nth_request rpc n p s l (wd_corr w) k \<and>
     (\<forall>j < k. \<exists>e. nth_request rpc n p s l (wd_corr w) j = Inl (RsTransport e)) \<and>
     (a + k + 1 < unat (rp_max_attempts policy) \<longrightarrow>
        (\<forall>e. nth_request rpc n p s l (wd_corr w) k \<noteq> Inl (RsTransport e))) \<and>
     (k = 0 \<or> a + k < unat (rp_max_attempts policy)) \<and>
     wd_corr (snd (request_spawn_with_retry rpc n p s l policy a w)) = wd_corr w + of_nat (Suc k) \<and>
     wd_cells (snd (request_spawn_with_retry rpc n p s l policy a w)) = wd_cells w \<and>
     wd_sleeps (snd (request_spawn_with_retry rpc n p s l policy a w)) =
       wd_sleeps w @ map (\<lambda>j. transport_retry_delay (a + j + 1) policy) [0..<k]"
proof (induction rpc n p s l policy a w rule: request_spawn_with_retry.induct)
  case (1 rpc n p s l policy a w)
  let ?nth = "nth_request rpc n p s l (wd_corr w)"
  obtain r w1 where rw: "request_spawn rpc n p s l w = (r, w1)" by fastforce
  have r: "r = ?nth 0" using request_spawn_nth [of rpc n p s l w] rw by simp
  have w1: "wd_corr w1 = wd_corr w + 1" "wd_cells w1 = wd_cells w" "wd_sleeps w1 = wd_sleeps w"
    using request_spawn_corr [of rpc n p s l w] request_spawn_frame [of rpc n p s l w] rw by simp_all
  show ?case
  proof (cases "(\<exists>e. r = Inl (RsTransport e)) \<and> a + 1 < unat (rp_max_attempts policy)")
    case False
    then have "request_spawn_with_retry rpc n p s l policy a w = (r, w1)"
      by (auto simp: request_spawn_with_retry.simps [of rpc n p s l policy a w] rw
          split: sum.splits elim: is_transport_error.elims)
    with False show ?thesis
      by (intro exI [of _ 0]) (auto simp: r w1)
  next
    case True
    then obtain e where e: "r = Inl (RsTransport e)" by blast
    let ?w2 = "sleep (transport_retry_delay (a + 1) policy) w1"
    have eq: "request_spawn_with_retry rpc n p s l policy a w
        = request_spawn_with_retry rpc n p s l policy (a + 1) ?w2"
      using True by (simp add: request_spawn_with_retry.simps [of rpc n p s l policy a w] rw e)
    have IH: "\<exists>k. fst (request_spawn_with_retry rpc n p s l policy (a + 1) ?w2)
          = nth_request rpc n p s l (wd_corr ?w2) k \<and>
        (\<forall>j < k. \<exists>e. nth_request rpc n p s l (wd_corr ?w2) j = Inl (RsTransport e)) \<and>
        (a + 1 + k + 1 < unat (rp_max_attempts policy) \<longrightarrow>
          (\<forall>e. nth_request rpc n p s l (wd_corr ?w2) k \<noteq> Inl (RsTransport e))) \<and>
        (k = 0 \<or> a + 1 + k < unat (rp_max_attempts policy)) \<and>
        wd_corr (snd (request_spawn_with_retry rpc n p s l policy (a + 1) ?w2)) = wd_corr ?w2 + of_nat (Suc k) \<and>
        wd_cells (snd (request_spawn_with_retry rpc n p s l policy (a + 1) ?w2)) = wd_cells ?w2 \<and>
        wd_sleeps (snd (request_spawn_with_retry rpc n p s l policy (a + 1) ?w2)) =
          wd_sleeps ?w2 @ map (\<lambda>j. transport_retry_delay (a + 1 + j + 1) policy) [0..<k]"
      using "1.IH" [OF rw [symmetric] e] True e by simp
    have w2: "wd_corr ?w2 = wd_corr w + 1" "wd_cells ?w2 = wd_cells w"
      "wd_sleeps ?w2 = wd_sleeps w @ [transport_retry_delay (a + 1) policy]"
      by (simp_all add: sleep_def w1)
    from IH obtain k where k: "fst (request_spawn_with_retry rpc n p s l policy (a + 1) ?w2) = ?nth (Suc k)"
      "\<forall>j < k. \<exists>e. ?nth (Suc j) = Inl (RsTransport e)"
      "a + Suc k + 1 < unat (rp_max_attempts policy) \<longrightarrow> (\<forall>e. ?nth (Suc k) \<noteq> Inl (RsTransport e))"
      "k = 0 \<or> a + Suc k < unat (rp_max_attempts policy)"
      "wd_corr (snd (request_spawn_with_retry rpc n p s l policy (a + 1) ?w2)) = wd_corr w + of_nat (Suc (Suc k))"
      "wd_cells (snd (request_spawn_with_retry rpc n p s l policy (a + 1) ?w2)) = wd_cells w"
      "wd_sleeps (snd (request_spawn_with_retry rpc n p s l policy (a + 1) ?w2)) =
          wd_sleeps w @ [transport_retry_delay (a + 1) policy] @
          map (\<lambda>j. transport_retry_delay (a + 1 + j + 1) policy) [0..<k]"
      unfolding w2 nth_request_Suc by (auto simp: algebra_simps)
    have upt: "[transport_retry_delay (a + 1) policy] @
        map (\<lambda>j. transport_retry_delay (a + 1 + j + 1) policy) [0..<k] =
        map (\<lambda>j. transport_retry_delay (a + j + 1) policy) [0..<Suc k]"
      by (simp add: upt_rec [of 0 "Suc k"] map_Suc_upt [symmetric] comp_def del: upt_Suc)
    have all: "\<forall>j < Suc k. \<exists>e. ?nth j = Inl (RsTransport e)"
      using k(2) e r by (metis less_Suc_eq_0_disj)
    have lt: "a + Suc k < unat (rp_max_attempts policy)" using k(4) True by (cases "k = 0") simp_all
    show ?thesis unfolding eq using k(1,3,5,6,7) all lt upt by (intro exI [of _ "Suc k"]) simp
  qed
qed

section \<open>Properties\<close>


definition down_rpc :: rpc where
  "down_rpc = Some (\<lambda>n env. Inl TeRemoteUnreachable)"

definition empty_spawn_store :: spawn_store where
  "empty_spawn_store = \<lparr>ss_tasks_workers = Map.empty, ss_threads_workers = Map.empty,
     ss_tasks_specs = Map.empty, ss_threads_specs = Map.empty, ss_caller = OutsideRuntime, ss_installed = False\<rparr>"

definition demo_world :: "nat world" where
  "demo_world = \<lparr>wd_here = NodeId ''n'', wd_addr = address_init, wd_cells = (\<lambda>_. new_cell),
     wd_pg = pg_empty, wd_pg_events = [], wd_corr = 1, wd_published = [], wd_sleeps = [], wd_broker = None,
     wd_registry = [], wd_names = named_empty, wd_name_events = [], wd_remote_links = (\<lambda>_. []), wd_tasks = [],
     wd_spawn = empty_spawn_store, wd_done_waits = []\<rparr>"


end
