(* ===== verification/Supervisor.thy ===== *)
theory Supervisor
  imports Supervisor_Logic Remote_Spawn
begin

text \<open>
  The static supervisor (\<open>concurrency/src/tasks/supervisor.rs\<close> and its copy
  \<open>concurrency/src/threads/supervisor.rs\<close>): starting its children, restarting one or a batch
  of them when an exit arrives, and shutting them down in reverse order. The two files differ
  only in the primitives they wait with, so the operations take the runtime from the
  environment; the last section names the threads instances. The supervisor is an actor, so
  each callback runs to its end before the next. Logging and metrics are left out.
\<close>

section \<open>State\<close>

record 'm env =
  en_runtime :: mailbox_runtime
  en_self :: actor_id
  en_sched :: "'m sched"
  en_rpc :: rpc
  en_wait :: rwait

record supervisor =
  sv_logic :: supervisor_logic
  sv_specs :: "child_spec list"
  sv_handles :: "string \<rightharpoonup> actor_id"
  sv_remote_handles :: "string \<rightharpoonup> remote_child_handle"
  sv_remote_meta :: "string \<rightharpoonup> remote_spawn_meta"
  sv_remote_ids :: "actor_id \<rightharpoonup> string"

type_synonym 'm sup_state = "supervisor \<times> 'm world"

definition supervisor_new :: "supervisor_strategy \<Rightarrow> restart_intensity \<Rightarrow> child_spec list \<Rightarrow> supervisor" where
  "supervisor_new strategy intensity specs = \<lparr>sv_logic = logic_new strategy intensity, sv_specs = specs,
     sv_handles = Map.empty, sv_remote_handles = Map.empty, sv_remote_meta = Map.empty,
     sv_remote_ids = Map.empty\<rparr>"

definition self_address :: "'m env \<Rightarrow> 'm world \<Rightarrow> actor_address" where
  "self_address en w = address_local (wd_here w) (en_self en)"

abbreviation alive_slot :: "actor_id \<Rightarrow> child_handle_slot" where
  "alive_slot a \<equiv> \<lparr>sl_id = a, sl_alive = True\<rparr>"

section \<open>Starting and restarting children\<close>

definition sup_start_child :: "'m env \<Rightarrow> child_spec \<Rightarrow> nat \<Rightarrow> 'm sup_state \<Rightarrow> 'm sup_state run" where
  "sup_start_child en spec idx = (\<lambda>(sv, w).
     (case spec_start_child spec (en_self en) w of
        None \<Rightarrow> Panics
      | Some (h, w') \<Rightarrow>
          Returns (sv\<lparr>sv_logic := register_child
                        \<lparr>cp_id = cs_id spec, cp_restart = cs_restart spec, cp_start_index = idx\<rparr>
                        (alive_slot h) (sv_logic sv),
                      sv_handles := (sv_handles sv)(cs_id spec \<mapsto> h)\<rparr>, w')))"

definition sup_start_child_remote :: "'m env \<Rightarrow> child_spec \<Rightarrow> nat \<Rightarrow> 'm sup_state \<Rightarrow> 'm sup_state run" where
  "sup_start_child_remote en spec idx = (\<lambda>(sv, w).
     (case remote_spawn_spec_from_inner spec of
        None \<Rightarrow> Returns (sv, w)
      | Some wire_spec \<Rightarrow>
          (case cs_placement spec of
             LocalPlacement \<Rightarrow> Returns (sv, w)
           | RemotePlacement pl \<Rightarrow>
               (case spawn_with_retry_on (en_runtime en) (en_rpc en) pl (self_address en w) wire_spec True
                       default_retry_policy w of
                  (Inl err, w') \<Rightarrow> Returns (sv, w')
                | (Inr address, w') \<Rightarrow>
                    Returns (sv\<lparr>sv_logic := register_child
                        \<lparr>cp_id = cs_id spec, cp_restart = cs_restart spec, cp_start_index = idx\<rparr>
                        (alive_slot (actor_id address)) (sv_logic sv),
                      sv_remote_handles := (sv_remote_handles sv)(cs_id spec \<mapsto>
                        remote_child_handle_new address (self_address en w)),
                      sv_remote_ids := (sv_remote_ids sv)(actor_id address \<mapsto> cs_id spec),
                      sv_remote_meta := (sv_remote_meta sv)(cs_id spec \<mapsto>
                        \<lparr>rsm_spec = wire_spec, rsm_placement = pl, rsm_link = True\<rparr>)\<rparr>, w')))))"

definition restart_remote_child :: "'m env \<Rightarrow> string \<Rightarrow> 'm sup_state \<Rightarrow> 'm sup_state run" where
  "restart_remote_child en child_id = (\<lambda>(sv, w).
     (case sv_remote_meta sv child_id of
        None \<Rightarrow> Returns (sv, w)
      | Some meta \<Rightarrow>
          (let sv1 = sv\<lparr>sv_remote_handles := (sv_remote_handles sv)(child_id := None),
                        sv_remote_ids := (\<lambda>a. if sv_remote_ids sv a = Some child_id then None
                                             else sv_remote_ids sv a)\<rparr>
           in case spawn_with_retry_on (en_runtime en) (en_rpc en) (rsm_placement meta) (self_address en w)
                     (rsm_spec meta) (rsm_link meta) default_retry_policy w of
                (Inl err, w') \<Rightarrow>
                  Returns (sv1\<lparr>sv_logic := snd (remove_child_by_id child_id (sv_logic sv1)),
                               sv_remote_meta := (sv_remote_meta sv1)(child_id := None)\<rparr>, w')
              | (Inr address, w') \<Rightarrow>
                  Returns (sv1\<lparr>sv_logic := replace_child_handle child_id
                                 (alive_slot (actor_id address)) (sv_logic sv1),
                               sv_remote_handles := (sv_remote_handles sv1)(child_id \<mapsto>
                                 remote_child_handle_new address (self_address en w)),
                               sv_remote_ids := (sv_remote_ids sv1)(actor_id address \<mapsto> child_id)\<rparr>, w'))))"

definition find_spec :: "string \<Rightarrow> child_spec list \<Rightarrow> child_spec option" where
  "find_spec i specs = find (\<lambda>s. cs_id s = i) specs"

definition restart_child :: "'m env \<Rightarrow> string \<Rightarrow> 'm sup_state \<Rightarrow> 'm sup_state run" where
  "restart_child en child_id = (\<lambda>(sv, w).
     (case find_spec child_id (sv_specs sv) of
        None \<Rightarrow> Returns (sv, w)
      | Some spec \<Rightarrow>
          (case spec_start_child spec (en_self en) w of
             None \<Rightarrow> Panics
           | Some (h, w') \<Rightarrow>
               Returns (sv\<lparr>sv_logic := replace_child_handle child_id (alive_slot h) (sv_logic sv),
                           sv_handles := (sv_handles sv)(child_id \<mapsto> h)\<rparr>, w'))))"

definition shutdown_of :: "string \<Rightarrow> child_spec list \<Rightarrow> shutdown_type" where
  "shutdown_of i specs = (case find_spec i specs of Some s \<Rightarrow> cs_shutdown s | None \<Rightarrow> Infinity)"

definition shutdown_child_on ::
  "mailbox_runtime \<Rightarrow> 'm sched \<Rightarrow> actor_id \<Rightarrow> shutdown_type \<Rightarrow> 'm cells \<Rightarrow> exit_reason option \<times> 'm cells" where
  "shutdown_child_on rt = (case rt of Tasks \<Rightarrow> shutdown_child_async | Threads \<Rightarrow> shutdown_child_blocking)"

definition shutdown_local :: "'m env \<Rightarrow> actor_id \<Rightarrow> shutdown_type \<Rightarrow> 'm world \<Rightarrow> 'm world run" where
  "shutdown_local en h sd w =
     (case shutdown_child_on (en_runtime en) (en_sched en) h sd (wd_cells w) of
        (None, _) \<Rightarrow> Hangs
      | (Some _, c) \<Rightarrow> Returns (w\<lparr>wd_cells := c\<rparr>))"

definition terminate_one :: "'m env \<Rightarrow> string \<Rightarrow> 'm sup_state \<Rightarrow> 'm sup_state run" where
  "terminate_one en i = (\<lambda>(sv, w).
     (let sd = shutdown_of i (sv_specs sv)
      in case sv_remote_handles sv i of
           Some remote \<Rightarrow>
             if is_child_alive i (sv_logic sv)
             then (case shutdown_remote_on (en_runtime en) (en_wait en) remote sd w of
                     None \<Rightarrow> Hangs
                   | Some (_, w') \<Rightarrow>
                       Returns (sv\<lparr>sv_logic := mark_child_dead (actor_id (rh_address remote)) (sv_logic sv)\<rparr>, w'))
             else Returns (sv, w)
         | None \<Rightarrow>
             (case sv_handles sv i of
                None \<Rightarrow> Returns (sv, w)
              | Some h \<Rightarrow>
                  run_then (shutdown_local en h sd w) (\<lambda>w'.
                    Returns (sv\<lparr>sv_logic := mark_child_dead h (sv_logic sv)\<rparr>, w')))))"

definition terminate_children :: "'m env \<Rightarrow> string list \<Rightarrow> 'm sup_state \<Rightarrow> 'm sup_state run" where
  "terminate_children en ids = run_each (terminate_one en) ids"

definition backoff_for :: "string \<Rightarrow> child_spec list \<Rightarrow> restart_backoff" where
  "backoff_for i specs = (case find_spec i specs of Some s \<Rightarrow> cs_backoff s | None \<Rightarrow> NoBackoff)"

definition restart_child_with_backoff :: "'m env \<Rightarrow> string \<Rightarrow> 'm sup_state \<Rightarrow> 'm sup_state run" where
  "restart_child_with_backoff en child_id = (\<lambda>(sv, w).
     (case backoff_delay child_id (backoff_for child_id (sv_specs sv)) (sv_logic sv) of
        (delay, l) \<Rightarrow>
          (let sv1 = sv\<lparr>sv_logic := l\<rparr>;
               w1 = (if delay \<noteq> 0 then sleep delay w else w)
           in if sv_remote_meta sv1 child_id \<noteq> None
              then restart_remote_child en child_id (sv1, w1)
              else restart_child en child_id (sv1, w1))))"

definition maybe_complete_batch_restart :: "'m env \<Rightarrow> 'm sup_state \<Rightarrow> 'm sup_state run" where
  "maybe_complete_batch_restart en = (\<lambda>(sv, w).
     (if \<not> pending_batch_restart_complete (sv_logic sv) then Returns (sv, w)
      else case take_pending_restart_ids (sv_logic sv) of
             (None, l) \<Rightarrow> Returns (sv\<lparr>sv_logic := l\<rparr>, w)
           | (Some ids, l) \<Rightarrow>
               (case partition (\<lambda>i. sv_remote_meta sv i \<noteq> None) ids of
                  (remote_ids, local_ids) \<Rightarrow>
                    run_then (run_each (restart_child_with_backoff en) remote_ids (sv\<lparr>sv_logic := l\<rparr>, w))
                      (run_each (restart_child_with_backoff en) local_ids))))"

section \<open>Callbacks\<close>

definition handle_exit :: "'m env \<Rightarrow> instant \<Rightarrow> exit_msg \<Rightarrow> 'm sup_state \<Rightarrow> 'm sup_state run" where
  "handle_exit en now ex = (\<lambda>(sv, w).
     (if lg_suppress (sv_logic sv)
      then maybe_complete_batch_restart en
             (sv\<lparr>sv_logic := note_exit_during_batch (actor_id (exit_from ex)) (sv_logic sv)\<rparr>, w)
      else case on_child_exit (actor_id (exit_from ex)) (exit_cause ex) now (sv_logic sv) of
             (Ignore, l) \<Rightarrow> Returns (sv\<lparr>sv_logic := l\<rparr>, w)
           | (RestartOne i, l) \<Rightarrow> restart_child_with_backoff en i (sv\<lparr>sv_logic := l\<rparr>, w)
           | (TerminateBatch ids, l) \<Rightarrow>
               run_then (terminate_children en ids (sv\<lparr>sv_logic := l\<rparr>, w)) (maybe_complete_batch_restart en)
           | (Meltdown, l) \<Rightarrow>
               Returns (sv\<lparr>sv_logic := l\<rparr>, over_cells (handle_stop (en_self en)) w)))"

definition start_one :: "'m env \<Rightarrow> nat \<times> child_spec \<Rightarrow> 'm sup_state \<Rightarrow> 'm sup_state run" where
  "start_one en = (\<lambda>(idx, spec) st.
     if is_remote spec then sup_start_child_remote en spec idx st else sup_start_child en spec idx st)"

definition sup_started :: "'m env \<Rightarrow> 'm sup_state \<Rightarrow> 'm sup_state run" where
  "sup_started en = (\<lambda>(sv, w).
     (let w1 = over_cells (set_trap_exit (en_self en) True) w;
          w2 = snd (register_supervision_actor (self_address en w1) (en_self en) w1)
      in run_each (start_one en) (enumerate 0 (sv_specs sv)) (sv, w2)))"

definition sup_exit_received :: "'m env \<Rightarrow> instant \<Rightarrow> exit_msg \<Rightarrow> 'm sup_state \<Rightarrow> 'm sup_state run" where
  "sup_exit_received en now ex = handle_exit en now ex"

definition stop_one :: "'m env \<Rightarrow> string \<Rightarrow> 'm sup_state \<Rightarrow> 'm sup_state run" where
  "stop_one en i = (\<lambda>(sv, w).
     (let sd = shutdown_of i (sv_specs sv)
      in run_then (case sv_handles sv i of None \<Rightarrow> Returns w | Some h \<Rightarrow> shutdown_local en h sd w) (\<lambda>w1.
           case sv_remote_handles sv i of
             None \<Rightarrow> Returns (sv, w1)
           | Some remote \<Rightarrow>
               (case shutdown_remote_on (en_runtime en) (en_wait en) remote sd w1 of
                  None \<Rightarrow> Hangs
                | Some (_, w2) \<Rightarrow> Returns (sv, w2)))))"

definition sup_stopped :: "'m env \<Rightarrow> 'm sup_state \<Rightarrow> 'm sup_state run" where
  "sup_stopped en = (\<lambda>(sv, w).
     (let sv1 = sv\<lparr>sv_logic := set_suppress_restarts True (sv_logic sv)\<rparr>
      in run_then (run_each (stop_one en) (shutdown_order (sv_logic sv1)) (sv1, w)) (\<lambda>(sv2, w2).
           Returns (sv2\<lparr>sv_handles := Map.empty, sv_remote_handles := Map.empty,
                        sv_remote_meta := Map.empty, sv_remote_ids := Map.empty\<rparr>, w2))))"

section \<open>The threads supervisor\<close>

abbreviation on_threads :: "'m env \<Rightarrow> 'm env" where
  "on_threads en \<equiv> en\<lparr>en_runtime := Threads\<rparr>"

definition threads_sup_start_child :: "'m env \<Rightarrow> child_spec \<Rightarrow> nat \<Rightarrow> 'm sup_state \<Rightarrow> 'm sup_state run" where
  "threads_sup_start_child en = sup_start_child (on_threads en)"

definition threads_sup_start_child_remote :: "'m env \<Rightarrow> child_spec \<Rightarrow> nat \<Rightarrow> 'm sup_state \<Rightarrow> 'm sup_state run" where
  "threads_sup_start_child_remote en = sup_start_child_remote (on_threads en)"

definition threads_restart_remote_child :: "'m env \<Rightarrow> string \<Rightarrow> 'm sup_state \<Rightarrow> 'm sup_state run" where
  "threads_restart_remote_child en = restart_remote_child (on_threads en)"

definition threads_restart_child :: "'m env \<Rightarrow> string \<Rightarrow> 'm sup_state \<Rightarrow> 'm sup_state run" where
  "threads_restart_child en = restart_child (on_threads en)"

definition threads_terminate_children :: "'m env \<Rightarrow> string list \<Rightarrow> 'm sup_state \<Rightarrow> 'm sup_state run" where
  "threads_terminate_children en = terminate_children (on_threads en)"

definition threads_restart_child_with_backoff :: "'m env \<Rightarrow> string \<Rightarrow> 'm sup_state \<Rightarrow> 'm sup_state run" where
  "threads_restart_child_with_backoff en = restart_child_with_backoff (on_threads en)"

definition threads_maybe_complete_batch_restart :: "'m env \<Rightarrow> 'm sup_state \<Rightarrow> 'm sup_state run" where
  "threads_maybe_complete_batch_restart en = maybe_complete_batch_restart (on_threads en)"

definition threads_handle_exit :: "'m env \<Rightarrow> instant \<Rightarrow> exit_msg \<Rightarrow> 'm sup_state \<Rightarrow> 'm sup_state run" where
  "threads_handle_exit en = handle_exit (on_threads en)"

definition threads_sup_started :: "'m env \<Rightarrow> 'm sup_state \<Rightarrow> 'm sup_state run" where
  "threads_sup_started en = sup_started (on_threads en)"

definition threads_sup_stopped :: "'m env \<Rightarrow> 'm sup_state \<Rightarrow> 'm sup_state run" where
  "threads_sup_stopped en = sup_stopped (on_threads en)"

lemma shutdown_child_on_async: "shutdown_child_on rt = shutdown_child_async"
  by (cases rt) (simp_all add: shutdown_child_on_def shutdown_blocking_eq_async)

lemma spawn_with_retry_on_async: "spawn_with_retry_on rt = request_spawn_with_retry_async"
  by (cases rt) (simp_all add: fun_eq_iff spawn_with_retry_on_def request_spawn_with_retry_async_def
      request_spawn_with_retry_blocking_def)

end
