(* ===== verification/Supervisor_Tables.thy ===== *)
theory Supervisor_Tables
  imports Supervisor Link_Cascade
begin

text \<open>
  The tables of the static supervisor for local children, related to two lists: the actors of
  the children and whether each is believed to run, in the order of the specifications. Every
  operation of the supervisor is a list update; the lemmas here say which.
\<close>

section \<open>The supervisor's tables as lists\<close>

definition policy_at :: "child_spec list \<Rightarrow> nat \<Rightarrow> child_policy" where
  "policy_at specs k = \<lparr>cp_id = cs_id (specs ! k), cp_restart = cs_restart (specs ! k), cp_start_index = k\<rparr>"

definition child_rows :: "child_spec list \<Rightarrow> actor_id list \<Rightarrow> bool list \<Rightarrow> supervised_child list" where
  "child_rows specs hs al =
     map (\<lambda>k. \<lparr>sc_policy = policy_at specs k, sc_handle = Some \<lparr>sl_id = hs ! k, sl_alive = al ! k\<rparr>\<rparr>)
       [0..<length specs]"

definition local_specs :: "child_spec list \<Rightarrow> bool" where
  "local_specs specs \<longleftrightarrow> distinct (map cs_id specs) \<and>
     (\<forall>s \<in> set specs. (\<exists>rt t. cs_start s = StartLinked rt t) \<and> \<not> is_remote s)"

definition sup_rep :: "'m env \<Rightarrow> actor_id list \<Rightarrow> bool list \<Rightarrow> 'm sup_state \<Rightarrow> bool" where
  "sup_rep en hs al = (\<lambda>(sv, w).
     local_specs (sv_specs sv) \<and> length hs = length (sv_specs sv) \<and> length al = length (sv_specs sv) \<and>
     lg_children (sv_logic sv) = child_rows (sv_specs sv) hs al \<and>
     sv_handles sv = map_of (zip (map cs_id (sv_specs sv)) hs) \<and>
     sv_remote_handles sv = Map.empty \<and> sv_remote_meta sv = Map.empty \<and>
     distinct hs \<and> en_self en \<notin> set hs \<and> (\<forall>h \<in> set hs. \<not> fresh_id w h) \<and>
     world_inv w \<and> \<not> fresh_id w (en_self en) \<and> is_alive (en_self en) (wd_cells w))"

lemma length_rows [simp]: "length (child_rows specs hs al) = length specs"
  by (simp add: child_rows_def)

lemma nth_rows [simp]:
  "k < length specs \<Longrightarrow> child_rows specs hs al ! k =
     \<lparr>sc_policy = policy_at specs k, sc_handle = Some \<lparr>sl_id = hs ! k, sl_alive = al ! k\<rparr>\<rparr>"
  by (simp add: child_rows_def)

lemma rows_eqI:
  "length xs = length specs \<Longrightarrow> (\<And>k. k < length specs \<Longrightarrow> xs ! k = child_rows specs hs al ! k) \<Longrightarrow>
   xs = child_rows specs hs al"
  by (rule nth_equalityI) simp_all

lemma policy_at_sel [simp]:
  "cp_id (policy_at specs k) = cs_id (specs ! k)" "cp_restart (policy_at specs k) = cs_restart (specs ! k)"
  "cp_start_index (policy_at specs k) = k"
  by (simp_all add: policy_at_def)

lemma runs_row [simp]: "k < length specs \<Longrightarrow> runs a (child_rows specs hs al ! k) \<longleftrightarrow> hs ! k = a \<and> al ! k"
  by simp

lemma position_unique:
  assumes "k < length xs" "p (xs ! k)" "\<And>j. j < length xs \<Longrightarrow> p (xs ! j) \<Longrightarrow> j = k"
  shows "position p xs = Some k"
proof (cases "position p xs")
  case None
  with assms(1,2) show ?thesis by (auto simp: position_None_iff)
next
  case (Some j)
  from position_SomeD [OF this] assms(3) have "j = k" by blast
  with Some show ?thesis by simp
qed

lemma id_eq_iff:
  "distinct (map cs_id specs) \<Longrightarrow> j < length specs \<Longrightarrow> k < length specs \<Longrightarrow>
   cs_id (specs ! j) = cs_id (specs ! k) \<longleftrightarrow> j = k"
  by (metis length_map nth_eq_iff_index_eq nth_map)

lemma rows_distinct:
  assumes "lg_children l = child_rows specs hs al" "distinct hs" "length hs = length specs"
  shows "actors_distinct l"
  using assms by (auto simp: actors_distinct_def nth_eq_iff_index_eq)

lemma rows_indexed: "lg_children l = child_rows specs hs al \<Longrightarrow> indexed l"
  by (simp add: indexed_def)

lemma rows_ids: "all_child_ids (child_rows specs hs al) = map cs_id specs"
  by (rule nth_equalityI) (simp_all add: all_child_ids_def)

lemma rows_mark:
  assumes "lg_children l = child_rows specs hs al" "distinct hs" "length hs = length specs"
    "length al = length specs" "k < length specs"
  shows "lg_children (mark_child_dead (hs ! k) l) = child_rows specs hs (al[k := False])"
proof (rule rows_eqI)
  show "length (lg_children (mark_child_dead (hs ! k) l)) = length specs" using assms(1) by simp
  fix j assume j: "j < length specs"
  have idx: "child_index_by_actor (hs ! k) l = Some j \<longleftrightarrow> j = k \<and> al ! k"
  proof
    assume *: "child_index_by_actor (hs ! k) l = Some j"
    from position_SomeD [OF this [unfolded child_index_by_actor_def]] assms(1) j
    have "runs (hs ! k) (child_rows specs hs al ! j)" by simp
    with j assms show "j = k \<and> al ! k" by (auto simp: nth_eq_iff_index_eq)
  next
    assume jk: "j = k \<and> al ! k"
    have "runs (hs ! k) (lg_children l ! k)" using jk assms(1,5) by simp
    then show "child_index_by_actor (hs ! k) l = Some j"
      using index_of_runs [OF rows_distinct [OF assms(1-3)], of k] jk assms(1,5) by simp
  qed
  show "lg_children (mark_child_dead (hs ! k) l) ! j = child_rows specs hs (al[k := False]) ! j"
    using j assms(1,4) idx by (cases "j = k") (auto simp: mark_nth kill_slot_def)
qed

lemma rows_replace:
  assumes "lg_children l = child_rows specs hs al" "distinct (map cs_id specs)" "k < length specs"
    "length hs = length specs" "length al = length specs"
  shows "lg_children (replace_child_handle (cs_id (specs ! k)) (alive_slot h) l) =
    child_rows specs (hs[k := h]) (al[k := True])"
proof -
  have "position (\<lambda>c. cp_id (sc_policy c) = cs_id (specs ! k)) (lg_children l) = Some k"
    using assms by (intro position_unique) (auto simp: id_eq_iff)
  then show ?thesis
    using assms by (intro rows_eqI) (auto simp: replace_child_handle_def nth_list_update)
qed

lemma find_spec_nth:
  assumes "distinct (map cs_id specs)" "k < length specs"
  shows "find_spec (cs_id (specs ! k)) specs = Some (specs ! k)"
proof -
  have "position (\<lambda>s. cs_id s = cs_id (specs ! k)) specs = Some k"
    using assms by (intro position_unique) (auto simp: id_eq_iff)
  with position_eq_find [of specs "\<lambda>s. cs_id s = cs_id (specs ! k)"] show ?thesis
    by (simp add: find_spec_def)
qed

lemma handles_nth:
  assumes "distinct (map cs_id specs)" "k < length specs" "length hs = length specs"
  shows "map_of (zip (map cs_id specs) hs) (cs_id (specs ! k)) = Some (hs ! k)"
  using map_of_zip_nth [of "map cs_id specs" hs k] assms by simp

lemma handles_update:
  assumes "distinct (map cs_id specs)" "k < length specs" "length hs = length specs"
  shows "(map_of (zip (map cs_id specs) hs))(cs_id (specs ! k) \<mapsto> h) =
    map_of (zip (map cs_id specs) (hs[k := h]))"
proof
  fix i
  show "((map_of (zip (map cs_id specs) hs))(cs_id (specs ! k) \<mapsto> h)) i =
      map_of (zip (map cs_id specs) (hs[k := h])) i"
  proof (cases "i \<in> set (map cs_id specs)")
    case True
    then obtain j where j: "j < length specs" "i = cs_id (specs ! j)" by (auto simp: in_set_conv_nth)
    with assms show ?thesis by (cases "j = k") (simp_all add: handles_nth id_eq_iff)
  next
    case False
    then have "i \<noteq> cs_id (specs ! k)" using assms(2) by auto
    have "i \<notin> dom (map_of (zip (map cs_id specs) xs))" if "length xs = length specs" for xs
      using False that by (simp add: dom_map_of_zip)
    then have "map_of (zip (map cs_id specs) hs) i = map_of (zip (map cs_id specs) (hs[k := h])) i"
      using assms(3) by (metis domIff length_list_update)
    with \<open>i \<noteq> cs_id (specs ! k)\<close> show ?thesis by (simp only: fun_upd_other not_False_eq_True)
  qed
qed

section \<open>Starting a child\<close>

lemma spec_start_child_world:
  assumes spec: "cs_start s = StartLinked rt t" and inv: "world_inv w"
    and self: "\<not> fresh_id w self" "is_alive self (wd_cells w)"
    and room: "next_actor_id (wd_addr w) \<noteq> -1"
  shows "\<exists>h w'. spec_start_child s self w = Some (h, w') \<and> fresh_id w h \<and> \<not> fresh_id w' h \<and>
    world_inv w' \<and> is_alive h (wd_cells w') \<and> (\<forall>j. \<not> fresh_id w j \<longrightarrow> \<not> fresh_id w' j) \<and>
    (\<forall>j. j \<noteq> h \<longrightarrow> cl_completion (wd_cells w' j) = cl_completion (wd_cells w j)) \<and>
    next_actor_id (wd_addr w') = next_actor_id (wd_addr w) + 1"
proof -
  obtain h w1 where st: "start_linked_to_handle rt self (cs_mailbox s) w = (h, w1)" by fastforce
  note c = start_linked_cells [OF inv self(1) st] and i = world_inv_start [OF inv self room st]
  define w' where "w' = (case cs_pg_membership s of None \<Rightarrow> w1
    | Some pm \<Rightarrow> typed_join_scoped t (pm_scope pm) (pm_group pm) h w1)"
  have w': "wd_cells w' = wd_cells w1" "wd_addr w' = wd_addr w1"
    by (simp_all add: w'_def split: option.splits)
  then have fr: "fresh_id w' j = fresh_id w1 j" for j by (simp add: fresh_id_def)
  have "spec_start_child s self w = Some (h, w')"
    by (simp add: spec_start_child_def spec st w'_def)
  moreover have "world_inv w'" using i(1) by (simp add: world_inv_def w' fr)
  moreover have "fresh_id w h" by (simp add: fresh_id_def c(1))
  moreover have "cl_completion (wd_cells w' j) = cl_completion (wd_cells w j)" if "j \<noteq> h" for j
    using that by (simp add: w' c(3))
  ultimately show ?thesis using i(2-4) c(5) by (auto simp: fr w')
qed

section \<open>Operations as list updates\<close>

lemma sup_repD:
  assumes "sup_rep en hs al (sv, w)"
  shows "local_specs (sv_specs sv)" "distinct (map cs_id (sv_specs sv))" "length hs = length (sv_specs sv)"
    "length al = length (sv_specs sv)" "lg_children (sv_logic sv) = child_rows (sv_specs sv) hs al"
    "sv_handles sv = map_of (zip (map cs_id (sv_specs sv)) hs)" "sv_remote_handles sv = Map.empty"
    "sv_remote_meta sv = Map.empty" "distinct hs" "en_self en \<notin> set hs" "\<And>h. h \<in> set hs \<Longrightarrow> \<not> fresh_id w h"
    "world_inv w" "\<not> fresh_id w (en_self en)" "is_alive (en_self en) (wd_cells w)"
  using assms by (auto simp: sup_rep_def local_specs_def)

lemma sup_rep_logic:
  "lg_children l = lg_children (sv_logic sv) \<Longrightarrow>
   sup_rep en hs al (sv\<lparr>sv_logic := l\<rparr>, w) = sup_rep en hs al (sv, w)"
  by (simp add: sup_rep_def)

lemma sup_rep_sleep: "sup_rep en hs al (sv, sleep d w) = sup_rep en hs al (sv, w)"
  by (simp add: sup_rep_def sleep_def world_inv_def fresh_id_def)

lemma distinct_list_update_new: "distinct xs \<Longrightarrow> x \<notin> set xs \<Longrightarrow> distinct (xs[k := x])"
  by (simp add: distinct_list_update)

text \<open>
  The frame of one restart: a new live actor takes place \<open>k\<close>; the fields of the policy
  engine other than the children are as before, up to backoff counters; nobody else's
  completion changes.
\<close>

definition same_control :: "supervisor \<Rightarrow> supervisor \<Rightarrow> bool" where
  "same_control sv sv' \<longleftrightarrow> sv_specs sv' = sv_specs sv \<and>
     lg_strategy (sv_logic sv') = lg_strategy (sv_logic sv) \<and>
     lg_suppress (sv_logic sv') = lg_suppress (sv_logic sv) \<and>
     lg_pending (sv_logic sv') = lg_pending (sv_logic sv)"

lemma same_control_trans: "same_control a b \<Longrightarrow> same_control b c \<Longrightarrow> same_control a c"
  by (simp add: same_control_def)

definition only_adds :: "'m world \<Rightarrow> 'm world \<Rightarrow> bool" where
  "only_adds w w' \<longleftrightarrow> (\<forall>j. \<not> fresh_id w j \<longrightarrow> \<not> fresh_id w' j \<and>
     cl_completion (wd_cells w' j) = cl_completion (wd_cells w j))"

lemma only_adds_trans: "only_adds u v \<Longrightarrow> only_adds v w \<Longrightarrow> only_adds u w"
  by (simp add: only_adds_def)

lemma backoff_delay_children:
  "backoff_delay i b l = (d, l') \<Longrightarrow> lg_children l' = lg_children l \<and> lg_strategy l' = lg_strategy l \<and>
     lg_suppress l' = lg_suppress l \<and> lg_pending l' = lg_pending l"
  by (auto simp: backoff_delay_def Let_def split: if_splits)

lemma replace_frame [simp]:
  "lg_strategy (replace_child_handle i h l) = lg_strategy l"
  "lg_suppress (replace_child_handle i h l) = lg_suppress l"
  "lg_pending (replace_child_handle i h l) = lg_pending l"
  by (simp_all add: replace_child_handle_def split: option.splits)

lemma restart_child_rep:
  assumes rep: "sup_rep en hs al (sv, w)" and k: "k < length (sv_specs sv)"
    and room: "next_actor_id (wd_addr w) \<noteq> -1"
  shows "\<exists>h sv' w'. restart_child en (cs_id (sv_specs sv ! k)) (sv, w) = Returns (sv', w') \<and>
    sup_rep en (hs[k := h]) (al[k := True]) (sv', w') \<and> same_control sv sv' \<and> only_adds w w' \<and>
    fresh_id w h \<and> is_alive h (wd_cells w') \<and>
    next_actor_id (wd_addr w') = next_actor_id (wd_addr w) + 1"
proof -
  note d = sup_repD [OF rep]
  let ?s = "sv_specs sv ! k"
  obtain rt t where t: "cs_start ?s = StartLinked rt t"
    using d(1) nth_mem [OF k] by (auto simp: local_specs_def)
  from spec_start_child_world [OF t d(12-14) room]
  obtain h w' where h: "spec_start_child ?s (en_self en) w = Some (h, w')" "fresh_id w h" "\<not> fresh_id w' h"
    "world_inv w'" "is_alive h (wd_cells w')" "\<forall>j. \<not> fresh_id w j \<longrightarrow> \<not> fresh_id w' j"
    "\<forall>j. j \<noteq> h \<longrightarrow> cl_completion (wd_cells w' j) = cl_completion (wd_cells w j)"
    "next_actor_id (wd_addr w') = next_actor_id (wd_addr w) + 1" by blast
  let ?sv' = "sv\<lparr>sv_logic := replace_child_handle (cs_id ?s) (alive_slot h) (sv_logic sv),
      sv_handles := (sv_handles sv)(cs_id ?s \<mapsto> h)\<rparr>"
  have run: "restart_child en (cs_id ?s) (sv, w) = Returns (?sv', w')"
    by (simp add: restart_child_def find_spec_nth [OF d(2) k] h(1))
  have "h \<notin> set hs" "h \<noteq> en_self en" using d(11,13) h(2) by auto
  then have "sup_rep en (hs[k := h]) (al[k := True]) (?sv', w')"
    using d h k rows_replace [OF d(5,2) k d(3,4), of h] handles_update [OF d(2) k d(3), of h]
    by (auto simp: sup_rep_def distinct_list_update_new alive_simps dest!: set_update_subset_insert [THEN subsetD])
  moreover have "only_adds w w'"
    using h(2,6,7) by (auto simp: only_adds_def)
  ultimately show ?thesis using run h by (auto simp: same_control_def)
qed

lemma restart_with_backoff_rep:
  assumes rep: "sup_rep en hs al (sv, w)" and k: "k < length (sv_specs sv)"
    and room: "next_actor_id (wd_addr w) \<noteq> -1"
  shows "\<exists>h sv' w'. restart_child_with_backoff en (cs_id (sv_specs sv ! k)) (sv, w) = Returns (sv', w') \<and>
    sup_rep en (hs[k := h]) (al[k := True]) (sv', w') \<and> same_control sv sv' \<and> only_adds w w' \<and>
    fresh_id w h \<and> is_alive h (wd_cells w') \<and>
    next_actor_id (wd_addr w') = next_actor_id (wd_addr w) + 1"
proof -
  let ?i = "cs_id (sv_specs sv ! k)"
  obtain d l where dl: "backoff_delay ?i (backoff_for ?i (sv_specs sv)) (sv_logic sv) = (d, l)" by fastforce
  note l = backoff_delay_children [OF dl]
  define w1 where "w1 = (if d \<noteq> 0 then sleep d w else w)"
  let ?sv1 = "sv\<lparr>sv_logic := l\<rparr>"
  have w1: "wd_addr w1 = wd_addr w" "wd_cells w1 = wd_cells w" by (simp_all add: w1_def sleep_def)
  have rep1: "sup_rep en hs al (?sv1, w1)"
    using rep l by (simp add: w1_def sup_rep_sleep sup_rep_logic)
  have "restart_child_with_backoff en ?i (sv, w) = restart_child en ?i (?sv1, w1)"
    using sup_repD(8) [OF rep] by (simp add: restart_child_with_backoff_def dl w1_def)
  moreover have "only_adds w1 w' = only_adds w w'" "fresh_id w1 h = fresh_id w h" for w' h
    by (simp_all add: only_adds_def fresh_id_def w1)
  moreover have "same_control ?sv1 sv' = same_control sv sv'" for sv'
    using l by (simp add: same_control_def)
  ultimately show ?thesis
    using restart_child_rep [OF rep1, of k] k room by (simp add: w1)
qed

text \<open>Restarting a list of children, given by their positions.\<close>

definition ids_at :: "supervisor \<Rightarrow> nat list \<Rightarrow> string list" where
  "ids_at sv ks = map (\<lambda>k. cs_id (sv_specs sv ! k)) ks"

definition restarted :: "'m world \<Rightarrow> 'm world \<Rightarrow> nat set \<Rightarrow> actor_id list \<Rightarrow> bool list \<Rightarrow> actor_id list \<Rightarrow> bool list \<Rightarrow> bool" where
  "restarted w w' K hs al hs' al' \<longleftrightarrow> length hs' = length hs \<and> length al' = length al \<and>
     (\<forall>j < length hs. if j \<in> K then fresh_id w (hs' ! j) \<and> is_alive (hs' ! j) (wd_cells w') \<and> al' ! j
        else hs' ! j = hs ! j \<and> al' ! j = al ! j)"

lemma next_id_bound:
  assumes "unat (n :: u64) + Suc m < 2 ^ 64"
  shows "n \<noteq> -1" "unat (n + 1) + m < 2 ^ 64"
proof -
  have "unat (-1 :: u64) = 2 ^ 64 - 1" by (simp add: unsigned_minus_1_eq_mask mask_eq_exp_minus_1)
  with assms show "n \<noteq> -1" by auto
  have "unat (n + 1) = Suc (unat n)" using assms by (simp add: unat_word_ariths)
  with assms show "unat (n + 1) + m < 2 ^ 64" by simp
qed

lemma restart_list_rep:
  assumes "sup_rep en hs al (sv, w)" and "distinct ks" and "\<forall>k \<in> set ks. k < length (sv_specs sv)"
    and "unat (next_actor_id (wd_addr w)) + length ks < 2 ^ 64"
  shows "\<exists>hs' al' sv' w'. run_each (restart_child_with_backoff en) (ids_at sv ks) (sv, w) = Returns (sv', w') \<and>
    sup_rep en hs' al' (sv', w') \<and> same_control sv sv' \<and> only_adds w w' \<and> restarted w w' (set ks) hs al hs' al'"
  using assms
proof (induction ks arbitrary: hs al sv w)
  case Nil
  then show ?case
    by (intro exI [of _ hs] exI [of _ al] exI [of _ sv] exI [of _ w])
       (simp add: ids_at_def same_control_def only_adds_def restarted_def)
next
  case (Cons k ks)
  note d = sup_repD [OF Cons.prems(1)]
  have k: "k < length (sv_specs sv)" "k \<notin> set ks" using Cons.prems(2,3) by auto
  have room: "next_actor_id (wd_addr w) \<noteq> -1" "unat (next_actor_id (wd_addr w) + 1) + length ks < 2 ^ 64"
    using next_id_bound [of "next_actor_id (wd_addr w)" "length ks"] Cons.prems(4) by simp_all
  from restart_with_backoff_rep [OF Cons.prems(1) k(1) room(1)]
  obtain h sv1 w1 where s1: "restart_child_with_backoff en (cs_id (sv_specs sv ! k)) (sv, w) = Returns (sv1, w1)"
    "sup_rep en (hs[k := h]) (al[k := True]) (sv1, w1)" "same_control sv sv1" "only_adds w w1"
    "fresh_id w h" "is_alive h (wd_cells w1)" "next_actor_id (wd_addr w1) = next_actor_id (wd_addr w) + 1" by blast
  have specs: "sv_specs sv1 = sv_specs sv" using s1(3) by (simp add: same_control_def)
  have "\<exists>hs' al' sv' w'. run_each (restart_child_with_backoff en) (ids_at sv1 ks) (sv1, w1) = Returns (sv', w') \<and>
      sup_rep en hs' al' (sv', w') \<and> same_control sv1 sv' \<and> only_adds w1 w' \<and>
      restarted w1 w' (set ks) (hs[k := h]) (al[k := True]) hs' al'"
    using Cons.prems(2,3) s1(2,7) room(2) specs by (intro Cons.IH) simp_all
  then obtain hs' al' sv' w' where s2: "run_each (restart_child_with_backoff en) (ids_at sv1 ks) (sv1, w1) = Returns (sv', w')"
    "sup_rep en hs' al' (sv', w')" "same_control sv1 sv'" "only_adds w1 w'"
    "restarted w1 w' (set ks) (hs[k := h]) (al[k := True]) hs' al'" by blast
  have len: "k < length hs" "length al = length hs" using k d(3,4) by simp_all
  have hk: "\<not> fresh_id w1 h" using sup_repD(11) [OF s1(2)] len(1) by (simp add: set_update_memI)
  have "restarted w w' (set (k # ks)) hs al hs' al'"
    unfolding restarted_def
  proof (intro conjI allI impI)
    show "length hs' = length hs" "length al' = length al" using s2(5) by (simp_all add: restarted_def)
    fix j assume j: "j < length hs"
    show "if j \<in> set (k # ks) then fresh_id w (hs' ! j) \<and> is_alive (hs' ! j) (wd_cells w') \<and> al' ! j
        else hs' ! j = hs ! j \<and> al' ! j = al ! j"
    proof (cases "j = k")
      case True
      then have "hs' ! j = h" "al' ! j" using s2(5) k(2) j len by (auto simp: restarted_def)
      with True s1(5,6) s2(4) hk show ?thesis by (simp add: only_adds_def alive_simps)
    next
      case False
      then show ?thesis using s2(5) j s1(4) by (auto simp: restarted_def only_adds_def)
    qed
  qed
  moreover have "run_each (restart_child_with_backoff en) (ids_at sv (k # ks)) (sv, w) = Returns (sv', w')"
    using s1(1) s2(1) specs by (simp add: ids_at_def)
  ultimately show ?case
    using s2(2) same_control_trans [OF s1(3) s2(3)] only_adds_trans [OF s1(4) s2(4)] by blast
qed

section \<open>Terminating children\<close>

text \<open>
  What the supervisor relies on while it waits for a child: cancelled actors run to their
  end, the supervisor itself stays up, nobody comes back to life, ids not yet handed out stay
  untouched and the link tables stay consistent.
\<close>

definition sched_frame :: "actor_id \<Rightarrow> 'm sched \<Rightarrow> bool" where
  "sched_frame self sched \<longleftrightarrow> terminating sched \<and>
     (\<forall>t a c. a \<noteq> self \<and> link_inv c \<and> is_alive self c \<longrightarrow>
        link_inv (sched t a c) \<and> is_alive self (sched t a c) \<and>
        (\<forall>i. untouched i c \<and> i \<noteq> a \<longrightarrow> untouched i (sched t a c)) \<and>
        (\<forall>i. \<not> is_alive i c \<longrightarrow> \<not> is_alive i (sched t a c)))"

text \<open>\<open>kept a self c c'\<close>: the same frame for a whole shutdown of \<open>a\<close>.\<close>

definition kept :: "actor_id \<Rightarrow> actor_id \<Rightarrow> 'm cells \<Rightarrow> 'm cells \<Rightarrow> bool" where
  "kept a self c c' \<longleftrightarrow> (link_inv c \<and> is_alive self c \<longrightarrow>
     link_inv c' \<and> is_alive self c' \<and> (\<forall>i. untouched i c \<and> i \<noteq> a \<longrightarrow> untouched i c') \<and>
     (\<forall>i. \<not> is_alive i c \<longrightarrow> \<not> is_alive i c'))"

lemma kept_refl: "kept a self c c" by (simp add: kept_def)

lemma kept_trans: "kept a self c d \<Longrightarrow> kept a self d e \<Longrightarrow> kept a self c e"
  unfolding kept_def by blast

lemma kept_sched: "sched_frame self sched \<Longrightarrow> a \<noteq> self \<Longrightarrow> kept a self c (sched t a c)"
  unfolding sched_frame_def kept_def by blast

lemma kept_handle: "kept a self c (handle_kill h c)" "kept a self c (handle_shutdown h c)"
  by (auto simp: kept_def handle_kill_def handle_shutdown_def cancel_def link_inv_def untouched_def alive_simps)

lemma kept_shutdown:
  assumes fr: "sched_frame self sched" and ne: "a \<noteq> self"
  shows "kept a self c (snd (shutdown_child_async sched a sd c))"
proof -
  note k = kept_sched [OF fr ne]
  have w: "kept a self c (snd (wait_exit sched a d))" if "kept a self c d" for d
    using kept_trans [OF that k] by (simp add: wait_exit_def Let_def)
  have wt: "kept a self c (snd (wait_exit_with_timeout sched a t d))" if "kept a self c d" for t d
    using kept_trans [OF that k] that by (simp add: wait_exit_with_timeout_def Let_def split: option.splits)
  show ?thesis
  proof (cases "exit_reason_of a c")
    case (Some r)
    then show ?thesis by (simp add: shutdown_child_async_def kept_refl)
  next
    case None
    show ?thesis
    proof (cases sd)
      case (Timeout t)
      have "kept a self c (snd (wait_exit_with_timeout sched a t (handle_shutdown a c)))"
        by (intro wt kept_handle)
      then show ?thesis using None Timeout
        by (auto simp: shutdown_child_async_def intro!: w intro: kept_trans [OF _ kept_handle(1)]
            split: prod.splits option.splits)
    qed (use None in \<open>auto simp: shutdown_child_async_def intro!: w kept_handle\<close>)
  qed
qed

lemma shutdown_local_rep:
  assumes fr: "sched_frame (en_self en) (en_sched en)" and rep: "sup_rep en hs al (sv, w)" and h: "h \<in> set hs"
  shows "\<exists>w'. shutdown_local en h sd w = Returns w' \<and> sup_rep en hs al (sv, w') \<and>
    \<not> is_alive h (wd_cells w') \<and> (\<forall>i. \<not> is_alive i (wd_cells w) \<longrightarrow> \<not> is_alive i (wd_cells w')) \<and>
    wd_addr w' = wd_addr w"
proof -
  note d = sup_repD [OF rep]
  have ne: "h \<noteq> en_self en" using h d(10) by auto
  have fair: "terminating (en_sched en)" using fr by (simp add: sched_frame_def)
  obtain r c where rc: "shutdown_child_async (en_sched en) h sd (wd_cells w) = (Some r, c)"
    using shutdown_child_ends(1) [OF fair, of h sd "wd_cells w"] by (metis prod.collapse)
  let ?w' = "w\<lparr>wd_cells := c\<rparr>"
  have k: "kept h (en_self en) (wd_cells w) c" using kept_shutdown [OF fr ne, of "wd_cells w" sd] rc by simp
  have c: "link_inv c" "is_alive (en_self en) c" "\<forall>i. untouched i (wd_cells w) \<and> i \<noteq> h \<longrightarrow> untouched i c"
    "\<forall>i. \<not> is_alive i (wd_cells w) \<longrightarrow> \<not> is_alive i c"
    using k d(12,14) unfolding kept_def world_inv_def by blast+
  have fresh: "fresh_id ?w' i = fresh_id w i" for i by (simp add: fresh_id_def)
  have "\<not> fresh_id w h" using d(11) h by blast
  with c(3) d(12) have "untouched i c" if "fresh_id w i" for i
    using that unfolding world_inv_def by metis
  with c(1) have "world_inv ?w'" by (simp add: world_inv_def fresh)
  with c(2) rep have "sup_rep en hs al (sv, ?w')" by (simp add: sup_rep_def fresh)
  moreover have "\<not> is_alive h c" using shutdown_child_ends(2) [OF fair, of h sd "wd_cells w"] rc by simp
  moreover have "shutdown_local en h sd w = Returns ?w'" by (simp add: shutdown_local_def shutdown_child_on_async rc)
  ultimately show ?thesis using c(4) by auto
qed

lemma terminate_one_rep:
  assumes fr: "sched_frame (en_self en) (en_sched en)" and rep: "sup_rep en hs al (sv, w)"
    and k: "k < length (sv_specs sv)"
  shows "\<exists>sv' w'. terminate_one en (cs_id (sv_specs sv ! k)) (sv, w) = Returns (sv', w') \<and>
    sup_rep en hs (al[k := False]) (sv', w') \<and> same_control sv sv' \<and> \<not> is_alive (hs ! k) (wd_cells w') \<and>
    (\<forall>i. \<not> is_alive i (wd_cells w) \<longrightarrow> \<not> is_alive i (wd_cells w')) \<and> wd_addr w' = wd_addr w"
proof -
  note d = sup_repD [OF rep]
  let ?i = "cs_id (sv_specs sv ! k)"
  have h: "hs ! k \<in> set hs" using k d(3) by simp
  from shutdown_local_rep [OF fr rep h, of "shutdown_of ?i (sv_specs sv)"] obtain w' where
    w': "shutdown_local en (hs ! k) (shutdown_of ?i (sv_specs sv)) w = Returns w'" "sup_rep en hs al (sv, w')"
    "\<not> is_alive (hs ! k) (wd_cells w')" "\<forall>i. \<not> is_alive i (wd_cells w) \<longrightarrow> \<not> is_alive i (wd_cells w')"
    "wd_addr w' = wd_addr w" by blast
  let ?sv' = "sv\<lparr>sv_logic := mark_child_dead (hs ! k) (sv_logic sv)\<rparr>"
  have "terminate_one en ?i (sv, w) = Returns (?sv', w')"
    using handles_nth [OF d(2) k d(3)] w'(1) by (simp add: terminate_one_def Let_def d(6,7))
  moreover have "sup_rep en hs (al[k := False]) (?sv', w')"
    using w'(2) rows_mark [OF d(5,9,3,4) k] by (simp add: sup_rep_def)
  moreover have "same_control sv ?sv'" by (simp add: same_control_def)
  ultimately show ?thesis using w'(3-5) by blast
qed

lemma terminate_list_rep:
  assumes fr: "sched_frame (en_self en) (en_sched en)"
    and "sup_rep en hs al (sv, w)" and "\<forall>k \<in> set ks. k < length (sv_specs sv)"
  shows "\<exists>al' sv' w'. terminate_children en (ids_at sv ks) (sv, w) = Returns (sv', w') \<and>
    sup_rep en hs al' (sv', w') \<and> same_control sv sv' \<and> length al' = length al \<and>
    (\<forall>j < length al. al' ! j \<longleftrightarrow> al ! j \<and> j \<notin> set ks) \<and>
    (\<forall>j \<in> set ks. \<not> is_alive (hs ! j) (wd_cells w')) \<and>
    (\<forall>i. \<not> is_alive i (wd_cells w) \<longrightarrow> \<not> is_alive i (wd_cells w')) \<and> wd_addr w' = wd_addr w"
  using assms(2,3)
proof (induction ks arbitrary: al sv w)
  case Nil
  then show ?case
    by (intro exI [of _ al] exI [of _ sv] exI [of _ w])
       (simp add: terminate_children_def ids_at_def same_control_def)
next
  case (Cons k ks)
  from terminate_one_rep [OF fr Cons.prems(1), of k] Cons.prems(2) obtain sv1 w1 where
    1: "terminate_one en (cs_id (sv_specs sv ! k)) (sv, w) = Returns (sv1, w1)"
    "sup_rep en hs (al[k := False]) (sv1, w1)" "same_control sv sv1" "\<not> is_alive (hs ! k) (wd_cells w1)"
    "\<forall>i. \<not> is_alive i (wd_cells w) \<longrightarrow> \<not> is_alive i (wd_cells w1)" "wd_addr w1 = wd_addr w" by auto
  have specs: "sv_specs sv1 = sv_specs sv" using 1(3) by (simp add: same_control_def)
  from Cons.IH [OF 1(2)] Cons.prems(2) specs obtain al' sv' w' where
    2: "terminate_children en (ids_at sv1 ks) (sv1, w1) = Returns (sv', w')" "sup_rep en hs al' (sv', w')"
    "same_control sv1 sv'" "length al' = length al"
    "\<forall>j < length al. al' ! j \<longleftrightarrow> al[k := False] ! j \<and> j \<notin> set ks"
    "\<forall>j \<in> set ks. \<not> is_alive (hs ! j) (wd_cells w')"
    "\<forall>i. \<not> is_alive i (wd_cells w1) \<longrightarrow> \<not> is_alive i (wd_cells w')" "wd_addr w' = wd_addr w1" by auto
  have "terminate_children en (ids_at sv (k # ks)) (sv, w) = Returns (sv', w')"
    using 1(1) 2(1) specs by (simp add: terminate_children_def ids_at_def)
  moreover have "al' ! j \<longleftrightarrow> al ! j \<and> j \<notin> set (k # ks)" if "j < length al" for j
    using 2(5) that by (cases "j = k") simp_all
  ultimately show ?case
    using 1(4-6) 2(2,4,6-8) same_control_trans [OF 1(3) 2(3)]
    by (intro exI [of _ al'] exI [of _ sv'] exI [of _ w']) auto
qed

section \<open>Starting the children\<close>

text \<open>
  While the supervisor starts, its tables cover the specifications started so far: the
  representation is that of a supervisor with a shorter list of specifications.
\<close>

lemma child_rows_append:
  assumes "length hs = length specs" "length al = length specs"
  shows "child_rows (specs @ [s]) (hs @ [h]) (al @ [True]) = child_rows specs hs al @
    [\<lparr>sc_policy = \<lparr>cp_id = cs_id s, cp_restart = cs_restart s, cp_start_index = length specs\<rparr>,
      sc_handle = Some (alive_slot h)\<rparr>]"
  using assms by (intro rows_eqI [symmetric]) (auto simp: nth_append policy_at_def less_Suc_eq)

lemma start_child_rep:
  assumes rep: "sup_rep en hs al (sv\<lparr>sv_specs := sofar\<rparr>, w)" and s: "local_specs (sofar @ [s])"
    and room: "next_actor_id (wd_addr w) \<noteq> -1"
  shows "\<exists>h sv' w'. start_one en (length sofar, s) (sv, w) = Returns (sv', w') \<and>
    sup_rep en (hs @ [h]) (al @ [True]) (sv'\<lparr>sv_specs := sofar @ [s]\<rparr>, w') \<and> same_control sv sv' \<and>
    lg_intensity (sv_logic sv') = lg_intensity (sv_logic sv) \<and> only_adds w w' \<and> is_alive h (wd_cells w') \<and>
    next_actor_id (wd_addr w') = next_actor_id (wd_addr w) + 1"
proof -
  note d = sup_repD [OF rep, simplified]
  obtain rt t where t: "cs_start s = StartLinked rt t" "\<not> is_remote s" using s by (auto simp: local_specs_def)
  from spec_start_child_world [OF t(1) d(12-14) room]
  obtain h w' where h: "spec_start_child s (en_self en) w = Some (h, w')" "fresh_id w h" "\<not> fresh_id w' h"
    "world_inv w'" "is_alive h (wd_cells w')" "\<forall>j. \<not> fresh_id w j \<longrightarrow> \<not> fresh_id w' j"
    "\<forall>j. j \<noteq> h \<longrightarrow> cl_completion (wd_cells w' j) = cl_completion (wd_cells w j)"
    "next_actor_id (wd_addr w') = next_actor_id (wd_addr w) + 1" by blast
  let ?p = "\<lparr>cp_id = cs_id s, cp_restart = cs_restart s, cp_start_index = length sofar\<rparr>"
  let ?sv' = "sv\<lparr>sv_logic := register_child ?p (alive_slot h) (sv_logic sv),
      sv_handles := (sv_handles sv)(cs_id s \<mapsto> h)\<rparr>"
  have run: "start_one en (length sofar, s) (sv, w) = Returns (?sv', w')"
    using t(2) by (simp add: start_one_def sup_start_child_def h(1))
  have new: "h \<notin> set hs" "h \<noteq> en_self en" using d(11,13) h(2) by auto
  have "cs_id s \<notin> set (map cs_id sofar)" using s by (auto simp: local_specs_def)
  then have "cs_id s \<notin> dom (sv_handles sv)" using d(3,6) by (simp add: dom_map_of_zip)
  then have handles: "(sv_handles sv)(cs_id s \<mapsto> h) = map_of (zip (map cs_id (sofar @ [s])) (hs @ [h]))"
    using d(3) by (auto simp: d(6) [symmetric] map_add_def fun_eq_iff split: option.splits)
  have "sup_rep en (hs @ [h]) (al @ [True]) (?sv'\<lparr>sv_specs := sofar @ [s]\<rparr>, w')"
    using d h new s handles child_rows_append [OF d(3,4), of s h]
    by (auto simp: sup_rep_def register_child_def alive_simps)
  moreover have "only_adds w w'" using h(2,6,7) by (auto simp: only_adds_def)
  ultimately show ?thesis using run h by (auto simp: same_control_def register_child_def)
qed

lemma start_list_rep:
  assumes "sup_rep en hs al (sv\<lparr>sv_specs := sofar\<rparr>, w)" "local_specs (sofar @ specs)"
    "unat (next_actor_id (wd_addr w)) + length specs < 2 ^ 64"
    "\<forall>h \<in> set hs. is_alive h (wd_cells w)"
  shows "\<exists>hs' sv' w'. run_each (start_one en) (enumerate (length sofar) specs) (sv, w) = Returns (sv', w') \<and>
    sup_rep en (hs @ hs') (al @ replicate (length specs) True) (sv'\<lparr>sv_specs := sofar @ specs\<rparr>, w') \<and>
    same_control sv sv' \<and> lg_intensity (sv_logic sv') = lg_intensity (sv_logic sv) \<and> only_adds w w' \<and>
    (\<forall>h \<in> set (hs @ hs'). is_alive h (wd_cells w')) \<and>
    next_actor_id (wd_addr w') = next_actor_id (wd_addr w) + of_nat (length specs)"
  using assms
proof (induction specs arbitrary: sofar hs al sv w)
  case Nil
  then show ?case
    by (intro exI [of _ "[]"] exI [of _ sv] exI [of _ w]) (simp add: same_control_def only_adds_def)
next
  case (Cons s specs)
  have s: "local_specs (sofar @ [s])" using Cons.prems(2) by (auto simp: local_specs_def)
  have room: "next_actor_id (wd_addr w) \<noteq> -1" "unat (next_actor_id (wd_addr w) + 1) + length specs < 2 ^ 64"
    using next_id_bound [of "next_actor_id (wd_addr w)" "length specs"] Cons.prems(3) by simp_all
  from start_child_rep [OF Cons.prems(1) s room(1)] obtain h sv1 w1 where
    1: "start_one en (length sofar, s) (sv, w) = Returns (sv1, w1)"
    "sup_rep en (hs @ [h]) (al @ [True]) (sv1\<lparr>sv_specs := sofar @ [s]\<rparr>, w1)" "same_control sv sv1"
    "lg_intensity (sv_logic sv1) = lg_intensity (sv_logic sv)" "only_adds w w1" "is_alive h (wd_cells w1)"
    "next_actor_id (wd_addr w1) = next_actor_id (wd_addr w) + 1" by blast
  have alive: "\<forall>a \<in> set (hs @ [h]). is_alive a (wd_cells w1)"
    using Cons.prems(4) 1(5,6) sup_repD(11) [OF Cons.prems(1)] by (auto simp: only_adds_def alive_simps)
  have "\<exists>hs' sv' w'. run_each (start_one en) (enumerate (length (sofar @ [s])) specs) (sv1, w1) = Returns (sv', w') \<and>
      sup_rep en ((hs @ [h]) @ hs') ((al @ [True]) @ replicate (length specs) True)
        (sv'\<lparr>sv_specs := (sofar @ [s]) @ specs\<rparr>, w') \<and>
      same_control sv1 sv' \<and> lg_intensity (sv_logic sv') = lg_intensity (sv_logic sv1) \<and> only_adds w1 w' \<and>
      (\<forall>a \<in> set ((hs @ [h]) @ hs'). is_alive a (wd_cells w')) \<and>
      next_actor_id (wd_addr w') = next_actor_id (wd_addr w1) + of_nat (length specs)"
    using 1(2,7) alive room(2) Cons.prems(2) by (intro Cons.IH) simp_all
  then obtain hs' sv' w' where
    2: "run_each (start_one en) (enumerate (Suc (length sofar)) specs) (sv1, w1) = Returns (sv', w')"
    "sup_rep en (hs @ h # hs') (al @ True # replicate (length specs) True) (sv'\<lparr>sv_specs := sofar @ s # specs\<rparr>, w')"
    "same_control sv1 sv'" "lg_intensity (sv_logic sv') = lg_intensity (sv_logic sv1)" "only_adds w1 w'"
    "\<forall>a \<in> set (hs @ h # hs'). is_alive a (wd_cells w')"
    "next_actor_id (wd_addr w') = next_actor_id (wd_addr w1) + of_nat (length specs)" by auto
  with 1 same_control_trans [OF 1(3) 2(3)] only_adds_trans [OF 1(5) 2(5)] show ?case
    by (intro exI [of _ "h # hs'"] exI [of _ sv'] exI [of _ w']) simp
qed

lemma sup_started_rep:
  assumes specs: "local_specs specs" and sv: "sv = supervisor_new strategy intensity specs"
    and inv: "world_inv w" and self: "\<not> fresh_id w (en_self en)" "is_alive (en_self en) (wd_cells w)"
    and room: "unat (next_actor_id (wd_addr w)) + length specs < 2 ^ 64"
  shows "\<exists>hs sv' w'. sup_started en (sv, w) = Returns (sv', w') \<and>
    sup_rep en hs (replicate (length specs) True) (sv', w') \<and> same_control sv sv' \<and>
    lg_intensity (sv_logic sv') = tracker_new intensity \<and> (\<forall>h \<in> set hs. is_alive h (wd_cells w')) \<and>
    next_actor_id (wd_addr w') = next_actor_id (wd_addr w) + of_nat (length specs)"
proof -
  define w1 where "w1 = over_cells (set_trap_exit (en_self en) True) w"
  define w2 where "w2 = snd (register_supervision_actor (self_address en w1) (en_self en) w1)"
  have w2: "wd_addr w2 = wd_addr w" "wd_cells w2 = set_trap_exit (en_self en) True (wd_cells w)"
    by (simp_all add: w2_def w1_def register_supervision_actor_def split: option.splits prod.splits)
  have cell: "cl_links (wd_cells w2 a) = cl_links (wd_cells w a)"
    "cl_completion (wd_cells w2 a) = cl_completion (wd_cells w a)" for a
    by (simp_all add: w2 set_trap_exit_def)
  have fresh: "fresh_id w2 a = fresh_id w a" for a by (simp add: fresh_id_def w2)
  have inv2: "world_inv w2"
    using inv by (simp add: world_inv_def fresh link_inv_def untouched_def alive_simps cell)
  have sv_empty: "sv\<lparr>sv_specs := []\<rparr> = supervisor_new strategy intensity []" by (simp add: sv supervisor_new_def)
  have "sup_rep en [] [] (sv\<lparr>sv_specs := []\<rparr>, w2)"
    using inv2 self unfolding sv_empty
    by (simp add: sup_rep_def supervisor_new_def logic_new_def local_specs_def child_rows_def fresh alive_simps cell)
  from start_list_rep [OF this, of specs] specs room obtain hs sv' w' where
    1: "run_each (start_one en) (enumerate 0 specs) (sv, w2) = Returns (sv', w')"
    "sup_rep en hs (replicate (length specs) True) (sv'\<lparr>sv_specs := specs\<rparr>, w')" "same_control sv sv'"
    "lg_intensity (sv_logic sv') = lg_intensity (sv_logic sv)" "\<forall>h \<in> set hs. is_alive h (wd_cells w')"
    "next_actor_id (wd_addr w') = next_actor_id (wd_addr w) + of_nat (length specs)" by (auto simp: w2)
  have "sv_specs sv = specs" by (simp add: sv supervisor_new_def)
  then have "sup_started en (sv, w) = Returns (sv', w')" "sv'\<lparr>sv_specs := specs\<rparr> = sv'"
    using 1(1,3) by (simp_all add: sup_started_def Let_def w1_def w2_def same_control_def)
  with 1(2-6) show ?thesis by (auto simp: sv supervisor_new_def logic_new_def)
qed

section \<open>Stopping the children\<close>

lemma stop_one_rep:
  assumes fr: "sched_frame (en_self en) (en_sched en)" and rep: "sup_rep en hs al (sv, w)"
    and k: "k < length (sv_specs sv)"
  shows "\<exists>w'. stop_one en (cs_id (sv_specs sv ! k)) (sv, w) = Returns (sv, w') \<and> sup_rep en hs al (sv, w') \<and>
    \<not> is_alive (hs ! k) (wd_cells w') \<and> (\<forall>i. \<not> is_alive i (wd_cells w) \<longrightarrow> \<not> is_alive i (wd_cells w'))"
proof -
  note d = sup_repD [OF rep]
  have h: "hs ! k \<in> set hs" using k d(3) by simp
  show ?thesis
    using shutdown_local_rep [OF fr rep h, of "shutdown_of (cs_id (sv_specs sv ! k)) (sv_specs sv)"]
      handles_nth [OF d(2) k d(3)] by (auto simp: stop_one_def Let_def d(6,7))
qed

lemma stop_list_rep:
  assumes fr: "sched_frame (en_self en) (en_sched en)"
    and "sup_rep en hs al (sv, w)" and "\<forall>k \<in> set ks. k < length (sv_specs sv)"
  shows "\<exists>w'. run_each (stop_one en) (ids_at sv ks) (sv, w) = Returns (sv, w') \<and> sup_rep en hs al (sv, w') \<and>
    (\<forall>k \<in> set ks. \<not> is_alive (hs ! k) (wd_cells w')) \<and>
    (\<forall>i. \<not> is_alive i (wd_cells w) \<longrightarrow> \<not> is_alive i (wd_cells w'))"
  using assms(2,3)
proof (induction ks arbitrary: w)
  case Nil
  then show ?case by (simp add: ids_at_def)
next
  case (Cons k ks)
  from stop_one_rep [OF fr Cons.prems(1), of k] Cons.prems(2) obtain w1 where
    1: "stop_one en (cs_id (sv_specs sv ! k)) (sv, w) = Returns (sv, w1)" "sup_rep en hs al (sv, w1)"
    "\<not> is_alive (hs ! k) (wd_cells w1)" "\<forall>i. \<not> is_alive i (wd_cells w) \<longrightarrow> \<not> is_alive i (wd_cells w1)" by auto
  from Cons.IH [OF 1(2)] Cons.prems(2) obtain w' where
    "run_each (stop_one en) (ids_at sv ks) (sv, w1) = Returns (sv, w')" "sup_rep en hs al (sv, w')"
    "\<forall>k \<in> set ks. \<not> is_alive (hs ! k) (wd_cells w')"
    "\<forall>i. \<not> is_alive i (wd_cells w1) \<longrightarrow> \<not> is_alive i (wd_cells w')" by auto
  with 1 show ?case by (intro exI [of _ w']) (auto simp: ids_at_def)
qed

section \<open>A schedule\<close>

text \<open>A cancelled actor that gets to run leaves its loop with \<open>Normal\<close> and exits.\<close>

definition exit_sched :: "node_id \<Rightarrow> 'm sched" where
  "exit_sched here t a c =
     (if is_alive a c \<and> cl_cancelled (c a) then finish_actor here a Normal c else c)"

lemma finish_actor_self:
  "cl_completion (finish_actor here a r0 w a) = Some (resolved r0 (cl_requested_exit (w a)) (cl_linked_reason (w a)))"
  by (auto simp: finish_actor_def actor_exit_def set_completion_def run_end_reason [symmetric] split: prod.splits)

lemma exit_sched_terminating: "terminating (exit_sched here)"
  by (auto simp: terminating_def exit_sched_def exits_as_def alive_simps finish_actor_self)

lemma exit_sched_frame: "sched_frame self (exit_sched here)"
  using exit_sched_terminating
  by (auto simp: sched_frame_def exit_sched_def link_inv_finish untouched_def alive_simps finish_actor_apply)

text \<open>
  A child that is killed takes every linked actor with it, one that traps exits included: a
  \<open>Kill\<close> is never delivered as a message.
\<close>

lemma kill_spreads:
  assumes inv: "link_inv c" and alive: "is_alive a c" and lnk: "self \<in> set (cl_links (c a))"
    and slot: "cl_linked_reason (c self) = None"
  shows "\<exists>c'. shutdown_child_on rt (exit_sched here) a BrutalKill c = (Some Kill, c') \<and>
    cl_cancelled (c' self) \<and> cl_linked_reason (c' self) = Some Kill \<and>
    cl_requested_exit (c' self) = cl_requested_exit (c self) \<and> cl_completion (c' self) = cl_completion (c self)"
proof -
  let ?k = "handle_kill a c"
  have ne: "self \<noteq> a" using lnk link_invD(2) [OF inv] by blast
  have k: "link_inv ?k" using inv by (auto simp: link_inv_def handle_kill_def modify_def cancel_def alive_simps)
  have ka: "is_alive a ?k" "cl_cancelled (?k a)" "?k self = c self" "cl_links (?k a) = cl_links (c a)"
    using alive ne by (simp_all add: handle_kill_def modify_def cancel_def alive_simps)
  have r: "fst (run_end Normal (?k a)) = Kill"
    by (simp add: run_end_reason handle_kill_def modify_def cancel_def resolve_exit_reason_def)
  have app: "finish_actor here a Normal ?k b =
      (if b = a then (snd (run_end Normal (?k a)))\<lparr>cl_links := [], cl_completion := Some Kill\<rparr>
       else if b \<in> set (cl_links (c a)) then make_signal here a Kill (drop_link a (?k b)) else ?k b)" for b
    using finish_actor_apply [OF k, of here a Normal b] r ka(4) by simp
  have "shutdown_child_on rt (exit_sched here) a BrutalKill c = (Some Kill, finish_actor here a Normal ?k)"
    using alive ka(1,2) app [of a]
    by (simp add: shutdown_child_on_async shutdown_child_async_def wait_exit_def Let_def exit_sched_def alive_simps)
  then show ?thesis
    using app [of self] ne lnk ka(3) slot
    by (intro exI [of _ "finish_actor here a Normal ?k"])
      (simp add: make_signal_def record_linked_reason_def cancel_def drop_link_def)
qed

end
