(* ===== verification/Supervisor_Correct.thy ===== *)
theory Supervisor_Correct
  imports Supervisor_Tables
begin

text \<open>
  What the static supervisor guarantees for local children: starting it brings up every child
  in order, a callback that restarts children ends with exactly the affected children replaced
  by new, live actors, and stopping it leaves every child dead.
\<close>

section \<open>Handling an exit\<close>

lemma drop_ids_at: "drop f (map cs_id (sv_specs sv)) = ids_at sv [f..<length (sv_specs sv)]"
  by (rule nth_equalityI) (simp_all add: ids_at_def)

text \<open>The batch path: everything in the batch is terminated, then restarted.\<close>

lemma complete_batch_rep:
  assumes rep: "sup_rep en hs al (sv, w)"
    and pend: "lg_pending (sv_logic sv) = Some b" "b = AllChildren \<and> f = 0 \<or> b = FromIndex f"
    and f: "f \<le> length (sv_specs sv)"
    and dead: "\<forall>j < length al. f \<le> j \<longrightarrow> \<not> al ! j"
    and room: "unat (next_actor_id (wd_addr w)) + length (sv_specs sv) < 2 ^ 64"
  shows "\<exists>hs' al' sv' w'. maybe_complete_batch_restart en (sv, w) = Returns (sv', w') \<and>
    sup_rep en hs' al' (sv', w') \<and> \<not> lg_suppress (sv_logic sv') \<and> only_adds w w' \<and>
    restarted w w' {f..<length hs} hs al hs' al'"
proof -
  note d = sup_repD [OF rep]
  let ?l = "sv_logic sv" and ?n = "length (sv_specs sv)"
  let ?sv1 = "sv\<lparr>sv_logic := ?l\<lparr>lg_pending := None, lg_suppress := False\<rparr>\<rparr>"
  have "\<not> list_ex child_alive (drop f (lg_children ?l))"
    using dead d(4) by (simp add: not_alive_drop_iff d(5))
  then have complete: "pending_batch_restart_complete ?l"
    using pend f by (auto simp: pending_batch_restart_complete_def d(5))
  have "pending_ids b (lg_children ?l) = drop f (map cs_id (sv_specs sv))"
    using pend(2) rest_for_one_indexed [OF rows_indexed [OF d(5)], of f] rows_ids [of "sv_specs sv" hs al]
    by (auto simp: d(5))
  then have take: "take_pending_restart_ids ?l =
      (Some (ids_at sv [f..<?n]), ?l\<lparr>lg_pending := None, lg_suppress := False\<rparr>)"
    by (simp add: take_pending_restart_ids_def pend(1) drop_ids_at)
  have rep1: "sup_rep en hs al (?sv1, w)" using rep by (simp add: sup_rep_def)
  have "maybe_complete_batch_restart en (sv, w) =
      run_each (restart_child_with_backoff en) (ids_at ?sv1 [f..<?n]) (?sv1, w)"
    using complete take by (simp add: maybe_complete_batch_restart_def d(8) ids_at_def)
  moreover have "\<exists>hs' al' sv' w'. run_each (restart_child_with_backoff en) (ids_at ?sv1 [f..<?n]) (?sv1, w)
        = Returns (sv', w') \<and> sup_rep en hs' al' (sv', w') \<and> same_control ?sv1 sv' \<and> only_adds w w' \<and>
      restarted w w' (set [f..<?n]) hs al hs' al'"
    using room by (intro restart_list_rep [OF rep1]) simp_all
  ultimately show ?thesis using d(3) by (auto simp: same_control_def)
qed

definition affected :: "supervisor_strategy \<Rightarrow> nat \<Rightarrow> nat \<Rightarrow> nat set" where
  "affected strategy k n = (case strategy of
     OneForOne \<Rightarrow> {k} | OneForAll \<Rightarrow> {0..<n} | RestForOne \<Rightarrow> {k..<n})"

lemma one_for_one_rep:
  assumes rep: "sup_rep en hs al (sv, w)" and k: "k < length (sv_specs sv)" "al ! k"
    and ex: "actor_id (exit_from ex) = hs ! k" and calm: "\<not> lg_suppress (sv_logic sv)"
    and restart: "should_restart (cs_restart (sv_specs sv ! k)) (exit_cause ex)"
    and ok: "is_ok (fst (record_restart now (lg_intensity (sv_logic sv))))"
    and strategy: "lg_strategy (sv_logic sv) = OneForOne"
    and room: "next_actor_id (wd_addr w) \<noteq> -1"
  shows "\<exists>hs' al' sv' w'. handle_exit en now ex (sv, w) = Returns (sv', w') \<and> sup_rep en hs' al' (sv', w') \<and>
    \<not> lg_suppress (sv_logic sv') \<and> restarted w w' {k} hs al hs' al'"
proof -
  note d = sup_repD [OF rep]
  let ?l = "sv_logic sv" and ?i = "cs_id (sv_specs sv ! k)"
  obtain t where t: "record_restart now (lg_intensity ?l) = (Inr (), t)"
    using ok by (cases "record_restart now (lg_intensity ?l)") (auto simp: is_ok_def split: sum.splits)
  have idx: "child_index_by_actor (hs ! k) ?l = Some k"
    using k by (intro index_of_runs rows_distinct [OF d(5,9,3)]) (simp_all add: d(5))
  let ?l2 = "(mark_child_dead (hs ! k) ?l)\<lparr>lg_intensity := t\<rparr>"
  have "on_child_exit (hs ! k) (exit_cause ex) now ?l = (RestartOne ?i, ?l2)"
    using calm idx restart t strategy k by (simp add: on_child_exit_def Let_def d(5))
  then have run: "handle_exit en now ex (sv, w) = restart_child_with_backoff en ?i (sv\<lparr>sv_logic := ?l2\<rparr>, w)"
    using calm by (simp add: handle_exit_def ex)
  have "sup_rep en hs (al[k := False]) (sv\<lparr>sv_logic := ?l2\<rparr>, w)"
    using rep rows_mark [OF d(5,9,3,4) k(1)] by (simp add: sup_rep_def)
  from restart_with_backoff_rep [OF this, of k] k(1) room run
  obtain h sv' w' where 1: "handle_exit en now ex (sv, w) = Returns (sv', w')"
    "sup_rep en (hs[k := h]) (al[k := True]) (sv', w')" "same_control (sv\<lparr>sv_logic := ?l2\<rparr>) sv'"
    "fresh_id w h" "is_alive h (wd_cells w')" by auto
  then have "restarted w w' {k} hs al (hs[k := h]) (al[k := True])"
    using k d(3,4) by (simp add: restarted_def)
  then show ?thesis using 1 calm by (auto simp: same_control_def)
qed

lemma batch_rep:
  assumes fr: "sched_frame (en_self en) (en_sched en)"
    and rep: "sup_rep en hs al (sv, w)" and k: "k < length (sv_specs sv)" "al ! k"
    and ex: "actor_id (exit_from ex) = hs ! k" and calm: "\<not> lg_suppress (sv_logic sv)"
    and restart: "should_restart (cs_restart (sv_specs sv ! k)) (exit_cause ex)"
    and ok: "is_ok (fst (record_restart now (lg_intensity (sv_logic sv))))"
    and strategy: "lg_strategy (sv_logic sv) \<noteq> OneForOne"
    and room: "unat (next_actor_id (wd_addr w)) + length (sv_specs sv) < 2 ^ 64"
  shows "\<exists>hs' al' sv' w'. handle_exit en now ex (sv, w) = Returns (sv', w') \<and> sup_rep en hs' al' (sv', w') \<and>
    \<not> lg_suppress (sv_logic sv') \<and> restarted w w' (affected (lg_strategy (sv_logic sv)) k (length hs)) hs al hs' al' \<and>
    (\<forall>j \<in> affected (lg_strategy (sv_logic sv)) k (length hs). \<not> is_alive (hs ! j) (wd_cells w'))"
proof -
  note d = sup_repD [OF rep]
  let ?l = "sv_logic sv" and ?n = "length (sv_specs sv)"
  let ?f = "batch_from (lg_strategy ?l) k"
  let ?b = "if lg_strategy ?l = OneForAll then AllChildren else FromIndex k"
  have f: "?f \<le> ?n" using k(1) by (cases "lg_strategy ?l") simp_all
  have "\<exists>t. on_child_exit (hs ! k) (exit_cause ex) now ?l =
      (TerminateBatch (drop ?f (all_child_ids (lg_children ?l))),
       (mark_child_dead (hs ! k) ?l)\<lparr>lg_intensity := t, lg_suppress := True, lg_pending := Some ?b\<rparr>)"
    using calm rows_distinct [OF d(5,9,3)] k restart ok strategy rows_indexed [OF d(5)]
    by (intro on_child_exit_batch) (simp_all add: d(5))
  then obtain t where t: "on_child_exit (hs ! k) (exit_cause ex) now ?l =
      (TerminateBatch (ids_at sv [?f..<?n]),
       (mark_child_dead (hs ! k) ?l)\<lparr>lg_intensity := t, lg_suppress := True, lg_pending := Some ?b\<rparr>)"
    by (auto simp: d(5) rows_ids drop_ids_at)
  define sv1 where "sv1 = sv\<lparr>sv_logic := (mark_child_dead (hs ! k) ?l)\<lparr>lg_intensity := t, lg_suppress := True,
      lg_pending := Some ?b\<rparr>\<rparr>"
  have run: "handle_exit en now ex (sv, w) =
      run_then (terminate_children en (ids_at sv1 [?f..<?n]) (sv1, w)) (maybe_complete_batch_restart en)"
    using calm t by (simp add: handle_exit_def ex sv1_def ids_at_def)
  have specs1: "sv_specs sv1 = sv_specs sv" by (simp add: sv1_def)
  have "sup_rep en hs (al[k := False]) (sv1, w)"
    using rep rows_mark [OF d(5,9,3,4) k(1)] by (simp add: sup_rep_def sv1_def)
  from terminate_list_rep [OF fr this, of "[?f..<?n]"] specs1
  obtain al2 sv2 w2 where 2: "terminate_children en (ids_at sv1 [?f..<?n]) (sv1, w) = Returns (sv2, w2)"
    "sup_rep en hs al2 (sv2, w2)" "same_control sv1 sv2" "length al2 = length al"
    "\<forall>j < length al. al2 ! j \<longleftrightarrow> al[k := False] ! j \<and> j \<notin> set [?f..<?n]"
    "\<forall>j \<in> set [?f..<?n]. \<not> is_alive (hs ! j) (wd_cells w2)" "wd_addr w2 = wd_addr w" by auto
  have specs2: "sv_specs sv2 = sv_specs sv" and pend2: "lg_pending (sv_logic sv2) = Some ?b"
    using 2(3) by (simp_all add: same_control_def sv1_def)
  have "\<exists>hs' al' sv' w'. maybe_complete_batch_restart en (sv2, w2) = Returns (sv', w') \<and>
      sup_rep en hs' al' (sv', w') \<and> \<not> lg_suppress (sv_logic sv') \<and> only_adds w2 w' \<and>
      restarted w2 w' {?f..<length hs} hs al2 hs' al'"
  proof (rule complete_batch_rep [OF 2(2) pend2])
    show "?b = AllChildren \<and> ?f = 0 \<or> ?b = FromIndex ?f"
      using strategy by (cases "lg_strategy ?l") simp_all
    show "\<forall>j < length al2. ?f \<le> j \<longrightarrow> \<not> al2 ! j" using 2(4,5) d(4) by auto
  qed (use f room specs2 2(7) in simp_all)
  then obtain hs' al' sv' w' where 3: "maybe_complete_batch_restart en (sv2, w2) = Returns (sv', w')"
    "sup_rep en hs' al' (sv', w')" "\<not> lg_suppress (sv_logic sv')" "only_adds w2 w'"
    "restarted w2 w' {?f..<length hs} hs al2 hs' al'" by blast
  have aff: "affected (lg_strategy ?l) k (length hs) = {?f..<length hs}"
    using strategy by (cases "lg_strategy ?l") (simp_all add: affected_def)
  have kept: "al2 ! j = al ! j" if "j < ?f" "j < length al" for j
  proof -
    have "?f \<le> k" by (cases "lg_strategy ?l") simp_all
    with that(1) have "j \<noteq> k" by simp
    with 2(5) that show ?thesis by auto
  qed
  have "restarted w w' {?f..<length hs} hs al hs' al'"
    using 3(5) kept 2(4,7) d(3,4) by (auto simp: restarted_def fresh_id_def)
  moreover have "\<not> is_alive (hs ! j) (wd_cells w')" if "j \<in> {?f..<length hs}" for j
    using 2(6) that 3(4) sup_repD(11) [OF 2(2), of "hs ! j"] d(3) by (auto simp: only_adds_def alive_simps)
  ultimately show ?thesis using run 2(1) 3(1-3) unfolding aff by auto
qed

section \<open>Stopping\<close>

lemma rows_order: "lg_children l = child_rows specs hs al \<Longrightarrow> shutdown_order l = rev (map cs_id specs)"
proof -
  assume l: "lg_children l = child_rows specs hs al"
  have p: "policies l = map (policy_at specs) [0..<length specs]"
    by (simp add: policies_def l child_rows_def comp_def)
  have "sorted_wrt (<) (map cp_start_index (policies l))" by (simp add: p comp_def)
  moreover have "map cp_id (policies l) = map cs_id specs" by (rule nth_equalityI) (simp_all add: p)
  ultimately show ?thesis by (simp add: shutdown_order_sorted)
qed

lemma rev_ids_at: "rev (map cs_id (sv_specs sv)) = ids_at sv (rev [0..<length (sv_specs sv)])"
  unfolding ids_at_def rev_map [symmetric] by (intro arg_cong [of _ _ rev] nth_equalityI) simp_all

lemma sup_stopped_rep:
  assumes fr: "sched_frame (en_self en) (en_sched en)" and rep: "sup_rep en hs al (sv, w)"
  shows "shutdown_order (sv_logic sv) = rev (map cs_id (sv_specs sv))" (is ?order)
    and "\<exists>sv' w'. sup_stopped en (sv, w) = Returns (sv', w') \<and> sv_handles sv' = Map.empty \<and>
      (\<forall>h \<in> set hs. \<not> is_alive h (wd_cells w')) \<and> is_alive (en_self en) (wd_cells w')" (is ?stop)
proof -
  note d = sup_repD [OF rep]
  let ?sv1 = "sv\<lparr>sv_logic := set_suppress_restarts True (sv_logic sv)\<rparr>"
  show ?order using d(5) by (rule rows_order)
  have "sup_rep en hs al (?sv1, w)" using rep by (simp add: sup_rep_def set_suppress_restarts_def)
  note 1 = this sup_repD [OF this]
  from stop_list_rep [OF fr 1(1), of "rev [0..<length (sv_specs sv)]"] obtain w' where
    w': "run_each (stop_one en) (ids_at ?sv1 (rev [0..<length (sv_specs sv)])) (?sv1, w) = Returns (?sv1, w')"
    "sup_rep en hs al (?sv1, w')" "\<forall>k < length (sv_specs sv). \<not> is_alive (hs ! k) (wd_cells w')" by auto
  have "shutdown_order (sv_logic ?sv1) = ids_at ?sv1 (rev [0..<length (sv_specs sv)])"
    using rows_order [OF 1(6)] rev_ids_at [of ?sv1] by simp
  then have "sup_stopped en (sv, w) = Returns (?sv1\<lparr>sv_handles := Map.empty, sv_remote_handles := Map.empty,
      sv_remote_meta := Map.empty, sv_remote_ids := Map.empty\<rparr>, w')"
    using w'(1) by (simp add: sup_stopped_def Let_def)
  moreover have "\<forall>h \<in> set hs. \<not> is_alive h (wd_cells w')"
    using w'(3) d(3) by (auto simp: in_set_conv_nth)
  ultimately show ?stop using sup_repD(14) [OF w'(2)] by simp
qed

lemma exit_restarts:
  assumes "sched_frame (en_self en) (en_sched en)"
    and "sup_rep en hs al (sv, w)" and "k < length (sv_specs sv)" and "al ! k"
    and "actor_id (exit_from ex) = hs ! k" and "\<not> lg_suppress (sv_logic sv)"
    and "should_restart (cs_restart (sv_specs sv ! k)) (exit_cause ex)"
    and "is_ok (fst (record_restart now (lg_intensity (sv_logic sv))))"
    and "unat (next_actor_id (wd_addr w)) + length (sv_specs sv) < 2 ^ 64"
  shows "\<exists>hs' al' sv' w'. handle_exit en now ex (sv, w) = Returns (sv', w') \<and> sup_rep en hs' al' (sv', w') \<and>
    \<not> lg_suppress (sv_logic sv') \<and> length hs' = length hs \<and>
    (\<forall>j < length hs. if j \<in> affected (lg_strategy (sv_logic sv)) k (length hs)
       then fresh_id w (hs' ! j) \<and> is_alive (hs' ! j) (wd_cells w') \<and> al' ! j \<and>
         (lg_strategy (sv_logic sv) \<noteq> OneForOne \<longrightarrow> \<not> is_alive (hs ! j) (wd_cells w'))
       else hs' ! j = hs ! j \<and> al' ! j = al ! j)"
proof (cases "lg_strategy (sv_logic sv) = OneForOne")
  case True
  have "next_actor_id (wd_addr w) \<noteq> -1"
    using next_id_bound(1) [of "next_actor_id (wd_addr w)" "length (sv_specs sv) - 1"] assms(3,9) by simp
  from one_for_one_rep [OF assms(2-8) True this] obtain hs' al' sv' w' where
    "handle_exit en now ex (sv, w) = Returns (sv', w')" "sup_rep en hs' al' (sv', w')"
    "\<not> lg_suppress (sv_logic sv')" "restarted w w' {k} hs al hs' al'" by blast
  then show ?thesis
    using True by (intro exI [of _ hs'] exI [of _ al'] exI [of _ sv'] exI [of _ w'])
      (simp add: restarted_def affected_def)
next
  case False
  from batch_rep [OF assms(1-8) False assms(9)] obtain hs' al' sv' w' where
    "handle_exit en now ex (sv, w) = Returns (sv', w')" "sup_rep en hs' al' (sv', w')"
    "\<not> lg_suppress (sv_logic sv')"
    "restarted w w' (affected (lg_strategy (sv_logic sv)) k (length hs)) hs al hs' al'"
    "\<forall>j \<in> affected (lg_strategy (sv_logic sv)) k (length hs). \<not> is_alive (hs ! j) (wd_cells w')" by blast
  then show ?thesis
    by (intro exI [of _ hs'] exI [of _ al'] exI [of _ sv'] exI [of _ w']) (auto simp: restarted_def)
qed

section \<open>Properties\<close>

text \<open>
  C2. When a child's exit calls for a restart that the intensity allows, the supervisor's
  handler returns and exactly the children its strategy names (the dead one, all, or the dead
  one and those started after it) have been replaced by new actors that are alive; the other
  children are as before. Under the two batch strategies the old actors of the affected
  children are all dead. The supervisor's tables stay consistent and it accepts exits again.
\<close>

theorem supervisor_restarts:
  assumes "sched_frame (en_self en) (en_sched en)"
    and "sup_rep en hs al (sv, w)" and "k < length (sv_specs sv)" and "al ! k"
    and "actor_id (exit_from ex) = hs ! k" and "\<not> lg_suppress (sv_logic sv)"
    and "should_restart (cs_restart (sv_specs sv ! k)) (exit_cause ex)"
    and "is_ok (fst (record_restart now (lg_intensity (sv_logic sv))))"
    and "unat (next_actor_id (wd_addr w)) + length (sv_specs sv) < 2 ^ 64"
  shows "\<exists>hs' al' sv' w'. handle_exit en now ex (sv, w) = Returns (sv', w') \<and> sup_rep en hs' al' (sv', w') \<and>
    \<not> lg_suppress (sv_logic sv') \<and> length hs' = length hs \<and>
    (\<forall>j < length hs. if j \<in> affected (lg_strategy (sv_logic sv)) k (length hs)
       then fresh_id w (hs' ! j) \<and> is_alive (hs' ! j) (wd_cells w') \<and> al' ! j \<and>
         (lg_strategy (sv_logic sv) \<noteq> OneForOne \<longrightarrow> \<not> is_alive (hs ! j) (wd_cells w'))
       else hs' ! j = hs ! j \<and> al' ! j = al ! j)"
  by (rule exit_restarts) (use assms in auto)

text \<open>A running example: two permanent workers under a supervisor with id 1.\<close>

definition demo_env :: "nat env" where
  "demo_env = \<lparr>en_runtime = Tasks, en_self = ActorId 1, en_sched = exit_sched (NodeId ''n''), en_rpc = down_rpc,
     en_wait = (\<lambda>sent a d. None)\<rparr>"

definition demo_sup :: "supervisor_strategy \<Rightarrow> supervisor" where
  "demo_sup strategy = supervisor_new strategy default_intensity
     [worker ''a'' 1 Permanent, worker ''b'' 2 Permanent]"

definition started_world :: "nat world" where
  "started_world = demo_world\<lparr>wd_addr := (wd_addr demo_world)\<lparr>next_actor_id := 2\<rparr>\<rparr>"

lemma started_world_facts:
  "world_inv started_world" "\<not> fresh_id started_world (ActorId 1)" "is_alive (ActorId 1) (wd_cells started_world)"
  "next_actor_id (wd_addr started_world) = 2"
  by (simp_all add: world_inv_def link_inv_def untouched_def fresh_id_def started_world_def demo_world_def
      alive_simps word_le_nat_alt)

lemma demo_sup_started:
  obtains hs sv w where "sup_started demo_env (demo_sup strategy, started_world) = Returns (sv, w)"
    "sup_rep demo_env hs [True, True] (sv, w)" "lg_strategy (sv_logic sv) = strategy"
    "\<not> lg_suppress (sv_logic sv)" "lg_intensity (sv_logic sv) = tracker_new default_intensity"
    "sv_specs sv = [worker ''a'' 1 Permanent, worker ''b'' 2 Permanent]"
    "\<forall>h \<in> set hs. is_alive h (wd_cells w)" "next_actor_id (wd_addr w) = 4"
proof -
  let ?specs = "[worker ''a'' 1 Permanent, worker ''b'' 2 Permanent]"
  have "local_specs ?specs" by (simp add: local_specs_def worker_def is_remote_def)
  moreover have "unat (next_actor_id (wd_addr started_world)) + length ?specs < 2 ^ 64"
    by (simp add: started_world_facts)
  ultimately obtain hs sv w where
    "sup_started demo_env (demo_sup strategy, started_world) = Returns (sv, w)"
    "sup_rep demo_env hs [True, True] (sv, w)" "same_control (demo_sup strategy) sv"
    "lg_intensity (sv_logic sv) = tracker_new default_intensity" "\<forall>h \<in> set hs. is_alive h (wd_cells w)"
    "next_actor_id (wd_addr w) = next_actor_id (wd_addr started_world) + 2"
    using sup_started_rep [of ?specs "demo_sup strategy" strategy default_intensity started_world demo_env]
      started_world_facts by (auto simp: demo_sup_def demo_env_def numeral_2_eq_2)
  then show ?thesis
    by (intro that [of sv w hs]) (simp_all add: same_control_def demo_sup_def supervisor_new_def logic_new_def
        started_world_facts)
qed

theorem supervisor_restarts_witness:
  "\<exists>sv w hs sv' w' hs'. sup_started demo_env (demo_sup OneForAll, started_world) = Returns (sv, w) \<and>
     handle_exit demo_env 0 \<lparr>exit_from = address_local (NodeId ''n'') (hs ! 1), exit_cause = Kill\<rparr> (sv, w) =
       Returns (sv', w') \<and>
     \<not> is_alive (hs ! 0) (wd_cells w') \<and> is_alive (hs' ! 0) (wd_cells w') \<and> is_alive (hs' ! 1) (wd_cells w')"
proof -
  obtain hs sv w where s: "sup_started demo_env (demo_sup OneForAll, started_world) = Returns (sv, w)"
    "sup_rep demo_env hs [True, True] (sv, w)" "lg_strategy (sv_logic sv) = OneForAll"
    "\<not> lg_suppress (sv_logic sv)" "lg_intensity (sv_logic sv) = tracker_new default_intensity"
    "sv_specs sv = [worker ''a'' 1 Permanent, worker ''b'' 2 Permanent]"
    "next_actor_id (wd_addr w) = 4" by (rule demo_sup_started)
  let ?ex = "\<lparr>exit_from = address_local (NodeId ''n'') (hs ! 1), exit_cause = Kill\<rparr>"
  have len: "length hs = 2" using sup_repD(3) [OF s(2)] s(6) by simp
  have fr: "sched_frame (en_self demo_env) (en_sched demo_env)" by (simp add: demo_env_def exit_sched_frame)
  have 1: "1 < length (sv_specs sv)" "[True, True] ! 1" "actor_id (exit_from ?ex) = hs ! 1"
    "should_restart (cs_restart (sv_specs sv ! 1)) (exit_cause ?ex)"
    "is_ok (fst (record_restart 0 (lg_intensity (sv_logic sv))))"
    "unat (next_actor_id (wd_addr w)) + length (sv_specs sv) < 2 ^ 64"
    by (simp_all add: s(5-7) worker_def address_local_def record_restart_def tracker_new_def default_intensity_def Let_def)
  from supervisor_restarts [OF fr s(2) 1(1-3) s(4) 1(4-6)] obtain hs' al' sv' w' where
    "handle_exit demo_env 0 ?ex (sv, w) = Returns (sv', w')"
    "\<forall>j < 2. is_alive (hs' ! j) (wd_cells w') \<and> \<not> is_alive (hs ! j) (wd_cells w')"
    by (auto simp: s(3) len affected_def)
  with s(1) show ?thesis by (intro exI [of _ sv] exI [of _ w] exI [of _ hs] exI [of _ sv'] exI [of _ w'] exI [of _ hs']) simp
qed



text \<open>
  When the restart intensity is exceeded the supervisor restarts nothing and stops
  itself, but through the ordinary stop: unless another reason was recorded for it, its own
  exit reason is \<open>Normal\<close>, so that a transient supervisor is not restarted by its parent.
\<close>

lemma meltdown_exits_normally:
  assumes rep: "sup_rep en hs al (sv, w)" and k: "k < length (sv_specs sv)" "al ! k"
    and ex: "actor_id (exit_from ex) = hs ! k" and calm: "\<not> lg_suppress (sv_logic sv)"
    and restart: "should_restart (cs_restart (sv_specs sv ! k)) (exit_cause ex)"
    and over: "\<not> is_ok (fst (record_restart now (lg_intensity (sv_logic sv))))"
    and slots: "cl_requested_exit (wd_cells w (en_self en)) = None" "cl_linked_reason (wd_cells w (en_self en)) = None"
  shows "\<exists>sv' w'. handle_exit en now ex (sv, w) = Returns (sv', w') \<and> wd_addr w' = wd_addr w \<and>
    wd_published w' = wd_published w \<and> cl_cancelled (wd_cells w' (en_self en)) \<and>
    exit_reason_of (en_self en) (finish_actor here (en_self en) Normal (wd_cells w')) = Some Normal \<and>
    \<not> should_restart Transient Normal"
proof -
  note d = sup_repD [OF rep]
  obtain e t where t: "record_restart now (lg_intensity (sv_logic sv)) = (Inl e, t)"
    using over by (cases "record_restart now (lg_intensity (sv_logic sv))") (auto simp: is_ok_def split: sum.splits)
  have idx: "child_index_by_actor (hs ! k) (sv_logic sv) = Some k"
    using k by (intro index_of_runs rows_distinct [OF d(5,9,3)]) (simp_all add: d(5))
  have "fst (on_child_exit (hs ! k) (exit_cause ex) now (sv_logic sv)) = Meltdown"
    using calm idx restart t k by (simp add: on_child_exit_def Let_def d(5))
  then obtain l where "on_child_exit (hs ! k) (exit_cause ex) now (sv_logic sv) = (Meltdown, l)"
    by (metis prod.collapse)
  then have "handle_exit en now ex (sv, w) =
      Returns (sv\<lparr>sv_logic := l\<rparr>, over_cells (handle_stop (en_self en)) w)"
    using calm by (simp add: handle_exit_def ex)
  then show ?thesis
    using slots by (simp add: handle_stop_def cancel_def exit_reason_of_def finish_actor_self)
qed

end
