(* ===== verification/Dynamic_Supervisor.thy ===== *)
theory Dynamic_Supervisor
  imports Supervisor_Tables
begin

text \<open>
  The dynamic supervisor (\<open>concurrency/src/tasks/dynamic_supervisor.rs\<close>, its copy under
  \<open>threads/\<close> and \<open>concurrency/src/dynamic_supervisor/mod.rs\<close>): children are started and
  terminated by messages, under an optional bound on their number, and restarted one for one.
  The instance counter is a \<open>u64\<close> that wraps as in a release build.
\<close>

section \<open>State\<close>

datatype remote_text = SpawnText remote_spawn_error | ShutdownText remote_shutdown_error

datatype dynamic_supervisor_error =
    MaxChildrenExceeded | ChildNotFound actor_id | DuplicateChildId string | SupervisorStopping
  | RegistryFailed registry_error | RemoteSpawnErr remote_text

record dynamic_child_info =
  di_id :: string
  di_actor_id :: actor_id
  di_alive :: bool
  di_restart :: restart_type
  di_shutdown :: shutdown_type

definition instance_id :: "string \<Rightarrow> u64 \<Rightarrow> string" where
  "instance_id template_id counter = template_id @ ''#'' @ nat_str (unat counter)"

record dyn_supervisor =
  dy_logic :: supervisor_logic
  dy_specs :: "string \<rightharpoonup> child_spec"
  dy_handles :: "string \<rightharpoonup> actor_id"
  dy_actor_to_id :: "actor_id \<rightharpoonup> string"
  dy_reg_names :: "(string \<times> string) list"
  dy_id_counter :: u64
  dy_max_children :: "nat option"
  dy_stopping :: bool
  dy_remote_handles :: "string \<rightharpoonup> remote_child_handle"
  dy_remote_ids :: "actor_id \<rightharpoonup> string"
  dy_remote_meta :: "string \<rightharpoonup> remote_spawn_meta"

type_synonym 'm dyn_state = "dyn_supervisor \<times> 'm world"

definition dyn_new :: "restart_intensity \<Rightarrow> nat option \<Rightarrow> dyn_supervisor" where
  "dyn_new intensity max_children = \<lparr>dy_logic = logic_new OneForOne intensity, dy_specs = Map.empty,
     dy_handles = Map.empty, dy_actor_to_id = Map.empty, dy_reg_names = [], dy_id_counter = 0,
     dy_max_children = max_children, dy_stopping = False, dy_remote_handles = Map.empty,
     dy_remote_ids = Map.empty, dy_remote_meta = Map.empty\<rparr>"

definition over_max :: "dyn_supervisor \<Rightarrow> bool" where
  "over_max dy = (case dy_max_children dy of Some mx \<Rightarrow> child_count (dy_logic dy) \<ge> mx | None \<Rightarrow> False)"

section \<open>Operations\<close>

definition cleanup_child :: "string \<Rightarrow> 'm dyn_state \<Rightarrow> 'm dyn_state" where
  "cleanup_child child_id = (\<lambda>(dy, w).
     (let (dy1, w1) = (case find (\<lambda>(name, i). i = child_id) (dy_reg_names dy) of
            Some (name, _) \<Rightarrow> (dy\<lparr>dy_reg_names := AList.delete name (dy_reg_names dy)\<rparr>,
                              w\<lparr>wd_registry := unregister name (wd_registry w)\<rparr>)
          | None \<Rightarrow> (dy, w));
          dy2 = (case dy_handles dy1 child_id of
            Some h \<Rightarrow> dy1\<lparr>dy_handles := (dy_handles dy1)(child_id := None),
                         dy_actor_to_id := (dy_actor_to_id dy1)(h := None)\<rparr>
          | None \<Rightarrow> dy1)
      in (dy2\<lparr>dy_remote_meta := (dy_remote_meta dy2)(child_id := None),
             dy_specs := (dy_specs dy2)(child_id := None),
             dy_logic := snd (remove_child_by_id child_id (dy_logic dy2))\<rparr>, w1)))"

definition dyn_start_child ::
  "'m env \<Rightarrow> child_spec \<Rightarrow> string option \<Rightarrow> 'm dyn_state
    \<Rightarrow> ((dynamic_supervisor_error + actor_id) \<times> 'm dyn_state) run" where
  "dyn_start_child en spec reg_name = (\<lambda>(dy, w).
     (if dy_stopping dy then Returns (Inl SupervisorStopping, (dy, w))
      else if over_max dy then Returns (Inl MaxChildrenExceeded, (dy, w))
      else let dy1 = dy\<lparr>dy_id_counter := dy_id_counter dy + 1\<rparr>;
               child_id = instance_id (cs_id spec) (dy_id_counter dy1)
           in if has_child_id child_id (dy_logic dy1) then Returns (Inl (DuplicateChildId child_id), (dy1, w))
              else case spec_start_child spec (en_self en) w of
                     None \<Rightarrow> Panics
                   | Some (h, w1) \<Rightarrow>
                       (let dy2 = dy1\<lparr>dy_logic := register_child
                                \<lparr>cp_id = child_id, cp_restart = cs_restart spec,
                                 cp_start_index = next_start_index (dy_logic dy1)\<rparr>
                                (alive_slot h) (dy_logic dy1),
                              dy_specs := (dy_specs dy1)(child_id \<mapsto> spec),
                              dy_handles := (dy_handles dy1)(child_id \<mapsto> h),
                              dy_actor_to_id := (dy_actor_to_id dy1)(h \<mapsto> child_id)\<rparr>
                        in case reg_name of
                             None \<Rightarrow> Returns (Inr h, (dy2, w1))
                           | Some name \<Rightarrow>
                               (case register CHILD_HANDLE name h (wd_registry w1) of
                                  (Inl err, _) \<Rightarrow>
                                    Returns (Inl (RegistryFailed err), cleanup_child child_id (dy2, w1))
                                | (Inr _, reg) \<Rightarrow>
                                    Returns (Inr h, (dy2\<lparr>dy_reg_names := AList.update name child_id (dy_reg_names dy2)\<rparr>,
                                                     w1\<lparr>wd_registry := reg\<rparr>))))))"

definition dyn_start_child_remote ::
  "'m env \<Rightarrow> remote_spawn_spec \<Rightarrow> node_id \<Rightarrow> bool \<Rightarrow> 'm dyn_state
    \<Rightarrow> ((dynamic_supervisor_error + remote_child_handle) \<times> 'm dyn_state) run" where
  "dyn_start_child_remote en spec pl link = (\<lambda>(dy, w).
     (if dy_stopping dy then Returns (Inl SupervisorStopping, (dy, w))
      else if over_max dy then Returns (Inl MaxChildrenExceeded, (dy, w))
      else let dy1 = dy\<lparr>dy_id_counter := dy_id_counter dy + 1\<rparr>;
               child_id = instance_id ''remote'' (dy_id_counter dy1)
           in if has_child_id child_id (dy_logic dy1) then Returns (Inl (DuplicateChildId child_id), (dy1, w))
              else case spawn_with_retry_on (en_runtime en) (en_rpc en) pl (self_address en w) spec link
                          default_retry_policy w of
                     (Inl err, w1) \<Rightarrow> Returns (Inl (RemoteSpawnErr (SpawnText err)), (dy1, w1))
                   | (Inr address, w1) \<Rightarrow>
                       (let remote = remote_child_handle_new address (self_address en w)
                        in Returns (Inr remote,
                             (dy1\<lparr>dy_logic := register_child
                                  \<lparr>cp_id = child_id, cp_restart = Permanent,
                                   cp_start_index = next_start_index (dy_logic dy1)\<rparr>
                                  (alive_slot (actor_id address)) (dy_logic dy1),
                                dy_remote_handles := (dy_remote_handles dy1)(child_id \<mapsto> remote),
                                dy_remote_ids := (dy_remote_ids dy1)(actor_id address \<mapsto> child_id),
                                dy_remote_meta := (dy_remote_meta dy1)(child_id \<mapsto>
                                  \<lparr>rsm_spec = spec, rsm_placement = pl, rsm_link = link\<rparr>)\<rparr>, w1)))))"

definition dyn_restart_remote_child :: "'m env \<Rightarrow> string \<Rightarrow> 'm dyn_state \<Rightarrow> 'm dyn_state run" where
  "dyn_restart_remote_child en child_id = (\<lambda>(dy, w).
     (case dy_remote_meta dy child_id of
        None \<Rightarrow> Returns (dy, w)
      | Some meta \<Rightarrow>
          (let dy1 = dy\<lparr>dy_remote_handles := (dy_remote_handles dy)(child_id := None),
                        dy_remote_ids := (\<lambda>a. if dy_remote_ids dy a = Some child_id then None
                                             else dy_remote_ids dy a)\<rparr>
           in case spawn_with_retry_on (en_runtime en) (en_rpc en) (rsm_placement meta) (self_address en w)
                     (rsm_spec meta) (rsm_link meta) default_retry_policy w of
                (Inl err, w1) \<Rightarrow> Returns (cleanup_child child_id (dy1, w1))
              | (Inr address, w1) \<Rightarrow>
                  Returns (dy1\<lparr>dy_logic := replace_child_handle child_id (alive_slot (actor_id address)) (dy_logic dy1),
                               dy_remote_handles := (dy_remote_handles dy1)(child_id \<mapsto>
                                 remote_child_handle_new address (self_address en w)),
                               dy_remote_ids := (dy_remote_ids dy1)(actor_id address \<mapsto> child_id)\<rparr>, w1))))"

definition dyn_restart_child :: "'m env \<Rightarrow> string \<Rightarrow> 'm dyn_state \<Rightarrow> 'm dyn_state run" where
  "dyn_restart_child en child_id = (\<lambda>(dy, w).
     (case dy_specs dy child_id of
        None \<Rightarrow> Returns (dy, w)
      | Some spec \<Rightarrow>
          (case spec_start_child spec (en_self en) w of
             None \<Rightarrow> Panics
           | Some (h, w1) \<Rightarrow>
               (let ids = (case dy_handles dy child_id of
                             Some old \<Rightarrow> (dy_actor_to_id dy)(old := None)
                           | None \<Rightarrow> dy_actor_to_id dy)
                in Returns (dy\<lparr>dy_logic := replace_child_handle child_id (alive_slot h) (dy_logic dy),
                               dy_handles := (dy_handles dy)(child_id \<mapsto> h),
                               dy_actor_to_id := ids(h \<mapsto> child_id)\<rparr>, w1)))))"

definition dyn_shutdown_of :: "string \<Rightarrow> dyn_supervisor \<Rightarrow> shutdown_type" where
  "dyn_shutdown_of i dy = (case dy_specs dy i of Some spec \<Rightarrow> cs_shutdown spec | None \<Rightarrow> Infinity)"

definition terminate_local ::
  "'m env \<Rightarrow> actor_id \<Rightarrow> 'm dyn_state \<Rightarrow> ((dynamic_supervisor_error + unit) \<times> 'm dyn_state) run" where
  "terminate_local en a = (\<lambda>(dy, w).
     (case dy_actor_to_id dy a of
        None \<Rightarrow> Returns (Inl (ChildNotFound a), (dy, w))
      | Some child_id \<Rightarrow>
          (case dy_handles dy child_id of
             None \<Rightarrow> Returns (Inl (ChildNotFound a), (dy, w))
           | Some h \<Rightarrow>
               run_then (shutdown_local en h (dyn_shutdown_of child_id dy) w) (\<lambda>w1.
                 Returns (Inr (), cleanup_child child_id
                   (dy\<lparr>dy_logic := snd (remove_child_by_id child_id (dy_logic dy))\<rparr>, w1))))))"

definition terminate_child_by_actor ::
  "'m env \<Rightarrow> actor_id \<Rightarrow> 'm dyn_state \<Rightarrow> ((dynamic_supervisor_error + unit) \<times> 'm dyn_state) run" where
  "terminate_child_by_actor en a = (\<lambda>(dy, w).
     (case Option.bind (dy_remote_ids dy a)
             (\<lambda>child_id. map_option (Pair child_id) (dy_remote_handles dy child_id)) of
        None \<Rightarrow> terminate_local en a (dy, w)
      | Some (child_id, remote) \<Rightarrow>
          (let dy1 = dy\<lparr>dy_remote_handles := (dy_remote_handles dy)(child_id := None)\<rparr>
           in case shutdown_remote_on (en_runtime en) (en_wait en) remote (dyn_shutdown_of child_id dy1) w of
                None \<Rightarrow> Hangs
              | Some (Inl err, w1) \<Rightarrow> Returns (Inl (RemoteSpawnErr (ShutdownText err)), (dy1, w1))
              | Some (Inr _, w1) \<Rightarrow>
                  Returns (Inr (), (dy1\<lparr>dy_remote_ids := (dy_remote_ids dy1)(a := None),
                    dy_remote_meta := (dy_remote_meta dy1)(child_id := None),
                    dy_logic := snd (remove_child_by_id child_id (dy_logic dy1))\<rparr>, w1)))))"

definition dyn_backoff_for :: "string \<Rightarrow> dyn_supervisor \<Rightarrow> restart_backoff" where
  "dyn_backoff_for i dy = (case dy_specs dy i of Some spec \<Rightarrow> cs_backoff spec | None \<Rightarrow> NoBackoff)"

definition dyn_restart_child_with_backoff :: "'m env \<Rightarrow> string \<Rightarrow> 'm dyn_state \<Rightarrow> 'm dyn_state run" where
  "dyn_restart_child_with_backoff en child_id = (\<lambda>(dy, w).
     (case backoff_delay child_id (dyn_backoff_for child_id dy) (dy_logic dy) of
        (delay, l) \<Rightarrow>
          (let dy1 = dy\<lparr>dy_logic := l\<rparr>;
               w1 = (if delay \<noteq> 0 then sleep delay w else w)
           in if dy_remote_meta dy1 child_id \<noteq> None
              then dyn_restart_remote_child en child_id (dy1, w1)
              else dyn_restart_child en child_id (dy1, w1))))"

section \<open>Callbacks and messages\<close>

definition dyn_handle_exit :: "'m env \<Rightarrow> instant \<Rightarrow> exit_msg \<Rightarrow> 'm dyn_state \<Rightarrow> 'm dyn_state run" where
  "dyn_handle_exit en now ex = (\<lambda>(dy, w).
     (case on_child_exit (actor_id (exit_from ex)) (exit_cause ex) now (dy_logic dy) of
        (Ignore, l) \<Rightarrow>
          (case child_id_by_actor_any (actor_id (exit_from ex)) l of
             Some child_id \<Rightarrow> Returns (cleanup_child child_id (dy\<lparr>dy_logic := l\<rparr>, w))
           | None \<Rightarrow> Returns (dy\<lparr>dy_logic := l\<rparr>, w))
      | (RestartOne i, l) \<Rightarrow> dyn_restart_child_with_backoff en i (dy\<lparr>dy_logic := l\<rparr>, w)
      | (_, l) \<Rightarrow> Returns (dy\<lparr>dy_logic := l\<rparr>, over_cells (handle_stop (en_self en)) w)))"

definition dyn_started :: "'m env \<Rightarrow> 'm dyn_state \<Rightarrow> 'm dyn_state run" where
  "dyn_started en = (\<lambda>(dy, w).
     (let w1 = over_cells (set_trap_exit (en_self en) True) w
      in Returns (dy, snd (register_supervision_actor (self_address en w1) (en_self en) w1))))"

definition dyn_stop_one :: "'m env \<Rightarrow> string \<Rightarrow> 'm dyn_state \<Rightarrow> 'm dyn_state run" where
  "dyn_stop_one en i = (\<lambda>(dy, w).
     (let sd = dyn_shutdown_of i dy
      in run_then (case dy_handles dy i of None \<Rightarrow> Returns w | Some h \<Rightarrow> shutdown_local en h sd w) (\<lambda>w1.
           case dy_remote_handles dy i of
             None \<Rightarrow> Returns (dy, w1)
           | Some remote \<Rightarrow>
               (case shutdown_remote_on (en_runtime en) (en_wait en) remote sd w1 of
                  None \<Rightarrow> Hangs
                | Some (_, w2) \<Rightarrow> Returns (dy, w2)))))"

definition dyn_stopped :: "'m env \<Rightarrow> 'm dyn_state \<Rightarrow> 'm dyn_state run" where
  "dyn_stopped en = (\<lambda>(dy, w).
     (let dy1 = dy\<lparr>dy_stopping := True, dy_logic := set_suppress_restarts True (dy_logic dy)\<rparr>
      in run_then (run_each (dyn_stop_one en) (shutdown_order (dy_logic dy1)) (dy1, w)) (\<lambda>(dy2, w2).
           Returns (dy2\<lparr>dy_specs := Map.empty, dy_handles := Map.empty, dy_actor_to_id := Map.empty,
                        dy_remote_handles := Map.empty, dy_remote_ids := Map.empty, dy_remote_meta := Map.empty,
                        dy_reg_names := []\<rparr>,
                    w2\<lparr>wd_registry := fold unregister (map fst (dy_reg_names dy2)) (wd_registry w2)\<rparr>))))"

definition which_children :: "dyn_supervisor \<Rightarrow> dynamic_child_info list" where
  "which_children dy = map (\<lambda>c. \<lparr>di_id = ci_id c, di_actor_id = ci_actor_id c, di_alive = ci_alive c,
     di_restart = ci_restart c, di_shutdown = dyn_shutdown_of (ci_id c) dy\<rparr>) (list_children (dy_logic dy))"

datatype dyn_msg =
    StartChild child_spec "string option"
  | StartChildRemote remote_spawn_spec node_id bool
  | TerminateChild actor_id
  | CountChildren
  | WhichChildren
  | ExitReceived instant exit_msg

datatype dyn_reply =
    Started "dynamic_supervisor_error + actor_id"
  | StartedRemote "dynamic_supervisor_error + remote_child_handle"
  | Terminated "dynamic_supervisor_error + unit"
  | Count nat
  | Which "dynamic_child_info list"
  | NoReply

fun run_map :: "('a \<Rightarrow> 'b) \<Rightarrow> 'a run \<Rightarrow> 'b run" where
  "run_map f (Returns x) = Returns (f x)"
| "run_map f Hangs = Hangs"
| "run_map f Panics = Panics"

fun dyn_handle :: "'m env \<Rightarrow> dyn_msg \<Rightarrow> 'm dyn_state \<Rightarrow> (dyn_reply \<times> 'm dyn_state) run" where
  "dyn_handle en (StartChild spec name) st = run_map (apfst Started) (dyn_start_child en spec name st)"
| "dyn_handle en (StartChildRemote spec pl link) st = run_map (apfst StartedRemote) (dyn_start_child_remote en spec pl link st)"
| "dyn_handle en (TerminateChild a) st = run_map (apfst Terminated) (terminate_child_by_actor en a st)"
| "dyn_handle en CountChildren st = Returns (Count (child_count (dy_logic (fst st))), st)"
| "dyn_handle en WhichChildren st = Returns (Which (which_children (fst st)), st)"
| "dyn_handle en (ExitReceived now ex) st = run_map (Pair NoReply) (dyn_handle_exit en now ex st)"

section \<open>The threads dynamic supervisor\<close>

text \<open>The same operations with the blocking primitives; clean-up is the same code.\<close>

definition threads_dyn_start_child ::
  "'m env \<Rightarrow> child_spec \<Rightarrow> string option \<Rightarrow> 'm dyn_state
    \<Rightarrow> ((dynamic_supervisor_error + actor_id) \<times> 'm dyn_state) run" where
  "threads_dyn_start_child en = dyn_start_child (on_threads en)"

definition threads_dyn_start_child_remote ::
  "'m env \<Rightarrow> remote_spawn_spec \<Rightarrow> node_id \<Rightarrow> bool \<Rightarrow> 'm dyn_state
    \<Rightarrow> ((dynamic_supervisor_error + remote_child_handle) \<times> 'm dyn_state) run" where
  "threads_dyn_start_child_remote en = dyn_start_child_remote (on_threads en)"

definition threads_dyn_restart_remote_child ::
  "'m env \<Rightarrow> string \<Rightarrow> 'm dyn_state \<Rightarrow> 'm dyn_state run" where
  "threads_dyn_restart_remote_child en = dyn_restart_remote_child (on_threads en)"

definition threads_dyn_restart_child ::
  "'m env \<Rightarrow> string \<Rightarrow> 'm dyn_state \<Rightarrow> 'm dyn_state run" where
  "threads_dyn_restart_child en = dyn_restart_child (on_threads en)"

definition threads_terminate_child_by_actor ::
  "'m env \<Rightarrow> actor_id \<Rightarrow> 'm dyn_state \<Rightarrow> ((dynamic_supervisor_error + unit) \<times> 'm dyn_state) run" where
  "threads_terminate_child_by_actor en = terminate_child_by_actor (on_threads en)"

definition threads_dyn_restart_child_with_backoff ::
  "'m env \<Rightarrow> string \<Rightarrow> 'm dyn_state \<Rightarrow> 'm dyn_state run" where
  "threads_dyn_restart_child_with_backoff en = dyn_restart_child_with_backoff (on_threads en)"

definition threads_dyn_handle_exit ::
  "'m env \<Rightarrow> instant \<Rightarrow> exit_msg \<Rightarrow> 'm dyn_state \<Rightarrow> 'm dyn_state run" where
  "threads_dyn_handle_exit en = dyn_handle_exit (on_threads en)"

definition threads_dyn_started ::
  "'m env \<Rightarrow> 'm dyn_state \<Rightarrow> 'm dyn_state run" where
  "threads_dyn_started en = dyn_started (on_threads en)"

definition threads_dyn_stopped ::
  "'m env \<Rightarrow> 'm dyn_state \<Rightarrow> 'm dyn_state run" where
  "threads_dyn_stopped en = dyn_stopped (on_threads en)"

definition threads_cleanup_child :: "string \<Rightarrow> 'm dyn_state \<Rightarrow> 'm dyn_state" where
  "threads_cleanup_child = cleanup_child"

definition threads_dyn_backoff_for :: "string \<Rightarrow> dyn_supervisor \<Rightarrow> restart_backoff" where
  "threads_dyn_backoff_for = dyn_backoff_for"

definition threads_which_children :: "dyn_supervisor \<Rightarrow> dynamic_child_info list" where
  "threads_which_children = which_children"

definition threads_dyn_handle :: "'m env \<Rightarrow> dyn_msg \<Rightarrow> 'm dyn_state \<Rightarrow> (dyn_reply \<times> 'm dyn_state) run" where
  "threads_dyn_handle en = dyn_handle (on_threads en)"

end
