(* ===== verification/Dynamic_Correct.thy ===== *)
theory Dynamic_Correct
  imports Dynamic_Supervisor
begin

text \<open>
  What the dynamic supervisor guarantees: the bound on the number of children holds after every
  message, whatever the children, the peers and the registry do; a terminated child is dead,
  forgotten and never restarted. A name that is already taken loses the new child.
\<close>

section \<open>Counting live children\<close>

abbreviation row_id :: "supervised_child \<Rightarrow> string" where
  "row_id c \<equiv> cp_id (sc_policy c)"

definition ids_distinct :: "supervisor_logic \<Rightarrow> bool" where
  "ids_distinct l \<longleftrightarrow> distinct (map row_id (lg_children l))"

lemma child_count_where: "child_count l = count_where child_alive (lg_children l)"
  by (simp add: child_count_def count_where_def)

lemma count_vec_remove: "count_where p (vec_remove k xs) \<le> count_where p xs"
proof -
  have "filter p xs = filter p (take k xs) @ filter p (drop k xs)" by (metis append_take_drop_id filter_append)
  moreover have "length (filter p (drop (Suc k) xs)) \<le> length (filter p (drop k xs))"
    by (cases "drop k xs") (simp_all add: drop_Suc drop_tl)
  ultimately show ?thesis by (simp add: count_where_def vec_remove_def)
qed

lemma remove_child_count: "child_count (snd (remove_child_by_id i l)) \<le> child_count l"
  by (simp add: remove_child_by_id_def child_count_where count_vec_remove split: option.splits)

lemma remove_child_ids:
  "ids_distinct l \<Longrightarrow> ids_distinct (snd (remove_child_by_id i l))"
  by (simp add: ids_distinct_def remove_child_by_id_def map_vec_remove distinct_vec_remove split: option.splits)

lemma remove_child_rows:
  assumes "ids_distinct l"
  shows "lg_children (snd (remove_child_by_id i l)) = filter (\<lambda>c. row_id c \<noteq> i) (lg_children l)"
proof (cases "position (\<lambda>c. row_id c = i) (lg_children l)")
  case None
  then have "filter (\<lambda>c. row_id c \<noteq> i) (lg_children l) = lg_children l"
    by (auto simp: position_None_iff intro: filter_True)
  with None show ?thesis by (simp add: remove_child_by_id_def)
next
  case (Some k)
  with vec_remove_filter_distinct [of row_id "lg_children l" i k] assms show ?thesis
    by (simp add: remove_child_by_id_def ids_distinct_def)
qed

lemma mark_dead_count:
  assumes "child_index_by_actor a l = Some k"
  shows "Suc (child_count (mark_child_dead a l)) = child_count l" "\<not> child_alive (lg_children (mark_child_dead a l) ! k)"
    "k < length (lg_children l)"
proof -
  from position_SomeD [OF assms [unfolded child_index_by_actor_def]]
  have k: "k < length (lg_children l)" "runs a (lg_children l ! k)" by simp_all
  have dead: "\<not> child_alive (kill_slot (lg_children l ! k))"
    by (simp add: kill_slot_def has_slot_def split: option.splits)
  have eq: "lg_children (mark_child_dead a l) = (lg_children l)[k := kill_slot (lg_children l ! k)]"
    using assms by (simp add: mark_child_dead_def)
  show "k < length (lg_children l)" by (rule k)
  show "\<not> child_alive (lg_children (mark_child_dead a l) ! k)" using k(1) dead by (simp add: eq)
  show "Suc (child_count (mark_child_dead a l)) = child_count l"
    using count_where_update [OF k(1), of child_alive "kill_slot (lg_children l ! k)"] dead runs_alive [OF k(2)]
    by (simp add: child_count_where eq)
qed

lemma distinct_map_nth:
  "distinct (map f xs) \<Longrightarrow> j < length xs \<Longrightarrow> k < length xs \<Longrightarrow> f (xs ! j) = f (xs ! k) \<Longrightarrow> j = k"
  by (metis length_map nth_eq_iff_index_eq nth_map)

lemma replace_count:
  assumes "ids_distinct l" "k < length (lg_children l)" "\<not> child_alive (lg_children l ! k)"
  shows "child_count (replace_child_handle (row_id (lg_children l ! k)) h l) \<le> Suc (child_count l)"
    "ids_distinct (replace_child_handle i h l)"
proof -
  have "position (\<lambda>c. row_id c = row_id (lg_children l ! k)) (lg_children l) = Some k"
    using assms(1,2) distinct_map_nth [of row_id "lg_children l"]
    by (intro position_unique) (auto simp: ids_distinct_def)
  then show "child_count (replace_child_handle (row_id (lg_children l ! k)) h l) \<le> Suc (child_count l)"
    using count_where_update [OF assms(2), of child_alive "(lg_children l ! k)\<lparr>sc_handle := Some h\<rparr>"] assms(3)
    by (simp add: replace_child_handle_def child_count_where)
  show "ids_distinct (replace_child_handle i h l)"
  proof (cases "position (\<lambda>c. row_id c = i) (lg_children l)")
    case None
    with assms(1) show ?thesis by (simp add: replace_child_handle_def ids_distinct_def)
  next
    case (Some j)
    from position_SomeD [OF Some] have j: "j < length (lg_children l)" by simp
    have "map row_id ((lg_children l)[j := (lg_children l ! j)\<lparr>sc_handle := Some h\<rparr>]) = map row_id (lg_children l)"
      using j by (simp add: map_update list_update_same_conv)
    with assms(1) Some show ?thesis by (simp add: replace_child_handle_def ids_distinct_def)
  qed
qed

section \<open>The invariant\<close>

definition logic_bounded :: "nat option \<Rightarrow> supervisor_logic \<Rightarrow> bool" where
  "logic_bounded mx l \<longleftrightarrow> ids_distinct l \<and> lg_strategy l = OneForOne \<and>
     (\<forall>m. mx = Some m \<longrightarrow> child_count l \<le> m)"

definition dyn_inv :: "'m dyn_state \<Rightarrow> bool" where
  "dyn_inv st \<longleftrightarrow> logic_bounded (dy_max_children (fst st)) (dy_logic (fst st))"

definition kept_max :: "'m dyn_state \<Rightarrow> 'm dyn_state \<Rightarrow> bool" where
  "kept_max st st' \<longleftrightarrow> dy_max_children (fst st') = dy_max_children (fst st)"

lemma dyn_inv_new: "dyn_inv (dyn_new intensity mx, w)"
  by (simp add: dyn_inv_def logic_bounded_def dyn_new_def logic_new_def ids_distinct_def child_count_def)

lemma remove_frame [simp]: "lg_strategy (snd (remove_child_by_id i l)) = lg_strategy l"
  by (simp add: remove_child_by_id_def split: option.splits)

lemma bounded_remove [inv_rules]: "logic_bounded mx l \<Longrightarrow> logic_bounded mx (snd (remove_child_by_id i l))"
  using remove_child_count [of i l] by (auto simp: logic_bounded_def remove_child_ids dest: order_trans)

lemma cleanup_logic:
  "dy_logic (fst (cleanup_child i (dy, w))) = snd (remove_child_by_id i (dy_logic dy))"
  "dy_max_children (fst (cleanup_child i (dy, w))) = dy_max_children dy"
  "wd_cells (snd (cleanup_child i (dy, w))) = wd_cells w"
  by (auto simp: cleanup_child_def Let_def split: option.splits)

lemma bounded_register [inv_rules]:
  assumes "logic_bounded mx l" "\<not> has_child_id (cp_id p) l" "\<forall>m. mx = Some m \<longrightarrow> child_count l < m"
  shows "logic_bounded mx (register_child p h l)"
  using assms
  by (auto simp: logic_bounded_def register_child_def ids_distinct_def has_child_id_def child_count_def list_ex_iff)

lemma on_child_exit_one:
  assumes "\<not> lg_suppress l" "child_index_by_actor a l = Some k" "lg_strategy l = OneForOne"
    and "on_child_exit a r now l = (act, l')"
  shows "lg_children l' = lg_children (mark_child_dead a l)" "lg_strategy l' = lg_strategy l"
    "act \<in> {Ignore, Meltdown, RestartOne (row_id (lg_children l ! k))}"
proof -
  let ?p = "sc_policy (lg_children l ! k)" and ?l1 = "mark_child_dead a l"
  obtain q t where qt: "record_restart now (lg_intensity ?l1) = (q, t)" by fastforce
  have "on_child_exit a r now l = (if \<not> should_restart (cp_restart ?p) r then (Ignore, reset_backoff (cp_id ?p) ?l1)
      else if is_ok q then (RestartOne (cp_id ?p), ?l1\<lparr>lg_intensity := t\<rparr>) else (Meltdown, ?l1\<lparr>lg_intensity := t\<rparr>))"
    using assms(1-3) qt by (simp add: on_child_exit_def Let_def is_ok_def split: sum.splits)
  with assms(4) show "lg_children l' = lg_children ?l1" "lg_strategy l' = lg_strategy l"
    "act \<in> {Ignore, Meltdown, RestartOne (cp_id ?p)}"
    by (auto simp: reset_backoff_def split: if_splits)
qed

lemma bounded_exit:
  assumes "logic_bounded mx l" "on_child_exit a r now l = (act, l')"
  shows "logic_bounded mx l'"
    and "act = RestartOne i \<Longrightarrow> \<exists>k < length (lg_children l'). row_id (lg_children l' ! k) = i \<and>
      \<not> child_alive (lg_children l' ! k) \<and> (\<forall>m. mx = Some m \<longrightarrow> Suc (child_count l') \<le> m)"
    and "\<nexists>ids. act = TerminateBatch ids"
proof -
  have b: "ids_distinct l" "lg_strategy l = OneForOne" "\<forall>m. mx = Some m \<longrightarrow> child_count l \<le> m"
    using assms(1) by (auto simp: logic_bounded_def)
  have main: "logic_bounded mx l' \<and> (act = RestartOne i \<longrightarrow> (\<exists>k < length (lg_children l'). row_id (lg_children l' ! k) = i \<and>
      \<not> child_alive (lg_children l' ! k) \<and> (\<forall>m. mx = Some m \<longrightarrow> Suc (child_count l') \<le> m))) \<and>
      (\<nexists>ids. act = TerminateBatch ids)"
  proof (cases "\<not> lg_suppress l \<and> child_index_by_actor a l \<noteq> None")
    case False
    then have "l' = l \<and> act = Ignore" using assms(2) by (auto simp: on_child_exit_def split: option.splits if_splits)
    with assms(1) show ?thesis by simp
  next
    case True
    then obtain k where k: "child_index_by_actor a l = Some k" by auto
    note m = mark_dead_count [OF k]
    let ?l1 = "mark_child_dead a l"
    have row: "map row_id (lg_children ?l1) = map row_id (lg_children l)"
      using arg_cong [OF policies_mark [of a l], of "map cp_id"] by (simp add: policies_def comp_def)
    have same: "row_id (lg_children ?l1 ! k) = row_id (lg_children l ! k)"
      using row m(3) by (metis length_mark nth_map)
    have l': "lg_children l' = lg_children ?l1" "lg_strategy l' = lg_strategy l"
      and act: "act = RestartOne i \<longrightarrow> i = row_id (lg_children l ! k)" "\<nexists>ids. act = TerminateBatch ids"
      using on_child_exit_one [OF _ k b(2) assms(2)] True by auto
    have count: "child_count l' = child_count ?l1" by (simp add: child_count_def l'(1))
    have "logic_bounded mx l'"
      using b l' row m(1) by (auto simp: logic_bounded_def ids_distinct_def count)
    moreover have "\<forall>mm. mx = Some mm \<longrightarrow> Suc (child_count l') \<le> mm" using b(3) m(1) by (simp add: count)
    ultimately show ?thesis using act m same l'(1) by (auto intro!: exI [of _ k])
  qed
  then show "logic_bounded mx l'" "act = RestartOne i \<Longrightarrow> \<exists>k < length (lg_children l'). row_id (lg_children l' ! k) = i \<and>
      \<not> child_alive (lg_children l' ! k) \<and> (\<forall>m. mx = Some m \<longrightarrow> Suc (child_count l') \<le> m)"
    "\<nexists>ids. act = TerminateBatch ids" by auto
qed

lemma bounded_replace [inv_rules]:
  assumes "logic_bounded mx l" "k < length (lg_children l)" "row_id (lg_children l ! k) = i"
    "\<not> child_alive (lg_children l ! k)" "\<forall>m. mx = Some m \<longrightarrow> Suc (child_count l) \<le> m"
  shows "logic_bounded mx (replace_child_handle i h l)"
  using assms replace_count(1) [of l k h] replace_count(2) [of l k i h]
  by (auto simp: logic_bounded_def dest: order_trans)

text \<open>Nothing that is started while the bound is reached is kept.\<close>

lemma start_child_inv:
  assumes "dyn_inv st" "dyn_start_child en spec name st = Returns (r, st')"
  shows "dyn_inv st' \<and> kept_max st st'"
proof -
  obtain dy w where st: "st = (dy, w)" by fastforce
  let ?dy1 = "dy\<lparr>dy_id_counter := dy_id_counter dy + 1\<rparr>"
  let ?i = "instance_id (cs_id spec) (dy_id_counter dy + 1)"
  show ?thesis
  proof (cases "dy_stopping dy \<or> over_max dy \<or> has_child_id ?i (dy_logic dy)")
    case True
    with assms show ?thesis
      by (auto simp: st dyn_start_child_def dyn_inv_def kept_max_def Let_def split: if_splits)
  next
    case False
    then obtain h w1 where h: "spec_start_child spec (en_self en) w = Some (h, w1)"
      using assms(2) by (auto simp: st dyn_start_child_def Let_def split: option.splits)
    let ?p = "\<lparr>cp_id = ?i, cp_restart = cs_restart spec, cp_start_index = next_start_index (dy_logic dy)\<rparr>"
    let ?l = "register_child ?p (alive_slot h) (dy_logic dy)"
    have b: "logic_bounded (dy_max_children dy) ?l"
      using assms(1) False by (intro bounded_register) (auto simp: st dyn_inv_def over_max_def split: option.splits)
    then show ?thesis
      using assms(2) False h bounded_remove [OF b, of ?i]
      by (auto simp: st dyn_start_child_def Let_def dyn_inv_def kept_max_def cleanup_logic
          split: option.splits prod.splits sum.splits)
  qed
qed

lemma start_child_remote_inv:
  assumes "dyn_inv st" "dyn_start_child_remote en spec pl link st = Returns (r, st')"
  shows "dyn_inv st' \<and> kept_max st st'"
proof -
  obtain dy w where st: "st = (dy, w)" by fastforce
  let ?i = "instance_id ''remote'' (dy_id_counter dy + 1)"
  have "logic_bounded (dy_max_children dy) (register_child
      \<lparr>cp_id = ?i, cp_restart = Permanent, cp_start_index = next_start_index (dy_logic dy)\<rparr> h (dy_logic dy))"
    if "\<not> over_max dy" "\<not> has_child_id ?i (dy_logic dy)" for h
    using assms(1) that by (intro bounded_register) (auto simp: st dyn_inv_def over_max_def split: option.splits)
  then show ?thesis
    using assms by (auto simp: st dyn_start_child_remote_def dyn_inv_def kept_max_def Let_def
        split: if_splits prod.splits sum.splits)
qed

lemma terminate_inv:
  assumes "dyn_inv st" "terminate_child_by_actor en a st = Returns (r, st')"
  shows "dyn_inv st' \<and> kept_max st st'"
proof -
  obtain dy w where st: "st = (dy, w)" by fastforce
  note rem = bounded_remove [of "dy_max_children dy"]
  have loc: "dyn_inv st' \<and> kept_max st st'" if "terminate_local en a st = Returns (r, st')"
  proof (cases "Option.bind (dy_actor_to_id dy a) (dy_handles dy)")
    case None
    with that assms(1) show ?thesis
      by (auto simp: st terminate_local_def kept_max_def Option.bind_eq_None_conv split: option.splits)
  next
    case (Some h)
    then obtain i where i: "dy_actor_to_id dy a = Some i" "dy_handles dy i = Some h" by (auto simp: bind_eq_Some_conv)
    with that obtain w1 where "st' = cleanup_child i (dy\<lparr>dy_logic := snd (remove_child_by_id i (dy_logic dy))\<rparr>, w1)"
      by (cases "shutdown_local en h (dyn_shutdown_of i dy) w") (auto simp: st terminate_local_def)
    with assms(1) show ?thesis by (simp add: st dyn_inv_def kept_max_def cleanup_logic rem)
  qed
  show ?thesis
  proof (cases "Option.bind (dy_remote_ids dy a) (\<lambda>i. map_option (Pair i) (dy_remote_handles dy i))")
    case None
    with assms(2) loc show ?thesis by (simp add: st terminate_child_by_actor_def)
  next
    case (Some x)
    with assms rem show ?thesis
      by (auto simp: st terminate_child_by_actor_def dyn_inv_def kept_max_def Let_def
          split: prod.splits option.splits sum.splits)
  qed
qed

lemma restart_inv:
  assumes b: "logic_bounded (dy_max_children dy) (dy_logic dy)" and k: "k < length (lg_children (dy_logic dy))"
      "row_id (lg_children (dy_logic dy) ! k) = i" "\<not> child_alive (lg_children (dy_logic dy) ! k)"
      "\<forall>m. dy_max_children dy = Some m \<longrightarrow> Suc (child_count (dy_logic dy)) \<le> m"
    and run: "dyn_restart_child_with_backoff en i (dy, w) = Returns st'"
  shows "dyn_inv st' \<and> kept_max (dy, w) st'"
proof -
  obtain d l where dl: "backoff_delay i (dyn_backoff_for i dy) (dy_logic dy) = (d, l)" by fastforce
  note l = backoff_delay_children [OF dl]
  have count: "child_count l = child_count (dy_logic dy)" using l by (simp add: child_count_def)
  have bl: "logic_bounded (dy_max_children dy) l"
    using b l by (simp add: logic_bounded_def ids_distinct_def count)
  have br: "logic_bounded (dy_max_children dy) (replace_child_handle i h l)" for h
    using bl k l by (intro bounded_replace [of _ _ k]) (simp_all add: count)
  define w1 where "w1 = (if d \<noteq> 0 then sleep d w else w)"
  show ?thesis
  proof (cases "dy_remote_meta dy i")
    case None
    then have "dyn_restart_child en i (dy\<lparr>dy_logic := l\<rparr>, w1) = Returns st'"
      using run by (simp add: dyn_restart_child_with_backoff_def dl w1_def)
    then show ?thesis using bl br
      by (auto simp: dyn_restart_child_def dyn_inv_def kept_max_def Let_def split: option.splits)
  next
    case (Some meta)
    then have "dyn_restart_remote_child en i (dy\<lparr>dy_logic := l\<rparr>, w1) = Returns st'"
      using run by (simp add: dyn_restart_child_with_backoff_def dl w1_def)
    then show ?thesis using Some bl br bounded_remove [OF bl]
      by (auto simp: dyn_restart_remote_child_def dyn_inv_def kept_max_def Let_def cleanup_logic
          split: option.splits prod.splits sum.splits)
  qed
qed

lemma handle_exit_inv:
  assumes "dyn_inv st" "dyn_handle_exit en now ex st = Returns st'"
  shows "dyn_inv st' \<and> kept_max st st'"
proof -
  obtain dy w where st: "st = (dy, w)" by fastforce
  let ?a = "actor_id (exit_from ex)"
  obtain act l where al: "on_child_exit ?a (exit_cause ex) now (dy_logic dy) = (act, l)" by fastforce
  have b0: "logic_bounded (dy_max_children dy) (dy_logic dy)" using assms(1) by (simp add: st dyn_inv_def)
  note b = bounded_exit [OF b0 al]
  show ?thesis
  proof (cases act)
    case Ignore
    with assms(2) al b(1) bounded_remove [OF b(1)] show ?thesis
      by (auto simp: st dyn_handle_exit_def dyn_inv_def kept_max_def cleanup_logic split: option.splits)
  next
    case (RestartOne i)
    from b(2) [OF this] obtain k where k: "k < length (lg_children l)" "row_id (lg_children l ! k) = i"
      "\<not> child_alive (lg_children l ! k)" "\<forall>m. dy_max_children dy = Some m \<longrightarrow> Suc (child_count l) \<le> m" by blast
    have "dyn_restart_child_with_backoff en i (dy\<lparr>dy_logic := l\<rparr>, w) = Returns st'"
      using assms(2) al RestartOne by (simp add: st dyn_handle_exit_def)
    from restart_inv [OF _ _ _ _ _ this, of k] b(1) k show ?thesis by (simp add: st kept_max_def)
  next
    case (TerminateBatch ids)
    with b(3) show ?thesis by simp
  next
    case Meltdown
    with assms(2) al b(1) show ?thesis by (auto simp: st dyn_handle_exit_def dyn_inv_def kept_max_def)
  qed
qed

lemma run_map_Returns: "run_map f r = Returns y \<longleftrightarrow> (\<exists>x. r = Returns x \<and> y = f x)"
  by (cases r) auto

lemma dyn_handle_inv [inv_rules]:
  assumes inv: "dyn_inv st" and run: "dyn_handle en msg st = Returns (reply, st')"
  shows "dyn_inv st' \<and> kept_max st st'"
proof (cases msg)
  case (StartChild spec name)
  then obtain r where "dyn_start_child en spec name st = Returns (r, st')" using run by (auto simp: run_map_Returns)
  then show ?thesis by (rule start_child_inv [OF inv])
next
  case (StartChildRemote spec pl link)
  then obtain r where "dyn_start_child_remote en spec pl link st = Returns (r, st')" using run by (auto simp: run_map_Returns)
  then show ?thesis by (rule start_child_remote_inv [OF inv])
next
  case (TerminateChild a)
  then obtain r where "terminate_child_by_actor en a st = Returns (r, st')" using run by (auto simp: run_map_Returns)
  then show ?thesis by (rule terminate_inv [OF inv])
next
  case (ExitReceived now ex)
  then have "dyn_handle_exit en now ex st = Returns st'" using run by (auto simp: run_map_Returns)
  then show ?thesis by (rule handle_exit_inv [OF inv])
qed (use inv run in \<open>auto simp: kept_max_def\<close>)

text \<open>
  The life of a dynamic supervisor: it handles messages one at a time, and between them the
  rest of the node does as it likes.
\<close>

inductive dyn_step :: "'m env \<Rightarrow> 'm dyn_state \<Rightarrow> 'm dyn_state \<Rightarrow> bool" for en where
  dyn_msg: "dyn_handle en msg st = Returns (reply, st') \<Longrightarrow> dyn_step en st st'"
| dyn_others: "dyn_step en (dy, w) (dy, w')"

definition dyn_init :: "nat option \<Rightarrow> 'm dyn_state \<Rightarrow> bool" where
  "dyn_init mx st \<longleftrightarrow> (\<exists>intensity. fst st = dyn_new intensity mx)"

definition dyn_bounded :: "nat option \<Rightarrow> 'm dyn_state \<Rightarrow> bool" where
  "dyn_bounded mx st \<longleftrightarrow> dyn_inv st \<and> dy_max_children (fst st) = mx"

interpretation dyn: inductive_invariant "dyn_init mx" "dyn_step en" "dyn_bounded mx"
  for mx and en :: "'m env"
proof
  fix s :: "'m dyn_state"
  assume "dyn_init mx s"
  then show "dyn_bounded mx s"
    using dyn_inv_new by (cases s) (auto simp: dyn_init_def dyn_bounded_def dyn_new_def)
next
  fix s t :: "'m dyn_state"
  assume s: "dyn_bounded mx s" and "dyn_step en s t"
  from this(2) show "dyn_bounded mx t"
  proof cases
    case (dyn_msg msg reply)
    from dyn_handle_inv [OF _ this] s show ?thesis by (simp add: dyn_bounded_def kept_max_def)
  next
    case dyn_others
    then show ?thesis using s by (auto simp: dyn_bounded_def dyn_inv_def)
  qed
qed

section \<open>Termination of a child\<close>

lemma find_none_after_delete:
  assumes "distinct (map snd names)" "find (\<lambda>(n, j). j = i) names = Some (name, k)"
  shows "i \<notin> snd ` set (AList.delete name names)"
proof -
  from assms(2) have "(name, i) \<in> set names" by (auto simp: find_Some_iff in_set_conv_nth)
  with assms(1) show ?thesis by (fastforce simp: AList.delete_eq distinct_map inj_on_def)
qed

lemma cleanup_forgets:
  assumes "cleanup_child i (dy, w) = (dy', w')"
  shows "dy_handles dy' i = None" "dy_specs dy' i = None"
    "ids_distinct (dy_logic dy) \<Longrightarrow> \<not> has_child_id i (dy_logic dy')"
    "distinct (map snd (dy_reg_names dy)) \<Longrightarrow> i \<notin> snd ` set (dy_reg_names dy')"
    "(name, i) \<in> set (dy_reg_names dy) \<Longrightarrow> distinct (map snd (dy_reg_names dy)) \<Longrightarrow> map_of (wd_registry w') name = None"
proof -
  show "dy_handles dy' i = None" "dy_specs dy' i = None"
    using assms by (auto simp: cleanup_child_def Let_def split: option.splits prod.splits)
  have l: "dy_logic dy' = snd (remove_child_by_id i (dy_logic dy))"
    using cleanup_logic(1) [of i dy w] assms by simp
  show "\<not> has_child_id i (dy_logic dy')" if "ids_distinct (dy_logic dy)"
    using remove_child_rows [OF that, of i] by (auto simp: l has_child_id_def list_ex_iff)
  let ?f = "find (\<lambda>(n, j). j = i) (dy_reg_names dy)"
  have names: "dy_reg_names dy' = (case ?f of Some (n, _) \<Rightarrow> AList.delete n (dy_reg_names dy) | None \<Rightarrow> dy_reg_names dy)"
    "wd_registry w' = (case ?f of Some (n, _) \<Rightarrow> unregister n (wd_registry w) | None \<Rightarrow> wd_registry w)"
    using assms by (auto simp: cleanup_child_def Let_def split: option.splits prod.splits)
  show "i \<notin> snd ` set (dy_reg_names dy')" if d: "distinct (map snd (dy_reg_names dy))"
  proof (cases ?f)
    case None
    then have "dy_reg_names dy' = dy_reg_names dy" by (simp add: names)
    with None show ?thesis by (auto simp: find_None_iff)
  next
    case (Some x)
    with find_none_after_delete [OF d, of i] show ?thesis by (cases x) (simp add: names)
  qed
  assume n: "(name, i) \<in> set (dy_reg_names dy)" and d: "distinct (map snd (dy_reg_names dy))"
  have "?f \<noteq> None" using n by (auto simp: find_None_iff)
  then obtain n' j where "?f = Some (n', j)" by auto
  moreover from this have "j = i" by (auto simp: find_Some_iff)
  ultimately have f: "?f = Some (n', i)" by simp
  then have "(n', i) \<in> set (dy_reg_names dy)" by (auto simp: find_Some_iff in_set_conv_nth)
  then have "n' = name" using n d by (metis distinct_map inj_on_contraD snd_conv prod.inject)
  then show "map_of (wd_registry w') name = None" using f by (simp add: names unregister_def)
qed

lemma exit_of_unknown:
  assumes "\<And>c. c \<in> set (lg_children (dy_logic dy)) \<Longrightarrow> \<not> has_slot (\<lambda>s. sl_id s = actor_id (exit_from ex)) c"
  shows "dyn_handle_exit en now ex (dy, w) = Returns (dy, w)"
proof -
  let ?a = "actor_id (exit_from ex)"
  have "child_index_by_actor ?a (dy_logic dy) = None"
    using assms by (fastforce simp: child_index_by_actor_def position_None_iff has_slot_def split: option.splits)
  then have "on_child_exit ?a (exit_cause ex) now (dy_logic dy) = (Ignore, dy_logic dy)"
    by (simp add: on_child_exit_def)
  moreover have "child_id_by_actor_any ?a (dy_logic dy) = None"
    using assms by (auto simp: child_id_by_actor_any_def find_None_iff)
  ultimately show ?thesis by (simp add: dyn_handle_exit_def)
qed

section \<open>Properties\<close>

text \<open>
  C11. A dynamic supervisor built with a bound never has more live children than the bound,
  after any sequence of requests, exits and restarts, local or remote; child ids stay
  distinct; and at the bound a request to start a child is refused and changes nothing.
\<close>

theorem dyn_max_children_respected:
  assumes reach: "reach (dyn_init (Some m)) (dyn_step en) (dy, w)"
  shows "child_count (dy_logic dy) \<le> m \<and> distinct (map (\<lambda>c. cp_id (sc_policy c)) (lg_children (dy_logic dy))) \<and>
    (child_count (dy_logic dy) = m \<and> \<not> dy_stopping dy \<longrightarrow>
       dyn_start_child en spec name (dy, w) = Returns (Inl MaxChildrenExceeded, (dy, w)))"
  using dyn.reach_invar [OF reach]
  by (auto simp: dyn_bounded_def dyn_inv_def logic_bounded_def ids_distinct_def dyn_start_child_def over_max_def)

definition dyn_env :: "nat env" where
  "dyn_env = \<lparr>en_runtime = Tasks, en_self = ActorId 1, en_sched = exit_sched (NodeId ''n''), en_rpc = down_rpc,
     en_wait = (\<lambda>sent a d. None)\<rparr>"

theorem dyn_max_children_respected_witness:
  "dyn_start_child dyn_env (worker ''w'' 1 Permanent) None (dyn_new default_intensity (Some 0), demo_world)
     = Returns (Inl MaxChildrenExceeded, (dyn_new default_intensity (Some 0), demo_world))"
proof -
  have "reach (dyn_init (Some 0)) (dyn_step dyn_env) (dyn_new default_intensity (Some 0), demo_world)"
    by (rule reach_init) (auto simp: dyn_init_def)
  from dyn_max_children_respected [OF this, of "worker ''w'' 1 Permanent" None] show ?thesis
    by (simp add: dyn_new_def)
qed

text \<open>
  Terminating a local child is final, if cancelled actors run to their end: the request
  succeeds, the child's actor is dead, its id and its registered name are gone from the
  tables, and the exit signal that arrives afterwards restarts nothing and changes nothing.
\<close>

lemma dyn_terminate_is_final:
  assumes fair: "terminating (en_sched en)"
    and ids: "dy_actor_to_id dy a = Some i" "dy_handles dy i = Some a" "dy_remote_ids dy a = None"
    and rows: "ids_distinct (dy_logic dy)"
      "\<forall>c \<in> set (lg_children (dy_logic dy)). has_slot (\<lambda>s. sl_id s = a) c \<longrightarrow> cp_id (sc_policy c) = i"
    and names: "distinct (map snd (dy_reg_names dy))" "(name, i) \<in> set (dy_reg_names dy)"
    and ex: "actor_id (exit_from ex) = a"
  shows "\<exists>dy' w'. terminate_child_by_actor en a (dy, w) = Returns (Inr (), (dy', w')) \<and>
    \<not> is_alive a (wd_cells w') \<and> \<not> has_child_id i (dy_logic dy') \<and> dy_handles dy' i = None \<and>
    whereis CHILD_HANDLE name (wd_registry w') = None \<and>
    (\<forall>now. dyn_handle_exit en now ex (dy', w') = Returns (dy', w'))"
proof -
  let ?sd = "dyn_shutdown_of i dy"
  obtain r c where rc: "shutdown_child_async (en_sched en) a ?sd (wd_cells w) = (Some r, c)"
    using shutdown_child_ends(1) [OF fair, of a ?sd "wd_cells w"] by (metis prod.collapse)
  have dead: "\<not> is_alive a c" using shutdown_child_ends(2) [OF fair, of a ?sd "wd_cells w"] rc by simp
  define dy1 where "dy1 = dy\<lparr>dy_logic := snd (remove_child_by_id i (dy_logic dy))\<rparr>"
  define w1 where "w1 = w\<lparr>wd_cells := c\<rparr>"
  obtain dy' w' where cl: "cleanup_child i (dy1, w1) = (dy', w')" by fastforce
  have run: "terminate_child_by_actor en a (dy, w) = Returns (Inr (), (dy', w'))"
    using ids cl by (simp add: terminate_child_by_actor_def terminate_local_def shutdown_local_def
        shutdown_child_on_async rc dy1_def w1_def)
  have d1: "ids_distinct (dy_logic dy1)" using rows(1) by (simp add: dy1_def remove_child_ids)
  note f = cleanup_forgets [OF cl]
  have "lg_children (dy_logic dy') = filter (\<lambda>c. row_id c \<noteq> i) (lg_children (dy_logic dy))"
    using cleanup_logic(1) [of i dy1 w1] cl remove_child_rows [OF d1, of i] remove_child_rows [OF rows(1), of i]
    by (simp add: dy1_def)
  with rows(2) have "\<not> has_slot (\<lambda>s. sl_id s = actor_id (exit_from ex)) c"
    if "c \<in> set (lg_children (dy_logic dy'))" for c using that by (auto simp: ex)
  from exit_of_unknown [OF this] have "dyn_handle_exit en now ex (dy', w') = Returns (dy', w')" for now .
  moreover have "whereis CHILD_HANDLE name (wd_registry w') = None"
    using f(5) [of name] names by (simp add: dy1_def whereis_def)
  moreover have "\<not> is_alive a (wd_cells w')" using cleanup_logic(3) [of i dy1 w1] cl dead by (simp add: w1_def)
  ultimately show ?thesis using run f(1) f(3) [OF d1] by blast
qed

definition one_dyn :: dyn_supervisor where
  "one_dyn = (dyn_new default_intensity None)\<lparr>
     dy_logic := (logic_new OneForOne default_intensity)\<lparr>lg_children :=
        [\<lparr>sc_policy = \<lparr>cp_id = ''w#1'', cp_restart = Permanent, cp_start_index = 0\<rparr>,
          sc_handle = Some (alive_slot (ActorId 2))\<rparr>]\<rparr>,
     dy_handles := [''w#1'' \<mapsto> ActorId 2], dy_actor_to_id := [ActorId 2 \<mapsto> ''w#1''],
     dy_reg_names := [(''x'', ''w#1'')]\<rparr>"

text \<open>
  Starting a child under a name that is already registered fails, but the child has been
  started all the same: it is alive and linked to the supervisor, while no table of the
  supervisor mentions it, so it is neither counted, nor restarted, nor shut down.
\<close>

lemma dyn_name_conflict_leaks_child:
  assumes inv: "world_inv w" "\<not> fresh_id w (en_self en)" "is_alive (en_self en) (wd_cells w)"
    and room: "next_actor_id (wd_addr w) \<noteq> -1"
    and free: "\<not> dy_stopping dy" "\<not> over_max dy" "ids_distinct (dy_logic dy)"
      "\<not> has_child_id (instance_id (cs_id spec) (dy_id_counter dy + 1)) (dy_logic dy)"
    and spec: "cs_start spec = StartLinked rt t"
    and taken: "map_of (wd_registry w) name \<noteq> None"
  shows "\<exists>h dy' w'. dyn_start_child en spec (Some name) (dy, w) =
      Returns (Inl (RegistryFailed (AlreadyRegistered name)), (dy', w')) \<and>
    fresh_id w h \<and> is_alive h (wd_cells w') \<and> child_count (dy_logic dy') = child_count (dy_logic dy) \<and>
    dy_handles dy' (instance_id (cs_id spec) (dy_id_counter dy + 1)) = None \<and> dy_actor_to_id dy' h = None"
proof -
  let ?i = "instance_id (cs_id spec) (dy_id_counter dy + 1)"
  from spec_start_child_world [OF spec inv room]
  obtain h w1 where h: "spec_start_child spec (en_self en) w = Some (h, w1)" "fresh_id w h"
    "is_alive h (wd_cells w1)" by blast
  have reg: "wd_registry w1 = wd_registry w"
    using h(1) by (auto simp: spec_start_child_def spec start_linked_to_handle_def spawn_actor_eq over_cells_def
        typed_join_scoped_def split: option.splits prod.splits)
  let ?p = "\<lparr>cp_id = ?i, cp_restart = cs_restart spec, cp_start_index = next_start_index (dy_logic dy)\<rparr>"
  define dy2 where "dy2 = dy\<lparr>dy_id_counter := dy_id_counter dy + 1,
      dy_logic := register_child ?p (alive_slot h) (dy_logic dy), dy_specs := (dy_specs dy)(?i \<mapsto> spec),
      dy_handles := (dy_handles dy)(?i \<mapsto> h), dy_actor_to_id := (dy_actor_to_id dy)(h \<mapsto> ?i)\<rparr>"
  obtain dy' w' where cl: "cleanup_child ?i (dy2, w1) = (dy', w')" by fastforce
  have err: "fst (register CHILD_HANDLE name h (wd_registry w1)) = Inl (AlreadyRegistered name)"
    using taken by (auto simp: register_def reg)
  have run: "dyn_start_child en spec (Some name) (dy, w) =
      Returns (Inl (RegistryFailed (AlreadyRegistered name)), (dy', w'))"
    using free h(1) err cl by (auto simp: dyn_start_child_def Let_def dy2_def split: prod.splits sum.splits)
  have "ids_distinct (dy_logic dy2)"
    using free(3,4) by (auto simp: dy2_def ids_distinct_def register_child_def has_child_id_def list_ex_iff)
  from remove_child_rows [OF this, of ?i]
  have "lg_children (dy_logic dy') = filter (\<lambda>c. row_id c \<noteq> ?i) (lg_children (dy_logic dy))"
    using cleanup_logic(1) [of ?i dy2 w1] cl by (simp add: dy2_def register_child_def)
  moreover have "filter (\<lambda>c. row_id c \<noteq> ?i) (lg_children (dy_logic dy)) = lg_children (dy_logic dy)"
    using free(4) by (auto simp: has_child_id_def list_ex_iff intro: filter_True)
  ultimately have "child_count (dy_logic dy') = child_count (dy_logic dy)" by (simp add: child_count_def)
  moreover have "dy_actor_to_id dy' h = None"
    using cl by (auto simp: cleanup_child_def Let_def dy2_def split: option.splits prod.splits)
  ultimately show ?thesis
    using run h cleanup_forgets(1) [OF cl] cleanup_logic(3) [of ?i dy2 w1] cl by auto
qed

text \<open>
  C33. Terminating a child whose shutdown policy is \<open>BrutalKill\<close> brings the supervisor down. The
  call succeeds, the child is dead, but its exit reason \<open>Kill\<close> travels over the link and cannot
  be trapped: the supervisor's own token is cancelled, and when it next gets to run it exits
  with \<open>Kill\<close>.
\<close>

theorem brutal_kill_stops_supervisor:
  assumes inv: "link_inv (wd_cells w)" and sched: "en_sched en = exit_sched (wd_here w)"
    and child: "dy_remote_ids dy a = None" "dy_actor_to_id dy a = Some i" "dy_handles dy i = Some a"
      "dyn_shutdown_of i dy = BrutalKill" "is_alive a (wd_cells w)"
    and sup: "en_self en \<in> set (cl_links (wd_cells w a))" "cl_linked_reason (wd_cells w (en_self en)) = None"
      "cl_requested_exit (wd_cells w (en_self en)) = None" "cl_trap_exit (wd_cells w (en_self en))"
  shows "\<exists>dy' w'. terminate_child_by_actor en a (dy, w) = Returns (Inr (), (dy', w')) \<and>
    cl_cancelled (wd_cells w' (en_self en)) \<and>
    exit_reason_of (en_self en) (finish_actor (wd_here w) (en_self en) Normal (wd_cells w')) = Some Kill"
proof -
  from kill_spreads [OF inv child(5) sup(1,2), of "en_runtime en" "wd_here w"] obtain c'
    where c': "shutdown_child_on (en_runtime en) (exit_sched (wd_here w)) a BrutalKill (wd_cells w) = (Some Kill, c')"
      "cl_cancelled (c' (en_self en))" "cl_linked_reason (c' (en_self en)) = Some Kill"
      "cl_requested_exit (c' (en_self en)) = None" using sup(3) by auto
  let ?dy = "dy\<lparr>dy_logic := snd (remove_child_by_id i (dy_logic dy))\<rparr>"
  obtain dy' w' where cl: "cleanup_child i (?dy, w\<lparr>wd_cells := c'\<rparr>) = (dy', w')" by fastforce
  have "terminate_child_by_actor en a (dy, w) = Returns (Inr (), (dy', w'))"
    using child c'(1) cl sched by (simp add: terminate_child_by_actor_def terminate_local_def shutdown_local_def)
  moreover have "wd_cells w' = c'"
    using cleanup_logic(3) [of i ?dy "w\<lparr>wd_cells := c'\<rparr>"] cl by simp
  ultimately show ?thesis
    using c'(2-4) by (simp add: exit_reason_of_def finish_actor_self resolve_exit_reason_def)
qed

theorem brutal_kill_stops_supervisor_witness:
  "\<exists>dy' w'. terminate_child_by_actor dyn_env (ActorId 2)
      (one_dyn\<lparr>dy_specs := [''w#1'' \<mapsto> (worker ''w'' 1 Permanent)\<lparr>cs_shutdown := BrutalKill\<rparr>]\<rparr>,
       demo_world\<lparr>wd_cells := (\<lambda>_. new_cell)(ActorId 1 := new_cell\<lparr>cl_links := [ActorId 2], cl_trap_exit := True\<rparr>,
         ActorId 2 := new_cell\<lparr>cl_links := [ActorId 1]\<rparr>)\<rparr>) = Returns (Inr (), (dy', w')) \<and>
    cl_cancelled (wd_cells w' (ActorId 1))"
proof -
  let ?w = "demo_world\<lparr>wd_cells := (\<lambda>_. new_cell)(ActorId 1 := new_cell\<lparr>cl_links := [ActorId 2], cl_trap_exit := True\<rparr>,
         ActorId 2 := new_cell\<lparr>cl_links := [ActorId 1]\<rparr>)\<rparr>"
  let ?dy = "one_dyn\<lparr>dy_specs := [''w#1'' \<mapsto> (worker ''w'' 1 Permanent)\<lparr>cs_shutdown := BrutalKill\<rparr>]\<rparr>"
  have 1: "link_inv (wd_cells ?w)" "en_sched dyn_env = exit_sched (wd_here ?w)" "dy_remote_ids ?dy (ActorId 2) = None"
    "dy_actor_to_id ?dy (ActorId 2) = Some ''w#1''" "dy_handles ?dy ''w#1'' = Some (ActorId 2)"
    "dyn_shutdown_of ''w#1'' ?dy = BrutalKill" "is_alive (ActorId 2) (wd_cells ?w)"
    "en_self dyn_env \<in> set (cl_links (wd_cells ?w (ActorId 2)))" "cl_linked_reason (wd_cells ?w (en_self dyn_env)) = None"
    "cl_requested_exit (wd_cells ?w (en_self dyn_env)) = None" "cl_trap_exit (wd_cells ?w (en_self dyn_env))"
    by (auto simp: link_inv_def alive_simps dyn_env_def demo_world_def one_dyn_def dyn_new_def dyn_shutdown_of_def)
  from brutal_kill_stops_supervisor [OF 1] show ?thesis by (auto simp: dyn_env_def)
qed

end
