(* ===== verification/Actor_Runtime.thy ===== *)
theory Actor_Runtime
  imports World Link_Cascade
begin

text \<open>
  The life of one actor: \<open>run_actor\<close> of \<open>concurrency/src/tasks/actor.rs\<close> and of
  \<open>concurrency/src/threads/actor.rs\<close>, and what the spawned future does when it returns. The
  actor's callbacks are the user's: each is a function that ends normally or panics, and
  may change the actor's state and its own cell (through the context it is given); changes
  that other actors make to the cell during a callback are part of it. Between callbacks
  the rest of the system acts: a turn of the loop starts with an arbitrary change of the cell.
  The run also returns the sequence of callbacks it made.
\<close>

section \<open>Callbacks\<close>

datatype 'st callback = CbOk 'st | CbPanic panic_payload 'st

type_synonym ('s, 'm) act_state = "'s \<times> 'm cell"

record ('s, 'm) actor =
  ac_started :: "('s, 'm) act_state \<Rightarrow> ('s, 'm) act_state callback"
  ac_handle :: "'m \<Rightarrow> ('s, 'm) act_state \<Rightarrow> ('s, 'm) act_state callback"
  ac_exit_received :: "exit_msg \<Rightarrow> ('s, 'm) act_state \<Rightarrow> ('s, 'm) act_state callback"
  ac_stopped :: "('s, 'm) act_state \<Rightarrow> ('s, 'm) act_state callback"

datatype 'm call = CallStarted | CallHandle 'm | CallExit exit_msg | CallStopped

datatype run_result = Ended exit_reason | Waiting | Aborted

fun recv_on :: "mailbox_runtime \<Rightarrow> 'm mailbox \<Rightarrow> 'm recv_outcome \<times> 'm mailbox" where
  "recv_on Tasks = tasks_recv"
| "recv_on Threads = threads_recv"

section \<open>The loop\<close>

text \<open>
  One item taken from the mailbox: what was called, the reason to leave the loop with if the
  loop is left, and the new state.
\<close>

fun handle_item ::
  "('s, 'm) actor \<Rightarrow> 'm mailbox_item \<Rightarrow> ('s, 'm) act_state
    \<Rightarrow> 'm call list \<times> exit_reason option \<times> ('s, 'm) act_state" where
  "handle_item ac (Message m) (s, c) =
     (case ac_handle ac m (s, c\<lparr>cl_limits := on_message_dequeued (cl_limits c)\<rparr>) of
        CbPanic p st \<Rightarrow> ([CallHandle m], Some (Panic (''panic in handler: '' @ panic_message p)), st)
      | CbOk st \<Rightarrow> ([CallHandle m], if cl_cancelled (snd st) then Some Normal else None, st))"
| "handle_item ac (Exit e) (s, c) =
     (case ac_exit_received ac e (s, c) of
        CbPanic p st \<Rightarrow> ([CallExit e], Some (Panic (''panic in exit_received: '' @ panic_message p)), st)
      | CbOk st \<Rightarrow> ([CallExit e], if cl_cancelled (snd st) then Some Normal else None, st))"
| "handle_item ac (Signal sig) (s, c) = ([], Some Normal, (s, c\<lparr>cl_requested_exit := Some Shutdown\<rparr>))"
| "handle_item ac StopItem (s, c) = ([], Some Normal, (s, c))"

fun run_loop ::
  "mailbox_runtime \<Rightarrow> ('s, 'm) actor \<Rightarrow> ('m cell \<Rightarrow> 'm cell) list \<Rightarrow> ('s, 'm) act_state
    \<Rightarrow> 'm call list \<times> run_result \<times> ('s, 'm) act_state" where
  "run_loop rt ac [] st = ([], Waiting, st)"
| "run_loop rt ac (arrive # turns) (s, c) =
     (let c1 = arrive c
      in case recv_on rt (cl_mailbox c1) of
           (Item it, mb) \<Rightarrow>
             (case handle_item ac it (s, c1\<lparr>cl_mailbox := mb\<rparr>) of
                (calls, Some r, st) \<Rightarrow> (calls, Ended r, st)
              | (calls, None, st) \<Rightarrow> apfst ((@) calls) (run_loop rt ac turns st))
         | (Closed, mb) \<Rightarrow> ([], Ended Normal, (s, c1\<lparr>cl_mailbox := mb\<rparr>))
         | (SelectPanic, mb) \<Rightarrow> ([], Aborted, (s, c1\<lparr>cl_mailbox := mb\<rparr>))
         | (_, mb) \<Rightarrow> run_loop rt ac turns (s, c1\<lparr>cl_mailbox := mb\<rparr>))"

section \<open>The whole run\<close>

definition take_reason :: "exit_reason \<Rightarrow> ('s, 'm) act_state \<Rightarrow> exit_reason \<times> ('s, 'm) act_state" where
  "take_reason r = (\<lambda>(s, c).
     (case resolve_exit_reason r (cl_requested_exit c) (cl_linked_reason c) of
        (final, req, lnk) \<Rightarrow> (final, (s, c\<lparr>cl_requested_exit := req, cl_linked_reason := lnk\<rparr>))))"

text \<open>The end of the run: the token is cancelled and \<open>stopped\<close> is called unless it is to be skipped.\<close>

definition run_stop ::
  "('s, 'm) actor \<Rightarrow> exit_reason \<Rightarrow> ('s, 'm) act_state \<Rightarrow> 'm call list \<times> exit_reason \<times> ('s, 'm) act_state" where
  "run_stop ac r = (\<lambda>(s, c).
     (let c1 = cancel c
      in if cl_skip_stopped c1 then (case take_reason r (s, c1) of (final, st) \<Rightarrow> ([], final, st))
         else case ac_stopped ac (s, c1) of
                CbOk st \<Rightarrow> (case take_reason r st of (final, st') \<Rightarrow> ([CallStopped], final, st'))
              | CbPanic p st \<Rightarrow>
                  (case take_reason (if is_abnormal r then r
                                     else Panic (''panic in stopped(): '' @ panic_message p)) st of
                     (final, st') \<Rightarrow> ([CallStopped], final, st'))))"

text \<open>The token was already cancelled when \<open>started\<close> returned: a panic of \<open>stopped\<close> is dropped.\<close>

definition run_cancelled ::
  "('s, 'm) actor \<Rightarrow> ('s, 'm) act_state \<Rightarrow> 'm call list \<times> exit_reason \<times> ('s, 'm) act_state" where
  "run_cancelled ac st =
     (if cl_skip_stopped (snd st) then (case take_reason Normal st of (final, st') \<Rightarrow> ([], final, st'))
      else case ac_stopped ac st of
             CbOk st1 \<Rightarrow> (case take_reason Normal st1 of (final, st') \<Rightarrow> ([CallStopped], final, st'))
           | CbPanic p st1 \<Rightarrow> (case take_reason Normal st1 of (final, st') \<Rightarrow> ([CallStopped], final, st')))"

definition run_actor ::
  "mailbox_runtime \<Rightarrow> ('s, 'm) actor \<Rightarrow> ('m cell \<Rightarrow> 'm cell) list \<Rightarrow> ('s, 'm) act_state
    \<Rightarrow> 'm call list \<times> run_result \<times> ('s, 'm) act_state" where
  "run_actor rt ac turns st =
     (case ac_started ac st of
        CbPanic p (s, c) \<Rightarrow>
          ([CallStarted], Ended (Panic (''panic in started(): '' @ panic_message p)), (s, cancel c))
      | CbOk st1 \<Rightarrow>
          if cl_cancelled (snd st1)
          then (case run_cancelled ac st1 of (calls, r, st2) \<Rightarrow> (CallStarted # calls, Ended r, st2))
          else (case run_loop rt ac turns st1 of
                  (calls, Ended r, st2) \<Rightarrow>
                    (case run_stop ac r st2 of
                       (calls', final, st3) \<Rightarrow> (CallStarted # calls @ calls', Ended final, st3))
                | (calls, res, st2) \<Rightarrow> (CallStarted # calls, res, st2)))"

definition threads_run_actor ::
  "('s, 'm) actor \<Rightarrow> ('m cell \<Rightarrow> 'm cell) list \<Rightarrow> ('s, 'm) act_state
    \<Rightarrow> 'm call list \<times> run_result \<times> ('s, 'm) act_state" where
  "threads_run_actor = run_actor Threads"

section \<open>Facts\<close>

abbreviation work :: "'m call \<Rightarrow> bool" where
  "work x \<equiv> x \<noteq> CallStarted \<and> x \<noteq> CallStopped"

lemma handle_item_calls:
  "handle_item ac it st = (calls, r, st') \<Longrightarrow> length calls \<le> 1 \<and> (\<forall>x \<in> set calls. work x)"
  by (cases "(ac, it, st)" rule: handle_item.cases) (auto split: callback.splits)

lemma handle_item_cancelled:
  assumes "handle_item ac it st = (calls, None, st')"
  shows "\<not> cl_cancelled (snd st')"
  using assms by (cases "(ac, it, st)" rule: handle_item.cases) (auto split: callback.splits if_splits)

lemma run_loop_calls:
  "run_loop rt ac turns st = (calls, res, st') \<Longrightarrow> \<forall>x \<in> set calls. work x"
proof (induction rt ac turns st arbitrary: calls rule: run_loop.induct)
  case (1 rt ac st)
  then show ?case by simp
next
  case (2 rt ac arrive turns s c)
  obtain o1 mb where o: "recv_on rt (cl_mailbox (arrive c)) = (o1, mb)" by fastforce
  show ?case
  proof (cases o1)
    case (Item it)
    obtain k r st1 where k: "handle_item ac it (s, (arrive c)\<lparr>cl_mailbox := mb\<rparr>) = (k, r, st1)"
      using prod_cases3 by blast
    note hk = handle_item_calls [OF k]
    show ?thesis
    proof (cases r)
      case None
      then obtain k2 where "run_loop rt ac turns st1 = (k2, res, st')" "calls = k @ k2"
        using "2.prems" o k Item by (auto simp: Let_def apfst_def map_prod_def split: prod.splits)
      with "2.IH"(1) [OF refl o [symmetric] Item k [symmetric] refl None] hk show ?thesis by auto
    next
      case (Some r')
      with "2.prems" o k Item hk show ?thesis by (auto simp: Let_def)
    qed
  qed (use "2.prems" "2.IH"(2,3) o in \<open>auto simp: Let_def\<close>)
qed

lemma run_stop_calls:
  assumes "run_stop ac r st = (calls, final, st')"
  shows "calls = (if cl_skip_stopped (snd st) then [] else [CallStopped])"
  using assms by (cases st) (auto simp: run_stop_def Let_def cancel_def split: if_splits callback.splits prod.splits)

lemma run_cancelled_calls:
  assumes "run_cancelled ac st = (calls, final, st')"
  shows "calls = (if cl_skip_stopped (snd st) then [] else [CallStopped])"
  using assms by (auto simp: run_cancelled_def split: if_splits callback.splits prod.splits)

text \<open>A cell on its way out for good: cancelled, \<open>stopped\<close> to be skipped, a reason requested.\<close>

definition doomed :: "'m cell \<Rightarrow> bool" where
  "doomed c \<longleftrightarrow> cl_cancelled c \<and> cl_skip_stopped c \<and> cl_requested_exit c \<in> {Some Kill, Some Shutdown}"

fun cb_state :: "'st callback \<Rightarrow> 'st" where
  "cb_state (CbOk st) = st"
| "cb_state (CbPanic p st) = st"

definition stays_doomed :: "('s, 'm) actor \<Rightarrow> bool" where
  "stays_doomed ac \<longleftrightarrow> (\<forall>s c. doomed c \<longrightarrow>
     (\<forall>m. doomed (snd (cb_state (ac_handle ac m (s, c))))) \<and>
     (\<forall>e. doomed (snd (cb_state (ac_exit_received ac e (s, c))))))"

lemma doomed_frame [simp]:
  "doomed (c\<lparr>cl_mailbox := mb\<rparr>) = doomed c" "doomed (c\<lparr>cl_limits := l\<rparr>) = doomed c"
  "doomed c \<Longrightarrow> doomed (c\<lparr>cl_requested_exit := Some Shutdown\<rparr>)" "doomed c \<Longrightarrow> doomed (cancel c)"
  by (auto simp: doomed_def cancel_def)

lemma handle_item_doomed:
  assumes "stays_doomed ac" "doomed c" "handle_item ac it (s, c) = (calls, r, st')"
  shows "doomed (snd st') \<and> r \<noteq> None"
proof (cases it)
  case (Message m)
  let ?c = "c\<lparr>cl_limits := on_message_dequeued (cl_limits c)\<rparr>"
  have "doomed (snd (cb_state (ac_handle ac m (s, ?c))))" using assms(1,2) by (simp add: stays_doomed_def)
  with Message assms(3) show ?thesis by (auto simp: doomed_def split: callback.splits if_splits)
next
  case (Exit e)
  have "doomed (snd (cb_state (ac_exit_received ac e (s, c))))" using assms(1,2) by (simp add: stays_doomed_def)
  with Exit assms(3) show ?thesis by (auto simp: doomed_def split: callback.splits if_splits)
qed (use assms in auto)

lemma run_loop_doomed:
  assumes "stays_doomed ac" "doomed (snd st)" "\<forall>f \<in> set turns. \<forall>c. doomed c \<longrightarrow> doomed (f c)"
    "run_loop rt ac turns st = (calls, res, st')"
  shows "length calls \<le> 1 \<and> doomed (snd st')"
  using assms
proof (induction rt ac turns st arbitrary: calls rule: run_loop.induct)
  case (1 rt ac st)
  then show ?case by auto
next
  case (2 rt ac arrive turns s c)
  obtain o1 mb where o: "recv_on rt (cl_mailbox (arrive c)) = (o1, mb)" by fastforce
  have d: "doomed ((arrive c)\<lparr>cl_mailbox := mb\<rparr>)" using "2.prems"(2,3) by simp
  show ?case
  proof (cases o1)
    case (Item it)
    obtain k r st1 where k: "handle_item ac it (s, (arrive c)\<lparr>cl_mailbox := mb\<rparr>) = (k, r, st1)"
      using prod_cases3 by blast
    from handle_item_doomed [OF "2.prems"(1) d k] handle_item_calls [OF k] show ?thesis
      using "2.prems"(4) o k Item by (auto simp: Let_def)
  next
    case Closed
    then show ?thesis using "2.prems"(4) o d by (auto simp: Let_def)
  next
    case SelectPanic
    then show ?thesis using "2.prems"(4) o d by (auto simp: Let_def)
  next
    case Pending
    then have "run_loop rt ac turns (s, (arrive c)\<lparr>cl_mailbox := mb\<rparr>) = (calls, res, st')"
      using "2.prems"(4) o by (simp add: Let_def)
    with "2.IH"(2) [OF refl o [symmetric] Pending "2.prems"(1)] "2.prems"(3) d show ?thesis by simp
  next
    case Spinning
    then have "run_loop rt ac turns (s, (arrive c)\<lparr>cl_mailbox := mb\<rparr>) = (calls, res, st')"
      using "2.prems"(4) o by (simp add: Let_def)
    with "2.IH"(3) [OF refl o [symmetric] Spinning "2.prems"(1)] "2.prems"(3) d show ?thesis by simp
  qed
qed

lemma take_reason_doomed: "doomed (snd st) \<Longrightarrow> fst (take_reason r st) \<in> {Kill, Shutdown}"
  by (cases st) (auto simp: doomed_def take_reason_def split: prod.splits dest: arg_cong [of _ _ fst])

lemma run_stop_doomed:
  assumes "doomed (snd st)" "run_stop ac r st = (calls, final, st')"
  shows "calls = [] \<and> final \<in> {Kill, Shutdown}"
proof -
  obtain s c where st: "st = (s, c)" by fastforce
  have d: "doomed (snd (s, cancel c))" using assms(1) by (simp add: st)
  from take_reason_doomed [OF this, of r] d assms(2) show ?thesis
    by (auto simp: st run_stop_def Let_def doomed_def split: prod.splits)
qed

lemma stop_ends_loop:
  assumes "\<not> stop_closed mb" "queue (stop mb) \<noteq> []"
  shows "\<exists>it mb'. recv_on rt mb = (Item it, mb') \<and> (it = StopItem \<or> (\<exists>sig. it = Signal sig))"
proof -
  obtain x xs where q: "queue (stop mb) = x # xs" using assms(2) by (cases "queue (stop mb)") auto
  have nc: "\<not> all_closed mb" using assms(1) by (simp add: all_closed_def)
  obtain i m1 where ts: "try_signal mb = (i, m1)" by fastforce
  have i: "i = None \<or> (\<exists>sig. i = Some (Signal sig))" and m1: "stop m1 = stop mb" "stop_closed m1 = stop_closed mb"
    using ts by (auto simp: try_signal_def chan_try_recv_def split: if_splits list.splits signal_item.splits)
  have "fst (try_stop m1) = Some StopItem" using q m1 assms(1) by (simp add: try_stop_def chan_try_recv_def)
  then obtain m2 where t2: "try_stop m1 = (Some StopItem, m2)" by (metis prod.collapse)
  show ?thesis
    using i nc ts t2 by (cases rt) (auto simp: tasks_recv_def threads_recv_def)
qed

section \<open>Properties\<close>

text \<open>
  C6. The callbacks of an actor: \<open>started\<close> is called first and once, then only handlers and
  \<open>exit_received\<close>, and \<open>stopped\<close> at most once, last, and only when the run ends. If
  \<open>started\<close> panics nothing else is called and the panic is the exit reason; a run that ends
  otherwise calls \<open>stopped\<close> exactly when the flag that skips it is not set.
\<close>

theorem actor_callback_protocol:
  assumes run: "run_actor rt ac turns st = (calls, res, st')"
  shows "\<exists>mid fin. calls = CallStarted # mid @ fin \<and> (\<forall>x \<in> set mid. x \<noteq> CallStarted \<and> x \<noteq> CallStopped) \<and>
    fin \<in> {[], [CallStopped]} \<and>
    (case ac_started ac st of
       CbPanic p st1 \<Rightarrow> mid = [] \<and> fin = [] \<and> res = Ended (Panic (''panic in started(): '' @ panic_message p))
     | CbOk st1 \<Rightarrow>
         if cl_cancelled (snd st1) then mid = [] \<and> (fin = [] \<longleftrightarrow> cl_skip_stopped (snd st1))
         else (\<exists>r st2. run_loop rt ac turns st1 = (mid, r, st2) \<and>
                (\<forall>x. r = Ended x \<longrightarrow> (fin = [] \<longleftrightarrow> cl_skip_stopped (snd st2))) \<and>
                ((\<nexists>x. r = Ended x) \<longrightarrow> fin = [] \<and> res = r)))"
proof (cases "ac_started ac st")
  case (CbPanic p st1)
  with run show ?thesis
    by (intro exI [of _ "[]"]) (auto simp: run_actor_def split: prod.splits)
next
  case (CbOk st1)
  show ?thesis
  proof (cases "cl_cancelled (snd st1)")
    case True
    obtain k r st2 where k: "run_cancelled ac st1 = (k, r, st2)" using prod_cases3 by blast
    with run CbOk True have "calls = CallStarted # k" by (simp add: run_actor_def)
    with run_cancelled_calls [OF k] CbOk True show ?thesis by (intro exI [of _ "[]"] exI [of _ k]) auto
  next
    case False
    obtain k r st2 where k: "run_loop rt ac turns st1 = (k, r, st2)" using prod_cases3 by blast
    note w = run_loop_calls [OF k]
    show ?thesis
    proof (cases "\<exists>x. r = Ended x")
      case True
      then obtain x where x: "r = Ended x" by blast
      obtain k' f st3 where k': "run_stop ac x st2 = (k', f, st3)" using prod_cases3 by blast
      with run CbOk False k x have "calls = CallStarted # k @ k'" by (simp add: run_actor_def)
      with run_stop_calls [OF k'] w CbOk False k x show ?thesis by (intro exI [of _ k] exI [of _ k']) auto
    next
      case nx: False
      with run CbOk False k have "calls = CallStarted # k" "res = r"
        by (cases r; simp add: run_actor_def)+
      with w CbOk False k nx show ?thesis by (intro exI [of _ k] exI [of _ "[]"]) auto
    qed
  qed
qed

definition idle_actor :: "(nat, nat) actor" where
  "idle_actor = \<lparr>ac_started = CbOk, ac_handle = (\<lambda>m (s, c). CbOk (s + m, c)),
     ac_exit_received = (\<lambda>e. CbOk), ac_stopped = CbOk\<rparr>"

definition stop_cell :: "nat cell" where
  "stop_cell = new_cell\<lparr>cl_mailbox := tasks_channel\<lparr>user := (chan_new)\<lparr>queue := [5]\<rparr>\<rparr>\<rparr>"

definition say_stop :: "nat cell \<Rightarrow> nat cell" where
  "say_stop c = c\<lparr>cl_mailbox := (cl_mailbox c)\<lparr>stop := (stop (cl_mailbox c))\<lparr>queue := [()]\<rparr>\<rparr>\<rparr>"

theorem actor_callback_protocol_witness:
  "fst (run_actor Tasks idle_actor [id, say_stop] (0, stop_cell)) = [CallStarted, CallHandle 5, CallStopped] \<and>
   (\<exists>mid fin. fst (run_actor Tasks idle_actor [id, say_stop] (0, stop_cell)) = CallStarted # mid @ fin \<and>
     fin \<in> {[], [CallStopped]})"
proof -
  have run: "fst (run_actor Tasks idle_actor [id, say_stop] (0, stop_cell)) = [CallStarted, CallHandle 5, CallStopped]"
    by (simp add: run_actor_def idle_actor_def stop_cell_def say_stop_def Let_def tasks_recv_def all_closed_def
        try_signal_def try_stop_def try_supervision_def try_user_def tasks_channel_def chan_new_def chan_try_recv_def
        run_stop_def cancel_def split: prod.splits)
  obtain calls res st' where "run_actor Tasks idle_actor [id, say_stop] (0, stop_cell) = (calls, res, st')"
    using prod_cases3 by blast
  from actor_callback_protocol [OF this] this run show ?thesis by auto
qed

text \<open>
  Stopping and killing are prompt. A stop item in the mailbox ends the loop at the next
  turn, before any exit notification or message is handled. A killed actor handles at most
  one more item, never calls \<open>stopped\<close>, and if its run ends its exit reason is \<open>Kill\<close>, or
  \<open>Shutdown\<close> if an operating-system signal came in between.
\<close>

lemma actor_stop_and_kill_prompt:
  "(\<not> stop_closed (cl_mailbox (arrive c)) \<and> queue (stop (cl_mailbox (arrive c))) \<noteq> [] \<longrightarrow>
      (\<exists>st'. run_loop rt ac (arrive # turns) (s, c) = ([], Ended Normal, st'))) \<and>
   (stays_doomed ac \<and> doomed c \<and> (\<forall>f \<in> set turns. \<forall>c. doomed c \<longrightarrow> doomed (f c)) \<and>
      run_loop rt ac turns (s, c) = (calls, res, st) \<longrightarrow>
      length calls \<le> 1 \<and>
      (\<forall>r calls' final st'. run_stop ac r st = (calls', final, st') \<longrightarrow> calls' = [] \<and> final \<in> {Kill, Shutdown}))"
proof (intro conjI impI)
  assume "\<not> stop_closed (cl_mailbox (arrive c)) \<and> queue (stop (cl_mailbox (arrive c))) \<noteq> []"
  then obtain it mb where "recv_on rt (cl_mailbox (arrive c)) = (Item it, mb)" "it = StopItem \<or> (\<exists>sig. it = Signal sig)"
    using stop_ends_loop [of "cl_mailbox (arrive c)" rt] by blast
  then show "\<exists>st'. run_loop rt ac (arrive # turns) (s, c) = ([], Ended Normal, st')" by (auto simp: Let_def)
next
  assume *: "stays_doomed ac \<and> doomed c \<and> (\<forall>f \<in> set turns. \<forall>c. doomed c \<longrightarrow> doomed (f c)) \<and>
      run_loop rt ac turns (s, c) = (calls, res, st)"
  then have d: "length calls \<le> 1 \<and> doomed (snd st)"
    using run_loop_doomed [of ac "(s, c)" turns rt calls res st] by simp
  then show "length calls \<le> 1" by simp
  show "\<forall>r calls' final st'. run_stop ac r st = (calls', final, st') \<longrightarrow> calls' = [] \<and> final \<in> {Kill, Shutdown}"
    using d run_stop_doomed by blast
qed

end
