(* ===== verification/Actor_Exit.thy ===== *)
theory Actor_Exit
  imports Actor_Runtime
begin

text \<open>
  What happens on the node when the run of an actor has ended: the spawned future signals
  the linked actors, tells the remote link peers (\<open>supervision_link.rs\<close>), removes the actor
  from its process groups and its names from the named registry, and publishes the exit
  reason last. The threads runtime has no remote links.
\<close>

section \<open>Remote links\<close>

definition link_envelope :: "actor_address \<Rightarrow> actor_address \<Rightarrow> supervision_envelope" where
  "link_envelope a b = \<lparr>se_correlation_id = 0, se_event = LinkEv a b\<rparr>"

definition unlink_envelope :: "actor_address \<Rightarrow> actor_address \<Rightarrow> supervision_envelope" where
  "unlink_envelope a b = \<lparr>se_correlation_id = 0, se_event = UnlinkEv a b\<rparr>"

definition publish_link :: "actor_address \<Rightarrow> actor_address \<Rightarrow> 'm world \<Rightarrow> 'm world" where
  "publish_link a b = publish_supervision (link_envelope a b)"

definition publish_unlink :: "actor_address \<Rightarrow> actor_address \<Rightarrow> 'm world \<Rightarrow> 'm world" where
  "publish_unlink a b = publish_supervision (unlink_envelope a b)"

text \<open>
  \<open>Context::link_address\<close> and \<open>unlink_address\<close>: a local target must be registered with the
  supervision broker, else the call panics (\<open>None\<close>).
\<close>

definition broker_local_handle :: "actor_id \<Rightarrow> 'm world \<Rightarrow> actor_id option" where
  "broker_local_handle a w = Option.bind (wd_broker w) (\<lambda>b. br_handles b a)"

definition link_address :: "actor_id \<Rightarrow> actor_address \<Rightarrow> 'm world \<Rightarrow> 'm world option" where
  "link_address self target w =
     (if node target = wd_here w
      then map_option (\<lambda>h. over_cells (link_handles (wd_here w) self h) w) (broker_local_handle (actor_id target) w)
      else Some (publish_link (address_local (wd_here w) self) target
             (w\<lparr>wd_remote_links := (wd_remote_links w)(self := List.insert target (wd_remote_links w self))\<rparr>)))"

definition unlink_address :: "actor_id \<Rightarrow> actor_address \<Rightarrow> 'm world \<Rightarrow> 'm world option" where
  "unlink_address self target w =
     (if node target = wd_here w
      then map_option (\<lambda>h. over_cells (unregister_link self h) w) (broker_local_handle (actor_id target) w)
      else if target \<in> set (wd_remote_links w self)
      then Some (publish_unlink (address_local (wd_here w) self) target
             (w\<lparr>wd_remote_links := (wd_remote_links w)(self := removeAll target (wd_remote_links w self))\<rparr>))
      else Some w)"

definition propagate_remote_link_exits :: "actor_id \<Rightarrow> exit_reason \<Rightarrow> 'm world \<Rightarrow> 'm world" where
  "propagate_remote_link_exits a r w =
     fold (\<lambda>peer. publish_supervision (child_exit_envelope (address_local (wd_here w) a) peer r))
       (wd_remote_links w a) w"

section \<open>The end of the spawned future\<close>

definition remove_actor :: "actor_id \<Rightarrow> 'm world \<Rightarrow> 'm world" where
  "remove_actor a w =
     (case pg_remove_actor (wd_here w) a (wd_pg w) of
        (ev, st) \<Rightarrow>
          (case remove_by_actor_id (wd_here w) a (wd_names w) of
             (nev, names) \<Rightarrow>
               w\<lparr>wd_pg := st, wd_pg_events := wd_pg_events w @ ev, wd_names := names,
                 wd_name_events := wd_name_events w @ nev\<rparr>))"

definition inner_future_end :: "actor_id \<Rightarrow> exit_reason \<Rightarrow> 'm world \<Rightarrow> 'm world" where
  "inner_future_end a r w =
     over_cells (set_completion a r)
       (remove_actor a
         (propagate_remote_link_exits a r
           (over_cells (propagate_exit (wd_here w) a r) w)))"

definition threads_inner_end :: "actor_id \<Rightarrow> exit_reason \<Rightarrow> 'm world \<Rightarrow> 'm world" where
  "threads_inner_end a r w =
     over_cells (set_completion a r)
       (remove_actor a (over_cells (propagate_exit (wd_here w) a r) w))"

section \<open>Facts\<close>

lemma fold_publish:
  "fold (\<lambda>x. publish_supervision (f x)) xs w = w\<lparr>wd_published := wd_published w @ map f xs\<rparr>"
  by (induction xs arbitrary: w) (simp_all add: publish_supervision_def)

lemma remove_actor_frame [simp]:
  "wd_cells (remove_actor a w) = wd_cells w" "wd_published (remove_actor a w) = wd_published w"
  "wd_pg (remove_actor a w) = snd (pg_remove_actor (wd_here w) a (wd_pg w))"
  "wd_names (remove_actor a w) = snd (remove_by_actor_id (wd_here w) a (wd_names w))"
  by (simp_all add: remove_actor_def split: prod.splits)

lemma over_cells_more [simp]:
  "wd_names (over_cells f w) = wd_names w" "wd_remote_links (over_cells f w) = wd_remote_links w"
  by (simp_all add: over_cells_def)

lemma inner_future_parts:
  shows "wd_cells (inner_future_end a r w) = actor_exit (wd_here w) a r (wd_cells w)"
    "wd_published (inner_future_end a r w) = wd_published w @
       map (\<lambda>p. child_exit_envelope (address_local (wd_here w) a) p r) (wd_remote_links w a)"
    "wd_pg (inner_future_end a r w) = snd (pg_remove_actor (wd_here w) a (wd_pg w))"
    "wd_names (inner_future_end a r w) = snd (remove_by_actor_id (wd_here w) a (wd_names w))"
  by (simp_all add: inner_future_end_def propagate_remote_link_exits_def fold_publish actor_exit_def)

lemma threads_inner_eq:
  "wd_remote_links w a = [] \<Longrightarrow> threads_inner_end a r w = inner_future_end a r w"
  by (simp add: threads_inner_end_def inner_future_end_def propagate_remote_link_exits_def)

lemma removed_from_groups:
  assumes "pg_inv here st"
  shows "map_of (at (pg_groups (snd (pg_remove_actor here a st))) k) (address_local here a) = None"
  using pg_invD(3) [OF assms, of k "address_local here a"] store_remove_actor_at(1) [OF assms, of "address_local here a" k]
  by (cases "map_of (at (pg_groups st) k) (address_local here a)") (auto simp: pg_remove_actor_def Let_def)

lemma forget_all_handles:
  "ns_handles (fold forget_name ns st) = fold AList.delete ns (ns_handles st)"
  by (induction ns arbitrary: st) (simp_all add: forget_name_def)

lemma map_of_fold_delete: "map_of (fold AList.delete ns al) n = (if n \<in> set ns then None else map_of al n)"
  by (induction ns arbitrary: al) auto

lemma names_removed:
  assumes "named_inv here st"
  shows "lookup_handle n (snd (remove_by_actor_id here a st)) \<noteq> Some a"
    "lookup_handle n st \<noteq> Some a \<Longrightarrow> lookup_handle n (snd (remove_by_actor_id here a st)) = lookup_handle n st"
proof -
  have d: "distinct (map fst (ns_handles st))" using assms by (simp add: named_inv_def)
  have mem: "n \<in> set (map fst (filter (\<lambda>(n, k). k = a) (ns_handles st))) \<longleftrightarrow> lookup_handle n st = Some a"
    using d by (force simp: lookup_handle_def)
  show "lookup_handle n (snd (remove_by_actor_id here a st)) \<noteq> Some a"
    "lookup_handle n st \<noteq> Some a \<Longrightarrow> lookup_handle n (snd (remove_by_actor_id here a st)) = lookup_handle n st"
    using mem by (auto simp: lookup_handle_def remove_by_actor_id_def Let_def forget_all_handles map_of_fold_delete
        simp del: set_map split: if_splits)
qed

section \<open>Properties\<close>


definition linked_world :: "nat world" where
  "linked_world = \<lparr>wd_here = NodeId ''n'', wd_addr = address_init, wd_cells = (\<lambda>_. new_cell),
     wd_pg = pg_empty, wd_pg_events = [], wd_corr = 1, wd_published = [], wd_sleeps = [], wd_broker = None,
     wd_registry = [], wd_names = snd (snd (register_named (NodeId ''n'') ''x'' (ActorId 1) named_empty)),
     wd_name_events = [], wd_remote_links = (\<lambda>_. [\<lparr>node = NodeId ''m'', actor_id = ActorId 7\<rparr>]), wd_tasks = [],
     wd_spawn = \<lparr>ss_tasks_workers = Map.empty, ss_threads_workers = Map.empty,
       ss_tasks_specs = Map.empty, ss_threads_specs = Map.empty, ss_caller = OutsideRuntime, ss_installed = False\<rparr>,
     wd_done_waits = []\<rparr>"


end
