(* ===== verification/Broker.thy ===== *)
theory Broker
  imports Remote_Spawn Actor_Exit
begin

text \<open>
  The receiving side of remote supervision: the supervision broker of a node
  (\<open>concurrency/src/cluster/supervision_broker.rs\<close>), the local start of remotely requested
  children (\<open>cluster/remote_spawn.rs\<close>) and the monitor messages (\<open>supervision_monitor.rs\<close>).
  The tasks the broker spawns to wait for an actor are kept in \<open>wd_tasks\<close>; \<open>run_task\<close> is
  what such a task does when it gets to run. A \<open>Down\<close> notification reaches its owner as a user
  message, whose envelope \<open>mk\<close> builds.
\<close>

section \<open>Registering what can be started remotely\<close>

definition register_worker_tasks ::
  "string \<Rightarrow> (bytes \<Rightarrow> string option) \<Rightarrow> spawn_store \<Rightarrow> (remote_spawn_error + unit) \<times> spawn_store" where
  "register_worker_tasks wt f ss =
     (if ss_tasks_workers ss wt \<noteq> None then (Inl (RsSpawnFailed (''worker type already registered: '' @ wt)), ss)
      else (Inr (), ss\<lparr>ss_tasks_workers := (ss_tasks_workers ss)(wt \<mapsto> f)\<rparr>))"

definition register_worker_threads ::
  "string \<Rightarrow> (bytes \<Rightarrow> string option) \<Rightarrow> spawn_store \<Rightarrow> (remote_spawn_error + unit) \<times> spawn_store" where
  "register_worker_threads wt f ss =
     (if ss_threads_workers ss wt \<noteq> None then (Inl (RsSpawnFailed (''worker type already registered: '' @ wt)), ss)
      else (Inr (), ss\<lparr>ss_threads_workers := (ss_threads_workers ss)(wt \<mapsto> f)\<rparr>))"

definition register_named_spec_tasks ::
  "string \<Rightarrow> child_spec \<Rightarrow> spawn_store \<Rightarrow> (remote_spawn_error + unit) \<times> spawn_store" where
  "register_named_spec_tasks name s ss =
     (if ss_tasks_specs ss name \<noteq> None then (Inl (RsSpawnFailed (''named spec already registered: '' @ name)), ss)
      else (Inr (), ss\<lparr>ss_tasks_specs := (ss_tasks_specs ss)(name \<mapsto> s)\<rparr>))"

definition register_named_spec_threads ::
  "string \<Rightarrow> child_spec \<Rightarrow> spawn_store \<Rightarrow> (remote_spawn_error + unit) \<times> spawn_store" where
  "register_named_spec_threads name s ss =
     (if ss_threads_specs ss name \<noteq> None then (Inl (RsSpawnFailed (''named spec already registered: '' @ name)), ss)
      else (Inr (), ss\<lparr>ss_threads_specs := (ss_threads_specs ss)(name \<mapsto> s)\<rparr>))"

definition install_tasks_runtime :: "spawn_store \<Rightarrow> spawn_store" where
  "install_tasks_runtime ss = ss\<lparr>ss_installed := True\<rparr>"

section \<open>Starting a child for a remote supervisor\<close>

definition dispatch_tasks_spawn ::
  "spawn_store \<Rightarrow> ('m world \<Rightarrow> (actor_id \<times> 'm world) option) \<Rightarrow> 'm world \<Rightarrow> (string + actor_id) \<times> 'm world" where
  "dispatch_tasks_spawn ss start w =
     (if \<not> ss_installed ss then (Inl ''tasks runtime not installed for remote spawn'', w)
      else case start w of
             None \<Rightarrow> (Inl ''remote worker spawn failed: receiving on a closed channel'', w)
           | Some (h, w') \<Rightarrow> (Inr h, w'))"

text \<open>
  A tasks worker is started in place when the calling thread knows a runtime; \<open>block_on\<close> panics
  inside an asynchronous task.
\<close>

definition start_on_runtime ::
  "('m world \<Rightarrow> actor_id \<times> 'm world) \<Rightarrow> 'm world \<Rightarrow> ((string + actor_id) \<times> 'm world) run" where
  "start_on_runtime start w =
     (case ss_caller (wd_spawn w) of
        AsyncTask \<Rightarrow> Panics
      | BlockingThread \<Rightarrow> Returns (apfst Inr (start w))
      | OutsideRuntime \<Rightarrow> Returns (dispatch_tasks_spawn (wd_spawn w) (\<lambda>v. Some (start v)) w))"

text \<open>The function a registered worker type was registered with.\<close>

definition start_worker ::
  "mailbox_runtime \<Rightarrow> actor_id option \<Rightarrow> 'm world \<Rightarrow> actor_id \<times> 'm world" where
  "start_worker rt parent w =
     (case parent of
       Some p \<Rightarrow> start_linked_to_handle rt p default_worker w
     | None \<Rightarrow> spawn_actor rt unbounded w)"

definition tasks_worker_fn ::
  "(bytes \<Rightarrow> string option) \<Rightarrow> bytes \<Rightarrow> actor_id option \<Rightarrow> 'm world
    \<Rightarrow> ((string + actor_id) \<times> 'm world) run" where
  "tasks_worker_fn decode ini parent w =
     (case decode ini of
        Some e \<Rightarrow> Returns (Inl (''decode init: '' @ e), w)
      | None \<Rightarrow> start_on_runtime (start_worker Tasks parent) w)"

definition threads_worker_fn ::
  "(bytes \<Rightarrow> string option) \<Rightarrow> bytes \<Rightarrow> actor_id option \<Rightarrow> 'm world \<Rightarrow> (string + actor_id) \<times> 'm world" where
  "threads_worker_fn decode ini parent w =
     (case decode ini of
        Some e \<Rightarrow> (Inl (''decode init: '' @ e), w)
      | None \<Rightarrow> apfst Inr (start_worker Threads parent w))"

definition spawn_worker ::
  "string \<Rightarrow> bytes \<Rightarrow> bool \<Rightarrow> actor_id option \<Rightarrow> 'm world \<Rightarrow> ((string + actor_id) \<times> 'm world) run" where
  "spawn_worker wt ini link parent w =
     (let parent_for_link = (if link then parent else None)
      in case ss_tasks_workers (wd_spawn w) wt of
           Some f \<Rightarrow> tasks_worker_fn f ini parent_for_link w
         | None \<Rightarrow>
             (case ss_threads_workers (wd_spawn w) wt of
                Some f \<Rightarrow> Returns (threads_worker_fn f ini parent_for_link w)
              | None \<Rightarrow> Returns (Inl (''unknown worker type: '' @ wt), w)))"

definition resolve_named_spec :: "string \<Rightarrow> spawn_store \<Rightarrow> string + (child_spec \<times> mailbox_runtime)" where
  "resolve_named_spec name ss =
     (case ss_tasks_specs ss name of
        Some s \<Rightarrow> Inr (s, Tasks)
      | None \<Rightarrow>
          (case ss_threads_specs ss name of
             Some s \<Rightarrow> Inr (s, Threads)
           | None \<Rightarrow> Inl (''unknown named spec: '' @ name)))"

text \<open>Starting a specification of a remote child panics in the calling thread on the threads runtime.\<close>

definition spawn_named_spec ::
  "string \<Rightarrow> remote_spec_overrides \<Rightarrow> bool \<Rightarrow> actor_id option \<Rightarrow> 'm world \<Rightarrow> ((string + actor_id) \<times> 'm world) run" where
  "spawn_named_spec name ov link parent w =
     (case parent of
        None \<Rightarrow> Returns (Inl ''named remote spec requires link=true (parent handle)'', w)
      | Some p \<Rightarrow>
          if \<not> link then Returns (Inl ''named remote spec requires link=true'', w)
          else case resolve_named_spec name (wd_spawn w) of
                 Inl e \<Rightarrow> Returns (Inl e, w)
               | Inr (s, rt) \<Rightarrow>
                   (let s1 = apply_overrides ov s
                    in case rt of
                         Tasks \<Rightarrow> Returns (dispatch_tasks_spawn (wd_spawn w) (spec_start_child s1 p) w)
                       | Threads \<Rightarrow>
                           (case spec_start_child s1 p w of
                              None \<Rightarrow> Panics
                            | Some (h, w') \<Rightarrow> Returns (Inr h, w'))))"

fun spawn_local ::
  "remote_spawn_spec \<Rightarrow> bool \<Rightarrow> actor_id option \<Rightarrow> 'm world \<Rightarrow> ((string + actor_id) \<times> 'm world) run" where
  "spawn_local (WorkerSpec wt ini) link parent w = spawn_worker wt ini link parent w"
| "spawn_local (NamedSpec name ov) link parent w = spawn_named_spec name ov link parent w"

section \<open>Monitors\<close>

record down =
  dn_ref :: u64
  dn_reason :: exit_reason

definition monitor_envelope :: "actor_address \<Rightarrow> actor_address \<Rightarrow> u64 \<Rightarrow> supervision_envelope" where
  "monitor_envelope own target r = \<lparr>se_correlation_id = 0, se_event = MonitorEv own target r\<rparr>"

definition demonitor_envelope :: "actor_address \<Rightarrow> actor_address \<Rightarrow> u64 \<Rightarrow> supervision_envelope" where
  "demonitor_envelope own target r = \<lparr>se_correlation_id = 0, se_event = DemonitorEv own target r\<rparr>"

definition down_envelope :: "actor_address \<Rightarrow> u64 \<Rightarrow> actor_address \<Rightarrow> exit_reason \<Rightarrow> supervision_envelope" where
  "down_envelope own r child reason =
     \<lparr>se_correlation_id = 0, se_event = DownEv own r child (exit_reason_to_wire reason)\<rparr>"

definition publish_monitor :: "actor_address \<Rightarrow> actor_address \<Rightarrow> u64 \<Rightarrow> 'm world \<Rightarrow> 'm world" where
  "publish_monitor own target r = publish_supervision (monitor_envelope own target r)"

definition publish_demonitor :: "actor_address \<Rightarrow> actor_address \<Rightarrow> u64 \<Rightarrow> 'm world \<Rightarrow> 'm world" where
  "publish_demonitor own target r = publish_supervision (demonitor_envelope own target r)"

definition publish_down :: "actor_address \<Rightarrow> u64 \<Rightarrow> actor_address \<Rightarrow> exit_reason \<Rightarrow> 'm world \<Rightarrow> 'm world" where
  "publish_down own r child reason = publish_supervision (down_envelope own r child reason)"

section \<open>The broker\<close>

definition broker_unregister :: "actor_id \<Rightarrow> broker \<Rightarrow> broker" where
  "broker_unregister a b = b\<lparr>br_handles := (br_handles b)(a := None), br_parents := (br_parents b)(a := None)\<rparr>"

definition register_down_owner ::
  "actor_address \<Rightarrow> broker \<Rightarrow> (transport_error + unit) \<times> broker" where
  "register_down_owner a b =
     (if node a \<noteq> br_local b then (Inl (TeProtocol (NotOnThisNode ''down owner'' (node a) (br_local b))), b)
      else (Inr (), b\<lparr>br_down_owners := insert (actor_id a) (br_down_owners b)\<rparr>))"

definition broker_alive :: "broker \<Rightarrow> 'm world \<Rightarrow> bool" where
  "broker_alive b w = (case br_broker_handle b of Some h \<Rightarrow> is_alive h (wd_cells w) | None \<Rightarrow> False)"

text \<open>A background task needs the runtime of the calling thread or the installed one; else it is dropped.\<close>

definition spawn_async_on_runtime :: "broker_task \<Rightarrow> 'm world \<Rightarrow> 'm world" where
  "spawn_async_on_runtime t w =
     (if ss_caller (wd_spawn w) \<noteq> OutsideRuntime \<or> ss_installed (wd_spawn w)
      then w\<lparr>wd_tasks := wd_tasks w @ [t]\<rparr> else w)"

abbreviation put_broker :: "broker \<Rightarrow> 'm world \<Rightarrow> 'm world" where
  "put_broker b w \<equiv> w\<lparr>wd_broker := Some b\<rparr>"

definition apply_signal ::
  "actor_address \<Rightarrow> supervision_signal \<Rightarrow> broker \<Rightarrow> 'm world \<Rightarrow> (transport_error + unit) \<times> 'm world" where
  "apply_signal target sig b w =
     (if node target \<noteq> br_local b
      then (Inl (TeProtocol (NotOnThisNode ''supervision signal target'' (node target) (br_local b))), w)
      else case br_handles b (actor_id target) of
             None \<Rightarrow> (Inl (TeProtocol (UnknownLocalActor ''supervision signal'' (actor_id target))), w)
           | Some h \<Rightarrow>
               (Inr (), over_cells (case sig of SigStop \<Rightarrow> handle_stop h
                                              | SigShutdown \<Rightarrow> handle_shutdown h
                                              | SigKill \<Rightarrow> handle_kill h) w))"

definition spawn_err :: "u64 \<Rightarrow> string \<Rightarrow> supervision_envelope option" where
  "spawn_err cid e = Some \<lparr>se_correlation_id = cid, se_event = SpawnErr e\<rparr>"

definition apply_spawn ::
  "u64 \<Rightarrow> actor_address \<Rightarrow> node_id \<Rightarrow> remote_spawn_spec \<Rightarrow> bool \<Rightarrow> broker \<Rightarrow> 'm world
    \<Rightarrow> ((transport_error + supervision_envelope option) \<times> 'm world) run" where
  "apply_spawn cid parent pl spec link b w =
     (if pl \<noteq> br_local b
      then Returns (Inr (spawn_err cid (''placement node '' @ display_node pl @
             '' does not match local node '' @ display_node (br_local b))), w)
      else let broker_parent = (if link then br_broker_handle b else None)
           in if link \<and> broker_parent = None then Returns (Inr (spawn_err cid ''supervision broker not ready''), w)
              else run_then (spawn_local spec link broker_parent w) (\<lambda>(r, w1).
                case r of
                  Inl e \<Rightarrow> Returns (Inr (spawn_err cid e), w1)
                | Inr h \<Rightarrow>
                    (let child = \<lparr>node = br_local b, actor_id = h\<rparr>
                     in case broker_register child h b of
                          (Inl e, _) \<Rightarrow> Returns (Inl e, w1)
                        | (Inr _, b1) \<Rightarrow>
                            Returns (Inr (Some \<lparr>se_correlation_id = cid, se_event = SpawnOk child\<rparr>),
                              put_broker (b1\<lparr>br_parents := (br_parents b1)(h \<mapsto> parent)\<rparr>) w1))))"

text \<open>Delivery of an \<open>Exit\<close> through the handle: it fails when the receiver is gone.\<close>

definition deliver_exit :: "exit_msg \<Rightarrow> actor_id \<Rightarrow> 'm cells \<Rightarrow> (actor_error + unit) \<times> 'm cells" where
  "deliver_exit e h cells =
     (case send_supervision_tasks (supervision (cl_mailbox (cells h))) e of
        (r, _) \<Rightarrow> (r, modify h (send_exit e) cells))"

definition apply_child_exit ::
  "actor_address \<Rightarrow> actor_address \<Rightarrow> wire_exit_reason \<Rightarrow> broker \<Rightarrow> 'm world \<Rightarrow> (transport_error + unit) \<times> 'm world" where
  "apply_child_exit child parent reason b w =
     (if node parent \<noteq> br_local b
      then (Inl (TeProtocol (NotOnThisNode ''ChildExit parent'' (node parent) (br_local b))), w)
      else case br_handles b (actor_id parent) of
             None \<Rightarrow> (Inl (TeProtocol (UnknownLocalActor ''ChildExit parent'' (actor_id parent))), w)
           | Some h \<Rightarrow>
               (case deliver_exit \<lparr>exit_from = child, exit_cause = wire_to_exit_reason reason\<rparr> h (wd_cells w) of
                  (r, cells) \<Rightarrow>
                    (map_sum (\<lambda>e. TeProtocol (ProtocolText (display_actor_error e))) id r,
                     w\<lparr>wd_done_waits := wd_done_waits w @ [actor_id child], wd_cells := cells\<rparr>)))"

definition apply_monitor ::
  "actor_address \<Rightarrow> actor_address \<Rightarrow> u64 \<Rightarrow> broker \<Rightarrow> 'm world \<Rightarrow> (transport_error + unit) \<times> 'm world" where
  "apply_monitor own target r b w =
     (if node target \<noteq> br_local b
      then (Inl (TeProtocol (NotOnThisNode ''Monitor target'' (node target) (br_local b))), w)
      else case br_handles b (actor_id target) of
             None \<Rightarrow>
               (case br_exited b (actor_id target) of
                  Some reason \<Rightarrow> (Inr (), publish_down own r target reason w)
                | None \<Rightarrow> (Inl (TeProtocol (UnknownLocalActor ''Monitor target'' (actor_id target))), w))
           | Some h \<Rightarrow>
               (case exit_reason_of h (wd_cells w) of
                  Some reason \<Rightarrow>
                    (Inr (), publish_down own r target reason
                       (put_broker (b\<lparr>br_monitors := (br_monitors b)((own, r) := None)\<rparr>) w))
                | None \<Rightarrow>
                    (Inr (), spawn_async_on_runtime (MonitorTask own r target)
                       (put_broker (b\<lparr>br_monitors := (br_monitors b)((own, r) \<mapsto> True)\<rparr>) w))))"

definition apply_demonitor :: "actor_address \<Rightarrow> actor_address \<Rightarrow> u64 \<Rightarrow> broker \<Rightarrow> 'm world \<Rightarrow> 'm world" where
  "apply_demonitor own target r b w = put_broker (b\<lparr>br_monitors := (br_monitors b)((own, r) := None)\<rparr>) w"

definition apply_down ::
  "(down \<Rightarrow> 'm) \<Rightarrow> actor_address \<Rightarrow> u64 \<Rightarrow> wire_exit_reason \<Rightarrow> broker \<Rightarrow> 'm world
    \<Rightarrow> ((transport_error + unit) \<times> 'm world) run" where
  "apply_down mk own r reason b w =
     (if node own \<noteq> br_local b
      then Returns (Inl (TeProtocol (NotOnThisNode ''Down owner'' (node own) (br_local b))), w)
      else if actor_id own \<notin> br_down_owners b
      then Returns (Inl (TeProtocol (UnknownLocalActor ''Down owner'' (actor_id own))), w)
      else let c = wd_cells w (actor_id own)
           in case send_user_tasks_sync (cl_limits c) (user (cl_mailbox c))
                     (mk \<lparr>dn_ref = r, dn_reason = wire_to_exit_reason reason\<rparr>) of
                Waits \<Rightarrow> Hangs
              | ExpectPanic \<Rightarrow> Panics
              | Done (res, l, ch) \<Rightarrow>
                  Returns (map_sum (\<lambda>e. TeProtocol (ProtocolText (display_actor_error e))) id res,
                    over_cells (modify (actor_id own) (\<lambda>c. c\<lparr>cl_limits := l,
                      cl_mailbox := (cl_mailbox c)\<lparr>user := ch\<rparr>\<rparr>)) w))"

definition local_side :: "actor_address \<Rightarrow> actor_address \<Rightarrow> broker \<Rightarrow> (actor_address \<times> actor_address) option" where
  "local_side a b br = (if node a = br_local br then Some (a, b) else if node b = br_local br then Some (b, a) else None)"

definition peers_of :: "actor_id \<Rightarrow> broker \<Rightarrow> actor_address list" where
  "peers_of a b = (case br_link_peers b a of Some ps \<Rightarrow> ps | None \<Rightarrow> [])"

definition apply_link ::
  "actor_address \<Rightarrow> actor_address \<Rightarrow> broker \<Rightarrow> 'm world \<Rightarrow> (transport_error + unit) \<times> 'm world" where
  "apply_link x y b w =
     (case local_side x y b of
        None \<Rightarrow> (Inl (TeProtocol (NeitherOnThisNode (node x) (node y) (br_local b))), w)
      | Some (loc, remote) \<Rightarrow>
          (let ps = peers_of (actor_id loc) b;
               b1 = b\<lparr>br_link_peers := (br_link_peers b)(actor_id loc \<mapsto>
                        (if remote \<in> set ps then ps else ps @ [remote]))\<rparr>;
               w1 = put_broker b1 w
           in case br_exited b1 (actor_id loc) of
                Some reason \<Rightarrow> (Inr (), publish_supervision (child_exit_envelope loc remote reason) w1)
              | None \<Rightarrow>
                  (case br_handles b1 (actor_id loc) of
                     None \<Rightarrow> (Inl (TeProtocol (UnknownLocalActor ''Link'' (actor_id loc))), w1)
                   | Some h \<Rightarrow>
                       (case exit_reason_of h (wd_cells w1) of
                          Some reason \<Rightarrow> (Inr (), publish_supervision (child_exit_envelope loc remote reason) w1)
                        | None \<Rightarrow>
                            if actor_id loc \<in> br_link_waits b1 then (Inr (), w1)
                            else (Inr (), spawn_async_on_runtime (LinkTask loc)
                                   (put_broker (b1\<lparr>br_link_waits := insert (actor_id loc) (br_link_waits b1)\<rparr>) w1))))))"

definition apply_unlink :: "actor_address \<Rightarrow> actor_address \<Rightarrow> broker \<Rightarrow> 'm world \<Rightarrow> 'm world" where
  "apply_unlink x y b w =
     (case local_side x y b of
        None \<Rightarrow> w
      | Some (loc, remote) \<Rightarrow>
          (case br_link_peers b (actor_id loc) of
             None \<Rightarrow> w
           | Some ps \<Rightarrow> put_broker (b\<lparr>br_link_peers := (br_link_peers b)(actor_id loc \<mapsto>
                          filter (\<lambda>p. p \<noteq> remote) ps)\<rparr>) w))"

definition unit_reply :: "(transport_error + unit) \<times> 'm world \<Rightarrow> ((transport_error + supervision_envelope option) \<times> 'm world) run" where
  "unit_reply = (\<lambda>(r, w). Returns (map_sum id (\<lambda>_. None) r, w))"

text \<open>Every inbound envelope, for the broker \<open>b\<close> that is installed on the node.\<close>

definition broker_apply ::
  "(down \<Rightarrow> 'm) \<Rightarrow> supervision_envelope \<Rightarrow> broker \<Rightarrow> 'm world
    \<Rightarrow> ((transport_error + supervision_envelope option) \<times> 'm world) run" where
  "broker_apply mk env b w =
     (case se_event env of
        SignalEv target sig \<Rightarrow> unit_reply (apply_signal target sig b w)
      | SpawnRequest parent pl spec link \<Rightarrow> apply_spawn (se_correlation_id env) parent pl spec link b w
      | ChildExit child parent reason \<Rightarrow> unit_reply (apply_child_exit child parent reason b w)
      | MonitorEv own target r \<Rightarrow> unit_reply (apply_monitor own target r b w)
      | DemonitorEv own target r \<Rightarrow> Returns (Inr None, apply_demonitor own target r b w)
      | DownEv own r child reason \<Rightarrow> run_then (apply_down mk own r reason b w) unit_reply
      | LinkEv x y \<Rightarrow> unit_reply (apply_link x y b w)
      | UnlinkEv x y \<Rightarrow> Returns (Inr None, apply_unlink x y b w)
      | _ \<Rightarrow> Returns (Inr None, w))"

text \<open>\<open>exit_received\<close> of the broker actor: a remotely spawned child of this node has exited.\<close>

definition propagate_child_exit :: "exit_msg \<Rightarrow> broker \<Rightarrow> 'm world \<Rightarrow> 'm world" where
  "propagate_child_exit ex b w =
     (let a = actor_id (exit_from ex)
      in case br_parents b a of
           None \<Rightarrow> w
         | Some parent \<Rightarrow>
             publish_supervision (child_exit_envelope \<lparr>node = br_local b, actor_id = a\<rparr> parent (exit_cause ex))
               (put_broker ((broker_unregister a b)\<lparr>br_exited := (br_exited b)(a \<mapsto> exit_cause ex)\<rparr>) w))"

text \<open>\<open>started\<close> of the broker actor, and its start on a node.\<close>

definition set_broker_handle :: "actor_id \<Rightarrow> broker \<Rightarrow> broker" where
  "set_broker_handle h b = b\<lparr>br_broker_handle := Some h\<rparr>"

definition broker_started :: "actor_id \<Rightarrow> 'm world \<Rightarrow> 'm world" where
  "broker_started self w =
     (let w1 = over_cells (set_trap_exit self True) w
      in w1\<lparr>wd_broker := map_option (set_broker_handle self) (wd_broker w1)\<rparr>)"

definition start_supervision_broker :: "node_id \<Rightarrow> 'm world \<Rightarrow> actor_id \<times> 'm world" where
  "start_supervision_broker here w = spawn_actor Tasks unbounded (put_broker (broker_new here) w)"

section \<open>The tasks the broker leaves running\<close>

text \<open>A task whose actor is still alive keeps waiting.\<close>

fun run_task :: "broker_task \<Rightarrow> 'm world \<Rightarrow> 'm world" where
  "run_task (MonitorTask own r target) w =
     (case (wd_broker w, exit_reason_of (actor_id target) (wd_cells w)) of
        (Some b, Some reason) \<Rightarrow>
          (let w1 = put_broker (b\<lparr>br_monitors := (br_monitors b)((own, r) := None)\<rparr>) w
           in if br_monitors b (own, r) = Some True then publish_down own r target reason w1 else w1)
      | _ \<Rightarrow> w)"
| "run_task (LinkTask loc) w =
     (case (wd_broker w, exit_reason_of (actor_id loc) (wd_cells w)) of
        (Some b, Some reason) \<Rightarrow>
          fold (\<lambda>p. publish_supervision (child_exit_envelope loc p reason)) (peers_of (actor_id loc) b)
            (put_broker (b\<lparr>br_link_waits := br_link_waits b - {actor_id loc},
                           br_link_peers := (br_link_peers b)(actor_id loc := None)\<rparr>) w)
      | _ \<Rightarrow> w)"

section \<open>Facts about monitors\<close>

definition downs :: "actor_address \<Rightarrow> u64 \<Rightarrow> 'm world \<Rightarrow> supervision_envelope list" where
  "downs own r w = filter (\<lambda>e. \<exists>t reason. se_event e = DownEv own r t reason) (wd_published w)"

definition installed :: "actor_address \<Rightarrow> u64 \<Rightarrow> 'm world \<Rightarrow> bool" where
  "installed own r w \<longleftrightarrow> (\<exists>b. wd_broker w = Some b \<and> br_monitors b (own, r) = Some True)"

definition due :: "actor_address \<Rightarrow> u64 \<Rightarrow> 'm world \<Rightarrow> broker_task \<Rightarrow> bool" where
  "due own r w t \<longleftrightarrow> (\<exists>target. t = MonitorTask own r target \<and> \<not> is_alive (actor_id target) (wd_cells w))"

lemma fold_publish_published: "wd_published (fold (\<lambda>x. publish_supervision (f x)) xs w) = wd_published w @ map f xs"
  "wd_cells (fold (\<lambda>x. publish_supervision (f x)) xs w) = wd_cells w"
  "wd_broker (fold (\<lambda>x. publish_supervision (f x)) xs w) = wd_broker w"
  by (simp_all add: fold_publish)

lemma run_task_cells [simp]: "wd_cells (run_task t w) = wd_cells w"
  by (cases t) (auto simp: publish_down_def publish_supervision_def Let_def fold_publish split: option.splits)

lemma run_task_due:
  assumes "due own r w t"
  shows "length (downs own r (run_task t w)) = length (downs own r w) + (if installed own r w then 1 else 0)"
    "\<not> installed own r (run_task t w)"
proof -
  obtain target reason where t: "t = MonitorTask own r target" "exit_reason_of (actor_id target) (wd_cells w) = Some reason"
    using assms by (auto simp: due_def is_alive_def)
  show "length (downs own r (run_task t w)) = length (downs own r w) + (if installed own r w then 1 else 0)"
    using t by (auto simp: downs_def installed_def publish_down_def publish_supervision_def down_envelope_def Let_def
        split: option.splits)
  show "\<not> installed own r (run_task t w)"
    using t by (auto simp: installed_def publish_down_def publish_supervision_def Let_def split: option.splits)
qed

lemma run_task_not_due:
  assumes "\<not> due own r w t"
  shows "downs own r (run_task t w) = downs own r w" "installed own r (run_task t w) = installed own r w"
proof -
  have "downs own r (run_task t w) = downs own r w \<and> installed own r (run_task t w) = installed own r w"
  proof (cases t)
    case (MonitorTask own' r' target)
    show ?thesis
    proof (cases "exit_reason_of (actor_id target) (wd_cells w)")
      case None
      then show ?thesis by (simp add: MonitorTask split: option.splits)
    next
      case (Some reason)
      with assms MonitorTask have "(own', r') \<noteq> (own, r)" by (auto simp: due_def is_alive_def)
      with Some show ?thesis
        by (auto simp: MonitorTask downs_def installed_def publish_down_def publish_supervision_def down_envelope_def
            Let_def split: option.splits)
    qed
  next
    case (LinkTask loc)
    then show ?thesis
      by (auto simp: downs_def installed_def fold_publish child_exit_envelope_def split: option.splits)
  qed
  then show "downs own r (run_task t w) = downs own r w" "installed own r (run_task t w) = installed own r w" by simp_all
qed

lemma due_run_task [simp]: "due own r (run_task t w) = due own r w"
  by (simp add: due_def fun_eq_iff)

lemma run_tasks_downs:
  "length (downs own r (fold run_task ts w)) =
     length (downs own r w) + (if installed own r w \<and> (\<exists>t \<in> set ts. due own r w t) then 1 else 0)"
proof (induction ts arbitrary: w)
  case Nil
  then show ?case by simp
next
  case (Cons t ts)
  show ?case
  proof (cases "due own r w t")
    case True
    with run_task_due [OF this] Cons.IH [of "run_task t w"] show ?thesis by simp
  next
    case False
    with run_task_not_due [OF this] Cons.IH [of "run_task t w"] show ?thesis by simp
  qed
qed

lemma spawn_async_frame [simp]:
  "wd_broker (spawn_async_on_runtime t w) = wd_broker w" "wd_cells (spawn_async_on_runtime t w) = wd_cells w"
  "wd_published (spawn_async_on_runtime t w) = wd_published w" "wd_spawn (spawn_async_on_runtime t w) = wd_spawn w"
  "wd_here (spawn_async_on_runtime t w) = wd_here w"
  by (simp_all add: spawn_async_on_runtime_def)

lemma apply_monitor_alive:
  assumes rt: "ss_caller (wd_spawn w) \<noteq> OutsideRuntime \<or> ss_installed (wd_spawn w)" and "wd_broker w = Some b" "node target = br_local b" "br_handles b (actor_id target) = Some (actor_id target)"
    "is_alive (actor_id target) (wd_cells w)"
  shows "\<exists>w'. apply_monitor own target r b w = (Inr (), w') \<and> installed own r w' \<and>
    MonitorTask own r target \<in> set (wd_tasks w') \<and> wd_published w' = wd_published w \<and> wd_cells w' = wd_cells w"
  using assms by (auto simp: apply_monitor_def installed_def is_alive_def spawn_async_on_runtime_def)

lemma apply_monitor_dead:
  assumes "wd_broker w = Some b" "node target = br_local b" "br_handles b (actor_id target) = Some (actor_id target)"
    "exit_reason_of (actor_id target) (wd_cells w) = Some reason"
  shows "\<exists>w'. apply_monitor own target r b w = (Inr (), w') \<and> \<not> installed own r w' \<and>
    wd_published w' = wd_published w @ [down_envelope own r target reason]"
  using assms by (auto simp: apply_monitor_def installed_def publish_down_def publish_supervision_def)

section \<open>Properties\<close>

text \<open>
  C26. A remote monitor fires exactly once. On a target that has exited, \<open>Monitor\<close> is answered
  at once by one \<open>Down\<close> and leaves nothing installed; on a live target, if a tasks runtime is
  at hand, it installs the monitor and a task that waits, and publishes nothing. When the waiting tasks get to run, however
  many there are for the same monitor and in whatever order, one \<open>Down\<close> is published if the
  monitor is installed and its target has exited, and none otherwise; after a \<open>Demonitor\<close>
  there is none.
\<close>

theorem remote_monitor_fires_once:
  assumes b: "wd_broker w = Some b" "node target = br_local b" "br_handles b (actor_id target) = Some (actor_id target)"
  shows "(\<forall>reason. exit_reason_of (actor_id target) (wd_cells w) = Some reason \<longrightarrow>
       (\<exists>w'. apply_monitor own target r b w = (Inr (), w') \<and> \<not> installed own r w' \<and>
          wd_published w' = wd_published w @ [down_envelope own r target reason])) \<and>
    (is_alive (actor_id target) (wd_cells w) \<and>
       (ss_caller (wd_spawn w) \<noteq> OutsideRuntime \<or> ss_installed (wd_spawn w)) \<longrightarrow>
       (\<exists>w'. apply_monitor own target r b w = (Inr (), w') \<and> installed own r w' \<and>
          MonitorTask own r target \<in> set (wd_tasks w') \<and> wd_published w' = wd_published w)) \<and>
    length (downs own r (fold run_task ts v)) =
      length (downs own r v) + (if installed own r v \<and> (\<exists>t \<in> set ts. due own r v t) then 1 else 0) \<and>
    \<not> installed own r (apply_demonitor own target r b w)"
proof -
  have "\<not> installed own r (apply_demonitor own target r b w)" by (simp add: installed_def apply_demonitor_def)
  then show ?thesis
    using apply_monitor_alive [OF _ b, of own r] apply_monitor_dead [OF b, of _ own r] run_tasks_downs [of own r ts v]
    by blast
qed

definition demo_broker :: broker where
  "demo_broker = (broker_new (NodeId ''n''))\<lparr>br_handles := [ActorId 2 \<mapsto> ActorId 2]\<rparr>"

definition broker_world :: "nat world" where
  "broker_world = demo_world\<lparr>wd_broker := Some demo_broker, wd_spawn := empty_spawn_store\<lparr>ss_installed := True\<rparr>\<rparr>"

theorem remote_monitor_fires_once_witness:
  "\<exists>w'. apply_monitor \<lparr>node = NodeId ''m'', actor_id = ActorId 9\<rparr> \<lparr>node = NodeId ''n'', actor_id = ActorId 2\<rparr> 5
     demo_broker broker_world = (Inr (), w') \<and>
     installed \<lparr>node = NodeId ''m'', actor_id = ActorId 9\<rparr> 5 w'"
proof -
  let ?t = "\<lparr>node = NodeId ''n'', actor_id = ActorId 2\<rparr>"
  have b: "wd_broker broker_world = Some demo_broker" "node ?t = br_local demo_broker"
    "br_handles demo_broker (actor_id ?t) = Some (actor_id ?t)"
    by (simp_all add: broker_world_def demo_broker_def broker_new_def)
  have "is_alive (actor_id ?t) (wd_cells broker_world) \<and> ss_installed (wd_spawn broker_world)"
    by (simp add: broker_world_def demo_world_def alive_simps)
  with remote_monitor_fires_once [OF b, of "\<lparr>node = NodeId ''m'', actor_id = ActorId 9\<rparr>" 5 "[]" broker_world] b(1)
  show ?thesis by auto
qed

end
