(* ===== verification/Frame.thy ===== *)
theory Frame
  imports World
begin

text \<open>
  Frames on a byte stream (\<open>cluster/src/frame.rs\<close>) and the frames of the cluster protocol
  (\<open>cluster/src/protocol.rs\<close>, \<open>registry.rs\<close>, \<open>pg_sync.rs\<close>, \<open>supervision_sync.rs\<close>). A reader is the list
  of the bytes that arrive before the stream ends or times out; a read that needs more
  fails with an I/O error. The serializer of each type is a parameter, collected in a record.
\<close>

section \<open>Length-prefixed frames\<close>

definition MAX_FRAME_SIZE :: nat where
  "MAX_FRAME_SIZE = 16 * 1024 * 1024"

definition to_be_bytes :: "u32 \<Rightarrow> bytes" where
  "to_be_bytes n = [ucast (drop_bit 24 n), ucast (drop_bit 16 n), ucast (drop_bit 8 n), ucast n]"

fun from_be_bytes :: "bytes \<Rightarrow> u32" where
  "from_be_bytes [a, b, c, d] =
     or (push_bit 24 (ucast a)) (or (push_bit 16 (ucast b)) (or (push_bit 8 (ucast c)) (ucast d)))"
| "from_be_bytes _ = 0"

definition frame_too_large :: "nat \<Rightarrow> transport_error" where
  "frame_too_large n = TeProtocol (FrameTooLarge n)"

text \<open>A writer that fails does so with the text of its I/O error.\<close>

definition write_frame :: "string option \<Rightarrow> bytes \<Rightarrow> bytes \<Rightarrow> (transport_error + unit) \<times> bytes" where
  "write_frame io body out =
     (if length body > MAX_FRAME_SIZE then (Inl (frame_too_large (length body)), out)
      else case io of
             Some e \<Rightarrow> (Inl (TeIo e), out)
           | None \<Rightarrow> (Inr (), out @ to_be_bytes (of_nat (length body)) @ body))"

definition read_exact :: "nat \<Rightarrow> bytes \<Rightarrow> (transport_error + bytes) \<times> bytes" where
  "read_exact n inp = (if length inp < n then (Inl (TeIo ''failed to fill whole buffer''), [])
                       else (Inr (take n inp), drop n inp))"

definition read_frame :: "bytes \<Rightarrow> (transport_error + bytes) \<times> bytes" where
  "read_frame inp =
     (case read_exact 4 inp of
        (Inl e, rest) \<Rightarrow> (Inl e, rest)
      | (Inr len_buf, rest) \<Rightarrow>
          (let len = unat (from_be_bytes len_buf)
           in if len > MAX_FRAME_SIZE then (Inl (frame_too_large len), rest) else read_exact len rest))"

section \<open>Frames of the protocol\<close>

datatype cluster_frame =
    ActorFrame wire_envelope
  | RegistryFrame registry_event
  | PgFrame pg_event
  | SupervisionFrame supervision_envelope

record wire_reply =
  wr_correlation_id :: u64
  wr_payload :: bytes

record codec =
  ser_handshake :: "handshake ser"
  de_handshake :: "handshake de"
  ser_frame :: "cluster_frame ser"
  de_frame :: "cluster_frame de"
  ser_reply :: "wire_reply ser"
  de_reply :: "wire_reply de"
  ser_supervision :: "supervision_envelope ser"
  de_supervision :: "supervision_envelope de"

definition encode_handshake :: "codec \<Rightarrow> handshake \<Rightarrow> wire_error + bytes" where
  "encode_handshake cd h = map_sum WireEncode id (ser_handshake cd h)"

definition decode_handshake :: "codec \<Rightarrow> bytes \<Rightarrow> wire_error + handshake" where
  "decode_handshake cd bs = map_sum WireDecode id (de_handshake cd bs)"

definition encode_cluster_frame :: "codec \<Rightarrow> cluster_frame \<Rightarrow> wire_error + bytes" where
  "encode_cluster_frame cd f = map_sum WireEncode id (ser_frame cd f)"

definition decode_cluster_frame :: "codec \<Rightarrow> bytes \<Rightarrow> wire_error + cluster_frame" where
  "decode_cluster_frame cd bs = map_sum WireDecode id (de_frame cd bs)"

definition encode_reply_frame :: "codec \<Rightarrow> wire_reply \<Rightarrow> wire_error + bytes" where
  "encode_reply_frame cd r = map_sum WireEncode id (ser_reply cd r)"

definition decode_reply_frame :: "codec \<Rightarrow> bytes \<Rightarrow> wire_error + wire_reply" where
  "decode_reply_frame cd bs = map_sum WireDecode id (de_reply cd bs)"

definition encode_registry_event :: "codec \<Rightarrow> registry_event \<Rightarrow> transport_error + bytes" where
  "encode_registry_event cd ev = map_sum TeWire id (encode_cluster_frame cd (RegistryFrame ev))"

definition encode_pg_event :: "codec \<Rightarrow> pg_event \<Rightarrow> transport_error + bytes" where
  "encode_pg_event cd ev = map_sum TeWire id (encode_cluster_frame cd (PgFrame ev))"

definition encode_supervision_frame :: "codec \<Rightarrow> supervision_envelope \<Rightarrow> transport_error + bytes" where
  "encode_supervision_frame cd env = map_sum TeWire id (encode_cluster_frame cd (SupervisionFrame env))"

definition encode_supervision :: "codec \<Rightarrow> supervision_envelope \<Rightarrow> transport_error + bytes" where
  "encode_supervision cd env = map_sum (\<lambda>e. TeProtocol (ProtocolText e)) id (ser_supervision cd env)"

text \<open>What is relied on of the serializer: decoding what was encoded gives it back.\<close>

definition codec_ok :: "codec \<Rightarrow> bool" where
  "codec_ok cd \<longleftrightarrow>
     (\<forall>x bs. ser_handshake cd x = Inr bs \<longrightarrow> de_handshake cd bs = Inr x) \<and>
     (\<forall>x bs. ser_frame cd x = Inr bs \<longrightarrow> de_frame cd bs = Inr x) \<and>
     (\<forall>x bs. ser_reply cd x = Inr bs \<longrightarrow> de_reply cd bs = Inr x) \<and>
     (\<forall>x bs. ser_supervision cd x = Inr bs \<longrightarrow> de_supervision cd bs = Inr x)"

section \<open>Facts\<close>

definition framed :: "bytes \<Rightarrow> bytes" where
  "framed body = to_be_bytes (of_nat (length body)) @ body"

lemma length_to_be [simp]: "length (to_be_bytes n) = 4"
  by (simp add: to_be_bytes_def)

lemma be_bytes_roundtrip [simp]: "from_be_bytes (to_be_bytes n) = n"
proof (rule bit_word_eqI)
  fix k :: nat
  assume "k < LENGTH(32)"
  then consider "24 \<le> k" "k < 32" | "16 \<le> k" "k < 24" | "8 \<le> k" "k < 16" | "k < 8" by fastforce
  then show "bit (from_be_bytes (to_be_bytes n)) k = bit n k"
    by cases (auto simp: to_be_bytes_def bit_simps)
qed

lemma length_as_u32:
  assumes "n \<le> MAX_FRAME_SIZE"
  shows "unat (of_nat n :: u32) = n"
  using assms by (simp add: MAX_FRAME_SIZE_def unat_of_nat)

lemma read_exact_append [simp]: "length xs = n \<Longrightarrow> read_exact n (xs @ ys) = (Inr xs, ys)"
  by (simp add: read_exact_def)

lemma read_framed [simp]:
  assumes "length body \<le> MAX_FRAME_SIZE"
  shows "read_frame (framed body @ rest) = (Inr body, rest)"
  using assms by (simp add: read_frame_def framed_def length_as_u32)

lemma write_frame_framed:
  "length body \<le> MAX_FRAME_SIZE \<Longrightarrow> write_frame None body out = (Inr (), out @ framed body)"
  by (simp add: write_frame_def framed_def)

text \<open>A frame that was read consumed at least its length field.\<close>

lemma read_frame_shorter:
  assumes "read_frame inp = (Inr body, rest)"
  shows "length rest + length body + 4 = length inp" "length body \<le> MAX_FRAME_SIZE"
  using assms by (auto simp: read_frame_def read_exact_def Let_def split: if_splits)

lemma read_frame_prefix:
  assumes "read_frame inp = (Inr body, rest)"
  shows "read_frame (inp @ later) = (Inr body, rest @ later)"
  using assms by (auto simp: read_frame_def read_exact_def Let_def split: if_splits)

lemma codec_okD:
  assumes "codec_ok cd"
  shows "encode_handshake cd h = Inr bs \<Longrightarrow> decode_handshake cd bs = Inr h"
    "encode_cluster_frame cd f = Inr bs \<Longrightarrow> decode_cluster_frame cd bs = Inr f"
    "encode_reply_frame cd r = Inr bs \<Longrightarrow> decode_reply_frame cd bs = Inr r"
    "encode_supervision cd e = Inr bs \<Longrightarrow> de_supervision cd bs = Inr e"
  using assms
  by (auto simp: codec_ok_def encode_handshake_def decode_handshake_def encode_cluster_frame_def
      decode_cluster_frame_def encode_reply_frame_def decode_reply_frame_def encode_supervision_def map_sum_def
      split: sum.splits)

end
