(* ===== verification/Tcp.thy ===== *)
theory Tcp
  imports Frame
begin

text \<open>
  The TCP transport of the cluster: delivery of inbound envelopes to actors
  (\<open>cluster/src/dispatch.rs\<close>, \<open>concurrency/src/cluster/wire_dispatch.rs\<close>), the control-plane hooks
  and snapshots (\<open>control.rs\<close>, \<open>registry.rs\<close>, \<open>pg_sync.rs\<close>), the serving side of a connection
  (\<open>tcp/listener.rs\<close>) and the connecting side with its pool (\<open>tcp/transport.rs\<close>). Hooks and handlers act
  on the state \<open>'s\<close> of the node. The serving side reads a list of bytes, all that the peer
  sends on the connection; the connecting side talks to a peer that is a function: what it
  has sent back once it has received some bytes.
\<close>

section \<open>Delivery to local actors\<close>

type_synonym 's handler = "wire_envelope \<Rightarrow> 's \<Rightarrow> ((transport_error + bytes option) \<times> 's) run"

type_synonym 's routes = "actor_address \<rightharpoonup> 's handler list"

definition dispatch_register :: "actor_address \<Rightarrow> 's handler \<Rightarrow> 's routes \<Rightarrow> 's routes" where
  "dispatch_register a h rs = rs(a \<mapsto> (case rs a of Some hs \<Rightarrow> hs @ [h] | None \<Rightarrow> [h]))"

fun try_handlers ::
  "'s handler list \<Rightarrow> wire_envelope \<Rightarrow> transport_error option \<Rightarrow> 's
    \<Rightarrow> ((transport_error + bytes option) \<times> 's) run" where
  "try_handlers [] env last_wire s =
     Returns (Inl (case last_wire of
       Some e \<Rightarrow> e
     | None \<Rightarrow> TeProtocol (NoHandlerAccepted (we_remote_msg_id env) (we_to env))), s)"
| "try_handlers (h # hs) env last_wire s =
     (case h env s of
        Hangs \<Rightarrow> Hangs
      | Panics \<Rightarrow> Panics
      | Returns (Inr reply, s1) \<Rightarrow> Returns (Inr reply, s1)
      | Returns (Inl (TeWire (MessageIdMismatch e g)), s1) \<Rightarrow>
          try_handlers hs env (Some (TeWire (MessageIdMismatch e g))) s1
      | Returns (Inl (TeProtocol p), s1) \<Rightarrow> try_handlers hs env last_wire s1
      | Returns (Inl e, s1) \<Rightarrow> Returns (Inl e, s1))"

definition address_dispatch :: "'s routes \<Rightarrow> 's handler" where
  "address_dispatch rs env s =
     (case rs (we_to env) of
        None \<Rightarrow> Returns (Inl (TeProtocol (NoHandlerFor (we_to env))), s)
      | Some hs \<Rightarrow> try_handlers hs env None s)"

text \<open>
  The handler of one message type: \<open>send\<close>, \<open>ask\<close> and \<open>request_raw\<close> are the recipient's operations. \<open>ask\<close> is a
  request with its answer (it waits five seconds on the tasks runtime, without limit on the threads
  runtime); \<open>request_raw\<close> gives the channel of the answer, and the channel an answer or, when the actor is gone, none.
\<close>

record ('m, 'r, 's) recipient =
  rc_send :: "'m \<Rightarrow> 's \<Rightarrow> ((actor_error + unit) \<times> 's) run"
  rc_ask :: "'m \<Rightarrow> 's \<Rightarrow> ((actor_error + 'r) \<times> 's) run"
  rc_request_raw :: "'m \<Rightarrow> 's \<Rightarrow> ((actor_error + nat) \<times> 's) run"
  rc_recv :: "nat \<Rightarrow> 's \<Rightarrow> ('r option \<times> 's) run"

definition wire_dispatch ::
  "string \<Rightarrow> 'm de \<Rightarrow> 'r ser \<Rightarrow> actor_address \<Rightarrow> ('m, 'r, 's) recipient \<Rightarrow> 's handler" where
  "wire_dispatch remote_id de ser a rc env s =
     (if we_to env \<noteq> a then Returns (Inl (TeProtocol (UnexpectedTarget (we_to env))), s)
      else case decode_payload remote_id de env of
             Inl e \<Rightarrow> Returns (Inl (TeWire e), s)
           | Inr m \<Rightarrow>
               if we_correlation_id env = 0
               then run_then (rc_send rc m s) (\<lambda>(r, s1).
                      Returns (case r of Inl _ \<Rightarrow> Inl TeRemoteUnreachable | Inr _ \<Rightarrow> Inr None, s1))
               else run_then (rc_ask rc m s) (\<lambda>(r, s1).
                      Returns (case r of
                          Inl _ \<Rightarrow> Inl TeRemoteUnreachable
                        | Inr v \<Rightarrow> map_sum TeWire Some (encode_reply ser v), s1)))"

section \<open>Control-plane hooks\<close>

record 's control_hooks =
  ch_registry :: "(registry_event \<Rightarrow> 's \<Rightarrow> (transport_error + unit) \<times> 's) option"
  ch_registry_snapshot :: "('s \<Rightarrow> (string \<times> actor_address) list) option"
  ch_pg :: "(pg_event \<Rightarrow> 's \<Rightarrow> (transport_error + unit) \<times> 's) option"
  ch_pg_snapshot :: "('s \<Rightarrow> pg_member_entry list) option"
  ch_supervision :: "'s supervision_hook option"

definition control_none :: "'s control_hooks" where
  "control_none = \<lparr>ch_registry = None, ch_registry_snapshot = None, ch_pg = None, ch_pg_snapshot = None,
     ch_supervision = None\<rparr>"

definition control_federated ::
  "(registry_event \<Rightarrow> 's \<Rightarrow> (transport_error + unit) \<times> 's) \<Rightarrow> ('s \<Rightarrow> (string \<times> actor_address) list)
    \<Rightarrow> (pg_event \<Rightarrow> 's \<Rightarrow> (transport_error + unit) \<times> 's) \<Rightarrow> ('s \<Rightarrow> pg_member_entry list)
    \<Rightarrow> 's control_hooks" where
  "control_federated ra rs pa ps = \<lparr>ch_registry = Some ra, ch_registry_snapshot = Some rs, ch_pg = Some pa,
     ch_pg_snapshot = Some ps, ch_supervision = None\<rparr>"

definition with_supervision :: "'s supervision_hook \<Rightarrow> 's control_hooks \<Rightarrow> 's control_hooks" where
  "with_supervision f c = c\<lparr>ch_supervision := Some f\<rparr>"

definition apply_registry_event :: "'s control_hooks \<Rightarrow> registry_event \<Rightarrow> 's \<Rightarrow> (transport_error + unit) \<times> 's" where
  "apply_registry_event c ev s = (case ch_registry c of Some f \<Rightarrow> f ev s | None \<Rightarrow> (Inr (), s))"

definition apply_pg_event :: "'s control_hooks \<Rightarrow> pg_event \<Rightarrow> 's \<Rightarrow> (transport_error + unit) \<times> 's" where
  "apply_pg_event c ev s = (case ch_pg c of Some f \<Rightarrow> f ev s | None \<Rightarrow> (Inr (), s))"

definition registry_snapshot_event :: "'s control_hooks \<Rightarrow> 's \<Rightarrow> registry_event" where
  "registry_snapshot_event c s = RegSnapshot (case ch_registry_snapshot c of Some f \<Rightarrow> f s | None \<Rightarrow> [])"

definition pg_snapshot_event :: "'s control_hooks \<Rightarrow> 's \<Rightarrow> pg_event" where
  "pg_snapshot_event c s = PgSnapshot (case ch_pg_snapshot c of Some f \<Rightarrow> f s | None \<Rightarrow> [])"

fun apply_each ::
  "('e \<Rightarrow> 's \<Rightarrow> (transport_error + unit) \<times> 's) \<Rightarrow> 'e list \<Rightarrow> 's \<Rightarrow> (transport_error + unit) \<times> 's" where
  "apply_each f [] s = (Inr (), s)"
| "apply_each f (e # es) s = (case f e s of (Inl x, s1) \<Rightarrow> (Inl x, s1) | (Inr _, s1) \<Rightarrow> apply_each f es s1)"

section \<open>The serving side\<close>

definition serve_event ::
  "codec \<Rightarrow> 's handler \<Rightarrow> 's control_hooks \<Rightarrow> cluster_frame \<Rightarrow> 's
    \<Rightarrow> ((transport_error + bytes option) \<times> 's) run" where
  "serve_event cd dispatch c fr s =
     (case fr of
        RegistryFrame ev \<Rightarrow> Returns (apfst (map_sum id (\<lambda>_. None)) (apply_registry_event c ev s))
      | PgFrame ev \<Rightarrow> Returns (apfst (map_sum id (\<lambda>_. None)) (apply_pg_event c ev s))
      | ActorFrame env \<Rightarrow>
          run_then (dispatch env s) (\<lambda>(r, s1). Returns (case r of
              Inl e \<Rightarrow> Inl e
            | Inr reply \<Rightarrow>
                if we_correlation_id env \<noteq> 0
                then map_sum TeWire Some (encode_reply_frame cd
                       \<lparr>wr_correlation_id = we_correlation_id env,
                        wr_payload = (case reply of Some p \<Rightarrow> p | None \<Rightarrow> [])\<rparr>)
                else Inr None, s1))
      | SupervisionFrame env \<Rightarrow>
          run_then (apply_supervision (ch_supervision c) env s) (\<lambda>(r, s1). Returns (case r of
              Inl e \<Rightarrow> Inl e
            | Inr None \<Rightarrow> Inr None
            | Inr (Some reply) \<Rightarrow> map_sum id Some (encode_supervision cd reply), s1)))"

definition serve_frame ::
  "codec \<Rightarrow> 's handler \<Rightarrow> 's control_hooks \<Rightarrow> bytes \<Rightarrow> 's \<Rightarrow> ((transport_error + bytes option) \<times> 's) run" where
  "serve_frame cd dispatch c body s =
     (case decode_cluster_frame cd body of
        Inl e \<Rightarrow> Returns (Inl (TeWire e), s)
      | Inr fr \<Rightarrow> serve_event cd dispatch c fr s)"

text \<open>The loop of \<open>serve_connection\<close>: it is left by an error only; the result carries what was written.\<close>

function serve_loop ::
  "codec \<Rightarrow> 's handler \<Rightarrow> 's control_hooks \<Rightarrow> string option \<Rightarrow> bytes \<Rightarrow> bytes \<Rightarrow> 's
    \<Rightarrow> (transport_error \<times> bytes \<times> 's) run" where
  "serve_loop cd dispatch c wio inp out s =
     (case read_frame inp of
        (Inl e, _) \<Rightarrow> Returns (e, out, s)
      | (Inr body, rest) \<Rightarrow>
          (case serve_frame cd dispatch c body s of
             Hangs \<Rightarrow> Hangs
           | Panics \<Rightarrow> Panics
           | Returns (Inl e, s1) \<Rightarrow> Returns (e, out, s1)
           | Returns (Inr None, s1) \<Rightarrow> serve_loop cd dispatch c wio rest out s1
           | Returns (Inr (Some reply), s1) \<Rightarrow>
               (case write_frame wio reply out of
                  (Inl e, out1) \<Rightarrow> Returns (e, out1, s1)
                | (Inr _, out1) \<Rightarrow> serve_loop cd dispatch c wio rest out1 s1)))"
  by pat_completeness auto
termination
  by (relation "measure (\<lambda>(cd, dispatch, c, wio, inp, out, s). length inp)")
    (auto dest!: sym [THEN read_frame_shorter(1)])

declare serve_loop.simps [simp del]

definition send_snapshots ::
  "codec \<Rightarrow> 's control_hooks \<Rightarrow> string option \<Rightarrow> 's \<Rightarrow> bytes \<Rightarrow> (transport_error + unit) \<times> bytes" where
  "send_snapshots cd c wio s out =
     (case encode_registry_event cd (registry_snapshot_event c s) of
        Inl e \<Rightarrow> (Inl e, out)
      | Inr rbytes \<Rightarrow>
          (case write_frame wio rbytes out of
             (Inl e, out1) \<Rightarrow> (Inl e, out1)
           | (Inr _, out1) \<Rightarrow>
               (case encode_pg_event cd (pg_snapshot_event c s) of
                  Inl e \<Rightarrow> (Inl e, out1)
                | Inr pbytes \<Rightarrow> write_frame wio pbytes out1)))"

definition read_handshake :: "codec \<Rightarrow> bytes \<Rightarrow> (transport_error + handshake) \<times> bytes" where
  "read_handshake cd inp =
     (case read_frame inp of
        (Inl e, rest) \<Rightarrow> (Inl e, rest)
      | (Inr fr, rest) \<Rightarrow> (map_sum TeWire id (decode_handshake cd fr), rest))"

definition serve_connection ::
  "codec \<Rightarrow> node_id \<Rightarrow> 's handler \<Rightarrow> 's control_hooks \<Rightarrow> string option \<Rightarrow> bytes \<Rightarrow> 's
    \<Rightarrow> (transport_error \<times> bytes \<times> 's) run" where
  "serve_connection cd here dispatch c wio inp s =
     (case read_handshake cd inp of
        (Inl e, _) \<Rightarrow> Returns (e, [], s)
      | (Inr peer, rest) \<Rightarrow>
          if hs_version peer \<noteq> PROTOCOL_VERSION
          then Returns (TeProtocol (UnsupportedVersion (hs_version peer)), [], s)
          else case encode_handshake cd (handshake_local here) of
                 Inl e \<Rightarrow> Returns (TeWire e, [], s)
               | Inr ack \<Rightarrow>
                   (case write_frame wio ack [] of
                      (Inl e, out) \<Rightarrow> Returns (e, out, s)
                    | (Inr _, out) \<Rightarrow>
                        (case send_snapshots cd c wio s out of
                           (Inl e, out1) \<Rightarrow> Returns (e, out1, s)
                         | (Inr _, out1) \<Rightarrow> serve_loop cd dispatch c wio rest out1 s)))"

section \<open>The connecting side\<close>

record socket =
  sk_peer :: "bytes \<Rightarrow> bytes"
  sk_out :: bytes
  sk_read :: nat
  sk_io :: "string option"

definition available :: "socket \<Rightarrow> bytes" where
  "available sk = drop (sk_read sk) (sk_peer sk (sk_out sk))"

definition sock_write :: "bytes \<Rightarrow> socket \<Rightarrow> (transport_error + unit) \<times> socket" where
  "sock_write body sk = (case write_frame (sk_io sk) body (sk_out sk) of (r, out) \<Rightarrow> (r, sk\<lparr>sk_out := out\<rparr>))"

definition sock_read :: "socket \<Rightarrow> (transport_error + bytes) \<times> socket" where
  "sock_read sk =
     (case read_frame (available sk) of
        (r, rest) \<Rightarrow> (r, sk\<lparr>sk_read := sk_read sk + (length (available sk) - length rest)\<rparr>))"

text \<open>Code that leaves with the first error, on a socket and the state of the node.\<close>

type_synonym ('c, 'a) attempt = "'c \<Rightarrow> (transport_error + 'a) \<times> 'c"

definition and_then :: "('c, 'a) attempt \<Rightarrow> ('a \<Rightarrow> ('c, 'b) attempt) \<Rightarrow> ('c, 'b) attempt" where
  "and_then f g c = (case f c of (Inl e, c1) \<Rightarrow> (Inl e, c1) | (Inr v, c1) \<Rightarrow> g v c1)"

definition give :: "transport_error + 'a \<Rightarrow> ('c, 'a) attempt" where
  "give r c = (r, c)"

definition on_socket :: "(socket, 'a) attempt \<Rightarrow> (socket \<times> 's, 'a) attempt" where
  "on_socket f = (\<lambda>(sk, s). case f sk of (r, sk1) \<Rightarrow> (r, (sk1, s)))"

definition on_state :: "('s, 'a) attempt \<Rightarrow> (socket \<times> 's, 'a) attempt" where
  "on_state f = (\<lambda>(sk, s). case f s of (r, s1) \<Rightarrow> (r, (sk, s1)))"

definition send_control_plane_snapshots :: "codec \<Rightarrow> 's control_hooks \<Rightarrow> (socket \<times> 's, unit) attempt" where
  "send_control_plane_snapshots cd c = (\<lambda>(sk, s).
     (case send_snapshots cd c (sk_io sk) s (sk_out sk) of (r, out) \<Rightarrow> (r, (sk\<lparr>sk_out := out\<rparr>, s))))"

definition apply_registry_snapshot :: "codec \<Rightarrow> 's control_hooks \<Rightarrow> bytes \<Rightarrow> ('s, unit) attempt" where
  "apply_registry_snapshot cd c fr =
     (case decode_cluster_frame cd fr of
        Inr (RegistryFrame (RegSnapshot entries)) \<Rightarrow>
          if ch_registry c \<noteq> None
          then apply_each (\<lambda>(name, a). apply_registry_event c (RegRegister name a)) entries
          else give (Inr ())
      | _ \<Rightarrow> give (Inr ()))"

definition apply_pg_snapshot :: "codec \<Rightarrow> 's control_hooks \<Rightarrow> bytes \<Rightarrow> ('s, unit) attempt" where
  "apply_pg_snapshot cd c fr =
     (case decode_cluster_frame cd fr of
        Inr (PgFrame (PgSnapshot entries)) \<Rightarrow>
          if ch_pg c \<noteq> None
          then apply_each (\<lambda>en. apply_pg_event c (PgJoin (pe_scope en) (pe_group en) (pe_address en))) entries
          else give (Inr ())
      | _ \<Rightarrow> give (Inr ()))"

definition apply_control_plane_snapshots :: "codec \<Rightarrow> 's control_hooks \<Rightarrow> (socket \<times> 's, unit) attempt" where
  "apply_control_plane_snapshots cd c =
     and_then (on_socket sock_read) (\<lambda>rfr.
     and_then (on_state (apply_registry_snapshot cd c rfr)) (\<lambda>_.
     and_then (on_socket sock_read) (\<lambda>pfr.
     on_state (apply_pg_snapshot cd c pfr))))"

record 's tcp_transport =
  tt_local :: node_id
  tt_peers :: "(node_id \<times> string) list"
  tt_connections :: "node_id \<rightharpoonup> socket"
  tt_control :: "'s control_hooks"

definition check_version :: "handshake \<Rightarrow> ('c, unit) attempt" where
  "check_version hs =
     give (if hs_version hs \<noteq> PROTOCOL_VERSION then Inl (TeProtocol (UnsupportedVersion (hs_version hs))) else Inr ())"

text \<open>\<open>connect\<close> on the open stream; \<open>net\<close> opens the stream to an address.\<close>

definition greet :: "codec \<Rightarrow> node_id \<Rightarrow> 's control_hooks \<Rightarrow> (socket \<times> 's, unit) attempt" where
  "greet cd here c =
     and_then (give (map_sum TeWire id (encode_handshake cd (handshake_local here)))) (\<lambda>hs.
     and_then (on_socket (sock_write hs)) (\<lambda>_.
     and_then (on_socket sock_read) (\<lambda>ack_frame.
     and_then (give (map_sum TeWire id (decode_handshake cd ack_frame))) (\<lambda>ack.
     and_then (check_version ack) (\<lambda>_.
     and_then (send_control_plane_snapshots cd c) (\<lambda>_.
     apply_control_plane_snapshots cd c))))))"

definition connect ::
  "codec \<Rightarrow> (string \<Rightarrow> string + socket) \<Rightarrow> node_id \<Rightarrow> 's tcp_transport \<Rightarrow> 's \<Rightarrow> (transport_error + socket) \<times> 's" where
  "connect cd net n tt s =
     (case map_of (tt_peers tt) n of
        None \<Rightarrow> (Inl TeRemoteUnreachable, s)
      | Some addr \<Rightarrow>
          (case net addr of
             Inl e \<Rightarrow> (Inl (TeIo e), s)
           | Inr sk \<Rightarrow>
               (case greet cd (tt_local tt) (tt_control tt) (sk, s) of
                  (Inl e, (_, s1)) \<Rightarrow> (Inl e, s1)
                | (Inr _, (sk1, s1)) \<Rightarrow> (Inr sk1, s1))))"

text \<open>The closure runs on the pooled connection, opened if need be; an error of the closure drops it.\<close>

definition use_connection ::
  "node_id \<Rightarrow> (socket, 'a) attempt \<Rightarrow> socket \<Rightarrow> 's tcp_transport \<times> 's \<Rightarrow> (transport_error + 'a) \<times> 's tcp_transport \<times> 's" where
  "use_connection n f sk = (\<lambda>(tt, s).
     (case f sk of
        (Inl e, _) \<Rightarrow> (Inl e, tt\<lparr>tt_connections := (tt_connections tt)(n := None)\<rparr>, s)
      | (Inr v, sk1) \<Rightarrow> (Inr v, tt\<lparr>tt_connections := (tt_connections tt)(n \<mapsto> sk1)\<rparr>, s)))"

definition with_connection ::
  "codec \<Rightarrow> (string \<Rightarrow> string + socket) \<Rightarrow> node_id \<Rightarrow> (socket, 'a) attempt \<Rightarrow> ('s tcp_transport \<times> 's, 'a) attempt" where
  "with_connection cd net n f = (\<lambda>(tt, s).
     (case tt_connections tt n of
        Some sk \<Rightarrow> use_connection n f sk (tt, s)
      | None \<Rightarrow>
          (case connect cd net n tt s of
             (Inl e, s1) \<Rightarrow> (Inl e, (tt, s1))
           | (Inr sk, s1) \<Rightarrow> use_connection n f sk (tt, s1))))"

definition send_on_stream :: "codec \<Rightarrow> wire_envelope \<Rightarrow> (socket, unit) attempt" where
  "send_on_stream cd env =
     and_then (give (map_sum TeWire id (encode_cluster_frame cd (ActorFrame env)))) sock_write"

definition request_on_stream :: "codec \<Rightarrow> wire_envelope \<Rightarrow> (socket, bytes) attempt" where
  "request_on_stream cd env =
     (if we_correlation_id env = 0
      then give (Inl (TeProtocol (ProtocolText ''request envelope requires non-zero correlation id'')))
      else
        and_then (give (map_sum TeWire id (encode_cluster_frame cd (ActorFrame env)))) (\<lambda>bs.
        and_then (sock_write bs) (\<lambda>_.
        and_then sock_read (\<lambda>reply_frame.
        and_then (give (map_sum TeWire id (decode_reply_frame cd reply_frame))) (\<lambda>reply.
        give (if wr_correlation_id reply \<noteq> we_correlation_id env
              then Inl (TeProtocol (CorrelationMismatch (we_correlation_id env) (wr_correlation_id reply)))
              else Inr (wr_payload reply)))))))"

definition send_supervision_on_stream :: "codec \<Rightarrow> supervision_envelope \<Rightarrow> (socket, unit) attempt" where
  "send_supervision_on_stream cd env = and_then (give (encode_supervision_frame cd env)) sock_write"

definition request_supervision_on_stream ::
  "codec \<Rightarrow> supervision_envelope \<Rightarrow> (socket, supervision_envelope) attempt" where
  "request_supervision_on_stream cd env =
     and_then (give (encode_supervision_frame cd env)) (\<lambda>bs.
     and_then (sock_write bs) (\<lambda>_.
     and_then sock_read (\<lambda>reply_frame.
     give (decode_supervision_reply (de_supervision cd) env reply_frame))))"

definition tcp_send_envelope ::
  "codec \<Rightarrow> (string \<Rightarrow> string + socket) \<Rightarrow> wire_envelope \<Rightarrow> ('s tcp_transport \<times> 's, unit) attempt" where
  "tcp_send_envelope cd net env =
     (if we_correlation_id env \<noteq> 0
      then give (Inl (TeProtocol (ProtocolText ''fire-and-forget envelope must use correlation_id 0'')))
      else with_connection cd net (node (we_to env)) (send_on_stream cd env))"

definition tcp_request_envelope ::
  "codec \<Rightarrow> (string \<Rightarrow> string + socket) \<Rightarrow> wire_envelope \<Rightarrow> ('s tcp_transport \<times> 's, bytes) attempt" where
  "tcp_request_envelope cd net env = with_connection cd net (node (we_to env)) (request_on_stream cd env)"

definition tcp_send_supervision ::
  "codec \<Rightarrow> (string \<Rightarrow> string + socket) \<Rightarrow> node_id \<Rightarrow> supervision_envelope
    \<Rightarrow> ('s tcp_transport \<times> 's, unit) attempt" where
  "tcp_send_supervision cd net n env =
     and_then (give (validate_envelope env)) (\<lambda>_.
     if se_correlation_id env \<noteq> 0
     then give (Inl (TeProtocol (ProtocolText ''send_supervision requires correlation_id 0'')))
     else with_connection cd net n (send_supervision_on_stream cd env))"

definition tcp_request_supervision ::
  "codec \<Rightarrow> (string \<Rightarrow> string + socket) \<Rightarrow> node_id \<Rightarrow> supervision_envelope
    \<Rightarrow> ('s tcp_transport \<times> 's, supervision_envelope) attempt" where
  "tcp_request_supervision cd net n env =
     and_then (give (validate_envelope env)) (\<lambda>_.
     with_connection cd net n (request_supervision_on_stream cd env))"

text \<open>Broadcasts go through the peers one after the other and stop at the first error.\<close>

fun to_peers ::
  "codec \<Rightarrow> (string \<Rightarrow> string + socket) \<Rightarrow> (socket, unit) attempt \<Rightarrow> node_id list
    \<Rightarrow> ('s tcp_transport \<times> 's, unit) attempt" where
  "to_peers cd net f [] = give (Inr ())"
| "to_peers cd net f (n # ns) = and_then (with_connection cd net n f) (\<lambda>_. to_peers cd net f ns)"

definition broadcast_registry ::
  "codec \<Rightarrow> (string \<Rightarrow> string + socket) \<Rightarrow> registry_event \<Rightarrow> ('s tcp_transport \<times> 's, unit) attempt" where
  "broadcast_registry cd net ev = (\<lambda>(tt, s).
     if tt_peers tt = [] then (Inr (), (tt, s))
     else and_then (give (encode_registry_event cd ev))
            (\<lambda>bs. to_peers cd net (sock_write bs) (map fst (tt_peers tt))) (tt, s))"

definition broadcast_pg ::
  "codec \<Rightarrow> (string \<Rightarrow> string + socket) \<Rightarrow> pg_event \<Rightarrow> ('s tcp_transport \<times> 's, unit) attempt" where
  "broadcast_pg cd net ev = (\<lambda>(tt, s).
     if tt_peers tt = [] then (Inr (), (tt, s))
     else and_then (give (encode_pg_event cd ev))
            (\<lambda>bs. to_peers cd net (sock_write bs) (map fst (tt_peers tt))) (tt, s))"

definition sync_peers :: "codec \<Rightarrow> (string \<Rightarrow> string + socket) \<Rightarrow> ('s tcp_transport \<times> 's, unit) attempt" where
  "sync_peers cd net = (\<lambda>(tt, s).
     if tt_peers tt = [] then (Inr (), (tt, s))
     else to_peers cd net (give (Inr ())) (map fst (tt_peers tt)) (tt, s))"

end
