(* ===== verification/Tcp_Correct.thy ===== *)
theory Tcp_Correct
  imports Tcp
begin

text \<open>
  Facts about the TCP transport: the serving side applies the frames of a connection in order
  up to the first it refuses and always comes to an end; a request made through the
  connecting side is answered by what the serving side's hook returned; what a broadcast
  reaches when a peer is down.
\<close>

lemma control_none_sel [simp]:
  "ch_registry control_none = None" "ch_registry_snapshot control_none = None" "ch_pg control_none = None"
  "ch_pg_snapshot control_none = None" "ch_supervision control_none = None"
  by (simp_all add: control_none_def)

section \<open>The serving side\<close>

text \<open>What a connection should do with a sequence of frames, with no bytes in sight.\<close>

fun serve_events ::
  "codec \<Rightarrow> 's handler \<Rightarrow> 's control_hooks \<Rightarrow> cluster_frame list \<Rightarrow> bytes \<Rightarrow> 's
    \<Rightarrow> ((transport_error + unit) \<times> bytes \<times> 's) run" where
  "serve_events cd d c [] out s = Returns (Inr (), out, s)"
| "serve_events cd d c (f # fs) out s =
     run_then (serve_event cd d c f s) (\<lambda>(r, s1).
       case r of
         Inl e \<Rightarrow> Returns (Inl e, out, s1)
       | Inr None \<Rightarrow> serve_events cd d c fs out s1
       | Inr (Some reply) \<Rightarrow>
           (case write_frame None reply out of
              (Inl e, out1) \<Rightarrow> Returns (Inl e, out1, s1)
            | (Inr _, out1) \<Rightarrow> serve_events cd d c fs out1 s1))"

definition sent_as :: "codec \<Rightarrow> cluster_frame \<Rightarrow> bytes \<Rightarrow> bool" where
  "sent_as cd f body \<longleftrightarrow> encode_cluster_frame cd f = Inr body \<and> length body \<le> MAX_FRAME_SIZE"

lemma sent_as_decode: "codec_ok cd \<Longrightarrow> sent_as cd f body \<Longrightarrow> decode_cluster_frame cd body = Inr f"
  by (simp add: sent_as_def codec_okD(2))

lemma serve_loop_framed:
  assumes "codec_ok cd" "sent_as cd f body"
  shows "serve_loop cd d c wio (framed body @ rest) out s =
    run_then (serve_event cd d c f s) (\<lambda>(r, s1).
      case r of
        Inl e \<Rightarrow> Returns (e, out, s1)
      | Inr None \<Rightarrow> serve_loop cd d c wio rest out s1
      | Inr (Some reply) \<Rightarrow>
          (case write_frame wio reply out of
             (Inl e, out1) \<Rightarrow> Returns (e, out1, s1)
           | (Inr _, out1) \<Rightarrow> serve_loop cd d c wio rest out1 s1))"
proof -
  have len: "length body \<le> MAX_FRAME_SIZE" using assms(2) by (simp add: sent_as_def)
  have "serve_frame cd d c body s = serve_event cd d c f s"
    using sent_as_decode [OF assms] by (simp add: serve_frame_def)
  with len show ?thesis
    by (subst serve_loop.simps) (auto split: run.splits prod.splits sum.splits option.splits)
qed

lemma serve_loop_events:
  assumes "codec_ok cd" "list_all2 (sent_as cd) fs bodies"
  shows "serve_loop cd d c None (concat (map framed bodies) @ rest) out s =
    run_then (serve_events cd d c fs out s) (\<lambda>(r, out1, s1).
      case r of Inl e \<Rightarrow> Returns (e, out1, s1) | Inr _ \<Rightarrow> serve_loop cd d c None rest out1 s1)"
  using assms(2)
proof (induction fs bodies arbitrary: out s rule: list_all2_induct)
  case Nil
  then show ?case by simp
next
  case (Cons f fs b bs)
  then show ?case
    by (cases "serve_event cd d c f s")
      (auto simp: serve_loop_framed [OF assms(1)] split: sum.splits option.splits prod.splits)
qed

text \<open>Handlers and hooks that neither wait for ever nor panic.\<close>

definition hooks_return :: "'s handler \<Rightarrow> 's control_hooks \<Rightarrow> bool" where
  "hooks_return d c \<longleftrightarrow> (\<forall>env s. \<exists>r. d env s = Returns r) \<and>
     (\<forall>g env s. ch_supervision c = Some g \<longrightarrow> (\<exists>r. g env s = Returns r))"

lemma serve_event_returns:
  assumes "hooks_return d c"
  shows "\<exists>r. serve_event cd d c f s = Returns r"
proof (cases f)
  case (ActorFrame env)
  obtain x where "d env s = Returns x" using assms unfolding hooks_return_def by blast
  with ActorFrame show ?thesis by (cases x) (simp add: serve_event_def)
next
  case (SupervisionFrame env)
  have "\<exists>x. apply_supervision (ch_supervision c) env s = Returns x"
    using assms by (cases "ch_supervision c") (auto simp: hooks_return_def apply_supervision_def split: sum.splits)
  then obtain x where "apply_supervision (ch_supervision c) env s = Returns x" ..
  with SupervisionFrame show ?thesis by (cases x) (simp add: serve_event_def)
qed (simp_all add: serve_event_def)

lemma serve_loop_returns:
  assumes "hooks_return d c"
  shows "\<exists>e out' s'. serve_loop cd d c wio inp out s = Returns (e, out', s')"
  using assms
proof (induction cd d c wio inp out s rule: serve_loop.induct)
  case (1 cd d c wio inp out s)
  obtain r rest where rf: "read_frame inp = (r, rest)" by fastforce
  show ?case
  proof (cases r)
    case (Inl e)
    then show ?thesis by (subst serve_loop.simps) (simp add: rf)
  next
    case (Inr body)
    have "\<exists>x. serve_frame cd d c body s = Returns x"
      using serve_event_returns [OF "1.prems"]
      by (cases "decode_cluster_frame cd body") (simp_all add: serve_frame_def)
    then obtain y s1 where sf: "serve_frame cd d c body s = Returns (y, s1)" by (metis surj_pair)
    show ?thesis
    proof (cases y)
      case (Inl e)
      with sf rf Inr show ?thesis by (subst serve_loop.simps) simp
    next
      case y: (Inr o1)
      show ?thesis
      proof (cases o1)
        case None
        have "\<exists>e out' s'. serve_loop cd d c wio rest out s1 = Returns (e, out', s')"
          by (rule "1.IH"(1) [OF rf [symmetric] Inr sf _ y None "1.prems"]) auto
        with sf rf Inr y None show ?thesis by (subst serve_loop.simps) simp
      next
        case (Some reply)
        obtain wr out1 where wf: "write_frame wio reply out = (wr, out1)" by fastforce
        show ?thesis
        proof (cases wr)
          case (Inl e)
          with sf rf Inr y Some wf show ?thesis by (subst serve_loop.simps) simp
        next
          case u: (Inr u)
          have "\<exists>e out' s'. serve_loop cd d c wio rest out1 s1 = Returns (e, out', s')"
            by (rule "1.IH"(2) [OF rf [symmetric] Inr sf _ y Some wf [symmetric] u "1.prems"]) auto
          with sf rf Inr y Some wf u show ?thesis by (subst serve_loop.simps) simp
        qed
      qed
    qed
  qed
qed

section \<open>A client and a server\<close>

text \<open>What the two ends of a new connection say first: a handshake and the two snapshots.\<close>

definition greets :: "codec \<Rightarrow> node_id \<Rightarrow> 's control_hooks \<Rightarrow> 's \<Rightarrow> bytes \<Rightarrow> bytes \<Rightarrow> bytes \<Rightarrow> bool" where
  "greets cd here c s hs r p \<longleftrightarrow>
     encode_handshake cd (handshake_local here) = Inr hs \<and> length hs \<le> MAX_FRAME_SIZE \<and>
     sent_as cd (RegistryFrame (registry_snapshot_event c s)) r \<and>
     sent_as cd (PgFrame (pg_snapshot_event c s)) p"

lemma handshake_version [simp]: "hs_version (handshake_local n) = PROTOCOL_VERSION"
  by (simp add: handshake_local_def)

lemma greets_encoded:
  assumes "greets cd here c s hs r p"
  shows "encode_handshake cd (handshake_local here) = Inr hs" "length hs \<le> MAX_FRAME_SIZE"
    "encode_registry_event cd (registry_snapshot_event c s) = Inr r" "length r \<le> MAX_FRAME_SIZE"
    "encode_pg_event cd (pg_snapshot_event c s) = Inr p" "length p \<le> MAX_FRAME_SIZE"
  using assms by (simp_all add: greets_def sent_as_def encode_registry_event_def encode_pg_event_def)

lemma send_snapshots_ok:
  assumes "greets cd here c s hs r p"
  shows "send_snapshots cd c None s out = (Inr (), out @ framed r @ framed p)"
  using greets_encoded [OF assms] by (simp add: send_snapshots_def write_frame_framed)

lemma serve_connection_events:
  assumes cd: "codec_ok cd" and a: "encode_handshake cd (handshake_local other) = Inr hs" "length hs \<le> MAX_FRAME_SIZE"
    and b: "greets cd here c s ack r p" and fs: "list_all2 (sent_as cd) fs bodies"
  shows "serve_connection cd here d c None (framed hs @ concat (map framed bodies)) s =
    run_then (serve_events cd d c fs (framed ack @ framed r @ framed p) s) (\<lambda>(x, out1, s1).
      case x of Inl e \<Rightarrow> Returns (e, out1, s1)
      | Inr _ \<Rightarrow> Returns (TeIo ''failed to fill whole buffer'', out1, s1))"
proof -
  have v: "decode_handshake cd hs = Inr (handshake_local other)" using codec_okD(1) [OF cd a(1)] .
  have e: "serve_loop cd d c None [] out1 s1 = Returns (TeIo ''failed to fill whole buffer'', out1, s1)" for out1 s1
    by (subst serve_loop.simps) (simp add: read_frame_def read_exact_def)
  show ?thesis
    using serve_loop_events [OF cd fs, of d c "[]"] v greets_encoded [OF b] a(2)
    by (cases "serve_events cd d c fs (framed ack @ framed r @ framed p) s")
      (auto simp: serve_connection_def read_handshake_def write_frame_framed send_snapshots_ok [OF b] e split: sum.splits)
qed

definition serving :: "codec \<Rightarrow> node_id \<Rightarrow> 's handler \<Rightarrow> 's control_hooks \<Rightarrow> 's \<Rightarrow> bytes \<Rightarrow> bytes" where
  "serving cd here d c s inp =
     (case serve_connection cd here d c None inp s of Returns (_, out, _) \<Rightarrow> out | _ \<Rightarrow> [])"

lemma sock_write_ok:
  assumes "length b \<le> MAX_FRAME_SIZE"
  shows "sock_write b \<lparr>sk_peer = pe, sk_out = out, sk_read = rd, sk_io = None\<rparr> =
    (Inr (), \<lparr>sk_peer = pe, sk_out = out @ framed b, sk_read = rd, sk_io = None\<rparr>)"
  using assms by (simp add: sock_write_def write_frame_framed)

lemma sock_read_ok:
  assumes "pe out = before @ framed b @ rest" "length before = rd" "length b \<le> MAX_FRAME_SIZE"
  shows "sock_read \<lparr>sk_peer = pe, sk_out = out, sk_read = rd, sk_io = None\<rparr> =
    (Inr b, \<lparr>sk_peer = pe, sk_out = out, sk_read = rd + length (framed b), sk_io = None\<rparr>)"
  using assms by (simp add: sock_read_def available_def)

lemmas attempt_simps = and_then_def give_def on_socket_def on_state_def

lemma greet_ok:
  assumes cd: "codec_ok cd" and ca: "greets cd here ca s hs ra pa" and ack: "encode_handshake cd (handshake_local there) = Inr ack"
    and len: "length ack \<le> MAX_FRAME_SIZE" "length rb \<le> MAX_FRAME_SIZE" "length pb \<le> MAX_FRAME_SIZE"
    and peer: "pe (framed hs) = framed ack @ framed rb @ framed pb"
      "pe (framed hs @ framed ra @ framed pa) = framed ack @ framed rb @ framed pb"
    and ap: "apply_registry_snapshot cd ca rb s = (Inr (), s1)" "apply_pg_snapshot cd ca pb s1 = (Inr (), s2)"
  shows "greet cd here ca (\<lparr>sk_peer = pe, sk_out = [], sk_read = 0, sk_io = None\<rparr>, s) =
    (Inr (), (\<lparr>sk_peer = pe, sk_out = framed hs @ framed ra @ framed pa,
       sk_read = length (framed ack @ framed rb @ framed pb), sk_io = None\<rparr>, s2))"
proof -
  note e = greets_encoded [OF ca]
  have dec: "decode_handshake cd ack = Inr (handshake_local there)" using codec_okD(1) [OF cd ack] .
  have r1: "sock_read \<lparr>sk_peer = pe, sk_out = framed hs, sk_read = 0, sk_io = None\<rparr> =
      (Inr ack, \<lparr>sk_peer = pe, sk_out = framed hs, sk_read = length (framed ack), sk_io = None\<rparr>)"
    using sock_read_ok [of pe "framed hs" "[]" ack "framed rb @ framed pb" 0] peer(1) len(1) by simp
  have r2: "sock_read \<lparr>sk_peer = pe, sk_out = framed hs @ framed ra @ framed pa, sk_read = length (framed ack), sk_io = None\<rparr> =
      (Inr rb, \<lparr>sk_peer = pe, sk_out = framed hs @ framed ra @ framed pa,
        sk_read = length (framed ack) + length (framed rb), sk_io = None\<rparr>)"
    using sock_read_ok [of pe "framed hs @ framed ra @ framed pa" "framed ack" rb "framed pb"] peer(2) len(2) by simp
  have r3: "sock_read \<lparr>sk_peer = pe, sk_out = framed hs @ framed ra @ framed pa,
        sk_read = length (framed ack) + length (framed rb), sk_io = None\<rparr> =
      (Inr pb, \<lparr>sk_peer = pe, sk_out = framed hs @ framed ra @ framed pa,
        sk_read = length (framed ack) + length (framed rb) + length (framed pb), sk_io = None\<rparr>)"
    using sock_read_ok [of pe "framed hs @ framed ra @ framed pa" "framed ack @ framed rb" pb "[]"] peer(2) len(3) by simp
  show ?thesis
    by (simp add: greet_def attempt_simps e(1) sock_write_ok [OF e(2)] r1 r2 r3 dec check_version_def
        send_control_plane_snapshots_def send_snapshots_ok [OF ca] apply_control_plane_snapshots_def ap add.assoc)
qed

definition new_socket :: "(bytes \<Rightarrow> bytes) \<Rightarrow> socket" where
  "new_socket pe = \<lparr>sk_peer = pe, sk_out = [], sk_read = 0, sk_io = None\<rparr>"

lemma serve_snapshots:
  assumes "apply_registry_event cb rge t0 = (Inr (), t1)" "apply_pg_event cb pev t1 = (Inr (), t2)"
  shows "serve_events cd d cb [RegistryFrame rge, PgFrame pev] out t0 = Returns (Inr (), out, t2)"
    "serve_event cd d cb fr t2 = Returns (Inr (Some bs), t3) \<Longrightarrow> length bs \<le> MAX_FRAME_SIZE \<Longrightarrow>
     serve_events cd d cb [RegistryFrame rge, PgFrame pev, fr] out t0 = Returns (Inr (), out @ framed bs, t3)"
proof -
  have 1: "serve_event cd d cb (RegistryFrame rge) t0 = Returns (Inr None, t1)"
    "serve_event cd d cb (PgFrame pev) t1 = Returns (Inr None, t2)" using assms by (simp_all add: serve_event_def)
  show "serve_events cd d cb [RegistryFrame rge, PgFrame pev] out t0 = Returns (Inr (), out, t2)" by (simp add: 1)
  show "serve_events cd d cb [RegistryFrame rge, PgFrame pev, fr] out t0 = Returns (Inr (), out @ framed bs, t3)"
    if "serve_event cd d cb fr t2 = Returns (Inr (Some bs), t3)" "length bs \<le> MAX_FRAME_SIZE"
    using that by (simp add: 1 write_frame_framed)
qed

text \<open>
  What is needed of the two ends for the first exchange on a new connection: their greetings can be
  encoded and each accepts the other's snapshots.
\<close>

record ('s, 't) ends =
  en_codec :: codec
  en_here :: node_id
  en_there :: node_id
  en_client :: "'s control_hooks"
  en_server :: "'t control_hooks"
  en_handler :: "'t handler"

definition meets :: "('s, 't) ends \<Rightarrow> 's \<Rightarrow> 's \<Rightarrow> 't \<Rightarrow> 't \<Rightarrow> bool" where
  "meets en s s2 t0 t2 \<longleftrightarrow> codec_ok (en_codec en) \<and>
     (\<exists>hs ra pa ack rb pb s1 t1.
        greets (en_codec en) (en_here en) (en_client en) s hs ra pa \<and>
        greets (en_codec en) (en_there en) (en_server en) t0 ack rb pb \<and>
        apply_registry_event (en_server en) (registry_snapshot_event (en_client en) s) t0 = (Inr (), t1) \<and>
        apply_pg_event (en_server en) (pg_snapshot_event (en_client en) s) t1 = (Inr (), t2) \<and>
        apply_registry_snapshot (en_codec en) (en_client en) rb s = (Inr (), s1) \<and>
        apply_pg_snapshot (en_codec en) (en_client en) pb s1 = (Inr (), s2))"

definition dials :: "('s, 't) ends \<Rightarrow> (string \<Rightarrow> string + socket) \<Rightarrow> 's tcp_transport \<Rightarrow> 't \<Rightarrow> bool" where
  "dials en net tt t0 \<longleftrightarrow> (\<exists>addr. map_of (tt_peers tt) (en_there en) = Some addr \<and>
     net addr = Inr (new_socket (serving (en_codec en) (en_there en) (en_handler en) (en_server en) t0))) \<and>
     tt_connections tt (en_there en) = None \<and> tt_local tt = en_here en \<and> tt_control tt = en_client en"

lemma first_exchange:
  assumes mt: "meets en s s2 t0 t2" and di: "dials en net tt t0"
    and q: "sent_as (en_codec en) fr q"
    and ev: "serve_event (en_codec en) (en_handler en) (en_server en) fr t2 = Returns (Inr (Some bs), t3)"
      "length bs \<le> MAX_FRAME_SIZE"
  shows "\<exists>sk1 sk2 sk. connect (en_codec en) net (en_there en) tt s = (Inr sk1, s2) \<and>
    sock_write q sk1 = (Inr (), sk2) \<and> sock_read sk2 = (Inr bs, sk) \<and>
    (\<exists>e out. serve_connection (en_codec en) (en_there en) (en_handler en) (en_server en) None (sk_out sk) t0 =
       Returns (e, out, t3))"
proof -
  let ?cd = "en_codec en" and ?there = "en_there en" and ?d = "en_handler en" and ?ca = "en_client en" and ?cb = "en_server en"
  from mt obtain hs ra pa ack rb pb s1 t1 where cd: "codec_ok ?cd"
    and ga: "greets ?cd (en_here en) ?ca s hs ra pa" and gb: "greets ?cd ?there ?cb t0 ack rb pb"
    and srv: "apply_registry_event ?cb (registry_snapshot_event ?ca s) t0 = (Inr (), t1)"
      "apply_pg_event ?cb (pg_snapshot_event ?ca s) t1 = (Inr (), t2)"
    and cl: "apply_registry_snapshot ?cd ?ca rb s = (Inr (), s1)" "apply_pg_snapshot ?cd ?ca pb s1 = (Inr (), s2)"
    unfolding meets_def by blast
  let ?pe = "serving ?cd ?there ?d ?cb t0" and ?g = "framed ack @ framed rb @ framed pb"
  let ?o = "framed hs @ framed ra @ framed pa"
  have sent: "sent_as ?cd (RegistryFrame (registry_snapshot_event ?ca s)) ra" "sent_as ?cd (PgFrame (pg_snapshot_event ?ca s)) pa"
    using ga by (simp_all add: greets_def)
  note conn = serve_connection_events [OF cd greets_encoded(1,2) [OF ga] gb, of _ _ ?d]
  have p0: "?pe (framed hs) = ?g" using conn [of "[]" "[]"] by (simp add: serving_def)
  have p1: "?pe ?o = ?g"
    using conn [of "[RegistryFrame (registry_snapshot_event ?ca s), PgFrame (pg_snapshot_event ?ca s)]" "[ra, pa]"]
      sent serve_snapshots(1) [OF srv, of ?cd ?d] by (simp add: serving_def)
  have p2: "serve_connection ?cd ?there ?d ?cb None (?o @ framed q) t0 =
      Returns (TeIo ''failed to fill whole buffer'', ?g @ framed bs, t3)"
    using conn [of "[RegistryFrame (registry_snapshot_event ?ca s), PgFrame (pg_snapshot_event ?ca s), fr]" "[ra, pa, q]"]
      sent q serve_snapshots(2) [OF srv ev] by simp
  let ?sk1 = "\<lparr>sk_peer = ?pe, sk_out = ?o, sk_read = length ?g, sk_io = None\<rparr>"
  let ?sk2 = "\<lparr>sk_peer = ?pe, sk_out = ?o @ framed q, sk_read = length ?g, sk_io = None\<rparr>"
  let ?sk = "\<lparr>sk_peer = ?pe, sk_out = ?o @ framed q, sk_read = length ?g + length (framed bs), sk_io = None\<rparr>"
  have "greet ?cd (en_here en) ?ca (new_socket ?pe, s) = (Inr (), (?sk1, s2))"
    unfolding new_socket_def
    by (rule greet_ok [OF cd ga greets_encoded(1,2) [OF gb] greets_encoded(4,6) [OF gb] p0 p1 cl])
  with di have "connect ?cd net ?there tt s = (Inr ?sk1, s2)" by (auto simp: dials_def connect_def)
  moreover have "sock_write q ?sk1 = (Inr (), ?sk2)" using q by (simp add: sent_as_def sock_write_ok)
  moreover have "sock_read ?sk2 = (Inr bs, ?sk)"
    by (rule sock_read_ok [of _ _ ?g _ "[]"]) (use p2 ev(2) in \<open>simp_all add: serving_def\<close>)
  moreover have "sk_out ?sk = ?o @ framed q" by simp
  ultimately show ?thesis using p2 by metis
qed

text \<open>The first supervision request to a peer, from the opening of the connection to the reply.\<close>

lemma tcp_supervision_request:
  assumes mt: "meets en s s2 t0 t2" and di: "dials en net tt t0"
    and q: "sent_as (en_codec en) (SupervisionFrame env) q" "is_ok (validate_envelope env)"
    and srv: "apply_supervision (ch_supervision (en_server en)) env t2 = Returns (Inr (Some reply), t3)"
    and rep: "encode_supervision (en_codec en) reply = Inr bs" "length bs \<le> MAX_FRAME_SIZE" "is_ok (validate_reply env reply)"
  shows "\<exists>sk. tcp_request_supervision (en_codec en) net (en_there en) env (tt, s) =
      (Inr reply, (tt\<lparr>tt_connections := (tt_connections tt)(en_there en \<mapsto> sk)\<rparr>, s2)) \<and>
    (\<exists>e out. serve_connection (en_codec en) (en_there en) (en_handler en) (en_server en) None (sk_out sk) t0 =
       Returns (e, out, t3))"
proof -
  have "serve_event (en_codec en) (en_handler en) (en_server en) (SupervisionFrame env) t2 = Returns (Inr (Some bs), t3)"
    using srv rep(1) by (simp add: serve_event_def)
  from first_exchange [OF mt di q(1) this rep(2)]
  obtain sk1 sk2 sk where x: "connect (en_codec en) net (en_there en) tt s = (Inr sk1, s2)" "sock_write q sk1 = (Inr (), sk2)"
      "sock_read sk2 = (Inr bs, sk)"
    and srv': "\<exists>e out. serve_connection (en_codec en) (en_there en) (en_handler en) (en_server en) None (sk_out sk) t0 =
       Returns (e, out, t3)" by blast
  have "codec_ok (en_codec en)" using mt by (simp add: meets_def)
  from codec_okD(4) [OF this rep(1)] have dec: "decode_supervision_reply (de_supervision (en_codec en)) env bs = Inr reply"
    using rep(3) by (auto simp: decode_supervision_reply_def is_ok_def split: sum.splits)
  have "request_supervision_on_stream (en_codec en) env sk1 = (Inr reply, sk)"
    using q(1) x dec by (simp add: request_supervision_on_stream_def attempt_simps sent_as_def encode_supervision_frame_def)
  then have "tcp_request_supervision (en_codec en) net (en_there en) env (tt, s) =
      (Inr reply, (tt\<lparr>tt_connections := (tt_connections tt)(en_there en \<mapsto> sk)\<rparr>, s2))"
    using q(2) x(1) di
    by (auto simp: tcp_request_supervision_def attempt_simps is_ok_def with_connection_def use_connection_def dials_def
        split: sum.splits)
  with srv' show ?thesis by blast
qed

text \<open>The first message request to an actor on a peer.\<close>

lemma tcp_actor_request:
  assumes mt: "meets en s s2 t0 t2" and di: "dials en net tt t0"
    and q: "sent_as (en_codec en) (ActorFrame env) q" "we_correlation_id env \<noteq> 0" "node (we_to env) = en_there en"
    and srv: "en_handler en env t2 = Returns (Inr (Some payload), t3)"
    and rep: "encode_reply_frame (en_codec en) \<lparr>wr_correlation_id = we_correlation_id env, wr_payload = payload\<rparr> = Inr bs"
      "length bs \<le> MAX_FRAME_SIZE"
  shows "\<exists>sk. tcp_request_envelope (en_codec en) net env (tt, s) =
      (Inr payload, (tt\<lparr>tt_connections := (tt_connections tt)(en_there en \<mapsto> sk)\<rparr>, s2)) \<and>
    (\<exists>e out. serve_connection (en_codec en) (en_there en) (en_handler en) (en_server en) None (sk_out sk) t0 =
       Returns (e, out, t3))"
proof -
  have "serve_event (en_codec en) (en_handler en) (en_server en) (ActorFrame env) t2 = Returns (Inr (Some bs), t3)"
    using srv rep(1) q(2) by (simp add: serve_event_def)
  from first_exchange [OF mt di q(1) this rep(2)]
  obtain sk1 sk2 sk where x: "connect (en_codec en) net (en_there en) tt s = (Inr sk1, s2)" "sock_write q sk1 = (Inr (), sk2)"
      "sock_read sk2 = (Inr bs, sk)"
    and srv': "\<exists>e out. serve_connection (en_codec en) (en_there en) (en_handler en) (en_server en) None (sk_out sk) t0 =
       Returns (e, out, t3)" by blast
  have "codec_ok (en_codec en)" using mt by (simp add: meets_def)
  from codec_okD(3) [OF this rep(1)]
  have "request_on_stream (en_codec en) env sk1 = (Inr payload, sk)"
    using q(1,2) x by (simp add: request_on_stream_def attempt_simps sent_as_def)
  then have "tcp_request_envelope (en_codec en) net env (tt, s) =
      (Inr payload, (tt\<lparr>tt_connections := (tt_connections tt)(en_there en \<mapsto> sk)\<rparr>, s2))"
    using x(1) di q(3)
    by (auto simp: tcp_request_envelope_def with_connection_def use_connection_def dials_def)
  with srv' show ?thesis by blast
qed

section \<open>Broadcasts\<close>

lemma to_peers_append:
  "to_peers cd net f (xs @ ys) = and_then (to_peers cd net f xs) (\<lambda>_. to_peers cd net f ys)"
  by (induction xs) (auto simp: attempt_simps fun_eq_iff split: sum.splits prod.splits)

text \<open>A peer that cannot be reached keeps the event from every peer that comes after it.\<close>

lemma broadcast_stops:
  assumes "to_peers cd net f before (tt, s) = (Inr (), (tt1, s1))"
    and "tt_connections tt1 n = None" "map_of (tt_peers tt1) n = Some addr" "net addr = Inl e"
  shows "to_peers cd net f (before @ n # after) (tt, s) = (Inl (TeIo e), (tt1, s1))"
  using assms by (simp add: to_peers_append attempt_simps with_connection_def connect_def)

section \<open>Properties\<close>



text \<open>
  C20. A connection delivers frames in the order they were sent, up to the first one the node
  refuses. When a peer greets and sends encoded frames that are all accepted, the node's state
  and the written replies are those of handling the frames one by one. When one is refused
  (an unknown actor suffices) the connection ends there: the frames behind it have no
  effect, although the sender has written them without an error.
\<close>

theorem tcp_frames_in_order:
  assumes cd: "codec_ok cd"
    and hs: "encode_handshake cd (handshake_local other) = Inr hs" "length hs \<le> MAX_FRAME_SIZE"
    and gr: "greets cd here c s ack r p"
    and sent: "list_all2 (sent_as cd) good bodies" "sent_as cd bad bad_body" "list_all2 (sent_as cd) behind later"
    and ok: "serve_events cd d c good (framed ack @ framed r @ framed p) s = Returns (Inr (), out1, s1)"
    and refused: "serve_event cd d c bad s1 = Returns (Inl e, s2)"
  shows "serve_connection cd here d c None (framed hs @ concat (map framed bodies)) s =
      Returns (TeIo ''failed to fill whole buffer'', out1, s1) \<and>
    serve_connection cd here d c None (framed hs @ concat (map framed (bodies @ bad_body # later))) s =
      Returns (e, out1, s2)"
proof -
  have more: "serve_events cd d c (good @ fs) out s =
      run_then (serve_events cd d c good out s) (\<lambda>(x, out1, s1).
        case x of Inl e \<Rightarrow> Returns (Inl e, out1, s1) | Inr _ \<Rightarrow> serve_events cd d c fs out1 s1)" for fs out s
  proof (induction good arbitrary: out s)
    case Nil
    then show ?case by simp
  next
    case (Cons f good)
    then show ?case
      by (cases "serve_event cd d c f s") (auto split: sum.splits option.splits prod.splits)
  qed
  have "list_all2 (sent_as cd) (good @ bad # behind) (bodies @ bad_body # later)"
    using sent by (auto intro: list_all2_appendI)
  from serve_connection_events [OF cd hs gr this, of d] serve_connection_events [OF cd hs gr sent(1), of d]
  show ?thesis using ok refused by (simp add: more)
qed

definition one_frame :: cluster_frame where
  "one_frame = SupervisionFrame \<lparr>se_correlation_id = 5, se_event = SpawnOk \<lparr>node = NodeId ''b'', actor_id = ActorId 1\<rparr>\<rparr>"

definition bad_frame :: cluster_frame where
  "bad_frame = SupervisionFrame \<lparr>se_correlation_id = 0, se_event = SpawnOk \<lparr>node = NodeId ''b'', actor_id = ActorId 1\<rparr>\<rparr>"

text \<open>A serializer for the frames of an example, which refuses everything else.\<close>

definition table_ser :: "('a \<times> bytes) list \<Rightarrow> 'a ser" where
  "table_ser t x = (case map_of t x of Some bs \<Rightarrow> Inr bs | None \<Rightarrow> Inl ''unsupported'')"

definition table_de :: "('a \<times> bytes) list \<Rightarrow> 'a de" where
  "table_de t bs = (case map_of (map prod.swap t) bs of Some x \<Rightarrow> Inr x | None \<Rightarrow> Inl ''unknown'')"

lemma table_roundtrip:
  assumes "distinct (map snd t)" "table_ser t x = Inr bs"
  shows "table_de t bs = Inr x"
proof -
  have "(x, bs) \<in> set t" using assms(2) by (auto simp: table_ser_def split: option.splits dest: map_of_SomeD)
  then have "(bs, x) \<in> set (map prod.swap t)" by force
  moreover have "distinct (map fst (map prod.swap t))" using assms(1) by (simp add: comp_def)
  ultimately have "map_of (map prod.swap t) bs = Some x" by (metis map_of_is_SomeI)
  then show ?thesis by (simp add: table_de_def)
qed

definition demo_codec :: codec where
  "demo_codec =
     (let hs = [(handshake_local (NodeId ''a''), [1]), (handshake_local (NodeId ''b''), [2])];
          fr = [(RegistryFrame (RegSnapshot []), [3]), (PgFrame (PgSnapshot []), [4]), (one_frame, [5]), (bad_frame, [6])]
      in \<lparr>ser_handshake = table_ser hs, de_handshake = table_de hs, ser_frame = table_ser fr, de_frame = table_de fr,
          ser_reply = table_ser [], de_reply = table_de [], ser_supervision = table_ser [], de_supervision = table_de []\<rparr>)"

lemma demo_codec_ok: "codec_ok demo_codec"
proof -
  have "de_handshake demo_codec bs = Inr x" if "ser_handshake demo_codec x = Inr bs" for x bs
    using that unfolding demo_codec_def Let_def by (simp del: map_of.simps) (erule table_roundtrip [rotated], simp)
  moreover have "de_frame demo_codec bs = Inr x" if "ser_frame demo_codec x = Inr bs" for x bs
    using that unfolding demo_codec_def Let_def by (simp del: map_of.simps) (erule table_roundtrip [rotated], simp)
  moreover have "ser_reply demo_codec x \<noteq> Inr bs" "ser_supervision demo_codec y \<noteq> Inr bs" for x y bs
    by (simp_all add: demo_codec_def Let_def table_ser_def)
  ultimately show ?thesis unfolding codec_ok_def by blast
qed

theorem tcp_frames_in_order_witness:
  "serve_connection demo_codec (NodeId ''a'') (address_dispatch Map.empty) control_none None
     (framed [2] @ concat (map framed [[5], [6], [5]])) (0 :: nat) =
   Returns (TeProtocol (NeedsCorrelation (SpawnOk \<lparr>node = NodeId ''b'', actor_id = ActorId 1\<rparr>)),
     framed [1] @ framed [3] @ framed [4], 0)"
proof -
  let ?d = "address_dispatch Map.empty :: nat handler"
  have enc: "sent_as demo_codec one_frame [5]" "sent_as demo_codec bad_frame [6]"
    "encode_handshake demo_codec (handshake_local (NodeId ''b'')) = Inr [2]"
    "greets demo_codec (NodeId ''a'') (control_none :: nat control_hooks) 0 [1] [3] [4]"
    by (simp_all add: sent_as_def demo_codec_def Let_def table_ser_def encode_cluster_frame_def encode_handshake_def
        MAX_FRAME_SIZE_def greets_def registry_snapshot_event_def pg_snapshot_event_def control_none_def one_frame_def
        bad_frame_def handshake_local_def)
  have ev: "serve_events demo_codec ?d control_none [one_frame] out 0 = Returns (Inr (), out, 0)"
    "serve_event demo_codec ?d control_none bad_frame 0 =
       Returns (Inl (TeProtocol (NeedsCorrelation (SpawnOk \<lparr>node = NodeId ''b'', actor_id = ActorId 1\<rparr>))), 0)" for out
    by (simp_all add: serve_event_def one_frame_def bad_frame_def apply_supervision_def validate_envelope_def control_none_def)
  have "length [2 :: u8] \<le> MAX_FRAME_SIZE" by (simp add: MAX_FRAME_SIZE_def)
  from tcp_frames_in_order [OF demo_codec_ok enc(3) this enc(4), of "[one_frame]" "[[5]]" bad_frame "[6]" "[one_frame]" "[[5]]",
      OF _ enc(2) _ ev] enc(1)
  show ?thesis by simp
qed

end
