(* ===== verification/Remote_Ref.thy ===== *)
theory Remote_Ref
  imports Tcp
begin

text \<open>
  References to actors by address (\<open>concurrency/src/cluster/remote_actor_ref.rs\<close>) and the router they
  use (\<open>cluster/src/router.rs\<close>, \<open>transport.rs\<close>). A transport acts on a state \<open>'c\<close>; so does the
  recipient of a local actor.
\<close>

section \<open>Transports and the router\<close>

record 'c transport =
  tr_send :: "wire_envelope \<Rightarrow> ('c, unit) attempt"
  tr_request :: "wire_envelope \<Rightarrow> ('c, bytes) attempt"

definition unavailable_transport :: "'c transport" where
  "unavailable_transport = \<lparr>tr_send = \<lambda>_. give (Inl TeRemoteUnreachable), tr_request = \<lambda>_. give (Inl TeRemoteUnreachable)\<rparr>"

definition tcp_as_transport :: "codec \<Rightarrow> (string \<Rightarrow> string + socket) \<Rightarrow> ('s tcp_transport \<times> 's) transport" where
  "tcp_as_transport cd net = \<lparr>tr_send = tcp_send_envelope cd net, tr_request = tcp_request_envelope cd net\<rparr>"

record 'c router =
  ro_transport :: "'c transport"
  ro_async :: "'c transport option"

definition router_new :: "'c transport \<Rightarrow> 'c router" where
  "router_new t = \<lparr>ro_transport = t, ro_async = None\<rparr>"

definition router_with_async :: "'c transport \<Rightarrow> 'c transport option \<Rightarrow> 'c router" where
  "router_with_async t a = \<lparr>ro_transport = t, ro_async = a\<rparr>"

definition router_unavailable :: "'c router" where
  "router_unavailable = router_new unavailable_transport"

definition router_global :: "'c router option \<Rightarrow> 'c router \<times> 'c router option" where
  "router_global cell = (case cell of Some r \<Rightarrow> (r, Some r) | None \<Rightarrow> (router_unavailable, Some router_unavailable))"

definition router_set_global :: "'c router \<Rightarrow> 'c router option \<Rightarrow> bool \<times> 'c router option" where
  "router_set_global r cell = (case cell of Some r0 \<Rightarrow> (False, Some r0) | None \<Rightarrow> (True, Some r))"

definition send_remote :: "'c router \<Rightarrow> wire_envelope \<Rightarrow> ('c, unit) attempt" where
  "send_remote r = tr_send (ro_transport r)"

definition request_remote :: "'c router \<Rightarrow> wire_envelope \<Rightarrow> ('c, bytes) attempt" where
  "request_remote r = tr_request (ro_transport r)"

definition request_remote_async :: "'c router \<Rightarrow> wire_envelope \<Rightarrow> ('c, bytes) attempt" where
  "request_remote_async r env =
     (case ro_async r of Some a \<Rightarrow> tr_request a env | None \<Rightarrow> tr_request (ro_transport r) env)"

section \<open>Remote references\<close>

text \<open>
  The message type of a reference is known by its wire id and its serializers. The local
  recipient belongs to one of the runtimes.
\<close>

record ('m, 'r) message_type =
  mt_remote_id :: string
  mt_ser :: "'m ser"
  mt_de :: "'m de"
  mt_reply_ser :: "'r ser"
  mt_reply_de :: "'r de"

record ('m, 'r, 'c) remote_actor_ref =
  rr_address :: actor_address
  rr_local :: "(mailbox_runtime \<times> ('m, 'r, 'c) recipient) option"
  rr_router :: "'c router"

fun map_transport_error :: "transport_error \<Rightarrow> actor_error" where
  "map_transport_error TeRemoteUnreachable = RemoteUnreachable"
| "map_transport_error (TeWire e) = RemoteUnreachable"
| "map_transport_error (TeIo e) = RemoteUnreachable"
| "map_transport_error (TeProtocol e) = RemoteUnreachable"

definition local_recipient :: "node_id \<Rightarrow> ('m, 'r, 'c) remote_actor_ref \<Rightarrow> (mailbox_runtime \<times> ('m, 'r, 'c) recipient) option" where
  "local_recipient here rr = (if is_local here (rr_address rr) then rr_local rr else None)"

definition remote_ref_send ::
  "node_id \<Rightarrow> ('m, 'r) message_type \<Rightarrow> ('m, 'r, 'c) remote_actor_ref \<Rightarrow> 'm \<Rightarrow> 'c \<Rightarrow> ((actor_error + unit) \<times> 'c) run" where
  "remote_ref_send here mt rr m c =
     (case local_recipient here rr of
        Some (_, rc) \<Rightarrow> rc_send rc m c
      | None \<Rightarrow>
          (case fire_and_forget (mt_remote_id mt) (mt_ser mt) (rr_address rr) m of
             Inl _ \<Rightarrow> Returns (Inl RemoteUnreachable, c)
           | Inr env \<Rightarrow> Returns (apfst (map_sum map_transport_error id) (send_remote (rr_router rr) env c))))"

text \<open>
  A request that goes over the wire draws a correlation id from the counter. \<open>request_raw\<close> gives the
  channel of a local actor or the bytes of a remote answer; \<open>recv\<close> waits for the one and decodes the other. An
  answer that never comes is \<open>ActorStopped\<close> once the actor is gone.
\<close>

datatype ('m, 'r, 'c) remote_request = LocalRequest "('m, 'r, 'c) recipient" nat | RemoteAnswer bytes

definition remote_ref_request_raw ::
  "node_id \<Rightarrow> ('m, 'r) message_type \<Rightarrow> ('m, 'r, 'c) remote_actor_ref \<Rightarrow> 'm \<Rightarrow> u64 \<times> 'c
    \<Rightarrow> ((actor_error + ('m, 'r, 'c) remote_request) \<times> u64 \<times> 'c) run" where
  "remote_ref_request_raw here mt rr m = (\<lambda>(corr, c).
     (case local_recipient here rr of
        Some (_, rc) \<Rightarrow> run_then (rc_request_raw rc m c) (\<lambda>(r, c1). Returns (map_sum id (LocalRequest rc) r, corr, c1))
      | None \<Rightarrow>
          (case wire_request (mt_remote_id mt) (mt_ser mt) (rr_address rr) m corr of
             Inl _ \<Rightarrow> Returns (Inl RemoteUnreachable, corr + 1, c)
           | Inr env \<Rightarrow>
               (case request_remote (rr_router rr) env c of
                  (r, c1) \<Rightarrow> Returns (map_sum map_transport_error RemoteAnswer r, corr + 1, c1)))))"

definition request_rx_recv :: "('m, 'r, 'c) recipient \<Rightarrow> nat \<Rightarrow> 'c \<Rightarrow> ((actor_error + 'r) \<times> 'c) run" where
  "request_rx_recv rc rx c =
     run_then (rc_recv rc rx c) (\<lambda>(v, c1). Returns (case v of Some r \<Rightarrow> Inr r | None \<Rightarrow> Inl ActorStopped, c1))"

definition decode_answer :: "('m, 'r) message_type \<Rightarrow> bytes \<Rightarrow> actor_error + 'r" where
  "decode_answer mt payload = map_sum (\<lambda>_. RemoteUnreachable) id (decode_reply (mt_reply_de mt) payload)"

fun remote_request_recv ::
  "('m, 'r) message_type \<Rightarrow> ('m, 'r, 'c) remote_request \<Rightarrow> 'c \<Rightarrow> ((actor_error + 'r) \<times> 'c) run" where
  "remote_request_recv mt (LocalRequest rc rx) c = request_rx_recv rc rx c"
| "remote_request_recv mt (RemoteAnswer payload) c = Returns (decode_answer mt payload, c)"

text \<open>The two together, as the callers use them.\<close>

definition remote_ref_request ::
  "node_id \<Rightarrow> ('m, 'r) message_type \<Rightarrow> ('m, 'r, 'c) remote_actor_ref \<Rightarrow> 'm \<Rightarrow> u64 \<times> 'c
    \<Rightarrow> ((actor_error + 'r) \<times> u64 \<times> 'c) run" where
  "remote_ref_request here mt rr m st =
     run_then (remote_ref_request_raw here mt rr m st) (\<lambda>(r, corr, c).
       case r of
         Inl e \<Rightarrow> Returns (Inl e, corr, c)
       | Inr rq \<Rightarrow> run_then (remote_request_recv mt rq c) (\<lambda>(v, c1). Returns (v, corr, c1)))"

definition remote_reply :: "('m, 'r) message_type \<Rightarrow> transport_error + bytes \<Rightarrow> actor_error + 'r" where
  "remote_reply mt r = (case r of Inl e \<Rightarrow> Inl (map_transport_error e) | Inr payload \<Rightarrow> decode_answer mt payload)"

definition remote_ref_request_async ::
  "node_id \<Rightarrow> ('m, 'r) message_type \<Rightarrow> ('m, 'r, 'c) remote_actor_ref \<Rightarrow> 'm \<Rightarrow> u64 \<times> 'c
    \<Rightarrow> ((actor_error + 'r) \<times> u64 \<times> 'c) run" where
  "remote_ref_request_async here mt rr m = (\<lambda>(corr, c).
     (case local_recipient here rr of
        Some (Tasks, rc) \<Rightarrow>
          run_then (rc_ask rc m c) (\<lambda>(r, c1). Returns (map_sum (\<lambda>_. RemoteUnreachable) id r, corr, c1))
      | Some (Threads, rc) \<Rightarrow>
          run_then (rc_request_raw rc m c) (\<lambda>(r, c1).
            case r of
              Inl _ \<Rightarrow> Returns (Inl RemoteUnreachable, corr, c1)
            | Inr rx \<Rightarrow> run_then (request_rx_recv rc rx c1) (\<lambda>(v, c2). Returns (v, corr, c2)))
      | None \<Rightarrow>
          (case wire_request (mt_remote_id mt) (mt_ser mt) (rr_address rr) m corr of
             Inl _ \<Rightarrow> Returns (Inl RemoteUnreachable, corr + 1, c)
           | Inr env \<Rightarrow>
               (case request_remote_async (rr_router rr) env c of
                  (r, c1) \<Rightarrow> Returns (remote_reply mt r, corr + 1, c1)))))"

text \<open>A request to another node: the transport's answer, decoded.\<close>

lemma remote_request_over_wire:
  assumes "local_recipient here rr = None"
  shows "remote_ref_request here mt rr m (corr, c) =
    (case wire_request (mt_remote_id mt) (mt_ser mt) (rr_address rr) m corr of
       Inl _ \<Rightarrow> Returns (Inl RemoteUnreachable, corr + 1, c)
     | Inr env \<Rightarrow> (case request_remote (rr_router rr) env c of (r, c1) \<Rightarrow> Returns (remote_reply mt r, corr + 1, c1)))"
  using assms
  by (auto simp: remote_ref_request_def remote_ref_request_raw_def remote_reply_def split: sum.split prod.split)

end
