(* ===== verification/Remote_Calls.thy ===== *)
theory Remote_Calls
  imports Tcp_Correct Remote_Ref
begin

text \<open>
  Calls through a remote reference, over TCP, to an actor registered on the peer: the wire
  dispatch of the peer finds the handler of the message type, the recipient is asked there
  and its answer comes back.
\<close>

section \<open>Finding the handler\<close>

text \<open>A handler registered for other message types declines the message and changes nothing.\<close>

definition declines :: "string \<Rightarrow> 's handler \<Rightarrow> bool" where
  "declines rid h \<longleftrightarrow> (\<forall>env s. we_remote_msg_id env = rid \<longrightarrow>
     (\<exists>e g. h env s = Returns (Inl (TeWire (MessageIdMismatch e g)), s)) \<or>
     (\<exists>p. h env s = Returns (Inl (TeProtocol p), s)))"

lemma wire_dispatch_declines: "rid' \<noteq> rid \<Longrightarrow> declines rid (wire_dispatch rid' de ser a rc)"
  by (auto simp: declines_def wire_dispatch_def decode_payload_def)

lemma try_handlers_finds:
  assumes "\<forall>h \<in> set before. declines (we_remote_msg_id env) h" "h env s = Returns (Inr reply, s1)"
  shows "try_handlers (before @ h # after) env e s = Returns (Inr reply, s1)"
  using assms
proof (induction before arbitrary: e)
  case Nil
  then show ?case by simp
next
  case (Cons x xs)
  then have "(\<exists>e g. x env s = Returns (Inl (TeWire (MessageIdMismatch e g)), s)) \<or>
      (\<exists>p. x env s = Returns (Inl (TeProtocol p), s))" by (simp add: declines_def)
  with Cons show ?case by auto
qed

text \<open>When every handler declines, the message is refused and nothing changes.\<close>

lemma try_handlers_refuses:
  assumes "\<forall>h \<in> set hs. declines (we_remote_msg_id env) h" "\<And>x. e = Some x \<Longrightarrow> \<exists>a g. x = TeWire (MessageIdMismatch a g)"
  shows "\<exists>x. try_handlers hs env e s = Returns (Inl x, s)"
  using assms
proof (induction hs arbitrary: e)
  case Nil
  then show ?case by simp
next
  case (Cons h hs)
  have "(\<exists>e g. h env s = Returns (Inl (TeWire (MessageIdMismatch e g)), s)) \<or>
      (\<exists>p. h env s = Returns (Inl (TeProtocol p), s))" using Cons.prems(1) by (simp add: declines_def)
  then show ?case
  proof (elim disjE exE)
    fix a g assume "h env s = Returns (Inl (TeWire (MessageIdMismatch a g)), s)"
    with Cons.IH [of "Some (TeWire (MessageIdMismatch a g))"] Cons.prems(1) show ?thesis by simp
  next
    fix p assume "h env s = Returns (Inl (TeProtocol p), s)"
    with Cons.IH [of e] Cons.prems show ?thesis by simp
  qed
qed

section \<open>Requests\<close>

definition message_ok :: "('m, 'r) message_type \<Rightarrow> bool" where
  "message_ok mt \<longleftrightarrow> (\<forall>m bs. mt_ser mt m = Inr bs \<longrightarrow> mt_de mt bs = Inr m) \<and>
     (\<forall>v bs. mt_reply_ser mt v = Inr bs \<longrightarrow> mt_reply_de mt bs = Inr v)"

text \<open>
  The actor is served on the peer: among the handlers of its address is the one of this message
  type, and those before it decline.
\<close>

definition served :: "('m, 'r) message_type \<Rightarrow> actor_address \<Rightarrow> ('m, 'r, 't) recipient \<Rightarrow> 't routes \<Rightarrow> bool" where
  "served mt a rc rs \<longleftrightarrow> (\<exists>before after. rs a =
     Some (before @ wire_dispatch (mt_remote_id mt) (mt_de mt) (mt_reply_ser mt) a rc # after) \<and>
     (\<forall>h \<in> set before. declines (mt_remote_id mt) h))"

definition request_envelope :: "('m, 'r) message_type \<Rightarrow> actor_address \<Rightarrow> bytes \<Rightarrow> u64 \<Rightarrow> wire_envelope" where
  "request_envelope mt a payload corr =
     \<lparr>we_to = a, we_remote_msg_id = mt_remote_id mt, we_payload = payload, we_correlation_id = corr\<rparr>"

lemma served_dispatch:
  assumes "served mt a rc rs" "message_ok mt" "mt_ser mt m = Inr p" "mt_reply_ser mt v = Inr rp" "corr \<noteq> 0"
    "rc_ask rc m t = Returns (Inr v, t1)"
  shows "address_dispatch rs (request_envelope mt a p corr) t = Returns (Inr (Some rp), t1)"
proof -
  let ?env = "request_envelope mt a p corr"
  from assms(1) obtain before after where rs: "rs a =
      Some (before @ wire_dispatch (mt_remote_id mt) (mt_de mt) (mt_reply_ser mt) a rc # after)"
    and dec: "\<forall>h \<in> set before. declines (mt_remote_id mt) h" unfolding served_def by blast
  have "wire_dispatch (mt_remote_id mt) (mt_de mt) (mt_reply_ser mt) a rc ?env t = Returns (Inr (Some rp), t1)"
    using assms by (simp add: wire_dispatch_def request_envelope_def decode_payload_def message_ok_def encode_reply_def)
  moreover have "we_remote_msg_id ?env = mt_remote_id mt" "we_to ?env = a" by (simp_all add: request_envelope_def)
  ultimately show ?thesis
    using rs dec by (simp add: address_dispatch_def try_handlers_finds)
qed

section \<open>Properties\<close>

text \<open>
  C18. Asking an actor on another node is asking it there: a request through a remote reference,
  on a new TCP connection to a node that serves the actor, returns what the recipient
  answers on that node, leaves the node in the state the recipient left it in (after the
  snapshots of the greeting), and keeps the connection for the next request.
\<close>

theorem remote_request_transparent:
  assumes mt: "message_ok mt" "mt_ser mt m = Inr p" "mt_reply_ser mt v = Inr rp" and corr: "corr \<noteq> 0"
    and en: "meets en s s2 t0 t2" "dials en net tt t0" "en_handler en = address_dispatch rs" "served mt a rc rs"
    and a: "node a = en_there en" "en_there en \<noteq> en_here en"
    and ask: "rc_ask rc m t2 = Returns (Inr v, t3)"
    and q: "sent_as (en_codec en) (ActorFrame (request_envelope mt a p corr)) qb"
    and rep: "encode_reply_frame (en_codec en) \<lparr>wr_correlation_id = corr, wr_payload = rp\<rparr> = Inr rb" "length rb \<le> MAX_FRAME_SIZE"
    and rr: "rr_address rr = a" "ro_transport (rr_router rr) = tcp_as_transport (en_codec en) net"
  shows "\<exists>sk. remote_ref_request (en_here en) mt rr m (corr, (tt, s)) =
      Returns (Inr v, corr + 1, (tt\<lparr>tt_connections := (tt_connections tt)(en_there en \<mapsto> sk)\<rparr>, s2)) \<and>
    (\<exists>e out. serve_connection (en_codec en) (en_there en) (en_handler en) (en_server en) None (sk_out sk) t0 =
       Returns (e, out, t3))"
proof -
  let ?env = "request_envelope mt a p corr"
  have "en_handler en ?env t2 = Returns (Inr (Some rp), t3)"
    using served_dispatch [OF en(4) mt corr ask] en(3) by simp
  from tcp_actor_request [OF en(1,2) q _ _ this] corr a(1) rep
  obtain sk where sk: "tcp_request_envelope (en_codec en) net ?env (tt, s) =
      (Inr rp, (tt\<lparr>tt_connections := (tt_connections tt)(en_there en \<mapsto> sk)\<rparr>, s2))"
    "\<exists>e out. serve_connection (en_codec en) (en_there en) (en_handler en) (en_server en) None (sk_out sk) t0 =
       Returns (e, out, t3)"
    by (auto simp: request_envelope_def)
  have "local_recipient (en_here en) rr = None" using a rr(1) by (auto simp: local_recipient_def is_local_def)
  moreover have "wire_request (mt_remote_id mt) (mt_ser mt) a m corr = Inr ?env"
    using mt(2) by (simp add: wire_request_def encode_payload_def request_envelope_def)
  moreover have "remote_reply mt (Inr rp) = Inr v" using mt(1,3) by (simp add: remote_reply_def decode_answer_def decode_reply_def message_ok_def)
  ultimately show ?thesis
    using sk rr by (auto simp: remote_request_over_wire request_remote_def tcp_as_transport_def)
qed

definition add_type :: "(nat, nat) message_type" where
  "add_type = \<lparr>mt_remote_id = ''add/v1'', mt_ser = table_ser [(3, [7])], mt_de = table_de [(3, [7])],
     mt_reply_ser = table_ser [(4, [8])], mt_reply_de = table_de [(4, [8])]\<rparr>"

definition adder :: actor_address where
  "adder = \<lparr>node = NodeId ''b'', actor_id = ActorId 1\<rparr>"

definition add_recipient :: "(nat, nat, nat) recipient" where
  "add_recipient = \<lparr>rc_send = \<lambda>m t. Returns (Inr (), t + m), rc_ask = \<lambda>m t. Returns (Inr (m + 1), t + m),
     rc_request_raw = \<lambda>m t. Returns (Inr m, t + m), rc_recv = \<lambda>rx t. Returns (Some (rx + 1), t)\<rparr>"

definition call_codec :: codec where
  "call_codec = demo_codec\<lparr>
     ser_frame := table_ser [(RegistryFrame (RegSnapshot []), [3]), (PgFrame (PgSnapshot []), [4]),
       (ActorFrame (request_envelope add_type adder [7] 1), [5])],
     de_frame := table_de [(RegistryFrame (RegSnapshot []), [3]), (PgFrame (PgSnapshot []), [4]),
       (ActorFrame (request_envelope add_type adder [7] 1), [5])],
     ser_reply := table_ser [(\<lparr>wr_correlation_id = 1, wr_payload = [8]\<rparr>, [9])],
     de_reply := table_de [(\<lparr>wr_correlation_id = 1, wr_payload = [8]\<rparr>, [9])]\<rparr>"

lemma call_codec_ok: "codec_ok call_codec"
proof -
  have "de_frame call_codec bs = Inr x" if "ser_frame call_codec x = Inr bs" for x bs
    using that unfolding call_codec_def by (simp del: map_of.simps) (erule table_roundtrip [rotated], simp)
  moreover have "de_reply call_codec bs = Inr x" if "ser_reply call_codec x = Inr bs" for x bs
    using that unfolding call_codec_def by (simp del: map_of.simps) (erule table_roundtrip [rotated], simp)
  moreover have "de_handshake call_codec bs = Inr x" if "ser_handshake call_codec x = Inr bs" for x bs
    using that demo_codec_ok by (simp add: codec_ok_def call_codec_def)
  moreover have "de_supervision call_codec bs = Inr x" if "ser_supervision call_codec x = Inr bs" for x bs
    using that demo_codec_ok by (simp add: codec_ok_def call_codec_def)
  ultimately show ?thesis unfolding codec_ok_def by blast
qed

definition add_routes :: "nat routes" where
  "add_routes = dispatch_register adder
     (wire_dispatch (mt_remote_id add_type) (mt_de add_type) (mt_reply_ser add_type) adder add_recipient) Map.empty"

definition call_ends :: "(nat, nat) ends" where
  "call_ends = \<lparr>en_codec = call_codec, en_here = NodeId ''a'', en_there = NodeId ''b'', en_client = control_none,
     en_server = control_none, en_handler = address_dispatch add_routes\<rparr>"

definition call_net :: "string \<Rightarrow> string + socket" where
  "call_net addr = Inr (new_socket (serving call_codec (NodeId ''b'') (address_dispatch add_routes) control_none 10))"

definition call_tcp :: "nat tcp_transport" where
  "call_tcp = \<lparr>tt_local = NodeId ''a'', tt_peers = [(NodeId ''b'', ''host:1'')], tt_connections = Map.empty,
     tt_control = control_none\<rparr>"

definition call_ref :: "(nat, nat, nat tcp_transport \<times> nat) remote_actor_ref" where
  "call_ref = \<lparr>rr_address = adder, rr_local = None, rr_router = router_new (tcp_as_transport call_codec call_net)\<rparr>"

lemma call_greets: "greets call_codec (NodeId ''a'') (control_none :: nat control_hooks) s [1] [3] [4]"
    "greets call_codec (NodeId ''b'') (control_none :: nat control_hooks) s [2] [3] [4]"
  by (simp_all add: greets_def sent_as_def call_codec_def demo_codec_def Let_def table_ser_def encode_handshake_def
      encode_cluster_frame_def registry_snapshot_event_def pg_snapshot_event_def control_none_def MAX_FRAME_SIZE_def
      handshake_local_def)

theorem remote_request_transparent_witness:
  "\<exists>sk. remote_ref_request (NodeId ''a'') add_type call_ref 3 (1, (call_tcp, 0)) =
      Returns (Inr 4, 2, (call_tcp\<lparr>tt_connections := [NodeId ''b'' \<mapsto> sk]\<rparr>, 0)) \<and>
    (\<exists>e out. serve_connection call_codec (NodeId ''b'') (address_dispatch add_routes) control_none None (sk_out sk) 10 =
       Returns (e, out, 13))"
proof -
  have dec: "decode_cluster_frame call_codec [3] = Inr (RegistryFrame (RegSnapshot []))"
    "decode_cluster_frame call_codec [4] = Inr (PgFrame (PgSnapshot []))"
    by (simp_all add: call_codec_def table_de_def decode_cluster_frame_def)
  have mt: "message_ok add_type" "mt_ser add_type 3 = Inr [7]" "mt_reply_ser add_type 4 = Inr [8]"
    by (auto simp: message_ok_def add_type_def table_ser_def table_de_def split: if_splits)
  have meets: "meets call_ends 0 0 10 10"
    unfolding meets_def
    by (rule conjI [OF _ exI [of _ "[1]", OF exI [of _ "[3]", OF exI [of _ "[4]", OF exI [of _ "[2]",
          OF exI [of _ "[3]", OF exI [of _ "[4]", OF exI [of _ 0, OF exI [of _ 10]]]]]]]]])
      (simp_all add: call_ends_def call_codec_ok call_greets apply_registry_event_def apply_pg_event_def
        apply_registry_snapshot_def apply_pg_snapshot_def dec give_def)
  have dials: "dials call_ends call_net call_tcp 10"
    by (simp add: dials_def call_ends_def call_tcp_def call_net_def)
  have served: "served add_type adder add_recipient add_routes"
    unfolding served_def by (intro exI [of _ "[]"]) (simp add: add_routes_def dispatch_register_def)
  have q: "sent_as (en_codec call_ends) (ActorFrame (request_envelope add_type adder [7] 1)) [5]"
    "encode_reply_frame (en_codec call_ends) \<lparr>wr_correlation_id = 1, wr_payload = [8]\<rparr> = Inr [9]"
    "length [9 :: u8] \<le> MAX_FRAME_SIZE"
    by (simp_all add: call_ends_def call_codec_def sent_as_def encode_cluster_frame_def encode_reply_frame_def table_ser_def
        MAX_FRAME_SIZE_def)
  have rest: "en_handler call_ends = address_dispatch add_routes" "node adder = en_there call_ends"
    "en_there call_ends \<noteq> en_here call_ends" "rc_ask add_recipient 3 10 = Returns (Inr 4, 13)" "rr_address call_ref = adder"
    "ro_transport (rr_router call_ref) = tcp_as_transport (en_codec call_ends) call_net" "(1 :: u64) \<noteq> 0"
    by (simp_all add: call_ends_def adder_def add_recipient_def call_ref_def router_new_def)
  from remote_request_transparent [OF mt rest(7) meets dials rest(1) served rest(2,3,4) q rest(5,6)] show ?thesis
    by (simp add: call_ends_def call_tcp_def)
qed

end
