(* ===== verification/Shutdown_Signals.thy ===== *)
theory Shutdown_Signals
  imports World
begin

text \<open>
  The process-wide registry of actors to be told of an operating-system shutdown signal
  (\<open>concurrency/src/shutdown_signal.rs\<close>). An entry's callback sends to the signal channel of one
  actor, so it is known by the actor.
\<close>

record signal_registry =
  sg_next :: u64
  sg_entries :: "(u64 \<times> actor_id) list"
  sg_dispatcher :: bool

definition signal_registry_new :: signal_registry where
  "signal_registry_new = \<lparr>sg_next = 1, sg_entries = [], sg_dispatcher = False\<rparr>"

definition register_shutdown_signal :: "actor_id \<Rightarrow> signal_registry \<Rightarrow> u64 \<times> signal_registry" where
  "register_shutdown_signal a g =
     (sg_next g, g\<lparr>sg_next := sg_next g + 1, sg_entries := sg_entries g @ [(sg_next g, a)]\<rparr>)"

text \<open>Dropping the guard that registration returned.\<close>

definition drop_signal_guard :: "u64 \<Rightarrow> signal_registry \<Rightarrow> signal_registry" where
  "drop_signal_guard i g = g\<lparr>sg_entries := filter (\<lambda>(j, _). j \<noteq> i) (sg_entries g)\<rparr>"

definition send_os_signal :: "os_signal \<Rightarrow> actor_id \<Rightarrow> 'm cells \<Rightarrow> (actor_error + unit) \<times> 'm cells" where
  "send_os_signal sig a cells =
     (case send_signal_tasks (signal (cl_mailbox (cells a))) sig of
        (r, ch) \<Rightarrow> (r, modify a (\<lambda>c. c\<lparr>cl_mailbox := (cl_mailbox c)\<lparr>signal := ch\<rparr>\<rparr>) cells))"

fun dispatch_entries ::
  "os_signal \<Rightarrow> (u64 \<times> actor_id) list \<Rightarrow> 'm cells \<Rightarrow> (u64 \<times> actor_id) list \<times> 'm cells" where
  "dispatch_entries sig [] cells = ([], cells)"
| "dispatch_entries sig ((i, a) # es) cells =
     (case send_os_signal sig a cells of
        (Inl _, cells1) \<Rightarrow> dispatch_entries sig es cells1
      | (Inr _, cells1) \<Rightarrow> apfst ((#) (i, a)) (dispatch_entries sig es cells1))"

definition dispatch_shutdown_signal ::
  "os_signal \<Rightarrow> signal_registry \<times> 'm cells \<Rightarrow> signal_registry \<times> 'm cells" where
  "dispatch_shutdown_signal sig = (\<lambda>(g, cells).
     (case dispatch_entries sig (sg_entries g) cells of (es, cells1) \<Rightarrow> (g\<lparr>sg_entries := es\<rparr>, cells1)))"

fun register_shutdown_on_signal :: "actor_id list \<Rightarrow> signal_registry \<Rightarrow> u64 list \<times> signal_registry" where
  "register_shutdown_on_signal [] g = ([], g)"
| "register_shutdown_on_signal (a # as) g =
     (case register_shutdown_signal a g of
        (i, g1) \<Rightarrow> apfst ((#) i) (register_shutdown_on_signal as g1))"

text \<open>The dispatcher is started once per process; the result tells whether this call starts it.\<close>

definition spawn_shutdown_signal_dispatcher :: "signal_registry \<Rightarrow> bool \<times> signal_registry" where
  "spawn_shutdown_signal_dispatcher g = (\<not> sg_dispatcher g, g\<lparr>sg_dispatcher := True\<rparr>)"

section \<open>Facts\<close>

lemma send_os_signal_other: "b \<noteq> a \<Longrightarrow> send_os_signal sig a cells = (r, cells1) \<Longrightarrow> cells1 b = cells b"
  by (auto simp: send_os_signal_def modify_def split: prod.splits)

lemma send_os_signal_self:
  assumes "send_os_signal sig a cells = (r, cells1)"
  shows "is_ok r \<longleftrightarrow> rx_alive (signal (cl_mailbox (cells a)))"
    "queue (signal (cl_mailbox (cells1 a))) = queue (signal (cl_mailbox (cells a))) @
       (if rx_alive (signal (cl_mailbox (cells a))) then [OsShutdown sig] else [])"
    "rx_alive (signal (cl_mailbox (cells1 a))) = rx_alive (signal (cl_mailbox (cells a)))"
  using assms
  by (auto simp: send_os_signal_def modify_def send_signal_tasks_def send_control_def chan_send_def
      split: prod.splits if_splits sum.splits)

text \<open>
  A dispatched signal reaches every registered actor that is still there, once per
  registration, and nobody else; the registrations of actors that are gone are dropped.
\<close>

lemma dispatch_entries_spec:
  assumes "dispatch_entries sig es cells = (es', cells')"
  shows "es' = filter (\<lambda>(i, a). rx_alive (signal (cl_mailbox (cells a)))) es \<and>
    (\<forall>b. queue (signal (cl_mailbox (cells' b))) = queue (signal (cl_mailbox (cells b))) @
       (if rx_alive (signal (cl_mailbox (cells b)))
        then replicate (length (filter (\<lambda>(i, a). a = b) es)) (OsShutdown sig) else []))"
  using assms
proof (induction sig es cells arbitrary: es' cells' rule: dispatch_entries.induct)
  case (1 sig cells)
  then show ?case by simp
next
  case (2 sig i a es cells)
  obtain r c1 where s: "send_os_signal sig a cells = (r, c1)" by fastforce
  note self = send_os_signal_self [OF s]
  have alive: "rx_alive (signal (cl_mailbox (c1 b))) = rx_alive (signal (cl_mailbox (cells b)))" for b
    using self(3) send_os_signal_other [OF _ s, of b] by (cases "b = a") simp_all
  obtain es1 c2 where d: "dispatch_entries sig es c1 = (es1, c2)" by fastforce
  have rr: "r = Inl x \<Longrightarrow> \<not> rx_alive (signal (cl_mailbox (cells a)))" for x using self(1) by auto
  have IH: "es1 = filter (\<lambda>(i, a). rx_alive (signal (cl_mailbox (c1 a)))) es \<and>
    (\<forall>b. queue (signal (cl_mailbox (c2 b))) = queue (signal (cl_mailbox (c1 b))) @
       (if rx_alive (signal (cl_mailbox (c1 b)))
        then replicate (length (filter (\<lambda>(i, a). a = b) es)) (OsShutdown sig) else []))"
    using "2.IH" [OF s [symmetric]] d by (cases r) auto
  have q: "queue (signal (cl_mailbox (c1 b))) = queue (signal (cl_mailbox (cells b))) @
      (if b = a \<and> rx_alive (signal (cl_mailbox (cells a))) then [OsShutdown sig] else [])" for b
    using self(2) send_os_signal_other [OF _ s, of b] by (cases "b = a") simp_all
  show ?case
  proof (cases r)
    case (Inl x)
    with "2.prems" s d have "es' = es1" "cells' = c2" by simp_all
    with IH rr [OF Inl] q alive show ?thesis by auto
  next
    case (Inr x)
    with self(1) have "rx_alive (signal (cl_mailbox (cells a)))" by simp
    moreover from Inr "2.prems" s d have "es' = (i, a) # es1" "cells' = c2" by simp_all
    ultimately show ?thesis using IH q alive by auto
  qed
qed

end
