(* ===== verification/Libp2p.thy ===== *)
theory Libp2p
  imports Tcp_Correct Remote_Calls
begin

text \<open>
  The libp2p transport (\<open>cluster/src/libp2p/mod.rs\<close>, \<open>codec.rs\<close>): the commands that callers hand to the
  thread of the swarm, its loop over commands, deferred sends and events, the frames it
  serves, and the calls of the transport. The swarm itself is the libp2p crate's: its
  operations are parameters on a state \<open>'w\<close>, with what is relied on of them in \<open>swarm_ok\<close>. A channel
  on which a caller waits is a slot; what is sent on it is recorded. The mutex around the
  shared tables is never poisoned, as no code panics while it holds it.
\<close>

section \<open>Frames of a substream\<close>

definition read_frame_async :: "bytes \<Rightarrow> (transport_error + bytes) \<times> bytes" where
  "read_frame_async inp =
     (case read_exact 4 inp of
        (Inl e, rest) \<Rightarrow> (Inl e, rest)
      | (Inr len_buf, rest) \<Rightarrow>
          (let len = unat (from_be_bytes len_buf)
           in if len > MAX_FRAME_SIZE then (Inl (frame_too_large len), rest) else read_exact len rest))"

definition write_frame_async :: "string option \<Rightarrow> bytes \<Rightarrow> bytes \<Rightarrow> (transport_error + unit) \<times> bytes" where
  "write_frame_async io body out =
     (if length body > MAX_FRAME_SIZE then (Inl (frame_too_large (length body)), out)
      else case io of
             Some e \<Rightarrow> (Inl (TeIo e), out)
           | None \<Rightarrow> (Inr (), out @ to_be_bytes (of_nat (length body)) @ body))"

text \<open>The four methods of the codec; they turn an error into \<open>InvalidData\<close> with its text (\<open>show_error\<close>).\<close>

definition codec_read_request :: "(transport_error \<Rightarrow> string) \<Rightarrow> bytes \<Rightarrow> (string + bytes) \<times> bytes" where
  "codec_read_request show_error inp = apfst (map_sum show_error id) (read_frame_async inp)"

definition codec_write_request ::
  "(transport_error \<Rightarrow> string) \<Rightarrow> string option \<Rightarrow> bytes \<Rightarrow> bytes \<Rightarrow> (string + unit) \<times> bytes" where
  "codec_write_request show_error io req out = apfst (map_sum show_error id) (write_frame_async io req out)"

definition codec_read_response :: "(transport_error \<Rightarrow> string) \<Rightarrow> bytes \<Rightarrow> (string + bytes) \<times> bytes" where
  "codec_read_response show_error inp = apfst (map_sum show_error id) (read_frame_async inp)"

definition codec_write_response ::
  "(transport_error \<Rightarrow> string) \<Rightarrow> string option \<Rightarrow> bytes \<Rightarrow> bytes \<Rightarrow> (string + unit) \<times> bytes" where
  "codec_write_response show_error io res out = apfst (map_sum show_error id) (write_frame_async io res out)"

section \<open>State of the swarm thread\<close>

datatype peer_id = PeerId string

type_synonym multiaddr = string

type_synonym request_id = nat

type_synonym channel_id = nat

type_synonym slot = nat

record libp2p_peer =
  lp_node :: node_id
  lp_peer_id :: peer_id
  lp_addr :: multiaddr

datatype request_reply = RequestSync slot | RequestAsync slot

datatype void_reply = VoidSync slot | VoidAsync slot

datatype pending_reply = PendingSync slot | PendingAsync slot

datatype runtime_command =
    SendCommand peer_id bytes bool request_reply
  | BroadcastCommand bytes void_reply
  | SyncPeerCommand peer_id void_reply

record deferred_send =
  ds_peer :: peer_id
  ds_frame :: bytes
  ds_expect_reply :: bool
  ds_respond_to :: request_reply

datatype swarm_event =
    NewListenAddr multiaddr
  | ConnectionEstablished peer_id
  | RequestReceived channel_id bytes
  | ResponseReceived request_id bytes
  | OutgoingConnectionError "peer_id option"
  | OutboundFailure request_id
  | OtherEvent

text \<open>
  The operations of the swarm that the code calls. \<open>sw_next\<close> is the \<open>select!\<close> of the loop: the next
  event, or none when twenty milliseconds pass first.
\<close>

record 'w swarm_ops =
  sw_is_connected :: "'w \<Rightarrow> peer_id \<Rightarrow> bool"
  sw_dial :: "multiaddr \<Rightarrow> 'w \<Rightarrow> (string + unit) \<times> 'w"
  sw_send_request :: "peer_id \<Rightarrow> bytes \<Rightarrow> 'w \<Rightarrow> request_id \<times> 'w"
  sw_send_response :: "channel_id \<Rightarrow> bytes \<Rightarrow> 'w \<Rightarrow> 'w"
  sw_listen_on :: "multiaddr \<Rightarrow> 'w \<Rightarrow> (string + unit) \<times> 'w"
  sw_add_peer_address :: "peer_id \<Rightarrow> multiaddr \<Rightarrow> 'w \<Rightarrow> 'w"
  sw_next :: "'w \<Rightarrow> swarm_event option \<times> 'w"

text \<open>
  The tables behind the mutex, the variables of the loop, what was sent to the callers, and the
  state of the node that hooks and handlers act on.
\<close>

record ('w, 's) swarm_state =
  ss_swarm :: 'w
  ss_pending :: "(request_id \<times> pending_reply) list"
  ss_peer_to_node :: "(peer_id \<times> node_id) list"
  ss_node_to_peer :: "(node_id \<times> peer_id) list"
  ss_listen_addrs :: "multiaddr list"
  ss_peer_addrs :: "peer_id \<rightharpoonup> multiaddr"
  ss_synced :: "peer_id set"
  ss_deferred :: "deferred_send list"
  ss_replies :: "(slot \<times> (transport_error + bytes)) list"
  ss_voids :: "(slot \<times> (transport_error + unit)) list"
  ss_node :: 's

definition complete_pending ::
  "pending_reply \<Rightarrow> transport_error + bytes \<Rightarrow> ('w, 's) swarm_state \<Rightarrow> ('w, 's) swarm_state" where
  "complete_pending tx r st =
     (case tx of
        PendingSync k \<Rightarrow> st\<lparr>ss_replies := ss_replies st @ [(k, r)]\<rparr>
      | PendingAsync k \<Rightarrow> st\<lparr>ss_replies := ss_replies st @ [(k, r)]\<rparr>)"

definition complete_void ::
  "void_reply \<Rightarrow> transport_error + unit \<Rightarrow> ('w, 's) swarm_state \<Rightarrow> ('w, 's) swarm_state" where
  "complete_void tx r st =
     (case tx of
        VoidSync k \<Rightarrow> st\<lparr>ss_voids := ss_voids st @ [(k, r)]\<rparr>
      | VoidAsync k \<Rightarrow> st\<lparr>ss_voids := ss_voids st @ [(k, r)]\<rparr>)"

section \<open>Commands\<close>

definition dispatch_send :: "'w swarm_ops \<Rightarrow> deferred_send \<Rightarrow> ('w, 's) swarm_state \<Rightarrow> ('w, 's) swarm_state" where
  "dispatch_send ops send st =
     (case sw_send_request ops (ds_peer send) (ds_frame send) (ss_swarm st) of
        (request_id, w) \<Rightarrow>
          (let st1 = st\<lparr>ss_swarm := w\<rparr>
           in if ds_expect_reply send
              then st1\<lparr>ss_pending := AList.update request_id
                     (case ds_respond_to send of
                        RequestSync k \<Rightarrow> PendingSync k
                      | RequestAsync k \<Rightarrow> PendingAsync k) (ss_pending st1)\<rparr>
              else case ds_respond_to send of
                     RequestSync k \<Rightarrow> st1\<lparr>ss_replies := ss_replies st1 @ [(k, Inr [])]\<rparr>
                   | RequestAsync k \<Rightarrow> st1\<lparr>ss_replies := ss_replies st1 @ [(k, Inr [])]\<rparr>))"

fun flush_loop ::
  "'w swarm_ops \<Rightarrow> deferred_send list \<Rightarrow> deferred_send list \<Rightarrow> ('w, 's) swarm_state \<Rightarrow> ('w, 's) swarm_state" where
  "flush_loop ops [] remaining st = st\<lparr>ss_deferred := remaining\<rparr>"
| "flush_loop ops (send # sends) remaining st =
     (if sw_is_connected ops (ss_swarm st) (ds_peer send)
      then flush_loop ops sends remaining (dispatch_send ops send st)
      else flush_loop ops sends (remaining @ [send]) st)"

definition flush_deferred_sends :: "'w swarm_ops \<Rightarrow> ('w, 's) swarm_state \<Rightarrow> ('w, 's) swarm_state" where
  "flush_deferred_sends ops st = flush_loop ops (ss_deferred st) [] st"

definition ensure_peer_dialed :: "'w swarm_ops \<Rightarrow> peer_id \<Rightarrow> (('w, 's) swarm_state, unit) attempt" where
  "ensure_peer_dialed ops p st =
     (if sw_is_connected ops (ss_swarm st) p then (Inr (), st)
      else case ss_peer_addrs st p of
             None \<Rightarrow> (Inr (), st)
           | Some addr \<Rightarrow>
               (case sw_dial ops addr (ss_swarm st) of
                  (r, w) \<Rightarrow> (map_sum TeIo id r, st\<lparr>ss_swarm := w\<rparr>)))"

definition snapshot_frames :: "codec \<Rightarrow> 's control_hooks \<Rightarrow> 's \<Rightarrow> transport_error + bytes list" where
  "snapshot_frames cd c s =
     (case encode_registry_event cd (registry_snapshot_event c s) of
        Inl e \<Rightarrow> Inl e
      | Inr rbytes \<Rightarrow>
          (case encode_pg_event cd (pg_snapshot_event c s) of
             Inl e \<Rightarrow> Inl e
           | Inr pbytes \<Rightarrow> Inr [rbytes, pbytes]))"

definition request_ignored ::
  "'w swarm_ops \<Rightarrow> peer_id \<Rightarrow> bytes \<Rightarrow> ('w, 's) swarm_state \<Rightarrow> ('w, 's) swarm_state" where
  "request_ignored ops p frame st = st\<lparr>ss_swarm := snd (sw_send_request ops p frame (ss_swarm st))\<rparr>"

definition send_control_snapshots_to_peer ::
  "'w swarm_ops \<Rightarrow> codec \<Rightarrow> 's control_hooks \<Rightarrow> peer_id \<Rightarrow> (('w, 's) swarm_state, unit) attempt" where
  "send_control_snapshots_to_peer ops cd c p st =
     (case snapshot_frames cd c (ss_node st) of
        Inl e \<Rightarrow> (Inl e, st)
      | Inr frames \<Rightarrow> (Inr (), fold (request_ignored ops p) frames st))"

fun broadcast_to ::
  "'w swarm_ops \<Rightarrow> bytes \<Rightarrow> peer_id list \<Rightarrow> (('w, 's) swarm_state, unit) attempt" where
  "broadcast_to ops frame [] = give (Inr ())"
| "broadcast_to ops frame (p # ps) =
     and_then (ensure_peer_dialed ops p) (\<lambda>_ st. broadcast_to ops frame ps (request_ignored ops p frame st))"

definition handle_command ::
  "'w swarm_ops \<Rightarrow> codec \<Rightarrow> 's control_hooks \<Rightarrow> runtime_command \<Rightarrow> (('w, 's) swarm_state, unit) attempt" where
  "handle_command ops cd c cmd =
     (case cmd of
        SendCommand p frame expect_reply respond_to \<Rightarrow>
          and_then (ensure_peer_dialed ops p) (\<lambda>_ st.
            let send = \<lparr>ds_peer = p, ds_frame = frame, ds_expect_reply = expect_reply, ds_respond_to = respond_to\<rparr>
            in (Inr (), if sw_is_connected ops (ss_swarm st) p then dispatch_send ops send st
                        else st\<lparr>ss_deferred := ss_deferred st @ [send]\<rparr>))
      | BroadcastCommand frame respond_to \<Rightarrow>
          (\<lambda>st. and_then (broadcast_to ops frame (map fst (ss_peer_to_node st)))
                  (\<lambda>_ st1. (Inr (), complete_void respond_to (Inr ()) st1)) st)
      | SyncPeerCommand p respond_to \<Rightarrow>
          and_then (ensure_peer_dialed ops p) (\<lambda>_.
          and_then (send_control_snapshots_to_peer ops cd c p) (\<lambda>_ st.
            (Inr (), complete_void respond_to (Inr ()) (st\<lparr>ss_synced := insert p (ss_synced st)\<rparr>)))))"

section \<open>Events\<close>

definition apply_inbound_frame ::
  "codec \<Rightarrow> 's control_hooks \<Rightarrow> bytes \<Rightarrow> 's \<Rightarrow> ((transport_error + unit) \<times> 's) run" where
  "apply_inbound_frame cd c frame s =
     (if frame = [] then Returns (Inr (), s)
      else case decode_cluster_frame cd frame of
             Inl e \<Rightarrow> Returns (Inl (TeWire e), s)
           | Inr (RegistryFrame ev) \<Rightarrow> Returns (apply_registry_event c ev s)
           | Inr (PgFrame ev) \<Rightarrow> Returns (apply_pg_event c ev s)
           | Inr (SupervisionFrame env) \<Rightarrow>
               run_then (apply_supervision (ch_supervision c) env s)
                 (\<lambda>(r, s1). Returns (map_sum id (\<lambda>_. ()) r, s1))
           | Inr (ActorFrame _) \<Rightarrow> Returns (Inr (), s))"

definition handle_inbound_frame ::
  "codec \<Rightarrow> 's handler \<Rightarrow> 's control_hooks \<Rightarrow> bytes \<Rightarrow> 's \<Rightarrow> ((transport_error + bytes) \<times> 's) run" where
  "handle_inbound_frame cd disp c frame s =
     (case decode_cluster_frame cd frame of
        Inl e \<Rightarrow> Returns (Inl (TeWire e), s)
      | Inr (RegistryFrame ev) \<Rightarrow> Returns (apfst (map_sum id (\<lambda>_. [])) (apply_registry_event c ev s))
      | Inr (PgFrame ev) \<Rightarrow> Returns (apfst (map_sum id (\<lambda>_. [])) (apply_pg_event c ev s))
      | Inr (SupervisionFrame env) \<Rightarrow>
          run_then (apply_supervision (ch_supervision c) env s) (\<lambda>(r, s1). Returns (case r of
              Inl e \<Rightarrow> Inl e
            | Inr (Some reply) \<Rightarrow> encode_supervision cd reply
            | Inr None \<Rightarrow> Inr [], s1))
      | Inr (ActorFrame env) \<Rightarrow>
          run_then (disp env s) (\<lambda>(r, s1). Returns (case r of
              Inl e \<Rightarrow> Inl e
            | Inr reply \<Rightarrow>
                if we_correlation_id env = 0 then Inr []
                else map_sum TeWire id (encode_reply_frame cd
                       \<lparr>wr_correlation_id = we_correlation_id env,
                        wr_payload = (case reply of Some p \<Rightarrow> p | None \<Rightarrow> [])\<rparr>), s1)))"

definition handle_swarm_event ::
  "'w swarm_ops \<Rightarrow> codec \<Rightarrow> 's handler \<Rightarrow> 's control_hooks \<Rightarrow> swarm_event \<Rightarrow> ('w, 's) swarm_state
    \<Rightarrow> ((transport_error + unit) \<times> ('w, 's) swarm_state) run" where
  "handle_swarm_event ops cd disp c ev st =
     (case ev of
        NewListenAddr a \<Rightarrow> Returns (Inr (), st\<lparr>ss_listen_addrs := ss_listen_addrs st @ [a]\<rparr>)
      | ConnectionEstablished p \<Rightarrow>
          Returns (if p \<in> ss_synced st then (Inr (), st)
                   else and_then (send_control_snapshots_to_peer ops cd c p)
                          (\<lambda>_ st1. (Inr (), st1\<lparr>ss_synced := insert p (ss_synced st1)\<rparr>)) st)
      | RequestReceived ch frame \<Rightarrow>
          run_then (handle_inbound_frame cd disp c frame (ss_node st)) (\<lambda>(r, s1).
            let st1 = st\<lparr>ss_node := s1\<rparr>
            in Returns (case r of
                 Inl e \<Rightarrow> (Inl e, st1)
               | Inr response \<Rightarrow> (Inr (), st1\<lparr>ss_swarm := sw_send_response ops ch response (ss_swarm st1)\<rparr>)))
      | ResponseReceived rid response \<Rightarrow>
          (case map_of (ss_pending st) rid of
             Some tx \<Rightarrow>
               Returns (Inr (), complete_pending tx (Inr response) (st\<lparr>ss_pending := AList.delete rid (ss_pending st)\<rparr>))
           | None \<Rightarrow>
               run_then (apply_inbound_frame cd c response (ss_node st))
                 (\<lambda>(r, s1). Returns (r, st\<lparr>ss_node := s1\<rparr>)))
      | OutgoingConnectionError _ \<Rightarrow> Returns (Inr (), st)
      | OutboundFailure _ \<Rightarrow> Returns (Inr (), st)
      | OtherEvent \<Rightarrow> Returns (Inr (), st))"

section \<open>The loop\<close>

fun handle_commands ::
  "'w swarm_ops \<Rightarrow> codec \<Rightarrow> 's control_hooks \<Rightarrow> runtime_command list \<Rightarrow> (('w, 's) swarm_state, unit) attempt" where
  "handle_commands ops cd c [] = give (Inr ())"
| "handle_commands ops cd c (cmd # cmds) =
     and_then (handle_command ops cd c cmd) (\<lambda>_. handle_commands ops cd c cmds)"

text \<open>One turn: the commands received so far, the deferred sends, then the \<open>select!\<close>.\<close>

definition swarm_select ::
  "'w swarm_ops \<Rightarrow> codec \<Rightarrow> 's handler \<Rightarrow> 's control_hooks \<Rightarrow> ('w, 's) swarm_state
    \<Rightarrow> ((transport_error + unit) \<times> ('w, 's) swarm_state) run" where
  "swarm_select ops cd disp c st =
     (case sw_next ops (ss_swarm st) of
        (None, w) \<Rightarrow> Returns (Inr (), st\<lparr>ss_swarm := w\<rparr>)
      | (Some ev, w) \<Rightarrow>
          run_then (handle_swarm_event ops cd disp c ev (st\<lparr>ss_swarm := w\<rparr>)) (\<lambda>(r, st1). Returns (case r of
              Inl e \<Rightarrow> (Inl e, st1)
            | Inr _ \<Rightarrow> (Inr (), flush_deferred_sends ops st1))))"

definition swarm_turn ::
  "'w swarm_ops \<Rightarrow> codec \<Rightarrow> 's handler \<Rightarrow> 's control_hooks \<Rightarrow> runtime_command list \<Rightarrow> ('w, 's) swarm_state
    \<Rightarrow> ((transport_error + unit) \<times> ('w, 's) swarm_state) run" where
  "swarm_turn ops cd disp c cmds st =
     (case handle_commands ops cd c cmds st of
        (Inl e, st1) \<Rightarrow> Returns (Inl e, st1)
      | (Inr _, st1) \<Rightarrow> swarm_select ops cd disp c (flush_deferred_sends ops st1))"

datatype loop_status = StillRunning | ShutDown | StoppedBy transport_error

text \<open>
  The loop over a sequence of turns, each with what it finds in the shutdown flag and on the
  command channel; after the last turn of the sequence the loop is still running.
\<close>

fun swarm_loop ::
  "'w swarm_ops \<Rightarrow> codec \<Rightarrow> 's handler \<Rightarrow> 's control_hooks \<Rightarrow> (bool \<times> runtime_command list) list \<Rightarrow> ('w, 's) swarm_state
    \<Rightarrow> (loop_status \<times> ('w, 's) swarm_state) run" where
  "swarm_loop ops cd disp c [] st = Returns (StillRunning, st)"
| "swarm_loop ops cd disp c ((shutdown, cmds) # turns) st =
     (if shutdown then Returns (ShutDown, st)
      else run_then (swarm_turn ops cd disp c cmds st) (\<lambda>(r, st1).
        case r of
          Inl e \<Rightarrow> Returns (StoppedBy e, st1)
        | Inr _ \<Rightarrow> swarm_loop ops cd disp c turns st1))"

definition cluster_start_state :: "libp2p_peer list \<Rightarrow> 'w \<Rightarrow> 's \<Rightarrow> ('w, 's) swarm_state" where
  "cluster_start_state peers w s =
     \<lparr>ss_swarm = w, ss_pending = [],
      ss_peer_to_node = fold (\<lambda>p. AList.update (lp_peer_id p) (lp_node p)) peers [],
      ss_node_to_peer = fold (\<lambda>p. AList.update (lp_node p) (lp_peer_id p)) peers [],
      ss_listen_addrs = [], ss_peer_addrs = Map.empty, ss_synced = {}, ss_deferred = [], ss_replies = [], ss_voids = [],
      ss_node = s\<rparr>"

definition run_swarm_async ::
  "'w swarm_ops \<Rightarrow> codec \<Rightarrow> 's handler \<Rightarrow> 's control_hooks \<Rightarrow> multiaddr \<Rightarrow> libp2p_peer list
    \<Rightarrow> (bool \<times> runtime_command list) list \<Rightarrow> ('w, 's) swarm_state \<Rightarrow> (loop_status \<times> ('w, 's) swarm_state) run" where
  "run_swarm_async ops cd disp c listen_addr peers turns st =
     (case sw_listen_on ops listen_addr (ss_swarm st) of
        (Inl e, w) \<Rightarrow> Returns (StoppedBy (TeIo e), st\<lparr>ss_swarm := w\<rparr>)
      | (Inr _, w) \<Rightarrow>
          swarm_loop ops cd disp c turns
            (st\<lparr>ss_swarm := fold (\<lambda>p. sw_add_peer_address ops (lp_peer_id p) (lp_addr p)) peers w,
                ss_peer_addrs := fold (\<lambda>p m. m(lp_peer_id p \<mapsto> lp_addr p)) peers Map.empty,
                ss_synced := {}, ss_deferred := []\<rparr>))"

section \<open>The callers\<close>

text \<open>
  What a caller does before it waits: look the peer up and hand over the command. \<open>alive\<close> says whether
  the receiver of the commands still exists.
\<close>

definition submit_send ::
  "bool \<Rightarrow> (node_id \<times> peer_id) list \<Rightarrow> node_id \<Rightarrow> bytes \<Rightarrow> bool \<Rightarrow> request_reply \<Rightarrow> transport_error + runtime_command" where
  "submit_send alive node_to_peer n frame expect_reply respond_to =
     (case map_of node_to_peer n of
        None \<Rightarrow> Inl TeRemoteUnreachable
      | Some p \<Rightarrow> if alive then Inr (SendCommand p frame expect_reply respond_to) else Inl TeRemoteUnreachable)"

text \<open>
  What it returns: what was sent on its slot (\<open>None\<close>: the sender was dropped, or on the blocking
  path thirty seconds passed).
\<close>

definition reply_of :: "(transport_error + 'a) option \<Rightarrow> transport_error + 'a" where
  "reply_of received = (case received of Some r \<Rightarrow> r | None \<Rightarrow> Inl TeRemoteUnreachable)"

definition send_frame ::
  "bool \<Rightarrow> (node_id \<times> peer_id) list \<Rightarrow> (runtime_command \<Rightarrow> (transport_error + bytes) option) \<Rightarrow> slot \<Rightarrow> node_id \<Rightarrow> bytes \<Rightarrow> bool
    \<Rightarrow> transport_error + bytes" where
  "send_frame alive node_to_peer outcome k n frame expect_reply =
     (case submit_send alive node_to_peer n frame expect_reply (RequestSync k) of
        Inl e \<Rightarrow> Inl e
      | Inr cmd \<Rightarrow> reply_of (outcome cmd))"

definition send_frame_async ::
  "bool \<Rightarrow> (node_id \<times> peer_id) list \<Rightarrow> (runtime_command \<Rightarrow> (transport_error + bytes) option) \<Rightarrow> slot \<Rightarrow> node_id \<Rightarrow> bytes \<Rightarrow> bool
    \<Rightarrow> transport_error + bytes" where
  "send_frame_async alive node_to_peer outcome k n frame expect_reply =
     (case submit_send alive node_to_peer n frame expect_reply (RequestAsync k) of
        Inl e \<Rightarrow> Inl e
      | Inr cmd \<Rightarrow> reply_of (outcome cmd))"

definition broadcast_frame ::
  "bool \<Rightarrow> (runtime_command \<Rightarrow> (transport_error + unit) option) \<Rightarrow> slot \<Rightarrow> bytes \<Rightarrow> transport_error + unit" where
  "broadcast_frame alive outcome k frame =
     (if alive then reply_of (outcome (BroadcastCommand frame (VoidSync k))) else Inl TeRemoteUnreachable)"

definition sync_peer ::
  "bool \<Rightarrow> (runtime_command \<Rightarrow> (transport_error + unit) option) \<Rightarrow> slot \<Rightarrow> peer_id \<Rightarrow> transport_error + unit" where
  "sync_peer alive outcome k p =
     (if alive then reply_of (outcome (SyncPeerCommand p (VoidSync k))) else Inl TeRemoteUnreachable)"

fun sync_peers_loop :: "(peer_id \<Rightarrow> transport_error + unit) \<Rightarrow> peer_id list \<Rightarrow> transport_error + unit" where
  "sync_peers_loop sync [] = Inr ()"
| "sync_peers_loop sync (p # ps) = (case sync p of Inl e \<Rightarrow> Inl e | Inr _ \<Rightarrow> sync_peers_loop sync ps)"

definition libp2p_sync_peers :: "(node_id \<times> peer_id) list \<Rightarrow> (peer_id \<Rightarrow> transport_error + unit) \<Rightarrow> transport_error + unit" where
  "libp2p_sync_peers node_to_peer sync = sync_peers_loop sync (map snd node_to_peer)"

definition libp2p_broadcast_registry ::
  "codec \<Rightarrow> (bytes \<Rightarrow> transport_error + unit) \<Rightarrow> registry_event \<Rightarrow> transport_error + unit" where
  "libp2p_broadcast_registry cd broadcast ev =
     (case encode_registry_event cd ev of Inl e \<Rightarrow> Inl e | Inr bs \<Rightarrow> broadcast bs)"

definition libp2p_broadcast_pg ::
  "codec \<Rightarrow> (bytes \<Rightarrow> transport_error + unit) \<Rightarrow> pg_event \<Rightarrow> transport_error + unit" where
  "libp2p_broadcast_pg cd broadcast ev =
     (case encode_pg_event cd ev of Inl e \<Rightarrow> Inl e | Inr bs \<Rightarrow> broadcast bs)"

text \<open>The calls of the transport, over the \<open>send\<close> that carries a frame (\<open>send_frame\<close> or \<open>send_frame_async\<close>).\<close>

definition libp2p_send_supervision_to ::
  "codec \<Rightarrow> (node_id \<Rightarrow> bytes \<Rightarrow> bool \<Rightarrow> transport_error + bytes) \<Rightarrow> node_id \<Rightarrow> supervision_envelope
    \<Rightarrow> transport_error + unit" where
  "libp2p_send_supervision_to cd send n env =
     (case validate_envelope env of
        Inl e \<Rightarrow> Inl e
      | Inr _ \<Rightarrow>
          if se_correlation_id env \<noteq> 0
          then Inl (TeProtocol (ProtocolText ''send_supervision requires correlation_id 0''))
          else case encode_supervision_frame cd env of
                 Inl e \<Rightarrow> Inl e
               | Inr bs \<Rightarrow> map_sum id (\<lambda>_. ()) (send n bs False))"

definition libp2p_request_supervision_from ::
  "codec \<Rightarrow> (node_id \<Rightarrow> bytes \<Rightarrow> bool \<Rightarrow> transport_error + bytes) \<Rightarrow> node_id \<Rightarrow> supervision_envelope
    \<Rightarrow> transport_error + supervision_envelope" where
  "libp2p_request_supervision_from cd send n env =
     (case validate_envelope env of
        Inl e \<Rightarrow> Inl e
      | Inr _ \<Rightarrow>
          (case encode_supervision_frame cd env of
             Inl e \<Rightarrow> Inl e
           | Inr bs \<Rightarrow>
               (case send n bs True of
                  Inl e \<Rightarrow> Inl e
                | Inr reply_bytes \<Rightarrow>
                    if reply_bytes = []
                    then Inl (TeProtocol (ProtocolText ''supervision request received empty reply''))
                    else decode_supervision_reply (de_supervision cd) env reply_bytes)))"

definition libp2p_send_envelope ::
  "codec \<Rightarrow> (node_id \<Rightarrow> bytes \<Rightarrow> bool \<Rightarrow> transport_error + bytes) \<Rightarrow> wire_envelope \<Rightarrow> transport_error + unit" where
  "libp2p_send_envelope cd send env =
     (if we_correlation_id env \<noteq> 0
      then Inl (TeProtocol (ProtocolText ''fire-and-forget envelope must use correlation_id 0''))
      else case encode_cluster_frame cd (ActorFrame env) of
             Inl e \<Rightarrow> Inl (TeWire e)
           | Inr bs \<Rightarrow> map_sum id (\<lambda>_. ()) (send (node (we_to env)) bs False))"

definition libp2p_request_envelope ::
  "codec \<Rightarrow> (node_id \<Rightarrow> bytes \<Rightarrow> bool \<Rightarrow> transport_error + bytes) \<Rightarrow> wire_envelope \<Rightarrow> transport_error + bytes" where
  "libp2p_request_envelope cd send env =
     (if we_correlation_id env = 0
      then Inl (TeProtocol (ProtocolText ''request envelope requires non-zero correlation id''))
      else case encode_cluster_frame cd (ActorFrame env) of
             Inl e \<Rightarrow> Inl (TeWire e)
           | Inr bs \<Rightarrow>
               (case send (node (we_to env)) bs True of
                  Inl e \<Rightarrow> Inl e
                | Inr reply_bytes \<Rightarrow>
                    if reply_bytes = [] then Inr []
                    else case decode_reply_frame cd reply_bytes of
                           Inl e \<Rightarrow> Inl (TeWire e)
                         | Inr reply \<Rightarrow>
                             if wr_correlation_id reply \<noteq> we_correlation_id env
                             then Inl (TeProtocol (CorrelationMismatch (we_correlation_id env) (wr_correlation_id reply)))
                             else Inr (wr_payload reply)))"

section \<open>What is relied on of the swarm\<close>

text \<open>
  The identifier of an outbound request has not been given out before (\<open>OutboundRequestId\<close>); \<open>issued\<close>
  are those given out so far, and only sending a request gives one out.
\<close>

definition swarm_ok :: "'w swarm_ops \<Rightarrow> ('w \<Rightarrow> request_id set) \<Rightarrow> bool" where
  "swarm_ok ops issued \<longleftrightarrow>
     (\<forall>p f w. fst (sw_send_request ops p f w) \<notin> issued w \<and>
        issued (snd (sw_send_request ops p f w)) = insert (fst (sw_send_request ops p f w)) (issued w)) \<and>
     (\<forall>a w. issued (snd (sw_dial ops a w)) = issued w) \<and>
     (\<forall>ch r w. issued (sw_send_response ops ch r w) = issued w) \<and>
     (\<forall>w. issued (snd (sw_next ops w)) = issued w)"

lemma swarm_okD:
  assumes "swarm_ok ops issued"
  shows "sw_send_request ops p f w = (rid, w1) \<Longrightarrow> rid \<notin> issued w \<and> issued w1 = insert rid (issued w)"
    "sw_dial ops a w = (r, w1) \<Longrightarrow> issued w1 = issued w"
    "issued (sw_send_response ops ch res w) = issued w"
    "sw_next ops w = (ev, w1) \<Longrightarrow> issued w1 = issued w"
  using assms unfolding swarm_ok_def by (metis fst_conv snd_conv)+

section \<open>The slots of the callers\<close>

fun slot_of :: "request_reply \<Rightarrow> slot" where
  "slot_of (RequestSync k) = k"
| "slot_of (RequestAsync k) = k"

fun pending_slot :: "pending_reply \<Rightarrow> slot" where
  "pending_slot (PendingSync k) = k"
| "pending_slot (PendingAsync k) = k"

fun command_slots :: "runtime_command \<Rightarrow> slot list" where
  "command_slots (SendCommand p f e r) = [slot_of r]"
| "command_slots (BroadcastCommand f r) = []"
| "command_slots (SyncPeerCommand p r) = []"

text \<open>Where the slots of the sends are: answered, waiting for a response, or waiting for a connection.\<close>

definition slots :: "('w, 's) swarm_state \<Rightarrow> slot multiset" where
  "slots st = mset (map fst (ss_replies st)) + mset (map (pending_slot \<circ> snd) (ss_pending st)) +
     mset (map (slot_of \<circ> ds_respond_to) (ss_deferred st))"

definition pending_ok :: "('w \<Rightarrow> request_id set) \<Rightarrow> ('w, 's) swarm_state \<Rightarrow> bool" where
  "pending_ok issued st \<longleftrightarrow> distinct (map fst (ss_pending st)) \<and> fst ` set (ss_pending st) \<subseteq> issued (ss_swarm st)"

text \<open>
  \<open>grows issued R K st st'\<close>: the tables stay well formed, the slots \<open>K\<close> are added and none is lost, and
  every request that waits for a response keeps waiting unless its identifier is in \<open>R\<close>.
\<close>

definition grows ::
  "('w \<Rightarrow> request_id set) \<Rightarrow> request_id set \<Rightarrow> slot multiset \<Rightarrow> ('w, 's) swarm_state \<Rightarrow> ('w, 's) swarm_state \<Rightarrow> bool" where
  "grows issued R K st st' \<longleftrightarrow> (pending_ok issued st \<longrightarrow>
     pending_ok issued st' \<and> slots st' = slots st + K \<and>
     (\<forall>rid p. rid \<notin> R \<and> map_of (ss_pending st) rid = Some p \<longrightarrow> map_of (ss_pending st') rid = Some p))"

lemma grows_refl [simp]: "grows issued R {#} st st"
  by (simp add: grows_def)

lemma grows_trans: "grows issued R K st st1 \<Longrightarrow> grows issued R L st1 st2 \<Longrightarrow> grows issued R (K + L) st st2"
  by (auto simp: grows_def ac_simps)

lemma grows_same:
  assumes "issued (ss_swarm st') = issued (ss_swarm st)" "ss_pending st' = ss_pending st" "ss_replies st' = ss_replies st"
    "ss_deferred st' = ss_deferred st"
  shows "grows issued R {#} st st'"
  using assms by (simp add: grows_def pending_ok_def slots_def)

lemma mset_delete_key:
  assumes "distinct (map fst al)" "map_of al k = Some v"
  shows "mset (map (f \<circ> snd) al) = add_mset (f v) (mset (map (f \<circ> snd) (AList.delete k al)))"
  using assms
proof (induction al)
  case (Cons x al)
  show ?case
  proof (cases "fst x = k")
    case True
    with Cons.prems(1) have "AList.delete k al = al" by (intro AList.delete_id) (auto simp: image_iff)
    with True Cons.prems show ?thesis by (cases x) simp
  qed (use Cons in \<open>cases x; auto\<close>)
qed simp

text \<open>
  \<open>accounts issued R b K st st'\<close>: at most the slots \<open>K\<close> were added, and exactly those when \<open>b\<close> holds (code
  that leaves with an error drops the commands it did not reach). \<open>accounting\<close> is the same of code
  that may fail; it composes along \<open>and_then\<close>.
\<close>

definition accounts ::
  "('w \<Rightarrow> request_id set) \<Rightarrow> request_id set \<Rightarrow> bool \<Rightarrow> slot multiset \<Rightarrow> ('w, 's) swarm_state \<Rightarrow> ('w, 's) swarm_state \<Rightarrow> bool" where
  "accounts issued R b K st st' \<longleftrightarrow> (\<exists>K'. K' \<subseteq># K \<and> grows issued R K' st st' \<and> (b \<longrightarrow> K' = K))"

definition accounting ::
  "('w \<Rightarrow> request_id set) \<Rightarrow> request_id set \<Rightarrow> slot multiset \<Rightarrow> (('w, 's) swarm_state, 'a) attempt \<Rightarrow> bool" where
  "accounting issued R K f \<longleftrightarrow> (\<forall>st r st'. f st = (r, st') \<longrightarrow> accounts issued R (is_ok r) K st st')"

lemma accounts_grows: "grows issued R K st st' \<Longrightarrow> accounts issued R b K st st'"
  by (auto simp: accounts_def)

lemma accounts_weaken: "accounts issued R b K st st' \<Longrightarrow> accounts issued R False (K + L) st st'"
  unfolding accounts_def by (metis mset_subset_eq_add_left subset_mset.order_trans)

lemma accounts_trans:
  assumes "accounts issued R True K st st1" "accounts issued R b L st1 st2"
  shows "accounts issued R b (K + L) st st2"
proof -
  from assms obtain L' where "grows issued R K st st1" "L' \<subseteq># L" "grows issued R L' st1 st2" "b \<longrightarrow> L' = L"
    by (auto simp: accounts_def)
  then show ?thesis unfolding accounts_def by (intro exI [of _ "K + L'"]) (auto intro: grows_trans)
qed

lemma accounting_and_then:
  assumes f: "accounting issued R K f" and g: "\<And>v. accounting issued R L (g v)"
  shows "accounting issued R (K + L) (and_then f g)"
  unfolding accounting_def
proof (intro allI impI)
  fix st r st' assume run: "and_then f g st = (r, st')"
  show "accounts issued R (is_ok r) (K + L) st st'"
  proof (cases "f st")
    case (Pair x st1)
    from f Pair have one: "accounts issued R (is_ok x) K st st1" unfolding accounting_def by blast
    show ?thesis
    proof (cases x)
      case (Inl e)
      with run Pair one show ?thesis by (auto simp: and_then_def intro: accounts_weaken)
    next
      case (Inr v)
      with run Pair have "g v st1 = (r, st')" by (simp add: and_then_def)
      with g have "accounts issued R (is_ok r) L st1 st'" unfolding accounting_def by blast
      with one Inr show ?thesis by (auto intro: accounts_trans)
    qed
  qed
qed

lemma accounting_total: "(\<And>st. grows issued R K st (snd (f st))) \<Longrightarrow> accounting issued R K f"
  unfolding accounting_def by (metis accounts_grows snd_conv)

lemma dispatch_send_grows:
  assumes "swarm_ok ops issued"
  shows "grows issued R {#slot_of (ds_respond_to send)#} st (dispatch_send ops send st)"
proof (cases "sw_send_request ops (ds_peer send) (ds_frame send) (ss_swarm st)")
  case (Pair rid w)
  from swarm_okD(1) [OF assms Pair] have fresh: "rid \<notin> issued (ss_swarm st)" "issued w = insert rid (issued (ss_swarm st))"
    by auto
  then have "rid \<notin> fst ` set (ss_pending st)" if "pending_ok issued st" using that by (auto simp: pending_ok_def)
  moreover from this have "map_of (ss_pending st) rid = None" if "pending_ok issued st" using that by (simp add: map_of_eq_None_iff)
  ultimately show ?thesis using fresh
    by (auto simp: grows_def dispatch_send_def Pair Let_def pending_ok_def slots_def alist_update_fresh
        split: request_reply.splits)
qed

lemma dispatch_send_deferred [simp]: "ss_deferred (dispatch_send ops send st) = ss_deferred st"
  by (auto simp: dispatch_send_def Let_def split: prod.splits request_reply.splits)

lemma flush_loop_grows:
  assumes "swarm_ok ops issued" "pending_ok issued st"
  shows "pending_ok issued (flush_loop ops sends remaining st) \<and>
    (\<forall>rid p. map_of (ss_pending st) rid = Some p \<longrightarrow>
       map_of (ss_pending (flush_loop ops sends remaining st)) rid = Some p) \<and>
    slots (flush_loop ops sends remaining st) + mset (map (slot_of \<circ> ds_respond_to) (ss_deferred st)) =
    slots st + mset (map (slot_of \<circ> ds_respond_to) (sends @ remaining))"
  using assms(2)
proof (induction sends arbitrary: remaining st)
  case Nil
  then show ?case by (simp add: pending_ok_def slots_def comp_def ac_simps)
next
  case (Cons send sends)
  from dispatch_send_grows [OF assms(1), of "{}" send st] Cons.prems
  have "pending_ok issued (dispatch_send ops send st)"
    "slots (dispatch_send ops send st) = slots st + {#slot_of (ds_respond_to send)#}"
    "\<And>rid p. map_of (ss_pending st) rid = Some p \<Longrightarrow> map_of (ss_pending (dispatch_send ops send st)) rid = Some p"
    by (auto simp: grows_def)
  with Cons.IH [OF this(1), of remaining] Cons.IH [OF Cons.prems, of "remaining @ [send]"]
  show ?case by simp
qed

lemma dispatch_send_replies: "set (ss_replies st) \<subseteq> set (ss_replies (dispatch_send ops send st))"
  by (auto simp: dispatch_send_def Let_def split: prod.splits request_reply.splits)

lemma flush_loop_replies: "set (ss_replies st) \<subseteq> set (ss_replies (flush_loop ops sends remaining st))"
proof (induction sends arbitrary: remaining st)
  case (Cons send sends)
  show ?case using dispatch_send_replies [of st ops send] Cons.IH [of "dispatch_send ops send st"] Cons.IH [of st] by auto
qed simp

lemma flush_replies: "set (ss_replies st) \<subseteq> set (ss_replies (flush_deferred_sends ops st))"
  unfolding flush_deferred_sends_def by (rule flush_loop_replies)

lemma flush_grows:
  assumes "swarm_ok ops issued"
  shows "grows issued R {#} st (flush_deferred_sends ops st)"
  using flush_loop_grows [OF assms, of st "ss_deferred st" "[]"] by (simp add: grows_def flush_deferred_sends_def)

lemma ensure_accounting:
  assumes "swarm_ok ops issued"
  shows "accounting issued R {#} (ensure_peer_dialed ops p)"
  by (rule accounting_total, rule grows_same)
    (auto simp: ensure_peer_dialed_def split: option.splits prod.splits dest: swarm_okD(2) [OF assms])

lemma ignored_grows:
  assumes "swarm_ok ops issued"
  shows "grows issued R {#} st (request_ignored ops p frame st)"
  using swarm_okD(1) [OF assms, of p frame "ss_swarm st"]
  by (cases "sw_send_request ops p frame (ss_swarm st)") (auto simp: grows_def pending_ok_def slots_def request_ignored_def)

lemma fold_ignored_grows:
  assumes "swarm_ok ops issued"
  shows "grows issued R {#} st (fold (request_ignored ops p) frames st)"
proof (induction frames arbitrary: st)
  case (Cons f fs)
  from grows_trans [OF ignored_grows [OF assms] Cons.IH] show ?case by simp
qed simp

lemma snapshots_accounting:
  assumes "swarm_ok ops issued"
  shows "accounting issued R {#} (send_control_snapshots_to_peer ops cd c p)"
  by (rule accounting_total) (auto simp: send_control_snapshots_to_peer_def fold_ignored_grows [OF assms] split: sum.splits)

lemma broadcast_accounting:
  fixes issued :: "'w \<Rightarrow> request_id set"
  assumes "swarm_ok ops issued"
  shows "accounting issued R {#} (broadcast_to ops frame ps :: (('w, 's) swarm_state, unit) attempt)"
proof (induction ps)
  case Nil
  then show ?case by (simp add: accounting_total give_def)
next
  case (Cons p ps)
  have "accounting issued R {#} (\<lambda>st :: ('w, 's) swarm_state. broadcast_to ops frame ps (request_ignored ops p frame st))"
    unfolding accounting_def
  proof (intro allI impI)
    fix st st' :: "('w, 's) swarm_state" and r assume "broadcast_to ops frame ps (request_ignored ops p frame st) = (r, st')"
    with Cons.IH have "accounts issued R (is_ok r) {#} (request_ignored ops p frame st) st'" unfolding accounting_def by blast
    from accounts_trans [OF accounts_grows [OF ignored_grows [OF assms]] this] show "accounts issued R (is_ok r) {#} st st'" by simp
  qed
  from accounting_and_then [OF ensure_accounting [OF assms, of R p] this] show ?case by simp
qed

lemma complete_void_same: "grows issued R {#} st (complete_void tx r (st\<lparr>ss_synced := X\<rparr>))" "grows issued R {#} st (complete_void tx r st)"
  by (auto intro!: grows_same simp: complete_void_def split: void_reply.splits)

lemma command_accounting:
  fixes issued :: "'w \<Rightarrow> request_id set" and c :: "'s control_hooks"
  assumes "swarm_ok ops issued"
  shows "accounting issued R (mset (command_slots cmd)) (handle_command ops cd c cmd)"
proof (cases cmd)
  case (SendCommand p frame er rt)
  let ?send = "\<lparr>ds_peer = p, ds_frame = frame, ds_expect_reply = er, ds_respond_to = rt\<rparr>"
  have "grows issued R {#slot_of rt#} st (st\<lparr>ss_deferred := ss_deferred st @ [?send]\<rparr>)" for st :: "('w, 's) swarm_state"
    by (simp add: grows_def pending_ok_def slots_def)
  moreover have "grows issued R {#slot_of rt#} st (dispatch_send ops ?send st)" for st :: "('w, 's) swarm_state"
    using dispatch_send_grows [OF assms, of R ?send] by simp
  ultimately have "accounting issued R {#slot_of rt#} (\<lambda>st :: ('w, 's) swarm_state. (Inr (), if sw_is_connected ops (ss_swarm st) p then dispatch_send ops ?send st
      else st\<lparr>ss_deferred := ss_deferred st @ [?send]\<rparr>))" by (intro accounting_total) simp
  from accounting_and_then [OF ensure_accounting [OF assms, of R p] this] SendCommand show ?thesis
    by (simp add: handle_command_def Let_def)
next
  case (BroadcastCommand frame rt)
  have "accounting issued R {#} (\<lambda>st1 :: ('w, 's) swarm_state. (Inr (), complete_void rt (Inr ()) st1))"
    by (rule accounting_total) (simp add: complete_void_same)
  from accounting_and_then [OF broadcast_accounting [OF assms] this] BroadcastCommand show ?thesis
    by (simp add: handle_command_def accounting_def)
next
  case (SyncPeerCommand p rt)
  have "accounting issued R {#} (\<lambda>st :: ('w, 's) swarm_state. (Inr (), complete_void rt (Inr ()) (st\<lparr>ss_synced := insert p (ss_synced st)\<rparr>)))"
    by (rule accounting_total) (simp add: complete_void_same)
  from accounting_and_then [OF ensure_accounting [OF assms, of R p] accounting_and_then [OF snapshots_accounting [OF assms] this]]
    SyncPeerCommand show ?thesis by (simp add: handle_command_def)
qed

lemma commands_accounting:
  assumes "swarm_ok ops issued"
  shows "accounting issued R (mset (concat (map command_slots cmds))) (handle_commands ops cd c cmds)"
proof (induction cmds)
  case Nil
  then show ?case by (simp add: accounting_total give_def)
next
  case (Cons cmd cmds)
  from accounting_and_then [OF command_accounting [OF assms, of R cmd] this] show ?case by simp
qed

lemma inbound_error_or_same:
  "handle_swarm_event ops cd disp c (RequestReceived ch frame) st = Returns (r, st') \<Longrightarrow>
    ss_pending st' = ss_pending st \<and> ss_replies st' = ss_replies st \<and> ss_deferred st' = ss_deferred st \<and>
    (\<exists>response. ss_swarm st' = ss_swarm st \<or> ss_swarm st' = sw_send_response ops ch response (ss_swarm st))"
  by (cases "handle_inbound_frame cd disp c frame (ss_node st)") (auto simp: handle_swarm_event_def Let_def split: prod.splits sum.splits)

lemma response_grows:
  assumes "map_of (ss_pending st) rid = Some tx" "rid \<in> R"
  shows "grows issued R {#} st (complete_pending tx r (st\<lparr>ss_pending := AList.delete rid (ss_pending st)\<rparr>))"
proof -
  have "slots (complete_pending tx r (st\<lparr>ss_pending := AList.delete rid (ss_pending st)\<rparr>)) = slots st" if "pending_ok issued st"
    using that mset_delete_key [OF _ assms(1), of pending_slot]
    by (auto simp: complete_pending_def slots_def pending_ok_def split: pending_reply.splits)
  moreover have "pending_ok issued (complete_pending tx r (st\<lparr>ss_pending := AList.delete rid (ss_pending st)\<rparr>))" if "pending_ok issued st"
    using that by (auto simp: complete_pending_def pending_ok_def distinct_map_filter split: pending_reply.splits simp: AList.delete_eq)
  moreover have "ss_pending (complete_pending tx r (st\<lparr>ss_pending := AList.delete rid (ss_pending st)\<rparr>)) = AList.delete rid (ss_pending st)"
    by (simp add: complete_pending_def split: pending_reply.splits)
  ultimately show ?thesis using assms(2) by (auto simp: grows_def delete_conv)
qed

lemma event_accounts:
  assumes ok: "swarm_ok ops issued" and run: "handle_swarm_event ops cd disp c ev st = Returns (r, st')"
    and R: "\<And>rid b. ev = ResponseReceived rid b \<Longrightarrow> rid \<in> R"
  shows "accounts issued R (is_ok r) {#} st st'"
proof (cases ev)
  case (ConnectionEstablished p)
  let ?after = "\<lambda>_ :: unit. \<lambda>st1. (Inr (), st1\<lparr>ss_synced := insert p (ss_synced st1)\<rparr>)"
  have "accounting issued R {#} (?after u)" for u by (rule accounting_total, rule grows_same) simp_all
  from accounting_and_then [OF snapshots_accounting [OF ok] this, of cd c p] run ConnectionEstablished show ?thesis
    by (auto simp: handle_swarm_event_def accounting_def accounts_grows split: if_splits)
next
  case (RequestReceived ch frame)
  with inbound_error_or_same [OF run [unfolded RequestReceived]] show ?thesis
    by (auto intro!: accounts_grows grows_same simp: swarm_okD(3) [OF ok])
next
  case (ResponseReceived rid response)
  show ?thesis
  proof (cases "map_of (ss_pending st) rid")
    case None
    with run ResponseReceived show ?thesis
      by (cases "apply_inbound_frame cd c response (ss_node st)")
        (auto simp: handle_swarm_event_def split: prod.splits intro!: accounts_grows grows_same)
  next
    case (Some tx)
    with run ResponseReceived response_grows [OF Some R [OF ResponseReceived]] show ?thesis
      by (auto simp: handle_swarm_event_def intro: accounts_grows)
  qed
qed (use run in \<open>auto simp: handle_swarm_event_def intro!: accounts_grows grows_same\<close>)

text \<open>The requests to which the swarm may ever report a response.\<close>

definition answerable :: "'w swarm_ops \<Rightarrow> request_id set" where
  "answerable ops = {rid. \<exists>w b w'. sw_next ops w = (Some (ResponseReceived rid b), w')}"

lemma select_accounts:
  assumes ok: "swarm_ok ops issued" and run: "swarm_select ops cd disp c st = Returns (r, st')"
  shows "accounts issued (answerable ops) (is_ok r) {#} st st'"
proof (cases "sw_next ops (ss_swarm st)")
  case (Pair e w)
  have same: "grows issued (answerable ops) {#} st (st\<lparr>ss_swarm := w\<rparr>)"
    using swarm_okD(4) [OF ok Pair] by (intro grows_same) simp_all
  show ?thesis
  proof (cases e)
    case None
    with Pair run same show ?thesis by (auto simp: swarm_select_def intro: accounts_grows)
  next
    case (Some ev)
    with run Pair obtain r1 st1 where h: "handle_swarm_event ops cd disp c ev (st\<lparr>ss_swarm := w\<rparr>) = Returns (r1, st1)"
      and r: "(r, st') = (case r1 of Inl e \<Rightarrow> (Inl e, st1) | Inr _ \<Rightarrow> (Inr (), flush_deferred_sends ops st1))"
      by (cases "handle_swarm_event ops cd disp c ev (st\<lparr>ss_swarm := w\<rparr>)") (auto simp: swarm_select_def)
    have "accounts issued (answerable ops) (is_ok r1) {#} (st\<lparr>ss_swarm := w\<rparr>) st1"
      by (rule event_accounts [OF ok h]) (use Pair Some in \<open>auto simp: answerable_def\<close>)
    from accounts_trans [OF accounts_grows [OF same] this] have "accounts issued (answerable ops) (is_ok r1) {#} st st1" by simp
    moreover from this have "accounts issued (answerable ops) True {#} st (flush_deferred_sends ops st1)" if "is_ok r1"
      using accounts_trans [OF _ accounts_grows [OF flush_grows [OF ok, of "answerable ops" st1]], of "{#}" st] that by simp
    ultimately show ?thesis using r by (auto split: sum.splits)
  qed
qed

lemma turn_accounts:
  assumes ok: "swarm_ok ops issued" and run: "swarm_turn ops cd disp c cmds st = Returns (r, st')"
  shows "accounts issued (answerable ops) (is_ok r) (mset (concat (map command_slots cmds))) st st'"
proof (cases "handle_commands ops cd c cmds st")
  case (Pair x st1)
  with commands_accounting [OF ok] have one: "accounts issued (answerable ops) (is_ok x) (mset (concat (map command_slots cmds))) st st1"
    unfolding accounting_def by blast
  show ?thesis
  proof (cases x)
    case (Inl e)
    with run Pair one show ?thesis by (auto simp: swarm_turn_def)
  next
    case (Inr u)
    with run Pair have "swarm_select ops cd disp c (flush_deferred_sends ops st1) = Returns (r, st')" by (simp add: swarm_turn_def)
    note sel = select_accounts [OF ok this]
    from one Inr have "accounts issued (answerable ops) True (mset (concat (map command_slots cmds))) st st1" by simp
    from accounts_trans [OF accounts_trans [OF this accounts_grows [OF flush_grows [OF ok]]] sel] show ?thesis by simp
  qed
qed

fun turn_slots :: "(bool \<times> runtime_command list) list \<Rightarrow> slot list" where
  "turn_slots [] = []"
| "turn_slots ((b, cmds) # turns) = concat (map command_slots cmds) @ turn_slots turns"

lemma loop_accounts:
  assumes ok: "swarm_ok ops issued" and run: "swarm_loop ops cd disp c turns st = Returns (status, st')"
  shows "accounts issued (answerable ops) (status = StillRunning) (mset (turn_slots turns)) st st'"
  using run
proof (induction turns arbitrary: st)
  case Nil
  then show ?case by (auto intro: accounts_grows)
next
  case (Cons t turns)
  obtain b cmds where t: "t = (b, cmds)" by (cases t)
  show ?case
  proof (cases b)
    case True
    with Cons.prems t show ?thesis by (auto simp: accounts_def intro!: exI [of _ "{#}"])
  next
    case False
    with Cons.prems t obtain r st1 where one: "swarm_turn ops cd disp c cmds st = Returns (r, st1)"
      and two: "(case r of Inl e \<Rightarrow> Returns (StoppedBy e, st1) | Inr _ \<Rightarrow> swarm_loop ops cd disp c turns st1) = Returns (status, st')"
      by (cases "swarm_turn ops cd disp c cmds st") auto
    note acc = turn_accounts [OF ok one]
    show ?thesis
    proof (cases r)
      case (Inl e)
      with two accounts_weaken [OF acc] t show ?thesis by auto
    next
      case (Inr u)
      with two have "swarm_loop ops cd disp c turns st1 = Returns (status, st')" by simp
      moreover from acc Inr have "accounts issued (answerable ops) True (mset (concat (map command_slots cmds))) st st1" by simp
      ultimately show ?thesis using Cons.IH [of st1] accounts_trans t by fastforce
    qed
  qed
qed

section \<open>Serving frames\<close>

definition or_empty :: "bytes option \<Rightarrow> bytes" where
  "or_empty b = (case b of Some x \<Rightarrow> x | None \<Rightarrow> [])"

lemma inbound_as_served:
  "handle_inbound_frame cd disp c frame s =
   run_then (serve_frame cd disp c frame s) (\<lambda>(r, s1). Returns (map_sum id or_empty r, s1))"
proof (cases "decode_cluster_frame cd frame")
  case (Inl e)
  then show ?thesis by (simp add: handle_inbound_frame_def serve_frame_def)
next
  case (Inr fr)
  show ?thesis
  proof (cases fr)
    case (ActorFrame env)
    with Inr show ?thesis
      by (cases "disp env s")
        (auto simp: handle_inbound_frame_def serve_frame_def serve_event_def or_empty_def map_sum_def split: prod.splits sum.splits)
  next
    case (SupervisionFrame env)
    with Inr show ?thesis
      by (cases "apply_supervision (ch_supervision c) env s")
        (auto simp: handle_inbound_frame_def serve_frame_def serve_event_def or_empty_def map_sum_def
          split: prod.splits sum.splits option.splits)
  next
    case (RegistryFrame ev)
    with Inr show ?thesis
      by (cases "apply_registry_event c ev s"; cases "fst (apply_registry_event c ev s)")
        (auto simp: handle_inbound_frame_def serve_frame_def serve_event_def or_empty_def)
  next
    case (PgFrame ev)
    with Inr show ?thesis
      by (cases "apply_pg_event c ev s"; cases "fst (apply_pg_event c ev s)")
        (auto simp: handle_inbound_frame_def serve_frame_def serve_event_def or_empty_def)
  qed
qed

text \<open>
  A request whose frame the peer serves comes back with the payload the peer's handler gave.
\<close>

lemma libp2p_request_answered:
  assumes cd: "codec_ok cd" and corr: "we_correlation_id env \<noteq> 0" and enc: "encode_cluster_frame cd (ActorFrame env) = Inr bs"
    and ans: "disp env t = Returns (Inr (Some rp), t1)"
    and rep: "encode_reply_frame cd \<lparr>wr_correlation_id = we_correlation_id env, wr_payload = rp\<rparr> = Inr rb" "rb \<noteq> []"
    and peer: "map_of n2p (node (we_to env)) = Some p"
    and out: "outcome (SendCommand p bs True (RequestSync k)) = Some (Inr rb)"
  shows "handle_inbound_frame cd disp c bs t = Returns (Inr rb, t1)"
    "libp2p_request_envelope cd (send_frame True n2p outcome k) env = Inr rp"
  using assms codec_okD(2) [OF cd enc] codec_okD(3) [OF cd rep(1)]
  by (simp_all add: handle_inbound_frame_def libp2p_request_envelope_def send_frame_def submit_send_def reply_of_def)

lemma loop_append:
  "swarm_loop ops cd disp c (ts @ us) st =
   run_then (swarm_loop ops cd disp c ts st) (\<lambda>(status, st1).
     if status = StillRunning then swarm_loop ops cd disp c us st1 else Returns (status, st1))"
proof (induction ts arbitrary: st)
  case (Cons t ts)
  then show ?case by (cases t; cases "swarm_turn ops cd disp c (snd t) st") (auto split: sum.splits)
qed simp

section \<open>Properties\<close>

text \<open>
  C19. No send is lost, answered twice or given to another caller by the swarm thread. Over any
  sequence of turns that leaves the loop running, the slots of all submitted sends are
  exactly those answered, those waiting for a response and those waiting for a connection;
  when the loop ends, no slot appears that was not submitted. A request waits until the
  swarm reports the response with its own identifier, and the next turn hands it that response.
  When the swarm never reports one (an \<open>OutboundFailure\<close> is not a response), the request
  waits for ever, whatever ends the loop.
\<close>

theorem libp2p_sends_accounted:
  assumes ok: "swarm_ok ops issued" and wf: "pending_ok issued st"
    and run: "swarm_loop ops cd disp c turns st = Returns (status, st')"
  shows "pending_ok issued st' \<and> slots st' \<subseteq># slots st + mset (turn_slots turns) \<and>
    (status = StillRunning \<longrightarrow> slots st' = slots st + mset (turn_slots turns)) \<and>
    (\<forall>rid p. rid \<notin> answerable ops \<and> map_of (ss_pending st) rid = Some p \<longrightarrow> map_of (ss_pending st') rid = Some p) \<and>
    (\<forall>rid p b w. map_of (ss_pending st') rid = Some p \<and>
       sw_next ops (ss_swarm (flush_deferred_sends ops st')) = (Some (ResponseReceived rid b), w) \<longrightarrow>
       (\<exists>st2. swarm_turn ops cd disp c [] st' = Returns (Inr (), st2) \<and> (pending_slot p, Inr b) \<in> set (ss_replies st2)))"
proof -
  from loop_accounts [OF ok run] obtain K where K: "K \<subseteq># mset (turn_slots turns)" "grows issued (answerable ops) K st st'"
    "status = StillRunning \<longrightarrow> K = mset (turn_slots turns)" unfolding accounts_def by blast
  then have g: "pending_ok issued st'" "slots st' = slots st + K"
    "\<forall>rid p. rid \<notin> answerable ops \<and> map_of (ss_pending st) rid = Some p \<longrightarrow> map_of (ss_pending st') rid = Some p"
    using wf by (auto simp: grows_def)
  have "\<exists>st2. swarm_turn ops cd disp c [] st' = Returns (Inr (), st2) \<and> (pending_slot p, Inr b) \<in> set (ss_replies st2)"
    if p: "map_of (ss_pending st') rid = Some p" and ev: "sw_next ops (ss_swarm (flush_deferred_sends ops st')) = (Some (ResponseReceived rid b), w)"
    for rid p b w
  proof -
    let ?f = "flush_deferred_sends ops st'"
    have "map_of (ss_pending ?f) rid = Some p" using flush_grows [OF ok, of "{}" st'] g(1) p by (auto simp: grows_def)
    then have "swarm_turn ops cd disp c [] st' = Returns (Inr (), flush_deferred_sends ops
        (complete_pending p (Inr b) (?f\<lparr>ss_swarm := w, ss_pending := AList.delete rid (ss_pending ?f)\<rparr>)))"
      using ev by (simp add: swarm_turn_def give_def swarm_select_def handle_swarm_event_def)
    moreover have "(pending_slot p, Inr b) \<in> set (ss_replies (complete_pending p (Inr b) x))" for x :: "('a, 'b) swarm_state"
      by (cases p) (simp_all add: complete_pending_def)
    ultimately show ?thesis by (blast intro: flush_replies [THEN subsetD])
  qed
  with g K show ?thesis by (auto simp: subset_mset.add_left_mono)
qed

text \<open>A swarm that is connected to everybody and reports nothing but the failure of the first request.\<close>

definition failing_swarm :: "nat swarm_ops" where
  "failing_swarm = \<lparr>sw_is_connected = \<lambda>w p. True, sw_dial = \<lambda>a w. (Inr (), w), sw_send_request = \<lambda>p f w. (w, w + 1),
     sw_send_response = \<lambda>ch r w. w, sw_listen_on = \<lambda>a w. (Inr (), w), sw_add_peer_address = \<lambda>p a w. w,
     sw_next = \<lambda>w. (Some (OutboundFailure 0), w)\<rparr>"

theorem libp2p_sends_accounted_witness:
  "swarm_loop failing_swarm demo_codec (address_dispatch Map.empty) control_none
     [(False, [SendCommand (PeerId ''b'') [5] True (RequestAsync 7)])] (cluster_start_state [] 0 (0 :: nat)) =
     Returns (StillRunning, (cluster_start_state [] 0 0)\<lparr>ss_swarm := 1, ss_pending := [(0, PendingAsync 7)]\<rparr>) \<and>
   slots ((cluster_start_state [] 0 (0 :: nat))\<lparr>ss_swarm := 1 :: nat, ss_pending := [(0, PendingAsync 7)]\<rparr>) = {#7#}"
proof -
  let ?s = "cluster_start_state [] 0 0 :: (nat, nat) swarm_state"
  let ?t = "?s\<lparr>ss_swarm := 1, ss_pending := [(0, PendingAsync 7)]\<rparr>"
  have ok: "swarm_ok failing_swarm (\<lambda>w. {..<w})" by (auto simp: swarm_ok_def failing_swarm_def)
  have wf: "pending_ok (\<lambda>w. {..<w}) ?s" by (simp add: pending_ok_def cluster_start_state_def)
  have run: "swarm_loop failing_swarm demo_codec (address_dispatch Map.empty) control_none
     [(False, [SendCommand (PeerId ''b'') [5] True (RequestAsync 7)])] ?s = Returns (StillRunning, ?t)"
    by (simp add: swarm_turn_def handle_command_def and_then_def ensure_peer_dialed_def failing_swarm_def
      give_def Let_def dispatch_send_def cluster_start_state_def flush_deferred_sends_def swarm_select_def handle_swarm_event_def)
  have "slots ?s = {#}" by (simp add: slots_def cluster_start_state_def)
  with libp2p_sends_accounted [OF ok wf run] have "slots ?t = {#7#}" by simp
  with run show ?thesis by simp
qed

text \<open>
  Serving a frame over libp2p is serving it over TCP: the same hooks and handlers run on
  the same state, and the response is the frame TCP would write back, or empty where TCP
  writes nothing. A frame that is refused (one that does not decode, a message for an actor
  that is not there, a hook that declines) closes that one connection under TCP, but
  under libp2p it ends the loop of the whole node, which handles no later command or event.
\<close>

lemma libp2p_refused_frame_stops_node:
  assumes run: "swarm_loop ops cd disp c before st = Returns (StillRunning, st1)"
    and cmds: "handle_commands ops cd c cmds st1 = (Inr (), st2)"
    and ev: "sw_next ops (ss_swarm (flush_deferred_sends ops st2)) = (Some (RequestReceived ch frame), w)"
    and refused: "serve_frame cd disp c frame (ss_node (flush_deferred_sends ops st2)) = Returns (Inl e, s1)"
  shows "handle_inbound_frame cd disp c f s =
      run_then (serve_frame cd disp c f s) (\<lambda>(r, s'). Returns (map_sum id or_empty r, s')) \<and>
    swarm_loop ops cd disp c (before @ (False, cmds) # later) st =
      Returns (StoppedBy e, (flush_deferred_sends ops st2)\<lparr>ss_swarm := w, ss_node := s1\<rparr>) \<and>
    (length frame \<le> MAX_FRAME_SIZE \<longrightarrow>
      serve_loop cd disp c wio (framed frame @ inp) out (ss_node (flush_deferred_sends ops st2)) = Returns (e, out, s1))"
proof -
  let ?f = "flush_deferred_sends ops st2"
  have "handle_inbound_frame cd disp c frame (ss_node ?f) = Returns (Inl e, s1)"
    using refused by (simp add: inbound_as_served)
  then have "swarm_turn ops cd disp c cmds st1 = Returns (Inl e, ?f\<lparr>ss_swarm := w, ss_node := s1\<rparr>)"
    using cmds ev by (simp add: swarm_turn_def swarm_select_def handle_swarm_event_def Let_def)
  then have "swarm_loop ops cd disp c (before @ (False, cmds) # later) st =
      Returns (StoppedBy e, ?f\<lparr>ss_swarm := w, ss_node := s1\<rparr>)"
    using run by (simp add: loop_append)
  moreover have "serve_loop cd disp c wio (framed frame @ inp) out (ss_node ?f) = Returns (e, out, s1)"
    if "length frame \<le> MAX_FRAME_SIZE"
    using that refused by (subst serve_loop.simps) simp
  ultimately show ?thesis by (simp add: inbound_as_served)
qed

definition asking_swarm :: "nat swarm_ops" where
  "asking_swarm = failing_swarm\<lparr>sw_next := \<lambda>w. (Some (RequestReceived 0 [5]), w)\<rparr>"

end
