(* ===== verification/Node.thy ===== *)
theory Node
  imports Broker Remote_Ref Tcp_Correct Shutdown_Signals Libp2p
begin

text \<open>
  A cluster node (\<open>concurrency/src/cluster/node.rs\<close>, \<open>node_readiness.rs\<close>): its configuration, what \<open>build\<close>
  starts and installs, the hooks that connect the transport with the registries and the broker
  of the node, and its readiness. Whether the libp2p backend
  starts and what it has to say are parameters here. Background effects of the transport reach the node through its hooks.
\<close>

section \<open>Hooks\<close>

text \<open>The control plane of a node with peers or a listener, with the broker behind it.\<close>

definition node_registry_hook :: "registry_event \<Rightarrow> 'm world \<Rightarrow> (transport_error + unit) \<times> 'm world" where
  "node_registry_hook ev w = (Inr (), w\<lparr>wd_names := apply_remote_event ev (wd_names w)\<rparr>)"

definition node_pg_hook :: "pg_event \<Rightarrow> 'm world \<Rightarrow> (transport_error + unit) \<times> 'm world" where
  "node_pg_hook ev w = (Inr (), w\<lparr>wd_pg := apply_remote_pg_event (wd_here w) ev (wd_pg w)\<rparr>)"

definition broker_hook :: "(down \<Rightarrow> 'm) \<Rightarrow> 'm world supervision_hook" where
  "broker_hook mk env w =
     (case wd_broker w of
        Some b \<Rightarrow> broker_apply mk env b w
      | None \<Rightarrow> Returns (Inr None, w))"

definition node_control :: "(down \<Rightarrow> 'm) \<Rightarrow> 'm world control_hooks" where
  "node_control mk = with_supervision (broker_hook mk)
     (control_federated node_registry_hook (\<lambda>w. local_snapshot (wd_names w))
        node_pg_hook (\<lambda>w. local_pg_snapshot (wd_pg w)))"

text \<open>What the node installs for outgoing events; errors are dropped by the caller.\<close>

definition node_publish ::
  "codec \<Rightarrow> (string \<Rightarrow> string + socket) \<Rightarrow> (down \<Rightarrow> 'm) \<Rightarrow> supervision_envelope
    \<Rightarrow> 'm world tcp_transport \<times> 'm world \<Rightarrow> ((transport_error + unit) \<times> 'm world tcp_transport \<times> 'm world) run" where
  "node_publish cd net mk env = (\<lambda>(tt, w).
     publish_routed (wd_here w) env
       (\<lambda>e (tt, w). run_then (broker_hook mk e w) (\<lambda>(r, w1). Returns (map_sum id (\<lambda>_. ()) r, (tt, w1))))
       (\<lambda>n e s. Returns (tcp_send_supervision cd net n e s)) (tt, w))"

definition node_request ::
  "codec \<Rightarrow> (string \<Rightarrow> string + socket) \<Rightarrow> 'm world tcp_transport \<Rightarrow> 'm world \<Rightarrow> rpc" where
  "node_request cd net tt w = Some (\<lambda>n env. fst (tcp_request_supervision cd net n env (tt, w)))"

text \<open>The same over libp2p; \<open>send\<close> is \<open>send_frame\<close> of the cluster.\<close>

definition node_publish_libp2p ::
  "codec \<Rightarrow> (node_id \<Rightarrow> bytes \<Rightarrow> bool \<Rightarrow> transport_error + bytes) \<Rightarrow> (down \<Rightarrow> 'm) \<Rightarrow> supervision_envelope
    \<Rightarrow> 'm world \<Rightarrow> ((transport_error + unit) \<times> 'm world) run" where
  "node_publish_libp2p cd send mk env w =
     publish_routed (wd_here w) env
       (\<lambda>e w. run_then (broker_hook mk e w) (\<lambda>(r, w1). Returns (map_sum id (\<lambda>_. ()) r, w1)))
       (\<lambda>n e w. Returns (libp2p_send_supervision_to cd send n e, w)) w"

definition node_request_libp2p ::
  "codec \<Rightarrow> (node_id \<Rightarrow> bytes \<Rightarrow> bool \<Rightarrow> transport_error + bytes) \<Rightarrow> rpc" where
  "node_request_libp2p cd send = Some (libp2p_request_supervision_from cd send)"

section \<open>Configuration\<close>

datatype node_error = NodeTransport transport_error | NameAlreadySet | InvalidConfig string

datatype transport_kind = TcpKind | Libp2pKind

record node_builder =
  nb_name :: "node_id option"
  nb_transport :: transport_kind
  nb_listen :: "string option"
  nb_peers :: "(node_id \<times> string) list"
  nb_listen_libp2p :: "string option"
  nb_libp2p_peers :: "(node_id \<times> string \<times> string) list"
  nb_shutdown_handles :: "actor_id list"

definition node_builder_default :: node_builder where
  "node_builder_default = \<lparr>nb_name = None, nb_transport = TcpKind, nb_listen = None, nb_peers = [],
     nb_listen_libp2p = None, nb_libp2p_peers = [], nb_shutdown_handles = []\<rparr>"

definition builder_name :: "node_id \<Rightarrow> node_builder \<Rightarrow> node_builder" where
  "builder_name n b = b\<lparr>nb_name := Some n\<rparr>"

definition transport_tcp :: "node_builder \<Rightarrow> node_builder" where
  "transport_tcp b = b\<lparr>nb_transport := TcpKind\<rparr>"

definition transport_libp2p :: "node_builder \<Rightarrow> node_builder" where
  "transport_libp2p b = b\<lparr>nb_transport := Libp2pKind\<rparr>"

definition builder_listen :: "string \<Rightarrow> node_builder \<Rightarrow> node_builder" where
  "builder_listen a b = b\<lparr>nb_listen := Some a\<rparr>"

definition builder_listen_libp2p :: "string \<Rightarrow> node_builder \<Rightarrow> node_builder" where
  "builder_listen_libp2p a b = b\<lparr>nb_listen_libp2p := Some a\<rparr>"

definition builder_peer :: "node_id \<Rightarrow> string \<Rightarrow> node_builder \<Rightarrow> node_builder" where
  "builder_peer n a b = b\<lparr>nb_peers := AList.update n a (nb_peers b)\<rparr>"

definition builder_libp2p_peer :: "node_id \<Rightarrow> string \<Rightarrow> string \<Rightarrow> node_builder \<Rightarrow> node_builder" where
  "builder_libp2p_peer n i a b = b\<lparr>nb_libp2p_peers := nb_libp2p_peers b @ [(n, i, a)]\<rparr>"

definition builder_shutdown_on_signal :: "actor_id list \<Rightarrow> node_builder \<Rightarrow> node_builder" where
  "builder_shutdown_on_signal hs b = b\<lparr>nb_shutdown_handles := nb_shutdown_handles b @ hs\<rparr>"

definition builder_validate :: "node_builder \<Rightarrow> node_error + unit" where
  "builder_validate b =
     (if nb_transport b = Libp2pKind
      then if nb_listen b \<noteq> None \<or> nb_peers b \<noteq> []
           then Inl (InvalidConfig ''libp2p transport cannot be combined with TCP listen/peer options'') else Inr ()
      else if nb_listen_libp2p b \<noteq> None \<or> nb_libp2p_peers b \<noteq> []
      then Inl (InvalidConfig ''TCP transport cannot be combined with libp2p listen/peer options'') else Inr ())"

definition cluster_active :: "node_builder \<Rightarrow> bool" where
  "cluster_active b =
     (case nb_transport b of
        Libp2pKind \<Rightarrow> nb_listen_libp2p b \<noteq> None \<or> nb_libp2p_peers b \<noteq> []
      | TcpKind \<Rightarrow> nb_listen b \<noteq> None \<or> nb_peers b \<noteq> [])"

section \<open>Building a node\<close>

datatype 's cluster_backend = TcpBackend "'s tcp_transport option" "string option" | Libp2pBackend | NoBackend

record 'm node =
  nd_local :: node_id
  nd_backend :: "'m world cluster_backend"
  nd_dispatch :: "'m world routes"
  nd_supervision :: "actor_id option"
  nd_guards :: "u64 list"
  nd_listen_configured :: bool
  nd_peers_configured :: nat

text \<open>
  The process around the node: its actors, the registry of signal receivers, and which publish
  hooks are installed (federated events, supervision).
\<close>

record 'm process =
  pr_world :: "'m world"
  pr_signals :: signal_registry
  pr_federated :: bool
  pr_supervised :: bool

definition set_name ::
  "string option \<Rightarrow> node_id option \<Rightarrow> 'm world \<Rightarrow> (node_error + node_id) \<times> 'm world" where
  "set_name env name w =
     (let w1 = (case name of None \<Rightarrow> w | Some n \<Rightarrow> w\<lparr>wd_addr := set_local_node_for_test n (wd_addr w)\<rparr>)
      in case local_node env (wd_addr w1) of
           (n, ad) \<Rightarrow>
             (let w2 = w1\<lparr>wd_addr := ad, wd_here := n\<rparr>
              in if name \<noteq> None \<and> name \<noteq> Some n then (Inl NameAlreadySet, w2) else (Inr n, w2)))"

definition install_current_runtime :: "'m world \<Rightarrow> 'm world" where
  "install_current_runtime w =
     (if ss_caller (wd_spawn w) \<noteq> OutsideRuntime then w\<lparr>wd_spawn := install_tasks_runtime (wd_spawn w)\<rparr> else w)"

definition start_broker_if :: "bool \<Rightarrow> node_id \<Rightarrow> 'm world \<Rightarrow> actor_id option \<times> 'm world" where
  "start_broker_if active here w =
     (if active then apfst Some (start_supervision_broker here w) else (None, w))"

definition install_signals :: "actor_id list \<Rightarrow> signal_registry \<Rightarrow> u64 list \<times> signal_registry" where
  "install_signals hs g =
     (if hs = [] then ([], g) else register_shutdown_on_signal hs (snd (spawn_shutdown_signal_dispatcher g)))"

definition build_tcp ::
  "(down \<Rightarrow> 'm) \<Rightarrow> (string \<Rightarrow> string option) \<Rightarrow> node_builder \<Rightarrow> node_id \<Rightarrow> actor_id option \<Rightarrow> 'm process
    \<Rightarrow> (node_error + 'm node) \<times> 'm process" where
  "build_tcp mk bind b here broker p =
     (let tcp = (if nb_peers b = [] then None
                 else Some \<lparr>tt_local = here, tt_peers = nb_peers b, tt_connections = Map.empty,
                            tt_control = (if cluster_active b then node_control mk else control_none)\<rparr>);
          p1 = (if tcp = None then p
                else p\<lparr>pr_federated := pr_federated p \<or> cluster_active b, pr_supervised := pr_supervised p \<or> broker \<noteq> None\<rparr>)
      in case Option.bind (nb_listen b) bind of
           Some e \<Rightarrow> (Inl (NodeTransport (TeIo e)), p1)
         | None \<Rightarrow>
             (case install_signals (nb_shutdown_handles b) (pr_signals p1) of
                (guards, g) \<Rightarrow>
                  (Inr \<lparr>nd_local = here, nd_backend = TcpBackend tcp (nb_listen b), nd_dispatch = Map.empty, nd_supervision = broker,
                        nd_guards = guards, nd_listen_configured = nb_listen b \<noteq> None,
                        nd_peers_configured = length (nb_peers b)\<rparr>,
                   p1\<lparr>pr_signals := g\<rparr>)))"

definition build_libp2p ::
  "(node_id \<Rightarrow> transport_error option) \<Rightarrow> node_builder \<Rightarrow> node_id \<Rightarrow> actor_id option \<Rightarrow> 'm process
    \<Rightarrow> (node_error + 'm node) \<times> 'm process" where
  "build_libp2p p2p_start b here broker p =
     (if nb_listen_libp2p b = None \<and> nb_libp2p_peers b = []
      then (Inl (InvalidConfig ''libp2p node requires listen_libp2p or at least one libp2p_peer''), p)
      else case p2p_start here of
             Some e \<Rightarrow> (Inl (NodeTransport e), p)
           | None \<Rightarrow>
               (let p1 = p\<lparr>pr_federated := pr_federated p \<or> cluster_active b, pr_supervised := pr_supervised p \<or> broker \<noteq> None\<rparr>
                in case install_signals (nb_shutdown_handles b) (pr_signals p1) of
                     (guards, g) \<Rightarrow>
                       (Inr \<lparr>nd_local = here, nd_backend = Libp2pBackend, nd_dispatch = Map.empty, nd_supervision = broker, nd_guards = guards,
                             nd_listen_configured = nb_listen_libp2p b \<noteq> None,
                             nd_peers_configured = length (nb_libp2p_peers b)\<rparr>,
                        p1\<lparr>pr_signals := g\<rparr>)))"

definition build ::
  "(down \<Rightarrow> 'm) \<Rightarrow> string option \<Rightarrow> (string \<Rightarrow> string option) \<Rightarrow> (node_id \<Rightarrow> transport_error option)
    \<Rightarrow> node_builder \<Rightarrow> 'm process \<Rightarrow> (node_error + 'm node) \<times> 'm process" where
  "build mk env bind p2p_start b p =
     (case builder_validate b of
        Inl e \<Rightarrow> (Inl e, p)
      | Inr _ \<Rightarrow>
          (case set_name env (nb_name b) (pr_world p) of
             (Inl e, w) \<Rightarrow> (Inl e, p\<lparr>pr_world := w\<rparr>)
           | (Inr here, w) \<Rightarrow>
               (case start_broker_if (cluster_active b) here (install_current_runtime w) of
                  (broker, w1) \<Rightarrow>
                    (case nb_transport b of
                       Libp2pKind \<Rightarrow> build_libp2p p2p_start b here broker (p\<lparr>pr_world := w1\<rparr>)
                     | TcpKind \<Rightarrow> build_tcp mk bind b here broker (p\<lparr>pr_world := w1\<rparr>)))))"

section \<open>Readiness\<close>

record node_readiness =
  router_installed :: bool
  listener_active :: bool
  supervision_enabled :: bool
  nr_broker_alive :: bool
  peers_configured :: nat
  listen_configured :: bool

definition is_ready :: "node_readiness \<Rightarrow> bool" where
  "is_ready r \<longleftrightarrow> (\<not> supervision_enabled r \<or> nr_broker_alive r) \<and> (\<not> listen_configured r \<or> listener_active r)"

definition backend_listening :: "bool \<Rightarrow> 's cluster_backend \<Rightarrow> bool" where
  "backend_listening p2p_addrs be = (case be of TcpBackend _ l \<Rightarrow> l \<noteq> None | Libp2pBackend \<Rightarrow> p2p_addrs | NoBackend \<Rightarrow> False)"

definition readiness :: "bool \<Rightarrow> 'm node \<Rightarrow> 'm world \<Rightarrow> node_readiness" where
  "readiness p2p_addrs nd w = \<lparr>router_installed = True, listener_active = backend_listening p2p_addrs (nd_backend nd),
     supervision_enabled = nd_supervision nd \<noteq> None,
     nr_broker_alive = (nd_supervision nd \<noteq> None \<and> (case wd_broker w of Some b \<Rightarrow> broker_alive b w | None \<Rightarrow> False)),
     peers_configured = nd_peers_configured nd, listen_configured = nd_listen_configured nd\<rparr>"

definition register_supervision ::
  "actor_address \<Rightarrow> actor_id \<Rightarrow> 'm node \<Rightarrow> 'm world \<Rightarrow> (node_error + unit) \<times> 'm world" where
  "register_supervision a h nd w =
     (if nd_supervision nd = None
      then (Inl (InvalidConfig ''supervision broker not running (cluster listen/peer required)''), w)
      else apfst (map_sum NodeTransport id) (register_supervision_actor a h w))"

text \<open>\<open>p2p_sync\<close> is what \<open>sync_peers\<close> of the libp2p cluster returns.\<close>

definition sync_registry ::
  "codec \<Rightarrow> (string \<Rightarrow> string + socket) \<Rightarrow> (transport_error + unit) \<Rightarrow> 'm node \<Rightarrow> 'm world
    \<Rightarrow> (transport_error + unit) \<times> 'm node \<times> 'm world" where
  "sync_registry cd net p2p_sync nd w =
     (case nd_backend nd of
        TcpBackend None l \<Rightarrow> (Inr (), nd, w)
      | TcpBackend (Some tt) l \<Rightarrow>
          (case sync_peers cd net (tt, w) of
             (r, (tt1, w1)) \<Rightarrow> (r, nd\<lparr>nd_backend := TcpBackend (Some tt1) l\<rparr>, w1))
      | Libp2pBackend \<Rightarrow> (p2p_sync, nd, w)
      | NoBackend \<Rightarrow> (Inr (), nd, w))"

section \<open>Wire handlers and the end of a node\<close>

definition register_tasks_wire ::
  "('m, 'r) message_type \<Rightarrow> actor_address \<Rightarrow> ('m, 'r, 'e world) recipient \<Rightarrow> 'e node \<Rightarrow> 'e node" where
  "register_tasks_wire mt a rc nd = nd\<lparr>nd_dispatch :=
     dispatch_register a (wire_dispatch (mt_remote_id mt) (mt_de mt) (mt_reply_ser mt) a rc) (nd_dispatch nd)\<rparr>"

definition register_threads_wire ::
  "('m, 'r) message_type \<Rightarrow> actor_address \<Rightarrow> ('m, 'r, 'e world) recipient \<Rightarrow> 'e node \<Rightarrow> 'e node" where
  "register_threads_wire mt a rc nd = nd\<lparr>nd_dispatch :=
     dispatch_register a (wire_dispatch (mt_remote_id mt) (mt_de mt) (mt_reply_ser mt) a rc) (nd_dispatch nd)\<rparr>"

text \<open>Dropping a node stops its listener or its swarm and removes the signal registrations of its guards.\<close>

definition node_drop :: "'m node \<Rightarrow> 'm process \<Rightarrow> 'm node \<times> 'm process" where
  "node_drop nd p =
     (nd\<lparr>nd_backend := (case nd_backend nd of TcpBackend tt _ \<Rightarrow> TcpBackend tt None | be \<Rightarrow> be), nd_guards := []\<rparr>,
      p\<lparr>pr_signals := fold drop_signal_guard (nd_guards nd) (pr_signals p)\<rparr>)"

section \<open>Facts\<close>

text \<open>
  A node serves an actor for a message type once it was registered, as long as the handlers
  registered before it decline the type.
\<close>

lemma registered_served:
  assumes "case nd_dispatch nd a of None \<Rightarrow> True | Some hs \<Rightarrow> \<forall>h \<in> set hs. declines (mt_remote_id mt) h"
  shows "served mt a rc (nd_dispatch (register_tasks_wire mt a rc nd))"
proof (cases "nd_dispatch nd a")
  case None
  then show ?thesis
    unfolding served_def by (intro exI [of _ "[]"]) (simp add: register_tasks_wire_def dispatch_register_def)
next
  case (Some hs)
  with assms show ?thesis
    unfolding served_def
    by (intro exI [of _ hs] exI [of _ "[]"]) (simp add: register_tasks_wire_def dispatch_register_def)
qed

text \<open>A dropped node leaves no registration of its own behind, and those of others as they were.\<close>

lemma fold_drop_guards:
  "sg_entries (fold drop_signal_guard gs g) = filter (\<lambda>(i, _). i \<notin> set gs) (sg_entries g)"
  by (induction gs arbitrary: g) (auto simp: drop_signal_guard_def intro!: filter_cong)

lemma node_drop_signals:
  "sg_entries (pr_signals (snd (node_drop nd p))) = filter (\<lambda>(i, _). i \<notin> set (nd_guards nd)) (sg_entries (pr_signals p))"
  by (simp add: node_drop_def fold_drop_guards)

end
