(* ===== verification/Remote_Lifecycle.thy ===== *)
theory Remote_Lifecycle
  imports Node
begin

text \<open>
  The life of a remotely spawned child, step by step: the broker of the placement node starts it
  for a remote supervisor, the broker hears of its exit over the link, reports it to the
  supervisor's node, and the broker there delivers it to the supervisor.
\<close>

section \<open>Starting\<close>

text \<open>A worker type that can be started where the request is served.\<close>

definition startable :: "string \<Rightarrow> bytes \<Rightarrow> spawn_store \<Rightarrow> bool" where
  "startable wt ini ss \<longleftrightarrow>
     (\<exists>f. ss_tasks_workers ss wt = Some f \<and> f ini = None \<and>
        (ss_caller ss = BlockingThread \<or> ss_caller ss = OutsideRuntime \<and> ss_installed ss)) \<or>
     (ss_tasks_workers ss wt = None \<and> (\<exists>f. ss_threads_workers ss wt = Some f \<and> f ini = None))"

lemma spawn_startable:
  assumes "startable wt ini (wd_spawn w)"
  shows "\<exists>rt. spawn_local (WorkerSpec wt ini) True (Some h) w =
    Returns (apfst Inr (start_linked_to_handle rt h default_worker w))"
proof -
  from assms consider f where "ss_tasks_workers (wd_spawn w) wt = Some f" "f ini = None"
      "ss_caller (wd_spawn w) = BlockingThread \<or> ss_caller (wd_spawn w) = OutsideRuntime \<and> ss_installed (wd_spawn w)"
    | f where "ss_tasks_workers (wd_spawn w) wt = None" "ss_threads_workers (wd_spawn w) wt = Some f" "f ini = None"
    unfolding startable_def by blast
  then show ?thesis
  proof cases
    case 1
    then show ?thesis
      by (intro exI [of _ Tasks])
        (auto simp: spawn_worker_def tasks_worker_fn_def start_on_runtime_def start_worker_def dispatch_tasks_spawn_def
          apfst_def map_prod_def split: prod.splits)
  next
    case 2
    then show ?thesis
      by (intro exI [of _ Threads]) (simp add: spawn_worker_def threads_worker_fn_def start_worker_def)
  qed
qed

text \<open>Inside an asynchronous task of the runtime, starting a tasks worker panics.\<close>

lemma spawn_in_task_panics:
  assumes "ss_tasks_workers (wd_spawn w) wt = Some f" "f ini = None" "ss_caller (wd_spawn w) = AsyncTask"
    "br_local b = here" "br_broker_handle b = Some h"
  shows "apply_spawn cid parent here (WorkerSpec wt ini) True b w = Panics"
  using assms by (simp add: apply_spawn_def Let_def spawn_worker_def tasks_worker_fn_def start_on_runtime_def)

definition broker_ready :: "actor_id \<Rightarrow> broker \<Rightarrow> 'm world \<Rightarrow> bool" where
  "broker_ready h b w \<longleftrightarrow> wd_broker w = Some b \<and> br_local b = wd_here w \<and> br_broker_handle b = Some h \<and>
     world_inv w \<and> \<not> fresh_id w h \<and> is_alive h (wd_cells w) \<and> cl_trap_exit (wd_cells w h) \<and>
     rx_alive (supervision (cl_mailbox (wd_cells w h))) \<and> cl_linked_reason (wd_cells w h) = None"

text \<open>What the node keeps of a child it started for a remote parent.\<close>

definition hosted :: "actor_id \<Rightarrow> actor_address \<Rightarrow> actor_id \<Rightarrow> broker \<Rightarrow> 'm world \<Rightarrow> bool" where
  "hosted c parent h b w \<longleftrightarrow> broker_ready h b w \<and> is_alive c (wd_cells w) \<and> cl_links (wd_cells w c) = [h] \<and> c \<noteq> h \<and>
     br_handles b c = Some c \<and> br_parents b c = Some parent"

lemma apply_spawn_hosts:
  assumes rdy: "broker_ready h b w" and st: "startable wt ini (wd_spawn w)" and room: "next_actor_id (wd_addr w) \<noteq> -1"
  shows "\<exists>c b1 w1. apply_spawn cid parent (wd_here w) (WorkerSpec wt ini) True b w =
      Returns (Inr (Some \<lparr>se_correlation_id = cid, se_event = SpawnOk (address_local (wd_here w) c)\<rparr>), w1) \<and>
    c = ActorId (next_actor_id (wd_addr w)) \<and> hosted c parent h b1 w1 \<and> wd_here w1 = wd_here w"
proof -
  have r: "br_local b = wd_here w" "br_broker_handle b = Some h" "world_inv w" "\<not> fresh_id w h" "is_alive h (wd_cells w)"
    "cl_trap_exit (wd_cells w h)" "rx_alive (supervision (cl_mailbox (wd_cells w h)))"
    "cl_linked_reason (wd_cells w h) = None" using rdy by (simp_all add: broker_ready_def)
  from spawn_startable [OF st, of h] obtain rt where
    sl: "spawn_local (WorkerSpec wt ini) True (Some h) w = Returns (apfst Inr (start_linked_to_handle rt h default_worker w))"
    by blast
  obtain c w1 where c: "start_linked_to_handle rt h default_worker w = (c, w1)" by fastforce
  note f = start_linked_cells [OF r(3,4) c]
  note i = world_inv_start [OF r(3,4,5) room c]
  let ?b1 = "b\<lparr>br_handles := (br_handles b)(c \<mapsto> c), br_parents := (br_parents b)(c \<mapsto> parent)\<rparr>"
  let ?w1 = "w1\<lparr>wd_broker := Some ?b1\<rparr>"
  have ap: "apply_spawn cid parent (wd_here w) (WorkerSpec wt ini) True b w =
      Returns (Inr (Some \<lparr>se_correlation_id = cid, se_event = SpawnOk (address_local (wd_here w) c)\<rparr>), ?w1)"
    using r(1,2) sl c by (simp add: apply_spawn_def Let_def broker_register_def address_local_def)
  have "c = ActorId (next_actor_id (wd_addr w))" by (rule f(1))
  moreover have "broker_ready h ?b1 ?w1"
    using i r f(2-4) by (auto simp: broker_ready_def world_inv_def fresh_id_def push_link_def alive_simps)
  moreover have "is_alive c (wd_cells ?w1)" "cl_links (wd_cells ?w1 c) = [h]"
    using i(3) f(2,3) by simp_all
  ultimately show ?thesis using ap f(2,4)
    by (intro exI [of _ c] exI [of _ ?b1] exI [of _ ?w1]) (simp add: hosted_def)
qed

section \<open>The child's exit\<close>

lemma hosted_exit_heard:
  assumes ho: "hosted c parent h b w"
  shows "r \<noteq> Kill \<Longrightarrow> queue (supervision (cl_mailbox (wd_cells (inner_future_end c r w) h))) =
      queue (supervision (cl_mailbox (wd_cells w h))) @ [\<lparr>exit_from = address_local (wd_here w) c, exit_cause = r\<rparr>]"
    "r = Kill \<Longrightarrow> cl_cancelled (wd_cells (inner_future_end c r w) h) \<and>
      cl_linked_reason (wd_cells (inner_future_end c r w) h) = Some Kill \<and>
      queue (supervision (cl_mailbox (wd_cells (inner_future_end c r w) h))) =
      queue (supervision (cl_mailbox (wd_cells w h)))"
proof -
  have inv: "link_inv (wd_cells w)" and l: "cl_links (wd_cells w c) = [h]" "h \<noteq> c" "cl_trap_exit (wd_cells w h)"
    "rx_alive (supervision (cl_mailbox (wd_cells w h)))" "cl_linked_reason (wd_cells w h) = None"
    using ho by (auto simp: hosted_def broker_ready_def world_inv_def)
  have "wd_cells (inner_future_end c r w) h = make_signal (wd_here w) c r (drop_link c (wd_cells w h))"
    using actor_exit_apply [where w = "wd_cells w" and own = c and here = "wd_here w" and r = r and b = h,
        OF link_invD(1,2) [OF inv]] l(1,2) by (simp add: inner_future_parts(1))
  then show "r \<noteq> Kill \<Longrightarrow> queue (supervision (cl_mailbox (wd_cells (inner_future_end c r w) h))) =
      queue (supervision (cl_mailbox (wd_cells w h))) @ [\<lparr>exit_from = address_local (wd_here w) c, exit_cause = r\<rparr>]"
    "r = Kill \<Longrightarrow> cl_cancelled (wd_cells (inner_future_end c r w) h) \<and>
      cl_linked_reason (wd_cells (inner_future_end c r w) h) = Some Kill \<and>
      queue (supervision (cl_mailbox (wd_cells (inner_future_end c r w) h))) =
      queue (supervision (cl_mailbox (wd_cells w h)))"
    using l(3-5)
    by (auto simp: make_signal_def drop_link_def send_exit_def send_supervision_tasks_def send_control_def chan_send_def
        cancel_def record_linked_reason_def)
qed

lemma child_exit_published:
  assumes "br_parents b c = Some parent" "actor_id (exit_from ex) = c"
  shows "wd_published (propagate_child_exit ex b w) =
      wd_published w @ [child_exit_envelope \<lparr>node = br_local b, actor_id = c\<rparr> parent (exit_cause ex)]"
    "\<exists>b1. wd_broker (propagate_child_exit ex b w) = Some b1 \<and> br_handles b1 c = None \<and> br_parents b1 c = None \<and>
      br_exited b1 c = Some (exit_cause ex)"
  using assms by (simp_all add: propagate_child_exit_def publish_supervision_def broker_unregister_def)

lemma child_exit_delivered:
  assumes "node parent = br_local b" "br_handles b (actor_id parent) = Some hp"
    "rx_alive (supervision (cl_mailbox (wd_cells w hp)))"
  shows "\<exists>w1. apply_child_exit child parent (exit_reason_to_wire r) b w = (Inr (), w1) \<and>
    queue (supervision (cl_mailbox (wd_cells w1 hp))) =
      queue (supervision (cl_mailbox (wd_cells w hp))) @ [\<lparr>exit_from = child, exit_cause = r\<rparr>]"
  using assms
  by (simp add: apply_child_exit_def deliver_exit_def send_exit_def modify_def send_supervision_tasks_def send_control_def
      chan_send_def)

text \<open>The whole life of the child after it was started, as the two brokers see it.\<close>

lemma hosted_life:
  assumes ho: "hosted c parent h b w" and r: "r \<noteq> Kill" and child: "child = address_local (wd_here w) c"
  shows "\<lparr>exit_from = child, exit_cause = r\<rparr> \<in> set (queue (supervision (cl_mailbox (wd_cells (inner_future_end c r w) h)))) \<and>
    wd_published (propagate_child_exit \<lparr>exit_from = child, exit_cause = r\<rparr> b (inner_future_end c r w)) =
      wd_published (inner_future_end c r w) @ [child_exit_envelope child parent r]"
proof -
  have b: "br_parents b c = Some parent" "br_local b = wd_here w" using ho by (simp_all add: hosted_def broker_ready_def)
  have "actor_id child = c" "child = \<lparr>node = br_local b, actor_id = c\<rparr>" using child b(2) by (simp_all add: address_local_def)
  with hosted_exit_heard(1) [OF ho r] child_exit_published(1) [OF b(1), of "\<lparr>exit_from = child, exit_cause = r\<rparr>"] child
  show ?thesis by simp
qed

lemma is_ok_unit: "is_ok r \<longleftrightarrow> r = Inr ()"
  by (cases r) simp_all

text \<open>The request side: what \<open>request_spawn\<close> makes of the reply that came over TCP.\<close>

lemma spawn_over_tcp:
  assumes en: "meets en w w2 t0 t2" "dials en net tt t0" "ch_supervision (en_server en) = Some (broker_hook mk)"
    and rdy: "broker_ready h b t2" "wd_here t2 = en_there en" "startable wt ini (wd_spawn t2)" "next_actor_id (wd_addr t2) \<noteq> -1"
    and req: "length ini \<le> MAX_REMOTE_SPAWN_INIT_BYTES" "wd_corr w \<noteq> 0"
      "sent_as (en_codec en) (SupervisionFrame \<lparr>se_correlation_id = wd_corr w,
         se_event = SpawnRequest parent (en_there en) (WorkerSpec wt ini) True\<rparr>) qb"
    and rep: "encode_supervision (en_codec en) \<lparr>se_correlation_id = wd_corr w,
         se_event = SpawnOk (address_local (en_there en) (ActorId (next_actor_id (wd_addr t2))))\<rparr> = Inr bs"
      "length bs \<le> MAX_FRAME_SIZE"
  shows "\<exists>c b3 t3 inp e out.
    request_spawn (node_request (en_codec en) net tt w) (en_there en) parent (WorkerSpec wt ini) True w =
      (Inr (address_local (en_there en) c), w\<lparr>wd_corr := wd_corr w + 1\<rparr>) \<and>
    serve_connection (en_codec en) (en_there en) (en_handler en) (en_server en) None inp t0 = Returns (e, out, t3) \<and>
    hosted c parent h b3 t3 \<and> wd_here t3 = en_there en"
proof -
  let ?rq = "\<lparr>se_correlation_id = wd_corr w, se_event = SpawnRequest parent (en_there en) (WorkerSpec wt ini) True\<rparr>"
  from apply_spawn_hosts [OF rdy(1,3,4), of "wd_corr w" parent] obtain c b3 t3 where
    sp: "apply_spawn (wd_corr w) parent (wd_here t2) (WorkerSpec wt ini) True b t2 = Returns (Inr (Some
      \<lparr>se_correlation_id = wd_corr w, se_event = SpawnOk (address_local (wd_here t2) c)\<rparr>), t3)"
    "c = ActorId (next_actor_id (wd_addr t2))" "hosted c parent h b3 t3" "wd_here t3 = wd_here t2" by blast
  let ?rp = "\<lparr>se_correlation_id = wd_corr w, se_event = SpawnOk (address_local (en_there en) c)\<rparr>"
  have v: "is_ok (validate_envelope ?rq)" "is_ok (validate_reply ?rq ?rp)"
    using req(1,2) by (auto simp: validate_envelope_ok validate_reply_ok)
  have "apply_supervision (ch_supervision (en_server en)) ?rq t2 = Returns (Inr (Some ?rp), t3)"
    using v(1) sp(1) rdy(1,2) by (simp add: en(3) apply_supervision_def broker_hook_def broker_ready_def broker_apply_def is_ok_unit)
  moreover have "encode_supervision (en_codec en) ?rp = Inr bs" using rep(1) sp(2) by simp
  ultimately obtain sk where tcp: "tcp_request_supervision (en_codec en) net (en_there en) ?rq (tt, w) =
      (Inr ?rp, (tt\<lparr>tt_connections := (tt_connections tt)(en_there en \<mapsto> sk)\<rparr>, w2))"
    and srv: "\<exists>e out. serve_connection (en_codec en) (en_there en) (en_handler en) (en_server en) None (sk_out sk) t0 =
      Returns (e, out, t3)"
    using tcp_supervision_request [OF en(1,2) req(3) v(1) _ _ rep(2) v(2)] by blast
  from tcp have "request_spawn (node_request (en_codec en) net tt w) (en_there en) parent (WorkerSpec wt ini) True w =
      (Inr (address_local (en_there en) c), w\<lparr>wd_corr := wd_corr w + 1\<rparr>)"
    by (simp add: request_spawn_def next_correlation_id_def request_supervision_def node_request_def)
  with srv sp(3,4) rdy(2) show ?thesis by metis
qed

end
