(* ===== verification/Rt_Threads.thy ===== *)
theory Rt_Threads
  imports Mailbox
begin

text \<open>
  The primitives of the threads runtime (\<open>rt/src/threads/mod.rs\<close>): the cancellation token with
  its callbacks and the subscribers of the operating system's shutdown signals. The token is
  used from many threads: a thread inside \<open>cancel\<close> or \<open>on_cancel\<close> is at one of the program
  points below, and a step is one access to the flag or one critical section of the mutex that
  guards the callbacks. \<open>tk_registered\<close> and \<open>tk_fired\<close> only record what has happened.
\<close>

section \<open>The cancellation token\<close>

datatype 'c token_pc =
    TIdle
  | Cancelling
  | Firing "'c list"
  | Locked 'c
  | Checked 'c
  | Immediate 'c

record 'c token =
  tk_is_cancelled :: bool
  tk_callbacks :: "'c list"
  tk_lock :: "nat option"
  tk_threads :: "'c token_pc list"
  tk_registered :: "'c list"
  tk_fired :: "'c list"

definition token_new :: "nat \<Rightarrow> 'c token" where
  "token_new n = \<lparr>tk_is_cancelled = False, tk_callbacks = [], tk_lock = None,
     tk_threads = replicate n TIdle, tk_registered = [], tk_fired = []\<rparr>"

definition at_pc :: "nat \<Rightarrow> 'c token_pc \<Rightarrow> 'c token \<Rightarrow> bool" where
  "at_pc i pc s \<longleftrightarrow> i < length (tk_threads s) \<and> tk_threads s ! i = pc"

definition goto :: "nat \<Rightarrow> 'c token_pc \<Rightarrow> 'c token \<Rightarrow> 'c token" where
  "goto i pc s = s\<lparr>tk_threads := (tk_threads s)[i := pc]\<rparr>"

text \<open>\<open>cancel\<close>: set the flag, drain the callbacks under the lock, call them one by one.\<close>

inductive cancel_step :: "'c token \<Rightarrow> 'c token \<Rightarrow> bool" where
  store: "at_pc i TIdle s \<Longrightarrow> cancel_step s (goto i Cancelling (s\<lparr>tk_is_cancelled := True\<rparr>))"
| drain: "at_pc i Cancelling s \<Longrightarrow> tk_lock s = None \<Longrightarrow>
    cancel_step s (goto i (Firing (tk_callbacks s)) (s\<lparr>tk_callbacks := []\<rparr>))"
| fire: "at_pc i (Firing (c # cs)) s \<Longrightarrow> cancel_step s (goto i (Firing cs) (s\<lparr>tk_fired := tk_fired s @ [c]\<rparr>))"
| finish: "at_pc i (Firing []) s \<Longrightarrow> cancel_step s (goto i TIdle s)"

text \<open>\<open>on_cancel\<close>: take the lock, read the flag; release and call, or push and release.\<close>

inductive on_cancel_step :: "'c token \<Rightarrow> 'c token \<Rightarrow> bool" where
  acquire: "at_pc i TIdle s \<Longrightarrow> tk_lock s = None \<Longrightarrow>
    on_cancel_step s (goto i (Locked c) (s\<lparr>tk_lock := Some i, tk_registered := tk_registered s @ [c]\<rparr>))"
| seen: "at_pc i (Locked c) s \<Longrightarrow> tk_is_cancelled s \<Longrightarrow> on_cancel_step s (goto i (Immediate c) (s\<lparr>tk_lock := None\<rparr>))"
| unseen: "at_pc i (Locked c) s \<Longrightarrow> \<not> tk_is_cancelled s \<Longrightarrow> on_cancel_step s (goto i (Checked c) s)"
| push: "at_pc i (Checked c) s \<Longrightarrow>
    on_cancel_step s (goto i TIdle (s\<lparr>tk_callbacks := tk_callbacks s @ [c], tk_lock := None\<rparr>))"
| call: "at_pc i (Immediate c) s \<Longrightarrow> on_cancel_step s (goto i TIdle (s\<lparr>tk_fired := tk_fired s @ [c]\<rparr>))"

definition token_step :: "'c token \<Rightarrow> 'c token \<Rightarrow> bool" where
  "token_step s t \<longleftrightarrow> cancel_step s t \<or> on_cancel_step s t"

section \<open>Subscribers of shutdown signals\<close>

record subscribers =
  sb_registered :: bool
  sb_subscribers :: "nat list"
  sb_channels :: "nat \<Rightarrow> os_signal chan"
  sb_next :: nat

definition subscribe_shutdown_signal :: "subscribers \<Rightarrow> nat \<times> subscribers" where
  "subscribe_shutdown_signal s =
     (let rx = sb_next s
      in (rx, s\<lparr>sb_registered := True, sb_subscribers := sb_subscribers s @ [rx],
                sb_channels := (sb_channels s)(rx := chan_new), sb_next := Suc rx\<rparr>))"

fun notify_each :: "os_signal \<Rightarrow> nat list \<Rightarrow> (nat \<Rightarrow> os_signal chan) \<Rightarrow> nat list \<times> (nat \<Rightarrow> os_signal chan)" where
  "notify_each sig [] chans = ([], chans)"
| "notify_each sig (tx # txs) chans =
     (case chan_send (chans tx) sig of
        (Inl _, ch) \<Rightarrow> notify_each sig txs (chans(tx := ch))
      | (Inr _, ch) \<Rightarrow> apfst ((#) tx) (notify_each sig txs (chans(tx := ch))))"

definition notify_subscribers :: "os_signal \<Rightarrow> subscribers \<Rightarrow> subscribers" where
  "notify_subscribers sig s =
     (case notify_each sig (sb_subscribers s) (sb_channels s) of
        (kept, chans) \<Rightarrow> s\<lparr>sb_subscribers := kept, sb_channels := chans\<rparr>)"

text \<open>The closure that \<open>shutdown_signal_listener\<close> returns; \<open>None\<close> while it blocks.\<close>

definition listen :: "nat \<Rightarrow> subscribers \<Rightarrow> os_signal option" where
  "listen rx s =
     (case fst (chan_try_recv (sb_channels s rx)) of
        Received sig \<Rightarrow> Some sig
      | Empty \<Rightarrow> None
      | Disconnected \<Rightarrow> Some CtrlC)"

section \<open>Facts about the token\<close>

text \<open>How many times a thread at a program point still has to run \<open>c\<close>.\<close>

fun held :: "'c \<Rightarrow> 'c token_pc \<Rightarrow> nat" where
  "held c (Firing cs) = count_list cs c"
| "held c (Locked d) = (if d = c then 1 else 0)"
| "held c (Checked d) = (if d = c then 1 else 0)"
| "held c (Immediate d) = (if d = c then 1 else 0)"
| "held c _ = 0"

fun inside :: "'c token_pc \<Rightarrow> bool" where
  "inside (Locked _) = True"
| "inside (Checked _) = True"
| "inside _ = False"

fun after_store :: "'c token_pc \<Rightarrow> bool" where
  "after_store Cancelling = True"
| "after_store (Firing _) = True"
| "after_store (Immediate _) = True"
| "after_store _ = False"

definition held_total :: "'c \<Rightarrow> 'c token \<Rightarrow> nat" where
  "held_total c s = (\<Sum>pc \<leftarrow> tk_threads s. held c pc)"

lemma sum_list_goto:
  assumes "at_pc i pc s"
  shows "held_total c (goto i pc' s) + held c pc = held_total c s + held c pc'"
proof -
  have i: "i < length (tk_threads s)" "tk_threads s ! i = pc" using assms by (simp_all add: at_pc_def)
  let ?xs = "map (held c) (tk_threads s)"
  have "sum_list (?xs[i := held c pc']) = sum_list ?xs + held c pc' - ?xs ! i"
    using i by (intro sum_list_update) simp
  moreover have "?xs ! i \<le> sum_list ?xs" using i by (intro member_le_sum_list) auto
  ultimately show ?thesis using i by (simp add: held_total_def goto_def map_update)
qed

definition waiting_to_fire :: "'c token \<Rightarrow> bool" where
  "waiting_to_fire s \<longleftrightarrow> tk_callbacks s \<noteq> [] \<or> (\<exists>i c. at_pc i (Checked c) s)"

definition token_inv :: "'c token \<Rightarrow> bool" where
  "token_inv s \<longleftrightarrow>
     (\<forall>c. count_list (tk_registered s) c =
        count_list (tk_fired s) c + count_list (tk_callbacks s) c + held_total c s) \<and>
     (\<forall>i pc. at_pc i pc s \<longrightarrow> (inside pc \<longleftrightarrow> tk_lock s = Some i)) \<and>
     (\<forall>i. tk_lock s = Some i \<longrightarrow> i < length (tk_threads s)) \<and>
     (\<forall>i pc. at_pc i pc s \<longrightarrow> after_store pc \<longrightarrow> tk_is_cancelled s) \<and>
     (tk_fired s \<noteq> [] \<longrightarrow> tk_is_cancelled s) \<and>
     (tk_is_cancelled s \<longrightarrow> waiting_to_fire s \<longrightarrow> (\<exists>i. at_pc i Cancelling s))"

lemma at_goto:
  "at_pc i pc0 s \<Longrightarrow> at_pc j pc (goto i pc' s) \<longleftrightarrow> (if j = i then pc = pc' else at_pc j pc s)"
  by (auto simp: at_pc_def goto_def nth_list_update)

lemma at_frame [simp]:
  "at_pc i pc (s\<lparr>tk_is_cancelled := b\<rparr>) = at_pc i pc s" "at_pc i pc (s\<lparr>tk_callbacks := cs\<rparr>) = at_pc i pc s"
  "at_pc i pc (s\<lparr>tk_lock := l\<rparr>) = at_pc i pc s" "at_pc i pc (s\<lparr>tk_fired := fs\<rparr>) = at_pc i pc s"
  "at_pc i pc (s\<lparr>tk_registered := rs\<rparr>) = at_pc i pc s"
  by (simp_all add: at_pc_def)

lemma held_frame [simp]:
  "held_total c (s\<lparr>tk_is_cancelled := b\<rparr>) = held_total c s" "held_total c (s\<lparr>tk_callbacks := cs\<rparr>) = held_total c s"
  "held_total c (s\<lparr>tk_lock := l\<rparr>) = held_total c s" "held_total c (s\<lparr>tk_fired := fs\<rparr>) = held_total c s"
  "held_total c (s\<lparr>tk_registered := rs\<rparr>) = held_total c s"
  by (simp_all add: held_total_def)

lemma goto_fields [simp]:
  "tk_is_cancelled (goto i pc s) = tk_is_cancelled s" "tk_callbacks (goto i pc s) = tk_callbacks s"
  "tk_lock (goto i pc s) = tk_lock s" "tk_registered (goto i pc s) = tk_registered s"
  "tk_fired (goto i pc s) = tk_fired s" "length (tk_threads (goto i pc s)) = length (tk_threads s)"
  by (simp_all add: goto_def)

lemma at_unique: "at_pc i pc s \<Longrightarrow> at_pc i pc' s \<longleftrightarrow> pc' = pc"
  by (auto simp: at_pc_def)

lemma at_less: "at_pc i pc s \<Longrightarrow> i < length (tk_threads s)"
  by (simp add: at_pc_def)

text \<open>What a step that moves thread \<open>i\<close> from \<open>pc\<close> to \<open>pc'\<close> has to show; \<open>s1\<close> is the state before the move.\<close>

lemma token_inv_move:
  assumes inv: "token_inv s" and i: "at_pc i pc s" and th: "tk_threads s1 = tk_threads s"
    and cnt: "\<And>c. count_list (tk_registered s1) c + count_list (tk_fired s) c + count_list (tk_callbacks s) c + held c pc =
      count_list (tk_registered s) c + count_list (tk_fired s1) c + count_list (tk_callbacks s1) c + held c pc'"
    and lock: "inside pc' \<longleftrightarrow> tk_lock s1 = Some i" "\<And>j. j \<noteq> i \<Longrightarrow> tk_lock s1 = Some j \<longleftrightarrow> tk_lock s = Some j"
    and flag: "tk_is_cancelled s \<Longrightarrow> tk_is_cancelled s1" "after_store pc' \<Longrightarrow> tk_is_cancelled s1"
      "tk_fired s1 \<noteq> tk_fired s \<Longrightarrow> tk_is_cancelled s1"
    and late: "tk_is_cancelled s1 \<Longrightarrow> waiting_to_fire (goto i pc' s1) \<Longrightarrow> \<exists>j. at_pc j Cancelling (goto i pc' s1)"
  shows "token_inv (goto i pc' s1)"
proof -
  have at: "at_pc j q s1 \<longleftrightarrow> at_pc j q s" "held_total c s1 = held_total c s" for j q c
    by (simp_all add: at_pc_def held_total_def th)
  have i1: "at_pc i pc s1" using i at by simp
  have "count_list (tk_registered s1) c = count_list (tk_fired s1) c + count_list (tk_callbacks s1) c + held_total c (goto i pc' s1)" for c
    using inv cnt [of c] sum_list_goto [OF i1, of c pc'] at(2) [of c] by (simp add: token_inv_def)
  moreover have "\<forall>j q. at_pc j q (goto i pc' s1) \<longrightarrow> (inside q \<longleftrightarrow> tk_lock s1 = Some j)"
    using inv lock by (simp add: at_goto [OF i1] at token_inv_def)
  moreover have "\<forall>j. tk_lock s1 = Some j \<longrightarrow> j < length (tk_threads s1)"
  proof (intro allI impI)
    fix j assume j: "tk_lock s1 = Some j"
    show "j < length (tk_threads s1)"
      using inv lock(2) [of j] j at_less [OF i1] by (cases "j = i") (simp_all add: token_inv_def th)
  qed
  moreover have "\<forall>j q. at_pc j q (goto i pc' s1) \<longrightarrow> after_store q \<longrightarrow> tk_is_cancelled s1"
    using inv flag by (auto simp: at_goto [OF i1] at token_inv_def)
  moreover have "tk_fired s1 \<noteq> [] \<longrightarrow> tk_is_cancelled s1"
    using inv flag by (cases "tk_fired s1 = tk_fired s") (auto simp: token_inv_def)
  ultimately show ?thesis using late by (simp add: token_inv_def)
qed

lemma token_invD:
  assumes "token_inv s"
  shows "count_list (tk_registered s) c = count_list (tk_fired s) c + count_list (tk_callbacks s) c + held_total c s"
    "at_pc i pc s \<Longrightarrow> inside pc \<longleftrightarrow> tk_lock s = Some i" "tk_lock s = Some i \<Longrightarrow> i < length (tk_threads s)"
    "at_pc i pc s \<Longrightarrow> after_store pc \<Longrightarrow> tk_is_cancelled s" "tk_fired s \<noteq> [] \<Longrightarrow> tk_is_cancelled s"
    "tk_is_cancelled s \<Longrightarrow> waiting_to_fire s \<Longrightarrow> \<exists>i. at_pc i Cancelling s"
  using assms by (auto simp: token_inv_def)

lemma waiting_goto:
  assumes "at_pc i pc s"
  shows "waiting_to_fire (goto i pc' s) \<longleftrightarrow>
    tk_callbacks s \<noteq> [] \<or> (\<exists>c. pc' = Checked c) \<or> (\<exists>j c. j \<noteq> i \<and> at_pc j (Checked c) s)"
  using at_goto [OF assms] by (auto simp: waiting_to_fire_def)

text \<open>A thread that is not the one cancelling leaves the cancelling one where it is.\<close>

lemma late_kept:
  assumes "token_inv s" "at_pc i pc s" "pc \<noteq> Cancelling" "tk_threads s1 = tk_threads s" "tk_is_cancelled s" "waiting_to_fire s"
  shows "\<exists>j. at_pc j Cancelling (goto i pc' s1)"
proof -
  have at: "at_pc j q s1 \<longleftrightarrow> at_pc j q s" for j q using assms(4) by (simp add: at_pc_def)
  obtain j where j: "at_pc j Cancelling s" using token_invD(6) [OF assms(1,5,6)] by blast
  then have "j \<noteq> i" using assms(2,3) at_unique [OF j] by auto
  then show ?thesis using j assms(2) at at_goto [of i pc s1 j Cancelling pc'] by auto
qed

lemma late_same:
  assumes "token_inv s" "at_pc i pc s" "pc \<noteq> Cancelling" "tk_threads s1 = tk_threads s"
    "tk_callbacks s1 = tk_callbacks s" "\<And>c. pc' \<noteq> Checked c" "tk_is_cancelled s" "waiting_to_fire (goto i pc' s1)"
  shows "\<exists>j. at_pc j Cancelling (goto i pc' s1)"
proof -
  have at: "at_pc j q s1 \<longleftrightarrow> at_pc j q s" for j q using assms(4) by (simp add: at_pc_def)
  then have "waiting_to_fire s" using assms(8) waiting_goto [of i pc s1 pc'] assms(2,5,6)
    by (auto simp: waiting_to_fire_def)
  with late_kept [OF assms(1-4,7)] show ?thesis by simp
qed

lemma cancel_step_inv:
  assumes "token_inv s" "cancel_step s t"
  shows "token_inv t"
  using assms(2,1)
proof cases
  case (store i)
  show ?thesis unfolding store(1)
  proof (rule token_inv_move [OF assms(1) store(2)])
    show "\<exists>j. at_pc j Cancelling (goto i Cancelling (s\<lparr>tk_is_cancelled := True\<rparr>))"
      using store(2) by (auto simp: at_goto intro!: exI [of _ i])
  qed (use token_invD(2) [OF assms(1) store(2)] in auto)
next
  case (drain i)
  have none: "\<not> at_pc j (Checked c) s" for j c using token_invD(2) [OF assms(1)] drain(3) by fastforce
  show ?thesis unfolding drain(1)
    by (rule token_inv_move [OF assms(1) drain(2)])
      (use drain token_invD(4) [OF assms(1) drain(2)] none in \<open>auto simp: waiting_goto\<close>)
next
  case (fire i c cs)
  have f: "tk_is_cancelled s" using token_invD(4) [OF assms(1) fire(2)] by simp
  show ?thesis unfolding fire(1)
    by (rule token_inv_move [OF assms(1) fire(2)])
      (use fire token_invD(2) [OF assms(1) fire(2)] f in
        \<open>auto intro!: late_same [OF assms(1) fire(2)]\<close>)
next
  case (finish i)
  have f: "tk_is_cancelled s" using token_invD(4) [OF assms(1) finish(2)] by simp
  show ?thesis unfolding finish(1)
    by (rule token_inv_move [OF assms(1) finish(2)])
      (use finish token_invD(2) [OF assms(1) finish(2)] f in
        \<open>auto intro!: late_same [OF assms(1) finish(2)]\<close>)
qed

lemma on_cancel_step_inv:
  assumes "token_inv s" "on_cancel_step s t"
  shows "token_inv t"
  using assms(2,1)
proof cases
  case (acquire i c)
  show ?thesis unfolding acquire(1)
    by (rule token_inv_move [OF assms(1) acquire(2)])
      (use acquire in \<open>auto intro!: late_same [OF assms(1) acquire(2)]\<close>)
next
  case (seen i c)
  show ?thesis unfolding seen(1)
    by (rule token_inv_move [OF assms(1) seen(2)])
      (use seen token_invD(2) [OF assms(1) seen(2)] in
        \<open>auto intro!: late_same [OF assms(1) seen(2)]\<close>)
next
  case (unseen i c)
  show ?thesis unfolding unseen(1)
    by (rule token_inv_move [OF assms(1) unseen(2)])
      (use unseen token_invD(2) [OF assms(1) unseen(2)] in auto)
next
  case (push i c)
  have w: "waiting_to_fire s" using push(2) by (auto simp: waiting_to_fire_def)
  show ?thesis unfolding push(1)
    by (rule token_inv_move [OF assms(1) push(2)])
      (use push token_invD(2) [OF assms(1) push(2)] w in
        \<open>auto intro!: late_kept [OF assms(1) push(2)]\<close>)
next
  case (call i c)
  have f: "tk_is_cancelled s" using token_invD(4) [OF assms(1) call(2)] by simp
  show ?thesis unfolding call(1)
    by (rule token_inv_move [OF assms(1) call(2)])
      (use call token_invD(2) [OF assms(1) call(2)] f in
        \<open>auto intro!: late_same [OF assms(1) call(2)]\<close>)
qed

lemma held_total_new: "held_total c (token_new n) = 0"
  by (simp add: held_total_def token_new_def sum_list_replicate)

interpretation token_safe: inductive_invariant "\<lambda>s. \<exists>n. s = token_new n" token_step token_inv
proof
  fix s :: "'a token" assume "\<exists>n. s = token_new n"
  then obtain n where s: "s = token_new n" by blast
  have "at_pc i pc s \<Longrightarrow> pc = TIdle" for i pc by (auto simp: s at_pc_def token_new_def)
  then have "waiting_to_fire s \<longleftrightarrow> False" "\<And>i pc. at_pc i pc s \<Longrightarrow> \<not> inside pc \<and> \<not> after_store pc"
    by (auto simp: waiting_to_fire_def s token_new_def at_pc_def)
  then show "token_inv s" using held_total_new by (auto simp: token_inv_def s) (simp_all add: token_new_def)
next
  fix s t :: "'a token" assume "token_inv s" "token_step s t"
  then show "token_inv t" using cancel_step_inv on_cancel_step_inv by (auto simp: token_step_def)
qed

lemma idle_held: "\<forall>pc \<in> set (tk_threads s). pc = TIdle \<Longrightarrow> held_total c s = 0"
  by (auto simp: held_total_def sum_list_eq_0_iff)

lemma busy_steps:
  assumes "token_inv s" "pc \<in> set (tk_threads s)" "pc \<noteq> TIdle"
  shows "\<exists>i t. \<not> at_pc i TIdle s \<and> token_step s t \<and> (\<exists>pc'. tk_threads t = (tk_threads s)[i := pc'])"
proof -
  have simple: "\<exists>t. token_step s t \<and> (\<exists>pc'. tk_threads t = (tk_threads s)[i := pc'])"
    if "at_pc i q s" "q \<noteq> TIdle" "q \<noteq> Cancelling \<or> tk_lock s = None" for i q
  proof -
    have st: "?thesis" if "cancel_step s (goto i pc' s1) \<or> on_cancel_step s (goto i pc' s1)" "tk_threads s1 = tk_threads s" for pc' s1
      using that by (intro exI [of _ "goto i pc' s1"]) (auto simp: goto_def token_step_def)
    note rules = cancel_step.intros(2-) on_cancel_step.intros(2-)
    show ?thesis
    proof (cases q)
      case (Firing cs)
      with that show ?thesis by (cases cs) (auto intro!: st intro: rules)
    next
      case (Locked c)
      with that show ?thesis by (cases "tk_is_cancelled s") (auto intro!: st intro: rules)
    qed (use that in \<open>auto intro!: st intro: rules\<close>)
  qed
  obtain i where i: "at_pc i pc s" using assms(2) by (auto simp: at_pc_def in_set_conv_nth)
  show ?thesis
  proof (cases "pc \<noteq> Cancelling \<or> tk_lock s = None")
    case True
    with simple [OF i assms(3)] assms(3) at_unique [OF i, of TIdle] show ?thesis by metis
  next
    case False
    then obtain j where j: "tk_lock s = Some j" by auto
    obtain q where q: "at_pc j q s" using token_invD(3) [OF assms(1) j] by (simp add: at_pc_def)
    with token_invD(2) [OF assms(1)] j have "inside q" by blast
    then have "q \<noteq> TIdle" "q \<noteq> Cancelling" by auto
    with simple [OF q] at_unique [OF q, of TIdle] show ?thesis by metis
  qed
qed

section \<open>Properties\<close>

text \<open>
  C10. The callbacks of a cancellation token, whatever the interleaving of threads that cancel it and
  threads that register: no callback runs before the token is cancelled, none runs more
  often than it was registered, and once the token is cancelled and no thread is inside
  \<open>cancel\<close> or \<open>on_cancel\<close>, every registered callback has run exactly as often as it was
  registered. A thread inside one of them is never stuck: some thread that is inside can move.
\<close>

theorem cancel_callbacks_exactly_once:
  assumes "reach (\<lambda>s. \<exists>n. s = token_new n) token_step s"
  shows "(\<not> tk_is_cancelled s \<longrightarrow> tk_fired s = []) \<and> (\<forall>c. count_list (tk_fired s) c \<le> count_list (tk_registered s) c) \<and>
    (tk_is_cancelled s \<and> (\<forall>pc \<in> set (tk_threads s). pc = TIdle) \<longrightarrow> mset (tk_fired s) = mset (tk_registered s)) \<and>
    ((\<exists>pc \<in> set (tk_threads s). pc \<noteq> TIdle) \<longrightarrow>
       (\<exists>i t. \<not> at_pc i TIdle s \<and> token_step s t \<and> (\<exists>pc'. tk_threads t = (tk_threads s)[i := pc'])))"
proof -
  have inv: "token_inv s" using assms by (rule token_safe.reach_invar)
  have "mset (tk_fired s) = mset (tk_registered s)" if c: "tk_is_cancelled s" and idle: "\<forall>pc \<in> set (tk_threads s). pc = TIdle"
  proof -
    have "\<not> waiting_to_fire s"
    proof
      assume "waiting_to_fire s"
      from token_invD(6) [OF inv c this] idle show False by (auto simp: at_pc_def dest!: nth_mem)
    qed
    then have "tk_callbacks s = []" by (simp add: waiting_to_fire_def)
    then have "count_list (tk_registered s) c = count_list (tk_fired s) c" for c
      using token_invD(1) [OF inv, of c] idle_held [OF idle, of c] by simp
    then show ?thesis by (intro multiset_eqI) (simp add: count_mset)
  qed
  moreover have "count_list (tk_fired s) c \<le> count_list (tk_registered s) c" for c
    using token_invD(1) [OF inv, of c] by simp
  ultimately show ?thesis using token_invD(5) [OF inv] busy_steps [OF inv] by blast
qed

text \<open>A registration that races with a cancellation: the flag is set between the check and the push.\<close>

theorem cancel_callbacks_exactly_once_witness:
  "\<exists>s :: nat token. reach (\<lambda>s. \<exists>n. s = token_new n) token_step s \<and> tk_is_cancelled s \<and>
     tk_registered s = [7] \<and> mset (tk_fired s) = {#7#}"
proof -
  let ?R = "reach (\<lambda>s. \<exists>n. s = token_new n) token_step :: nat token \<Rightarrow> bool"
  let ?mk = "\<lambda>f cs l ths fs. \<lparr>tk_is_cancelled = f, tk_callbacks = cs, tk_lock = l, tk_threads = ths,
    tk_registered = [7 :: nat], tk_fired = fs\<rparr>"
  note r = reach_step [where step = token_step]
  have 0: "?R (token_new 2)" by (rule reach_init) blast
  have 1: "?R (?mk False [] (Some 0) [Locked 7, TIdle] [])"
    by (rule r [OF 0]) (use acquire [of 0 "token_new 2" "7 :: nat"] in \<open>simp add: token_step_def token_new_def goto_def at_pc_def numeral_2_eq_2\<close>)
  have 2: "?R (?mk False [] (Some 0) [Checked 7, TIdle] [])"
    by (rule r [OF 1]) (use unseen [of 0 "7 :: nat" "?mk False [] (Some 0) [Locked 7, TIdle] []"] in \<open>simp add: token_step_def goto_def at_pc_def\<close>)
  have 3: "?R (?mk True [] (Some 0) [Checked 7, Cancelling] [])"
    by (rule r [OF 2]) (use store [of 1 "?mk False [] (Some 0) [Checked 7, TIdle] []"] in \<open>simp add: token_step_def goto_def at_pc_def\<close>)
  have 4: "?R (?mk True [7] None [TIdle, Cancelling] [])"
    by (rule r [OF 3]) (use push [of 0 "7 :: nat" "?mk True [] (Some 0) [Checked 7, Cancelling] []"] in \<open>simp add: token_step_def goto_def at_pc_def\<close>)
  have 5: "?R (?mk True [] None [TIdle, Firing [7]] [])"
    by (rule r [OF 4]) (use drain [of 1 "?mk True [7] None [TIdle, Cancelling] []"] in \<open>simp add: token_step_def goto_def at_pc_def\<close>)
  have 6: "?R (?mk True [] None [TIdle, Firing []] [7])"
    by (rule r [OF 5]) (use fire [of 1 "7 :: nat" "[]" "?mk True [] None [TIdle, Firing [7]] []"] in \<open>simp add: token_step_def goto_def at_pc_def\<close>)
  have 7: "?R (?mk True [] None [TIdle, TIdle] [7])"
    by (rule r [OF 6]) (use finish [of 1 "?mk True [] None [TIdle, Firing []] [7]"] in \<open>simp add: token_step_def goto_def at_pc_def\<close>)
  from cancel_callbacks_exactly_once [OF 7] 7 show ?thesis by (intro exI conjI) (rule 7, simp_all)
qed

text \<open>A signal reaches every subscriber whose receiver is alive, once, and the others are dropped.\<close>

lemma notify_each_spec:
  assumes "distinct txs"
  shows "fst (notify_each sig txs chans) = filter (\<lambda>tx. rx_alive (chans tx)) txs"
    "snd (notify_each sig txs chans) =
      (\<lambda>tx. if tx \<in> set txs \<and> rx_alive (chans tx) then (chans tx)\<lparr>queue := queue (chans tx) @ [sig]\<rparr> else chans tx)"
  using assms
  by (induction txs arbitrary: chans)
    (auto simp: chan_send_def fun_eq_iff split: if_splits intro!: filter_cong)

end
