(* ===== verification/Actor_Calls.thy ===== *)
theory Actor_Calls
  imports Actor_Runtime
begin

text \<open>
  Messages and requests to a running actor (\<open>send\<close>, \<open>request_raw\<close>, \<open>request_with_timeout\<close> and
  \<open>MessageEnvelope\<close> of \<open>tasks/actor.rs\<close> and \<open>threads/actor.rs\<close>, \<open>response.rs\<close>). The reply channel
  of a request is a slot; the slots form a heap of their own, because both the caller and the
  actor hold an end of the channel. The actor of this theory is an instance of the actor of
  the runtime, whose messages are envelopes and whose state includes the slots.
\<close>

section \<open>Envelopes and reply slots\<close>

datatype 'r slot = Unanswered | Replied 'r | Dropped

type_synonym 'r slots = "nat \<Rightarrow> 'r slot"

record 'm envelope =
  ev_msg :: 'm
  ev_tx :: "nat option"

datatype ('r, 'st) answer = Answers 'r 'st | AnswerPanic panic_payload 'st

record ('s, 'm, 'r) behaviour =
  bh_started :: "('s, 'm envelope) act_state \<Rightarrow> ('s, 'm envelope) act_state callback"
  bh_handle :: "'m \<Rightarrow> ('s, 'm envelope) act_state \<Rightarrow> ('r, ('s, 'm envelope) act_state) answer"
  bh_exit_received :: "exit_msg \<Rightarrow> ('s, 'm envelope) act_state \<Rightarrow> ('s, 'm envelope) act_state callback"
  bh_stopped :: "('s, 'm envelope) act_state \<Rightarrow> ('s, 'm envelope) act_state callback"

type_synonym ('s, 'm, 'r) served_state = "('s \<times> 'r slots, 'm envelope) act_state"

definition tx_set :: "nat option \<Rightarrow> 'r slot \<Rightarrow> 'r slots \<Rightarrow> 'r slots" where
  "tx_set tx v sl = (case tx of None \<Rightarrow> sl | Some i \<Rightarrow> sl(i := v))"

definition envelope_handle ::
  "('s, 'm, 'r) behaviour \<Rightarrow> 'm envelope \<Rightarrow> ('s, 'm, 'r) served_state \<Rightarrow> ('s, 'm, 'r) served_state callback" where
  "envelope_handle bh env = (\<lambda>((s, sl), c).
     (case bh_handle bh (ev_msg env) (s, c) of
        Answers r (s', c') \<Rightarrow> CbOk ((s', tx_set (ev_tx env) (Replied r) sl), c')
      | AnswerPanic p (s', c') \<Rightarrow> CbPanic p ((s', tx_set (ev_tx env) Dropped sl), c')))"

fun beside :: "'r slots \<Rightarrow> ('s, 'e) act_state callback \<Rightarrow> ('s \<times> 'r slots, 'e) act_state callback" where
  "beside sl (CbOk (s, c)) = CbOk ((s, sl), c)"
| "beside sl (CbPanic p (s, c)) = CbPanic p ((s, sl), c)"

definition as_actor :: "('s, 'm, 'r) behaviour \<Rightarrow> ('s \<times> 'r slots, 'm envelope) actor" where
  "as_actor bh = \<lparr>
     ac_started = (\<lambda>((s, sl), c). beside sl (bh_started bh (s, c))),
     ac_handle = envelope_handle bh,
     ac_exit_received = (\<lambda>e ((s, sl), c). beside sl (bh_exit_received bh e (s, c))),
     ac_stopped = (\<lambda>((s, sl), c). beside sl (bh_stopped bh (s, c)))\<rparr>"

section \<open>Sending\<close>

definition send_user_on ::
  "mailbox_runtime \<Rightarrow> mailbox_limits \<Rightarrow> 'm chan \<Rightarrow> 'm \<Rightarrow> ((actor_error + unit) \<times> mailbox_limits \<times> 'm chan) blocking" where
  "send_user_on rt = (case rt of Tasks \<Rightarrow> send_user_tasks_sync | Threads \<Rightarrow> send_user_threads)"

definition post :: "mailbox_runtime \<Rightarrow> 'e \<Rightarrow> 'e cell \<Rightarrow> ((actor_error + unit) \<times> 'e cell) run" where
  "post rt e c =
     (case send_user_on rt (cl_limits c) (user (cl_mailbox c)) e of
        Waits \<Rightarrow> Hangs
      | ExpectPanic \<Rightarrow> Panics
      | Done (res, l, ch) \<Rightarrow> Returns (res, c\<lparr>cl_limits := l, cl_mailbox := (cl_mailbox c)\<lparr>user := ch\<rparr>\<rparr>))"

definition ref_send :: "mailbox_runtime \<Rightarrow> 'm \<Rightarrow> 'm envelope cell \<Rightarrow> ((actor_error + unit) \<times> 'm envelope cell) run" where
  "ref_send rt m = post rt \<lparr>ev_msg = m, ev_tx = None\<rparr>"

text \<open>The caller creates the channel of slot \<open>i\<close>, which no other request uses.\<close>

definition request_raw ::
  "mailbox_runtime \<Rightarrow> nat \<Rightarrow> 'm \<Rightarrow> 'm envelope cell \<Rightarrow> ((actor_error + nat) \<times> 'm envelope cell) run" where
  "request_raw rt i m c =
     run_then (post rt \<lparr>ev_msg = m, ev_tx = Some i\<rparr> c) (\<lambda>(res, c1). Returns (map_sum id (\<lambda>_. i) res, c1))"

definition await_reply :: "'r slot \<Rightarrow> actor_error + 'r" where
  "await_reply v = (case v of Replied r \<Rightarrow> Inr r | Dropped \<Rightarrow> Inl ActorStopped | Unanswered \<Rightarrow> Inl RequestTimeout)"

definition DEFAULT_REQUEST_TIMEOUT :: duration where
  "DEFAULT_REQUEST_TIMEOUT = from_secs 5"

text \<open>\<open>later d\<close> is what the actor and everybody else do until the slot is settled, for at most \<open>d\<close>.\<close>

definition request_with_timeout ::
  "mailbox_runtime \<Rightarrow> (duration \<Rightarrow> 'm envelope cell \<times> 'r slots \<Rightarrow> 'm envelope cell \<times> 'r slots) \<Rightarrow> nat \<Rightarrow> 'm \<Rightarrow> duration
    \<Rightarrow> 'm envelope cell \<times> 'r slots \<Rightarrow> ((actor_error + 'r) \<times> 'm envelope cell \<times> 'r slots) run" where
  "request_with_timeout rt later i m d = (\<lambda>(c, sl).
     run_then (request_raw rt i m c) (\<lambda>(res, c1).
       case res of
         Inl e \<Rightarrow> Returns (Inl e, c1, sl)
       | Inr rx \<Rightarrow> (case later d (c1, sl) of (c2, sl2) \<Rightarrow> Returns (await_reply (sl2 rx), c2, sl2))))"

definition request ::
  "mailbox_runtime \<Rightarrow> (duration \<Rightarrow> 'm envelope cell \<times> 'r slots \<Rightarrow> 'm envelope cell \<times> 'r slots) \<Rightarrow> nat \<Rightarrow> 'm
    \<Rightarrow> 'm envelope cell \<times> 'r slots \<Rightarrow> ((actor_error + 'r) \<times> 'm envelope cell \<times> 'r slots) run" where
  "request rt later i m = request_with_timeout rt later i m DEFAULT_REQUEST_TIMEOUT"

text \<open>A context holds the same ends of the channels as a reference, and has the same methods.\<close>

definition context_send :: "mailbox_runtime \<Rightarrow> 'm \<Rightarrow> 'm envelope cell \<Rightarrow> ((actor_error + unit) \<times> 'm envelope cell) run" where
  "context_send = ref_send"

definition context_request_raw ::
  "mailbox_runtime \<Rightarrow> nat \<Rightarrow> 'm \<Rightarrow> 'm envelope cell \<Rightarrow> ((actor_error + nat) \<times> 'm envelope cell) run" where
  "context_request_raw = request_raw"

definition context_request_with_timeout ::
  "mailbox_runtime \<Rightarrow> (duration \<Rightarrow> 'm envelope cell \<times> 'r slots \<Rightarrow> 'm envelope cell \<times> 'r slots) \<Rightarrow> nat \<Rightarrow> 'm \<Rightarrow> duration
    \<Rightarrow> 'm envelope cell \<times> 'r slots \<Rightarrow> ((actor_error + 'r) \<times> 'm envelope cell \<times> 'r slots) run" where
  "context_request_with_timeout = request_with_timeout"

text \<open>The threads runtime has the same operations over its own mailbox.\<close>

definition threads_ref_send :: "'m \<Rightarrow> 'm envelope cell \<Rightarrow> ((actor_error + unit) \<times> 'm envelope cell) run" where
  "threads_ref_send = ref_send Threads"

definition threads_request_raw :: "nat \<Rightarrow> 'm \<Rightarrow> 'm envelope cell \<Rightarrow> ((actor_error + nat) \<times> 'm envelope cell) run" where
  "threads_request_raw = request_raw Threads"

definition threads_request_with_timeout ::
  "(duration \<Rightarrow> 'm envelope cell \<times> 'r slots \<Rightarrow> 'm envelope cell \<times> 'r slots) \<Rightarrow> nat \<Rightarrow> 'm \<Rightarrow> duration
    \<Rightarrow> 'm envelope cell \<times> 'r slots \<Rightarrow> ((actor_error + 'r) \<times> 'm envelope cell \<times> 'r slots) run" where
  "threads_request_with_timeout = request_with_timeout Threads"

definition threads_request ::
  "(duration \<Rightarrow> 'm envelope cell \<times> 'r slots \<Rightarrow> 'm envelope cell \<times> 'r slots) \<Rightarrow> nat \<Rightarrow> 'm
    \<Rightarrow> 'm envelope cell \<times> 'r slots \<Rightarrow> ((actor_error + 'r) \<times> 'm envelope cell \<times> 'r slots) run" where
  "threads_request = request Threads"

definition threads_context_send :: "'m \<Rightarrow> 'm envelope cell \<Rightarrow> ((actor_error + unit) \<times> 'm envelope cell) run" where
  "threads_context_send = context_send Threads"

definition threads_context_request_raw :: "nat \<Rightarrow> 'm \<Rightarrow> 'm envelope cell \<Rightarrow> ((actor_error + nat) \<times> 'm envelope cell) run" where
  "threads_context_request_raw = context_request_raw Threads"

definition threads_context_request_with_timeout ::
  "(duration \<Rightarrow> 'm envelope cell \<times> 'r slots \<Rightarrow> 'm envelope cell \<times> 'r slots) \<Rightarrow> nat \<Rightarrow> 'm \<Rightarrow> duration
    \<Rightarrow> 'm envelope cell \<times> 'r slots \<Rightarrow> ((actor_error + 'r) \<times> 'm envelope cell \<times> 'r slots) run" where
  "threads_context_request_with_timeout = context_request_with_timeout Threads"

text \<open>\<open>request\<close> through a recipient, with the timeout given.\<close>

definition threads_recipient_request ::
  "(duration \<Rightarrow> 'm envelope cell \<times> 'r slots \<Rightarrow> 'm envelope cell \<times> 'r slots) \<Rightarrow> nat \<Rightarrow> 'm \<Rightarrow> duration
    \<Rightarrow> 'm envelope cell \<times> 'r slots \<Rightarrow> ((actor_error + 'r) \<times> 'm envelope cell \<times> 'r slots) run" where
  "threads_recipient_request later i m d = (\<lambda>(c, sl).
     run_then (threads_request_raw i m c) (\<lambda>(res, c1).
       case res of
         Inl e \<Rightarrow> Returns (Inl e, c1, sl)
       | Inr rx \<Rightarrow> (case later d (c1, sl) of (c2, sl2) \<Rightarrow> Returns (await_reply (sl2 rx), c2, sl2))))"

text \<open>The handler of an envelope in the threads runtime: the answer goes to the channel if there is one.\<close>

definition threads_envelope_handle ::
  "('s, 'm, 'r) behaviour \<Rightarrow> 'm envelope \<Rightarrow> ('s, 'm, 'r) served_state \<Rightarrow> ('s, 'm, 'r) served_state callback" where
  "threads_envelope_handle = envelope_handle"

section \<open>Responses of protocol methods\<close>

datatype 'r response = ReceiverR nat | TimedReceiverR nat duration | ReadyR "actor_error + 'r" | DoneR

definition response_from :: "actor_error + nat \<Rightarrow> 'r response" where
  "response_from res = (case res of Inr rx \<Rightarrow> ReceiverR rx | Inl e \<Rightarrow> ReadyR (Inl e))"

definition from_with_timeout :: "actor_error + nat \<Rightarrow> duration \<Rightarrow> 'r response" where
  "from_with_timeout res d = (case res of Inr rx \<Rightarrow> TimedReceiverR rx d | Inl e \<Rightarrow> ReadyR (Inl e))"

fun response_is_ok :: "'r response \<Rightarrow> bool" where
  "response_is_ok (ReadyR (Inr _)) = True"
| "response_is_ok _ = False"

fun response_is_err :: "'r response \<Rightarrow> bool" where
  "response_is_err (ReadyR (Inl _)) = True"
| "response_is_err _ = False"

text \<open>A panic is \<open>Panics\<close>: an error that is unwrapped, a pending response, a consumed one.\<close>

fun response_unwrap :: "'r response \<Rightarrow> 'r run" where
  "response_unwrap (ReadyR (Inr v)) = Returns v"
| "response_unwrap _ = Panics"

fun response_map :: "('r \<Rightarrow> 'q) \<Rightarrow> 'r response \<Rightarrow> 'q response run" where
  "response_map f (ReadyR res) = Returns (ReadyR (map_sum id f res))"
| "response_map f _ = Panics"

text \<open>
  One poll: \<open>None\<close> is \<open>Poll::Pending\<close>. \<open>waited\<close> is the time since the first poll, where the
  deadline of a timed receiver starts; the value is looked at first.
\<close>

fun response_poll :: "duration \<Rightarrow> 'r slots \<Rightarrow> 'r response \<Rightarrow> (actor_error + 'r) option run \<times> 'r response" where
  "response_poll waited sl (ReceiverR i) =
     (case sl i of
        Replied v \<Rightarrow> (Returns (Some (Inr v)), DoneR)
      | Dropped \<Rightarrow> (Returns (Some (Inl ActorStopped)), DoneR)
      | Unanswered \<Rightarrow> (Returns None, ReceiverR i))"
| "response_poll waited sl (TimedReceiverR i d) =
     (case sl i of
        Replied v \<Rightarrow> (Returns (Some (Inr v)), DoneR)
      | Dropped \<Rightarrow> (Returns (Some (Inl ActorStopped)), DoneR)
      | Unanswered \<Rightarrow> if d \<le> waited then (Returns (Some (Inl RequestTimeout)), DoneR) else (Returns None, TimedReceiverR i d))"
| "response_poll waited sl (ReadyR res) = (Returns (Some res), DoneR)"
| "response_poll waited sl DoneR = (Panics, DoneR)"

section \<open>The end of the run\<close>

text \<open>The receiver is dropped with what it still holds; the reply channels of those requests close.\<close>

definition drop_queued :: "'m envelope list \<Rightarrow> 'r slots \<Rightarrow> 'r slots" where
  "drop_queued es sl = fold (\<lambda>e. tx_set (ev_tx e) Dropped) es sl"

definition release :: "('s, 'm, 'r) served_state \<Rightarrow> ('s, 'm, 'r) served_state" where
  "release = (\<lambda>((s, sl), c).
     ((s, drop_queued (queue (user (cl_mailbox c))) sl), c\<lparr>cl_mailbox := drop_receiver (cl_mailbox c)\<rparr>))"

text \<open>The run from some moment of the message loop on, to the end of \<open>run_actor\<close>.\<close>

definition rest_of_run ::
  "mailbox_runtime \<Rightarrow> ('s, 'm, 'r) behaviour \<Rightarrow> ('m envelope cell \<Rightarrow> 'm envelope cell) list \<Rightarrow> ('s, 'm, 'r) served_state
    \<Rightarrow> 'm envelope call list \<times> run_result \<times> ('s, 'm, 'r) served_state" where
  "rest_of_run rt bh turns st =
     (case run_loop rt (as_actor bh) turns st of
        (calls, Ended r, st1) \<Rightarrow>
          (case run_stop (as_actor bh) r st1 of (calls', final, st2) \<Rightarrow> (calls @ calls', Ended final, release st2))
      | (calls, Aborted, st1) \<Rightarrow> (calls, Aborted, release st1)
      | (calls, Waiting, st1) \<Rightarrow> (calls, Waiting, st1))"

section \<open>Facts\<close>

definition txs :: "'m envelope list \<Rightarrow> nat set" where
  "txs es = {i. \<exists>e \<in> set es. ev_tx e = Some i}"

abbreviation inbox :: "'m envelope cell \<Rightarrow> 'm envelope list" where
  "inbox c \<equiv> queue (user (cl_mailbox c))"

lemma tx_set_simps [simp]:
  "tx_set None v sl = sl" "tx_set (Some i) v sl = sl(i := v)" "tx \<noteq> Some i \<Longrightarrow> tx_set tx v sl i = sl i"
  by (auto simp: tx_set_def split: option.splits)

lemma drop_queued_apply: "drop_queued es sl i = (if i \<in> txs es then Dropped else sl i)"
  unfolding drop_queued_def
  by (induction es arbitrary: sl) (auto simp: txs_def tx_set_def split: option.splits)

lemma txs_simps [simp]: "txs [] = {}" "txs (es @ fs) = txs es \<union> txs fs"
  "txs (e # es) = (case ev_tx e of None \<Rightarrow> txs es | Some i \<Rightarrow> insert i (txs es))"
  by (auto simp: txs_def split: option.splits)

text \<open>A change that only appends, and not a request on slot \<open>i\<close>.\<close>

definition appends :: "nat \<Rightarrow> 'm envelope cell \<Rightarrow> 'm envelope cell \<Rightarrow> bool" where
  "appends i c c' \<longleftrightarrow> (\<exists>es. inbox c' = inbox c @ es \<and> i \<notin> txs es)"

fun answer_state :: "('r, 'st) answer \<Rightarrow> 'st" where
  "answer_state (Answers r st) = st"
| "answer_state (AnswerPanic p st) = st"

definition only_appends :: "nat \<Rightarrow> ('s, 'm, 'r) behaviour \<Rightarrow> bool" where
  "only_appends i bh \<longleftrightarrow> (\<forall>s c.
     (\<forall>m. appends i c (snd (answer_state (bh_handle bh m (s, c))))) \<and>
     (\<forall>e. appends i c (snd (cb_state (bh_exit_received bh e (s, c))))) \<and>
     appends i c (snd (cb_state (bh_stopped bh (s, c)))))"

lemma try_others_user:
  "user (snd (try_signal mb)) = user mb" "user (snd (try_stop mb)) = user mb" "user (snd (try_supervision mb)) = user mb"
  "fst (try_signal mb) \<noteq> Some (Message m)" "fst (try_stop mb) \<noteq> Some (Message m)" "fst (try_supervision mb) \<noteq> Some (Message m)"
  by (auto simp: try_defs split: if_splits list.splits signal_item.splits)

lemma try_user_queue:
  "(\<exists>m. fst (try_user mb) = Some (Message m) \<and> queue (user mb) = m # queue (user (snd (try_user mb)))) \<or>
   (fst (try_user mb) = None \<and> queue (user (snd (try_user mb))) = queue (user mb))"
  by (auto simp: try_defs split: if_splits list.splits)

lemma recv_user:
  "(\<exists>m. fst (recv_on rt mb) = Item (Message m) \<and> queue (user mb) = m # queue (user (snd (recv_on rt mb)))) \<or>
    ((\<forall>m. fst (recv_on rt mb) \<noteq> Item (Message m)) \<and> queue (user (snd (recv_on rt mb))) = queue (user mb))"
proof -
  obtain o1 m1 where s1: "try_signal mb = (o1, m1)" by fastforce
  obtain o2 m2 where s2: "try_stop m1 = (o2, m2)" by fastforce
  obtain o3 m3 where s3: "try_supervision m2 = (o3, m3)" by fastforce
  obtain o4 m4 where s4: "try_user m3 = (o4, m4)" by fastforce
  note f1 = try_others_user(1,4) [of mb, unfolded s1] and f2 = try_others_user(2,5) [of m1, unfolded s2]
    and f3 = try_others_user(3,6) [of m2, unfolded s3] and f4 = try_user_queue [of m3, unfolded s4]
  show ?thesis
    using f1 f2 f3 f4 by (cases rt; cases o1; cases o2; cases o3; cases o4)
      (simp_all add: tasks_recv_def threads_recv_def s1 s2 s3 s4)
qed

text \<open>The two states of a request: queued and unanswered, or no longer queued and settled.\<close>

definition pending :: "'m envelope \<Rightarrow> nat \<Rightarrow> ('s, 'm, 'r) served_state \<Rightarrow> bool" where
  "pending env i = (\<lambda>((s, sl), c). \<exists>es fs. inbox c = es @ env # fs \<and> ev_tx env = Some i \<and> i \<notin> txs es \<union> txs fs \<and> sl i = Unanswered)"

definition settled :: "nat \<Rightarrow> 'r slot \<Rightarrow> ('s, 'm, 'r) served_state \<Rightarrow> bool" where
  "settled i v = (\<lambda>((s, sl), c). i \<notin> txs (inbox c) \<and> sl i = v)"

lemma pending_appends: "pending env i ((s, sl), c) \<Longrightarrow> appends i c c' \<Longrightarrow> pending env i ((s', sl), c')"
  by (fastforce simp: pending_def appends_def)

lemma settled_appends: "settled i v ((s, sl), c) \<Longrightarrow> appends i c c' \<Longrightarrow> settled i v ((s', sl), c')"
  by (auto simp: settled_def appends_def)

lemma appends_frame [simp]:
  "appends i (c\<lparr>cl_limits := l\<rparr>) c' = appends i c c'"
  "appends i (c\<lparr>cl_requested_exit := q\<rparr>) c' = appends i c c'" "appends i (cancel c) c' = appends i c c'"
  by (simp_all add: appends_def cancel_def)

lemma appends_refl [simp]: "appends i c c" "appends i c (c\<lparr>cl_requested_exit := q\<rparr>)" "appends i c (cancel c)"
  "appends i c (c\<lparr>cl_requested_exit := q, cl_linked_reason := k\<rparr>)"
  by (simp_all add: appends_def cancel_def)

text \<open>An item that is not a message leaves the slots alone.\<close>

lemma other_item:
  assumes "only_appends i bh" "\<forall>m. it \<noteq> Message m" "handle_item (as_actor bh) it ((s, sl), c) = (calls, r, ((s', sl'), c'))"
  shows "sl' = sl \<and> appends i c c' \<and> (\<forall>e. CallHandle e \<notin> set calls)"
proof (cases it)
  case (Exit e)
  obtain s1 c1 where st: "cb_state (bh_exit_received bh e (s, c)) = (s1, c1)" by fastforce
  have "appends i c c1" using assms(1) st by (metis only_appends_def snd_conv)
  then show ?thesis using assms(3) Exit st
    by (cases "bh_exit_received bh e (s, c)") (auto simp: as_actor_def)
qed (use assms in auto)

lemma message_item:
  assumes "only_appends i bh" "handle_item (as_actor bh) (Message env) ((s, sl), c) = (calls, r, ((s', sl'), c'))"
  shows "calls = [CallHandle env] \<and> appends i c c' \<and>
    ((\<exists>st v st'. bh_handle bh (ev_msg env) st = Answers v st' \<and> sl' = tx_set (ev_tx env) (Replied v) sl) \<or>
     (\<exists>st p st'. bh_handle bh (ev_msg env) st = AnswerPanic p st' \<and> sl' = tx_set (ev_tx env) Dropped sl \<and> (\<exists>msg. r = Some (Panic msg))))"
proof -
  let ?c = "c\<lparr>cl_limits := on_message_dequeued (cl_limits c)\<rparr>"
  obtain s1 c1 where st: "answer_state (bh_handle bh (ev_msg env) (s, ?c)) = (s1, c1)" by fastforce
  have "appends i ?c c1" using assms(1) st by (metis only_appends_def snd_conv)
  then show ?thesis using assms(2) st
    by (cases "bh_handle bh (ev_msg env) (s, ?c)") (auto simp: as_actor_def envelope_handle_def; blast)+
qed

text \<open>One turn of the loop.\<close>

lemma run_loop_turn:
  assumes "run_loop rt ac (f # turns) (s, c) = (calls, res, st')"
  obtains (item) it k r st1 where "fst (recv_on rt (cl_mailbox (f c))) = Item it"
      "handle_item ac it (s, (f c)\<lparr>cl_mailbox := snd (recv_on rt (cl_mailbox (f c)))\<rparr>) = (k, r, st1)"
      "r \<noteq> None \<longrightarrow> calls = k \<and> res = Ended (the r) \<and> st' = st1"
      "r = None \<longrightarrow> (\<exists>k2. run_loop rt ac turns st1 = (k2, res, st') \<and> calls = k @ k2)"
  | (leave) "\<forall>it. fst (recv_on rt (cl_mailbox (f c))) \<noteq> Item it" "calls = []"
      "st' = (s, (f c)\<lparr>cl_mailbox := snd (recv_on rt (cl_mailbox (f c)))\<rparr>)"
  | (wait) "\<forall>it. fst (recv_on rt (cl_mailbox (f c))) \<noteq> Item it"
      "run_loop rt ac turns (s, (f c)\<lparr>cl_mailbox := snd (recv_on rt (cl_mailbox (f c)))\<rparr>) = (calls, res, st')"
proof -
  obtain out mb where o: "recv_on rt (cl_mailbox (f c)) = (out, mb)" by fastforce
  show thesis
  proof (cases out)
    case (Item it)
    obtain k r st1 where k: "handle_item ac it (s, (f c)\<lparr>cl_mailbox := mb\<rparr>) = (k, r, st1)" using prod_cases3 by blast
    have "r \<noteq> None \<longrightarrow> calls = k \<and> res = Ended (the r) \<and> st' = st1"
      "r = None \<longrightarrow> (\<exists>k2. run_loop rt ac turns st1 = (k2, res, st') \<and> calls = k @ k2)"
      using assms o k Item by (cases "run_loop rt ac turns st1", auto simp: Let_def)+
    with item [of it k r st1] o k Item show thesis by simp
  qed (use assms o leave wait in \<open>auto simp: Let_def\<close>)
qed

lemma run_loop_settled:
  assumes "only_appends i bh" "\<forall>f \<in> set turns. \<forall>c. appends i c (f c)"
    "settled i v st" "run_loop rt (as_actor bh) turns st = (calls, res, st')"
  shows "settled i v st' \<and> (\<forall>e. CallHandle e \<in> set calls \<longrightarrow> ev_tx e \<noteq> Some i)"
  using assms(2-)
proof (induction turns arbitrary: st calls)
  case Nil
  then show ?case by auto
next
  case (Cons f turns)
  obtain s sl c where st: "st = ((s, sl), c)" by (metis prod.collapse)
  let ?out = "fst (recv_on rt (cl_mailbox (f c)))" and ?c = "(f c)\<lparr>cl_mailbox := snd (recv_on rt (cl_mailbox (f c)))\<rparr>"
  have arr: "settled i v ((s, sl), f c)" using Cons.prems(1,2) st by (auto intro: settled_appends)
  note rq = recv_user [of rt "cl_mailbox (f c)"]
  from Cons.prems(3) [unfolded st] show ?case
  proof (cases rule: run_loop_turn)
    case (item it k r st1)
    obtain s1 sl1 c1 where st1: "st1 = ((s1, sl1), c1)" by (metis prod.collapse)
    have now: "settled i v st1 \<and> (\<forall>e. CallHandle e \<in> set k \<longrightarrow> ev_tx e \<noteq> Some i)"
    proof (cases "\<exists>m. it = Message m")
      case True
      then obtain m where m: "it = Message m" by blast
      with rq item(1) have q: "inbox (f c) = m # inbox ?c" by auto
      then have ne: "ev_tx m \<noteq> Some i" "i \<notin> txs (inbox ?c)" using arr by (auto simp: settled_def split: option.splits)
      with message_item [OF assms(1) item(2) [unfolded m st1]] arr show ?thesis
        by (auto simp: settled_def appends_def st1)
    next
      case False
      with rq item(1) have "inbox ?c = inbox (f c)" by auto
      with other_item [OF assms(1) _ item(2) [unfolded st1]] False arr show ?thesis
        by (auto simp: settled_def appends_def st1)
    qed
    show ?thesis
    proof (cases r)
      case None
      with item(4) obtain k2 where k2: "run_loop rt (as_actor bh) turns st1 = (k2, res, st')" "calls = k @ k2" by auto
      from Cons.IH [OF _ _ k2(1)] now Cons.prems(1) k2(2) show ?thesis by auto
    qed (use item(3) now in auto)
  next
    case leave
    then show ?thesis using arr rq by (auto simp: settled_def)
  next
    case wait
    then have "settled i v ((s, sl), ?c)" using arr rq by (auto simp: settled_def)
    from Cons.IH [OF _ this wait(2)] Cons.prems(1) show ?thesis by auto
  qed
qed

definition outcome ::
  "('s, 'm, 'r) behaviour \<Rightarrow> 'm envelope \<Rightarrow> nat \<Rightarrow> 'm envelope call list \<Rightarrow> run_result \<Rightarrow> ('s, 'm, 'r) served_state \<Rightarrow> bool" where
  "outcome bh env i calls res st \<longleftrightarrow> CallHandle env \<in> set calls \<and>
     ((\<exists>st0 v st1. bh_handle bh (ev_msg env) st0 = Answers v st1 \<and> settled i (Replied v) st) \<or>
      (\<exists>st0 p st1 msg. bh_handle bh (ev_msg env) st0 = AnswerPanic p st1 \<and> res = Ended (Panic msg) \<and> settled i Dropped st))"

lemma run_loop_pending:
  assumes "only_appends i bh" "\<forall>f \<in> set turns. \<forall>c. appends i c (f c)"
    "pending env i st" "run_loop rt (as_actor bh) turns st = (calls, res, st')"
  shows "pending env i st' \<and> CallHandle env \<notin> set calls \<or> outcome bh env i calls res st'"
  using assms(2-)
proof (induction turns arbitrary: st calls)
  case Nil
  then show ?case by auto
next
  case (Cons f turns)
  obtain s sl c where st: "st = ((s, sl), c)" by (metis prod.collapse)
  let ?out = "fst (recv_on rt (cl_mailbox (f c)))" and ?c = "(f c)\<lparr>cl_mailbox := snd (recv_on rt (cl_mailbox (f c)))\<rparr>"
  have arr: "pending env i ((s, sl), f c)" using Cons.prems(1,2) st by (auto intro: pending_appends)
  then obtain es fs where q: "inbox (f c) = es @ env # fs" and tx: "ev_tx env = Some i" "i \<notin> txs es \<union> txs fs" "sl i = Unanswered"
    by (auto simp: pending_def)
  note rq = recv_user [of rt "cl_mailbox (f c)"]
  from Cons.prems(3) [unfolded st] show ?case
  proof (cases rule: run_loop_turn)
    case (item it k r st1)
    obtain s1 sl1 c1 where st1: "st1 = ((s1, sl1), c1)" by (metis prod.collapse)
    have now: "pending env i st1 \<and> CallHandle env \<notin> set k \<or> r = None \<and> outcome bh env i k res st1 \<or>
      r \<noteq> None \<and> outcome bh env i k (Ended (the r)) st1"
    proof (cases "\<exists>m. it = Message m")
      case True
      then obtain m where m: "it = Message m" by blast
      with rq item(1) have hd: "inbox (f c) = m # inbox ?c" by auto
      note mi = message_item [OF assms(1) item(2) [unfolded m st1]]
      show ?thesis
      proof (cases es)
        case Nil
        with q hd have "m = env" "i \<notin> txs (inbox ?c)" using tx by auto
        with mi tx have "outcome bh env i k (case r of None \<Rightarrow> res | Some r' \<Rightarrow> Ended r') st1"
          by (auto simp: outcome_def settled_def appends_def st1)
        then show ?thesis by (cases r) auto
      next
        case (Cons e es')
        with q hd have "inbox ?c = es' @ env # fs" "m = e" by auto
        moreover have "ev_tx e \<noteq> Some i" "i \<notin> txs es'" using tx Cons by (auto split: option.splits)
        ultimately show ?thesis using mi tx by (fastforce simp: pending_def appends_def st1)
      qed
    next
      case False
      with rq item(1) have "inbox ?c = inbox (f c)" by auto
      with other_item [OF assms(1) _ item(2) [unfolded st1]] False arr show ?thesis
        by (fastforce simp: pending_def appends_def st1)
    qed
    show ?thesis
    proof (cases r)
      case None
      with item(4) obtain k2 where k2: "run_loop rt (as_actor bh) turns st1 = (k2, res, st')" "calls = k @ k2" by auto
      have rest: "\<forall>f \<in> set turns. \<forall>c. appends i c (f c)" using Cons.prems(1) by simp
      from now None consider "pending env i st1" "CallHandle env \<notin> set k" | "outcome bh env i k res st1" by auto
      then show ?thesis
      proof cases
        case 1
        with Cons.IH [OF rest 1(1) k2(1)] k2(2) show ?thesis by (auto simp: outcome_def)
      next
        case 2
        have keep: "settled i v st1 \<Longrightarrow> settled i v st'" for v
          using run_loop_settled [OF assms(1) rest _ k2(1)] by blast
        from 2 have "outcome bh env i calls res st'" unfolding outcome_def k2(2) using keep by (simp, blast)
        then show ?thesis ..
      qed
    qed (use item(3) now in auto)
  next
    case leave
    then show ?thesis using arr rq by (auto simp: pending_def)
  next
    case wait
    then have "pending env i ((s, sl), ?c)" using arr rq by (auto simp: pending_def)
    from Cons.IH [OF _ this wait(2)] Cons.prems(1) show ?thesis by auto
  qed
qed

lemma run_stop_slots:
  assumes "only_appends i bh" "run_stop (as_actor bh) r ((s, sl), c) = (calls, final, ((s', sl'), c'))"
  shows "sl' = sl \<and> appends i c c' \<and> (\<forall>e. CallHandle e \<notin> set calls)"
proof -
  obtain s1 c1 where st: "cb_state (bh_stopped bh (s, cancel c)) = (s1, c1)" by fastforce
  have "appends i (cancel c) c1" using assms(1) st by (metis only_appends_def snd_conv)
  moreover have "appends i c (c1\<lparr>cl_requested_exit := q, cl_linked_reason := k\<rparr>) = appends i c c1" for q k
    by (simp add: appends_def)
  moreover have "appends i c ((cancel c)\<lparr>cl_requested_exit := q, cl_linked_reason := k\<rparr>)" for q k
    by (simp add: appends_def cancel_def)
  ultimately show ?thesis using assms(2) st
    by (cases "bh_stopped bh (s, cancel c)")
      (auto simp: run_stop_def take_reason_def as_actor_def Let_def split: if_splits prod.splits)
qed

section \<open>Properties\<close>

text \<open>
  C7. No request is left without an answer once the actor has stopped. Take a request that is queued
  at some moment of the actor's loop, and the run from there on, in either runtime, whatever
  else arrives and whatever the callbacks do. If the run ends, the caller gets an answer:
  either the handler ran for this request and returned, and the caller receives exactly what it
  returned, or the caller is told that the actor stopped, because the handler panicked on this
  request or the request was still queued at the end. While the actor runs, a request that is not answered is
  still queued; only then can the caller's wait time out.
\<close>

theorem request_always_answered:
  assumes bh: "only_appends i bh" "\<forall>f \<in> set turns. \<forall>c. appends i c (f c)"
    and queued: "inbox c = es @ env # fs" "ev_tx env = Some i" "i \<notin> txs es \<union> txs fs" "sl i = Unanswered"
    and run: "rest_of_run rt bh turns ((s, sl), c) = (calls, res, ((s', sl'), c'))"
  shows "(res \<noteq> Waiting \<longrightarrow>
      (\<exists>st0 v st1. CallHandle env \<in> set calls \<and> bh_handle bh (ev_msg env) st0 = Answers v st1 \<and> await_reply (sl' i) = Inr v) \<or>
      await_reply (sl' i) = Inl ActorStopped \<and>
        (CallHandle env \<notin> set calls \<or> (\<exists>st0 p st1. bh_handle bh (ev_msg env) st0 = AnswerPanic p st1))) \<and>
    (res = Waiting \<longrightarrow> sl' i = Unanswered \<longrightarrow> env \<in> set (inbox c') \<and> CallHandle env \<notin> set calls)"
proof -
  obtain k r st1 where loop: "run_loop rt (as_actor bh) turns ((s, sl), c) = (k, r, st1)" using prod_cases3 by blast
  obtain s1 sl1 c1 where st1: "st1 = ((s1, sl1), c1)" by (metis prod.collapse)
  have "pending env i ((s, sl), c)" using queued by (auto simp: pending_def)
  from run_loop_pending [OF bh this loop] have mid:
    "pending env i st1 \<and> CallHandle env \<notin> set k \<or> outcome bh env i k r st1" .
  have fin: "(\<exists>st0 v st1. CallHandle env \<in> set calls \<and> bh_handle bh (ev_msg env) st0 = Answers v st1 \<and> await_reply (sl' i) = Inr v) \<or>
      await_reply (sl' i) = Inl ActorStopped \<and>
        (CallHandle env \<notin> set calls \<or> (\<exists>st0 p st1. bh_handle bh (ev_msg env) st0 = AnswerPanic p st1))"
    if "CallHandle env \<in> set calls \<longleftrightarrow> CallHandle env \<in> set k" "((s', sl'), c') = release ((s2, sl1), c2)" "appends i c1 c2" for s2 c2
  proof -
    have sl': "sl' i = (if i \<in> txs (inbox c2) then Dropped else sl1 i)"
      using that(2) by (simp add: release_def drop_queued_apply)
    from mid show ?thesis
    proof
      assume "pending env i st1 \<and> CallHandle env \<notin> set k"
      then show ?thesis using sl' that(1,3) by (auto simp: pending_def appends_def st1 await_reply_def)
    next
      assume out: "outcome bh env i k r st1"
      then have "sl' i = sl1 i" using sl' that(3) by (auto simp: outcome_def settled_def appends_def st1)
      with out that(1) show ?thesis by (auto simp: outcome_def settled_def st1 await_reply_def; blast)
    qed
  qed
  show ?thesis
  proof (cases r)
    case (Ended r')
    obtain k2 f2 st2 where stp: "run_stop (as_actor bh) r' st1 = (k2, f2, st2)" using prod_cases3 by blast
    obtain s2 sl2 c2 where st2: "st2 = ((s2, sl2), c2)" by (metis prod.collapse)
    have eq: "calls = k @ k2" "res = Ended f2" "release ((s2, sl2), c2) = ((s', sl'), c')"
      using run by (simp_all add: rest_of_run_def loop Ended stp st2)
    from run_stop_slots [OF bh(1) stp [unfolded st1 st2]] fin [of s2 c2] eq show ?thesis by auto
  next
    case Aborted
    then show ?thesis using fin [of s1 c1] run by (auto simp: rest_of_run_def loop st1)
  next
    case Waiting
    then have "((s1, sl1), c1) = ((s', sl'), c')" "k = calls" "res = Waiting" using run by (auto simp: rest_of_run_def loop st1)
    with mid show ?thesis by (auto simp: pending_def outcome_def settled_def st1)
  qed
qed

definition summing :: "(nat, nat, nat) behaviour" where
  "summing = \<lparr>bh_started = CbOk, bh_handle = (\<lambda>m (s, c). Answers (s + m) (s + m, c)), bh_exit_received = (\<lambda>_. CbOk), bh_stopped = CbOk\<rparr>"

definition say_stop_after :: "nat envelope cell \<Rightarrow> nat envelope cell" where
  "say_stop_after c = c\<lparr>cl_mailbox := (cl_mailbox c)\<lparr>stop := snd (send_stop_tasks (stop (cl_mailbox c)))\<rparr>\<rparr>"

definition asked_cell :: "nat envelope cell" where
  "asked_cell = new_cell\<lparr>cl_mailbox := tasks_channel\<lparr>user := chan_new\<lparr>queue := [\<lparr>ev_msg = 4, ev_tx = Some 9\<rparr>]\<rparr>\<rparr>\<rparr>"

theorem request_always_answered_witness:
  "\<exists>calls res s' sl' c'. rest_of_run Tasks summing [id, say_stop_after] ((3, \<lambda>_. Unanswered), asked_cell) = (calls, res, ((s', sl'), c')) \<and>
     res \<noteq> Waiting \<and> (await_reply (sl' 9) = Inl ActorStopped \<or> (\<exists>v. await_reply (sl' 9) = Inr v)) \<and> sl' 9 = Replied 7"
proof -
  let ?run = "rest_of_run Tasks summing [id, say_stop_after] ((3, \<lambda>_. Unanswered), asked_cell)"
  obtain calls res s' sl' c' where run: "?run = (calls, res, ((s', sl'), c'))" by (metis prod.collapse)
  have app: "only_appends 9 summing" "\<forall>f \<in> set [id, say_stop_after]. \<forall>c. appends 9 c (f c)"
    by (auto simp: only_appends_def summing_def appends_def say_stop_after_def)
  have in1: "inbox asked_cell = [] @ \<lparr>ev_msg = 4, ev_tx = Some 9\<rparr> # []" by (simp add: asked_cell_def)
  have res: "res \<noteq> Waiting \<and> sl' 9 = Replied 7"
    using run by (auto simp: rest_of_run_def asked_cell_def summing_def as_actor_def envelope_handle_def tasks_recv_def
        try_defs all_closed_def tasks_channel_def chan_new_def say_stop_after_def send_stop_tasks_def send_control_def
        chan_send_def run_stop_def take_reason_def cancel_def release_def drop_queued_def Let_def split: prod.splits)
  from request_always_answered [OF app in1 _ _ _ run] run res show ?thesis by (intro exI conjI) (rule run, auto)
qed

end
