(* ===== verification/Exit_Waits.thy ===== *)
theory Exit_Waits
  imports Links
begin

text \<open>
  Waiting for an actor to exit (\<open>child_handle.rs\<close>, \<open>wait_exit\<close> of both runtimes, the completion guard
  of \<open>threads/actor.rs\<close>). What a waiting party sees is a list: for the watch channel of a tasks
  actor the state of the channel at each poll, for the condition variable of a threads actor the
  slot after each wake-up. The list ends where the observation ends: with the timeout if there is
  one, otherwise the wait is still going on.
\<close>

section \<open>The completion signals\<close>

record exit_watch =
  ew_value :: "exit_reason option"
  ew_sender :: bool

text \<open>A wake-up of the condition variable: whether the wait timed out, and the slot.\<close>

type_synonym wakeup = "bool \<times> exit_reason option"

datatype completion = TasksCompletion "exit_watch list" | ThreadsCompletion "exit_reason option" "wakeup list"

datatype runtime_flavor = NoRuntime | MultiThread | OtherFlavor

text \<open>Drop of the guard: a thread that ends without a reason reports a panic of the framework.\<close>

definition completion_guard_drop :: "exit_reason option \<Rightarrow> exit_reason option" where
  "completion_guard_drop reason =
     (case reason of Some r \<Rightarrow> Some r | None \<Rightarrow> Some (Panic ''unexpected framework panic''))"

section \<open>Waiting\<close>

fun wait_loop :: "exit_watch list \<Rightarrow> exit_reason option" where
  "wait_loop [] = None"
| "wait_loop (s # ss) =
     (case ew_value s of
        Some r \<Rightarrow> Some r
      | None \<Rightarrow> if ew_sender s then wait_loop ss else Some Kill)"

definition or_hang :: "'a option \<Rightarrow> 'a run" where
  "or_hang x = (case x of Some v \<Rightarrow> Returns v | None \<Rightarrow> Hangs)"

fun wait_for_threads_exit_blocking :: "exit_reason option \<Rightarrow> wakeup list \<Rightarrow> exit_reason run" where
  "wait_for_threads_exit_blocking (Some r) ws = Returns r"
| "wait_for_threads_exit_blocking None [] = Hangs"
| "wait_for_threads_exit_blocking None ((_, v) # ws) = wait_for_threads_exit_blocking v ws"

fun wait_for_threads_exit_blocking_with_timeout :: "exit_reason option \<Rightarrow> wakeup list \<Rightarrow> exit_reason option run" where
  "wait_for_threads_exit_blocking_with_timeout (Some r) ws = Returns (Some r)"
| "wait_for_threads_exit_blocking_with_timeout None [] = Hangs"
| "wait_for_threads_exit_blocking_with_timeout None ((timed_out, v) # ws) =
     (if timed_out then Returns None else wait_for_threads_exit_blocking_with_timeout v ws)"

abbreviation seen_now :: "exit_watch list \<Rightarrow> exit_reason option" where
  "seen_now ss \<equiv> (case ss of [] \<Rightarrow> None | s # _ \<Rightarrow> ew_value s)"

definition wait_for_tasks_exit_blocking :: "runtime_flavor \<Rightarrow> exit_watch list \<Rightarrow> exit_reason run" where
  "wait_for_tasks_exit_blocking fl ss =
     (case seen_now ss of
        Some r \<Rightarrow> Returns r
      | None \<Rightarrow> if fl = OtherFlavor then Panics else or_hang (wait_loop ss))"

definition wait_for_tasks_exit_blocking_with_timeout :: "runtime_flavor \<Rightarrow> exit_watch list \<Rightarrow> exit_reason option run" where
  "wait_for_tasks_exit_blocking_with_timeout fl ss =
     (case seen_now ss of
        Some r \<Rightarrow> Returns (Some r)
      | None \<Rightarrow> if fl = OtherFlavor then Panics else Returns (wait_loop ss))"

fun wait_exit_blocking :: "runtime_flavor \<Rightarrow> completion \<Rightarrow> exit_reason run" where
  "wait_exit_blocking fl (TasksCompletion ss) = wait_for_tasks_exit_blocking fl ss"
| "wait_exit_blocking fl (ThreadsCompletion v ws) = wait_for_threads_exit_blocking v ws"

text \<open>A threads actor is waited for on the blocking pool, whose task may be lost with the runtime.\<close>

fun wait_exit_async :: "bool \<Rightarrow> completion \<Rightarrow> exit_reason run" where
  "wait_exit_async pool_lost (TasksCompletion ss) = or_hang (wait_loop ss)"
| "wait_exit_async pool_lost (ThreadsCompletion v ws) =
     (if pool_lost then Returns Kill else wait_for_threads_exit_blocking v ws)"

fun wait_exit_blocking_with_timeout :: "runtime_flavor \<Rightarrow> completion \<Rightarrow> exit_reason option run" where
  "wait_exit_blocking_with_timeout fl (TasksCompletion ss) = wait_for_tasks_exit_blocking_with_timeout fl ss"
| "wait_exit_blocking_with_timeout fl (ThreadsCompletion v ws) = wait_for_threads_exit_blocking_with_timeout v ws"

text \<open>\<open>elapsed\<close>: the outer timeout of the asynchronous wait fired first.\<close>

fun wait_exit_async_with_timeout :: "bool \<Rightarrow> bool \<Rightarrow> completion \<Rightarrow> exit_reason option run" where
  "wait_exit_async_with_timeout elapsed pool_lost (TasksCompletion ss) =
     (case seen_now ss of Some r \<Rightarrow> Returns (Some r) | None \<Rightarrow> Returns (wait_loop ss))"
| "wait_exit_async_with_timeout elapsed pool_lost (ThreadsCompletion v ws) =
     (case v of
        Some r \<Rightarrow> Returns (Some r)
      | None \<Rightarrow> if elapsed \<or> pool_lost then Returns None else wait_for_threads_exit_blocking_with_timeout v ws)"

definition ref_wait_exit :: "exit_watch list \<Rightarrow> exit_reason run" where
  "ref_wait_exit ss = or_hang (wait_loop ss)"

definition threads_ref_wait_exit :: "exit_reason option \<Rightarrow> wakeup list \<Rightarrow> exit_reason run" where
  "threads_ref_wait_exit = wait_for_threads_exit_blocking"

section \<open>Facts\<close>

text \<open>What an observer of an actor that exits with \<open>r\<close> sees: nothing for a while, then the reason.\<close>

fun shows_tasks :: "exit_reason \<Rightarrow> exit_watch list \<Rightarrow> bool" where
  "shows_tasks r [] = False"
| "shows_tasks r (s # ss) = (case ew_value s of Some q \<Rightarrow> q = r | None \<Rightarrow> ew_sender s \<and> shows_tasks r ss)"

fun shows_threads :: "exit_reason \<Rightarrow> exit_reason option \<Rightarrow> wakeup list \<Rightarrow> bool" where
  "shows_threads r (Some q) ws = (q = r)"
| "shows_threads r None [] = False"
| "shows_threads r None ((timed_out, v) # ws) = (\<not> timed_out \<and> shows_threads r v ws)"

lemma wait_loop_shows: "shows_tasks r ss \<Longrightarrow> wait_loop ss = Some r"
  by (induction ss) (auto split: option.splits)

lemma threads_wait_shows:
  "shows_threads r v ws \<Longrightarrow> wait_for_threads_exit_blocking v ws = Returns r"
  "shows_threads r v ws \<Longrightarrow> wait_for_threads_exit_blocking_with_timeout v ws = Returns (Some r)"
  by (induction r v ws rule: shows_threads.induct) auto

definition exits_with :: "exit_reason \<Rightarrow> completion \<Rightarrow> bool" where
  "exits_with r c = (case c of TasksCompletion ss \<Rightarrow> shows_tasks r ss | ThreadsCompletion v ws \<Rightarrow> shows_threads r v ws)"

text \<open>
  Every way of waiting for an actor that exits in time gives the reason it exited with, in both
  runtimes; blocking inside a single-threaded runtime panics unless the reason is already there.
\<close>

lemma waits_agree:
  assumes "exits_with r c"
  shows "fl \<noteq> OtherFlavor \<Longrightarrow> wait_exit_blocking fl c = Returns r" "wait_exit_async False c = Returns r"
    "fl \<noteq> OtherFlavor \<Longrightarrow> wait_exit_blocking_with_timeout fl c = Returns (Some r)"
    "wait_exit_async_with_timeout False False c = Returns (Some r)"
  using assms
  by (cases c; auto simp: exits_with_def wait_for_tasks_exit_blocking_def wait_for_tasks_exit_blocking_with_timeout_def or_hang_def
      wait_loop_shows threads_wait_shows dest: wait_loop_shows split: option.splits list.splits)+

text \<open>An actor that is aborted leaves no reason: its tasks watchers report \<open>Kill\<close>, its threads watchers a panic.\<close>

lemma aborted_tasks: "wait_loop (replicate n \<lparr>ew_value = None, ew_sender = True\<rparr> @ [\<lparr>ew_value = None, ew_sender = False\<rparr>]) = Some Kill"
  by (induction n) auto

lemma aborted_threads: "exits_with (Panic ''unexpected framework panic'') (ThreadsCompletion (completion_guard_drop None) ws)"
  by (simp add: exits_with_def completion_guard_drop_def)

text \<open>
  Every spurious wake-up starts the timeout of the condition variable again, so no number of
  wake-ups bounds the wait; and a reason published while the wait times out is not looked at.
\<close>

lemma timeout_restarts:
  "wait_for_threads_exit_blocking_with_timeout None (replicate n (False, None) @ ws) =
   wait_for_threads_exit_blocking_with_timeout None ws"
  by (induction n) auto

lemma timeout_misses_exit: "wait_for_threads_exit_blocking_with_timeout None [(True, Some r)] = Returns None"
  by simp

end
