(* ===== verification/Pool.thy ===== *)
theory Pool
  imports Dynamic_Supervisor Actor_Calls Remote_Ref
begin

text \<open>
  Pools of supervised workers (\<open>concurrency/src/pool.rs\<close>, \<open>tasks/pool.rs\<close>, \<open>threads/pool.rs\<close>) and
  the typed broadcast to process groups (\<open>tasks/pg.rs\<close>, \<open>threads/pg.rs\<close>): the selection of a
  member, the routed send and request, local or to a member of a peer, and the start of a pool
  through a dynamic supervisor. \<open>later\<close> is what the node does while a caller waits for a reply.
\<close>

section \<open>Selecting a member\<close>

datatype pool_strategy = RoundRobin | LeastLoaded

datatype pool_error = NoMembers | PoolActor actor_error

record pool_dispatcher =
  pd_scope :: string
  pd_group :: string
  pd_strategy :: pool_strategy
  pd_next :: usize

definition dispatcher_new :: "string \<Rightarrow> pool_strategy \<Rightarrow> pool_dispatcher" where
  "dispatcher_new grp strat = \<lparr>pd_scope = DEFAULT_SCOPE, pd_group = grp, pd_strategy = strat, pd_next = 0\<rparr>"

definition with_scope :: "string \<Rightarrow> pool_dispatcher \<Rightarrow> pool_dispatcher" where
  "with_scope scope d = d\<lparr>pd_scope := scope\<rparr>"

text \<open>The loop of \<open>LeastLoaded\<close> from index \<open>i\<close> on.\<close>

fun least_loaded :: "nat \<Rightarrow> usize list \<Rightarrow> nat \<Rightarrow> usize \<Rightarrow> nat" where
  "least_loaded i [] best mn = best"
| "least_loaded i (d # ds) best mn =
     (if d < mn then least_loaded (Suc i) ds i d else least_loaded (Suc i) ds best mn)"

definition select_member_index :: "nat \<Rightarrow> pool_strategy \<Rightarrow> usize list \<Rightarrow> usize \<Rightarrow> nat option \<times> usize" where
  "select_member_index n strat depths nxt =
     (if n = 0 then (None, nxt)
      else case strat of
             RoundRobin \<Rightarrow> (Some (unat nxt mod n), nxt + 1)
           | LeastLoaded \<Rightarrow>
               (Some (least_loaded 1 (drop 1 depths) 0 (case depths of [] \<Rightarrow> 0 | d # _ \<Rightarrow> d)), nxt))"

definition select_index :: "usize list \<Rightarrow> pool_dispatcher \<Rightarrow> nat option \<times> pool_dispatcher" where
  "select_index depths d =
     (case select_member_index (length depths) (pd_strategy d) depths (pd_next d) of
        (i, nxt) \<Rightarrow> (i, d\<lparr>pd_next := nxt\<rparr>))"

section \<open>Members and their mailboxes\<close>

definition pg_members_scoped :: "type_id \<Rightarrow> string \<Rightarrow> string \<Rightarrow> 'm world \<Rightarrow> actor_id list" where
  "pg_members_scoped t scope grp w = filter (\<lambda>a. is_alive a (wd_cells w)) (pg_typed_members t scope grp (wd_pg w))"

definition mailbox_depth :: "actor_id \<Rightarrow> 'm world \<Rightarrow> usize" where
  "mailbox_depth a w = depth (cl_limits (wd_cells w a))"

definition put_cell :: "actor_id \<Rightarrow> 'm cell \<Rightarrow> 'm world \<Rightarrow> 'm world" where
  "put_cell a c = over_cells (\<lambda>cells. cells(a := c))"

definition send_to :: "mailbox_runtime \<Rightarrow> 'm \<Rightarrow> actor_id \<Rightarrow> 'm envelope world \<Rightarrow> ((actor_error + unit) \<times> 'm envelope world) run" where
  "send_to rt m a w = run_then (ref_send rt m (wd_cells w a)) (\<lambda>(r, c). Returns (r, put_cell a c w))"

type_synonym ('m, 'r) calling = "'m envelope world \<times> 'r slots"

definition ask ::
  "mailbox_runtime \<Rightarrow> (duration \<Rightarrow> ('m, 'r) calling \<Rightarrow> ('m, 'r) calling) \<Rightarrow> nat \<Rightarrow> 'm \<Rightarrow> actor_id \<Rightarrow> ('m, 'r) calling
    \<Rightarrow> ((actor_error + 'r) \<times> ('m, 'r) calling) run" where
  "ask rt later i m a = (\<lambda>(w, sl).
     run_then (request_raw rt i m (wd_cells w a)) (\<lambda>(res, c).
       case res of
         Inl e \<Rightarrow> Returns (Inl e, (put_cell a c w, sl))
       | Inr rx \<Rightarrow>
           (case later DEFAULT_REQUEST_TIMEOUT (put_cell a c w, sl) of
              (w1, sl1) \<Rightarrow> Returns (await_reply (sl1 rx), (w1, sl1)))))"

section \<open>Routed dispatch\<close>

definition select_local_target :: "type_id \<Rightarrow> pool_dispatcher \<Rightarrow> 'm world \<Rightarrow> (pool_error + actor_id) \<times> pool_dispatcher" where
  "select_local_target t d w =
     (let members = pg_members_scoped t (pd_scope d) (pd_group d) w
      in if members = [] then (Inl NoMembers, d)
         else case select_index (map (\<lambda>a. mailbox_depth a w) members) d of
                (Some i, d') \<Rightarrow> (Inr (members ! i), d')
              | (None, d') \<Rightarrow> (Inl NoMembers, d'))"

definition dispatch ::
  "mailbox_runtime \<Rightarrow> type_id \<Rightarrow> 'm \<Rightarrow> pool_dispatcher \<Rightarrow> 'm envelope world
    \<Rightarrow> ((pool_error + unit) \<times> pool_dispatcher \<times> 'm envelope world) run" where
  "dispatch rt t m d w =
     (case select_local_target t d w of
        (Inl e, d') \<Rightarrow> Returns (Inl e, d', w)
      | (Inr a, d') \<Rightarrow> run_then (send_to rt m a w) (\<lambda>(r, w1). Returns (map_sum PoolActor id r, d', w1)))"

definition call_one ::
  "mailbox_runtime \<Rightarrow> (duration \<Rightarrow> ('m, 'r) calling \<Rightarrow> ('m, 'r) calling) \<Rightarrow> nat \<Rightarrow> type_id \<Rightarrow> 'm \<Rightarrow> pool_dispatcher \<Rightarrow> ('m, 'r) calling
    \<Rightarrow> ((pool_error + 'r) \<times> pool_dispatcher \<times> ('m, 'r) calling) run" where
  "call_one rt later i t m d st =
     (case select_local_target t d (fst st) of
        (Inl e, d') \<Rightarrow> Returns (Inl e, d', st)
      | (Inr a, d') \<Rightarrow> run_then (ask rt later i m a st) (\<lambda>(r, st1). Returns (map_sum PoolActor id r, d', st1)))"

datatype federated_target = LocalTarget actor_id | RemoteTarget actor_address

text \<open>The addresses of the group drop the members that are dead.\<close>

definition group_addresses :: "string \<Rightarrow> string \<Rightarrow> 'm world \<Rightarrow> actor_address list \<times> 'm world" where
  "group_addresses scope grp w =
     (case member_addresses_scoped (\<lambda>a. is_alive a (wd_cells w)) scope grp (wd_pg w) of
        (as, st) \<Rightarrow> (as, w\<lparr>wd_pg := st\<rparr>))"

definition select_federated_target ::
  "type_id \<Rightarrow> pool_dispatcher \<Rightarrow> 'm world \<Rightarrow> (pool_error + federated_target) \<times> pool_dispatcher \<times> 'm world" where
  "select_federated_target t d w =
     (let members = pg_members_scoped t (pd_scope d) (pd_group d) w;
          (addrs, w1) = group_addresses (pd_scope d) (pd_group d) w;
          remote = filter (\<lambda>a. \<not> is_local (wd_here w) a) addrs;
          depths = map (\<lambda>a. mailbox_depth a w) members @ replicate (length remote) 0
      in if depths = [] then (Inl NoMembers, d, w1)
         else case select_index depths d of
                (Some i, d') \<Rightarrow>
                  (Inr (if i < length members then LocalTarget (members ! i)
                        else RemoteTarget (remote ! (i - length members))), d', w1)
              | (None, d') \<Rightarrow> (Inl NoMembers, d', w1))"

definition remote_global :: "'c router \<Rightarrow> actor_address \<Rightarrow> ('m, 'r, 'c) remote_actor_ref" where
  "remote_global ro a = \<lparr>rr_address = a, rr_local = None, rr_router = ro\<rparr>"

definition dispatch_federated ::
  "mailbox_runtime \<Rightarrow> type_id \<Rightarrow> 'c router \<Rightarrow> ('m, 'r) message_type \<Rightarrow> 'm \<Rightarrow> pool_dispatcher \<Rightarrow> 'm envelope world \<times> 'c
    \<Rightarrow> ((pool_error + unit) \<times> pool_dispatcher \<times> 'm envelope world \<times> 'c) run" where
  "dispatch_federated rt t ro mt m d = (\<lambda>(w, c).
     (case select_federated_target t d w of
        (Inl e, d', w1) \<Rightarrow> Returns (Inl e, d', w1, c)
      | (Inr (LocalTarget a), d', w1) \<Rightarrow>
          run_then (send_to rt m a w1) (\<lambda>(r, w2). Returns (map_sum PoolActor id r, d', w2, c))
      | (Inr (RemoteTarget a), d', w1) \<Rightarrow>
          run_then (remote_ref_send (wd_here w1) mt (remote_global ro a) m c) (\<lambda>(r, c1).
            Returns (map_sum PoolActor id r, d', w1, c1))))"

definition call_one_federated ::
  "mailbox_runtime \<Rightarrow> (duration \<Rightarrow> ('m, 'r) calling \<Rightarrow> ('m, 'r) calling) \<Rightarrow> nat \<Rightarrow> type_id \<Rightarrow> 'c router \<Rightarrow> ('m, 'r) message_type
    \<Rightarrow> 'm \<Rightarrow> pool_dispatcher \<Rightarrow> ('m, 'r) calling \<times> u64 \<times> 'c
    \<Rightarrow> ((pool_error + 'r) \<times> pool_dispatcher \<times> ('m, 'r) calling \<times> u64 \<times> 'c) run" where
  "call_one_federated rt later i t ro mt m d = (\<lambda>((w, sl), c).
     (case select_federated_target t d w of
        (Inl e, d', w1) \<Rightarrow> Returns (Inl e, d', (w1, sl), c)
      | (Inr (LocalTarget a), d', w1) \<Rightarrow>
          run_then (ask rt later i m a (w1, sl)) (\<lambda>(r, st1). Returns (map_sum PoolActor id r, d', st1, c))
      | (Inr (RemoteTarget a), d', w1) \<Rightarrow>
          run_then (remote_ref_request (wd_here w1) mt (remote_global ro a) m c) (\<lambda>(r, c1).
            Returns (map_sum PoolActor id r, d', (w1, sl), c1))))"

section \<open>Broadcasts to a group\<close>

record pg_send_report =
  sr_delivered :: nat
  sr_failed :: "(actor_id \<times> actor_error) list"

record 'r pg_call_report =
  cr_ok :: "(actor_id \<times> 'r) list"
  cr_failed :: "(actor_id \<times> actor_error) list"

definition count_sent :: "actor_id \<Rightarrow> actor_error + unit \<Rightarrow> pg_send_report \<Rightarrow> pg_send_report" where
  "count_sent a r rep =
     (case r of
        Inr _ \<Rightarrow> rep\<lparr>sr_delivered := sr_delivered rep + 1\<rparr>
      | Inl e \<Rightarrow> rep\<lparr>sr_failed := sr_failed rep @ [(a, e)]\<rparr>)"

definition count_answer :: "actor_id \<Rightarrow> actor_error + 'r \<Rightarrow> 'r pg_call_report \<Rightarrow> 'r pg_call_report" where
  "count_answer a r rep =
     (case r of
        Inr v \<Rightarrow> rep\<lparr>cr_ok := cr_ok rep @ [(a, v)]\<rparr>
      | Inl e \<Rightarrow> rep\<lparr>cr_failed := cr_failed rep @ [(a, e)]\<rparr>)"

definition cast_member ::
  "mailbox_runtime \<Rightarrow> 'm \<Rightarrow> actor_id \<Rightarrow> pg_send_report \<times> 'm envelope world \<Rightarrow> (pg_send_report \<times> 'm envelope world) run" where
  "cast_member rt m a = (\<lambda>(rep, w). run_then (send_to rt m a w) (\<lambda>(r, w1). Returns (count_sent a r rep, w1)))"

definition cast_scoped ::
  "mailbox_runtime \<Rightarrow> type_id \<Rightarrow> string \<Rightarrow> string \<Rightarrow> 'm \<Rightarrow> 'm envelope world \<Rightarrow> (pg_send_report \<times> 'm envelope world) run" where
  "cast_scoped rt t scope grp m w =
     run_each (cast_member rt m) (pg_members_scoped t scope grp w) (\<lparr>sr_delivered = 0, sr_failed = []\<rparr>, w)"

definition cast_one_remote ::
  "node_id \<Rightarrow> 'c router \<Rightarrow> ('m, 'r) message_type \<Rightarrow> 'm \<Rightarrow> actor_address \<Rightarrow> pg_send_report \<times> 'c \<Rightarrow> (pg_send_report \<times> 'c) run" where
  "cast_one_remote here ro mt m a = (\<lambda>(rep, c).
     (if is_local here a then Returns (rep, c)
      else run_then (remote_ref_send here mt (remote_global ro a) m c) (\<lambda>(r, c1). Returns (count_sent (actor_id a) r rep, c1))))"

definition cast_federated_scoped ::
  "mailbox_runtime \<Rightarrow> type_id \<Rightarrow> 'c router \<Rightarrow> ('m, 'r) message_type \<Rightarrow> string \<Rightarrow> string \<Rightarrow> 'm \<Rightarrow> 'm envelope world \<times> 'c
    \<Rightarrow> (pg_send_report \<times> 'm envelope world \<times> 'c) run" where
  "cast_federated_scoped rt t ro mt scope grp m = (\<lambda>(w, c).
     run_then (cast_scoped rt t scope grp m w) (\<lambda>(rep, w1).
       case group_addresses scope grp w1 of
         (addrs, w2) \<Rightarrow>
           run_then (run_each (cast_one_remote (wd_here w2) ro mt m) addrs (rep, c)) (\<lambda>(rep1, c1). Returns (rep1, w2, c1))))"

definition call_member ::
  "mailbox_runtime \<Rightarrow> (duration \<Rightarrow> ('m, 'r) calling \<Rightarrow> ('m, 'r) calling) \<Rightarrow> (actor_id \<Rightarrow> nat) \<Rightarrow> 'm \<Rightarrow> actor_id
    \<Rightarrow> 'r pg_call_report \<times> ('m, 'r) calling \<Rightarrow> ('r pg_call_report \<times> ('m, 'r) calling) run" where
  "call_member rt later slot m a = (\<lambda>(rep, st).
     run_then (ask rt later (slot a) m a st) (\<lambda>(r, st1). Returns (count_answer a r rep, st1)))"

text \<open>Each member is asked through a slot of its own.\<close>

definition call_scoped ::
  "mailbox_runtime \<Rightarrow> (duration \<Rightarrow> ('m, 'r) calling \<Rightarrow> ('m, 'r) calling) \<Rightarrow> (actor_id \<Rightarrow> nat) \<Rightarrow> type_id \<Rightarrow> string \<Rightarrow> string \<Rightarrow> 'm
    \<Rightarrow> ('m, 'r) calling \<Rightarrow> ('r pg_call_report \<times> ('m, 'r) calling) run" where
  "call_scoped rt later slot t scope grp m st =
     run_each (call_member rt later slot m) (pg_members_scoped t scope grp (fst st)) (\<lparr>cr_ok = [], cr_failed = []\<rparr>, st)"

definition call_one_remote ::
  "node_id \<Rightarrow> 'c router \<Rightarrow> ('m, 'r) message_type \<Rightarrow> 'm \<Rightarrow> actor_address \<Rightarrow> 'r pg_call_report \<times> u64 \<times> 'c
    \<Rightarrow> ('r pg_call_report \<times> u64 \<times> 'c) run" where
  "call_one_remote here ro mt m a = (\<lambda>(rep, c).
     (if is_local here a then Returns (rep, c)
      else run_then (remote_ref_request here mt (remote_global ro a) m c) (\<lambda>(r, c1). Returns (count_answer (actor_id a) r rep, c1))))"

definition call_federated_scoped ::
  "mailbox_runtime \<Rightarrow> (duration \<Rightarrow> ('m, 'r) calling \<Rightarrow> ('m, 'r) calling) \<Rightarrow> (actor_id \<Rightarrow> nat) \<Rightarrow> type_id \<Rightarrow> 'c router
    \<Rightarrow> ('m, 'r) message_type \<Rightarrow> string \<Rightarrow> string \<Rightarrow> 'm \<Rightarrow> ('m, 'r) calling \<times> u64 \<times> 'c
    \<Rightarrow> ('r pg_call_report \<times> ('m, 'r) calling \<times> u64 \<times> 'c) run" where
  "call_federated_scoped rt later slot t ro mt scope grp m = (\<lambda>(st, c).
     run_then (call_scoped rt later slot t scope grp m st) (\<lambda>(rep, (w1, sl1)).
       case group_addresses scope grp w1 of
         (addrs, w2) \<Rightarrow>
           run_then (run_each (call_one_remote (wd_here w2) ro mt m) addrs (rep, c)) (\<lambda>(rep1, c1).
             Returns (rep1, (w2, sl1), c1))))"

section \<open>Starting a pool\<close>

record actor_pool_builder =
  pb_group :: string
  pb_strategy :: pool_strategy
  pb_max_children :: "nat option"
  pb_scope :: "string option"

record actor_pool =
  ap_supervisor :: actor_id
  ap_dispatcher :: pool_dispatcher

definition pool_builder_new :: "string \<Rightarrow> actor_pool_builder" where
  "pool_builder_new grp = \<lparr>pb_group = grp, pb_strategy = RoundRobin, pb_max_children = None, pb_scope = None\<rparr>"

definition pool_spec :: "string \<Rightarrow> child_spec \<Rightarrow> child_spec" where
  "pool_spec grp s = (if cs_pg_membership s \<noteq> None then s else with_pg_group grp s)"

definition start_pool_worker :: "'m env \<Rightarrow> string \<Rightarrow> (nat \<Rightarrow> child_spec) \<Rightarrow> nat \<Rightarrow> 'm dyn_state \<Rightarrow> 'm dyn_state run" where
  "start_pool_worker en grp spec_for i st =
     run_then (dyn_start_child en (pool_spec grp (spec_for i)) None st) (\<lambda>(r, st1).
       case r of Inl _ \<Rightarrow> Panics | Inr _ \<Rightarrow> Returns st1)"

definition pool_start ::
  "'m env \<Rightarrow> actor_pool_builder \<Rightarrow> nat \<Rightarrow> (nat \<Rightarrow> child_spec) \<Rightarrow> 'm world \<Rightarrow> (actor_pool \<times> 'm dyn_state) run" where
  "pool_start en pb n spec_for w =
     (case spawn_actor (en_runtime en) unbounded w of
        (sid, w1) \<Rightarrow>
          (let en1 = en\<lparr>en_self := sid\<rparr>;
               d = dispatcher_new (pb_group pb) (pb_strategy pb)
           in run_then (dyn_started en1 (dyn_new default_intensity (pb_max_children pb), w1)) (\<lambda>st.
                run_then (run_each (start_pool_worker en1 (pb_group pb) spec_for) [0..<n] st) (\<lambda>st1.
                  Returns (\<lparr>ap_supervisor = sid,
                      ap_dispatcher = (case pb_scope pb of Some scope \<Rightarrow> with_scope scope d | None \<Rightarrow> d)\<rparr>, st1)))))"

section \<open>The threads runtime\<close>

definition threads_dispatch ::
  "type_id \<Rightarrow> 'm \<Rightarrow> pool_dispatcher \<Rightarrow> 'm envelope world \<Rightarrow> ((pool_error + unit) \<times> pool_dispatcher \<times> 'm envelope world) run" where
  "threads_dispatch = dispatch Threads"

definition threads_call_one ::
  "(duration \<Rightarrow> ('m, 'r) calling \<Rightarrow> ('m, 'r) calling) \<Rightarrow> nat \<Rightarrow> type_id \<Rightarrow> 'm \<Rightarrow> pool_dispatcher \<Rightarrow> ('m, 'r) calling
    \<Rightarrow> ((pool_error + 'r) \<times> pool_dispatcher \<times> ('m, 'r) calling) run" where
  "threads_call_one = call_one Threads"

definition threads_dispatch_federated ::
  "type_id \<Rightarrow> 'c router \<Rightarrow> ('m, 'r) message_type \<Rightarrow> 'm \<Rightarrow> pool_dispatcher \<Rightarrow> 'm envelope world \<times> 'c
    \<Rightarrow> ((pool_error + unit) \<times> pool_dispatcher \<times> 'm envelope world \<times> 'c) run" where
  "threads_dispatch_federated = dispatch_federated Threads"

definition threads_select_local_target ::
  "type_id \<Rightarrow> pool_dispatcher \<Rightarrow> 'm world \<Rightarrow> (pool_error + actor_id) \<times> pool_dispatcher" where
  "threads_select_local_target = select_local_target"

definition threads_select_federated_target ::
  "type_id \<Rightarrow> pool_dispatcher \<Rightarrow> 'm world \<Rightarrow> (pool_error + federated_target) \<times> pool_dispatcher \<times> 'm world" where
  "threads_select_federated_target = select_federated_target"

text \<open>
  A remote member is asked with \<open>request_raw\<close>, whose bytes are decoded here; a reference that turns out to be
  local is refused.
\<close>

definition threads_remote_answer ::
  "node_id \<Rightarrow> ('m, 'r) message_type \<Rightarrow> ('m, 'r, 'c) remote_actor_ref \<Rightarrow> 'm \<Rightarrow> u64 \<times> 'c \<Rightarrow> ((actor_error + 'r) \<times> u64 \<times> 'c) run" where
  "threads_remote_answer here mt rr m st =
     run_then (remote_ref_request_raw here mt rr m st) (\<lambda>(r, c).
       Returns (case r of
           Inl e \<Rightarrow> Inl e
         | Inr (RemoteAnswer payload) \<Rightarrow> decode_answer mt payload
         | Inr (LocalRequest _ _) \<Rightarrow> Inl RemoteUnreachable, c))"

definition threads_call_one_federated ::
  "(duration \<Rightarrow> ('m, 'r) calling \<Rightarrow> ('m, 'r) calling) \<Rightarrow> nat \<Rightarrow> type_id \<Rightarrow> 'c router \<Rightarrow> ('m, 'r) message_type
    \<Rightarrow> 'm \<Rightarrow> pool_dispatcher \<Rightarrow> ('m, 'r) calling \<times> u64 \<times> 'c
    \<Rightarrow> ((pool_error + 'r) \<times> pool_dispatcher \<times> ('m, 'r) calling \<times> u64 \<times> 'c) run" where
  "threads_call_one_federated later i t ro mt m d = (\<lambda>((w, sl), c).
     (case threads_select_federated_target t d w of
        (Inl e, d', w1) \<Rightarrow> Returns (Inl e, d', (w1, sl), c)
      | (Inr (LocalTarget a), d', w1) \<Rightarrow>
          run_then (ask Threads later i m a (w1, sl)) (\<lambda>(r, st1). Returns (map_sum PoolActor id r, d', st1, c))
      | (Inr (RemoteTarget a), d', w1) \<Rightarrow>
          run_then (threads_remote_answer (wd_here w1) mt (remote_global ro a) m c) (\<lambda>(r, c1).
            Returns (map_sum PoolActor id r, d', (w1, sl), c1))))"

definition threads_cast_scoped ::
  "type_id \<Rightarrow> string \<Rightarrow> string \<Rightarrow> 'm \<Rightarrow> 'm envelope world \<Rightarrow> (pg_send_report \<times> 'm envelope world) run" where
  "threads_cast_scoped = cast_scoped Threads"

definition threads_cast_federated_scoped ::
  "type_id \<Rightarrow> 'c router \<Rightarrow> ('m, 'r) message_type \<Rightarrow> string \<Rightarrow> string \<Rightarrow> 'm \<Rightarrow> 'm envelope world \<times> 'c
    \<Rightarrow> (pg_send_report \<times> 'm envelope world \<times> 'c) run" where
  "threads_cast_federated_scoped = cast_federated_scoped Threads"

definition threads_call_scoped ::
  "(duration \<Rightarrow> ('m, 'r) calling \<Rightarrow> ('m, 'r) calling) \<Rightarrow> (actor_id \<Rightarrow> nat) \<Rightarrow> type_id \<Rightarrow> string \<Rightarrow> string \<Rightarrow> 'm
    \<Rightarrow> ('m, 'r) calling \<Rightarrow> ('r pg_call_report \<times> ('m, 'r) calling) run" where
  "threads_call_scoped = call_scoped Threads"

definition threads_cast_one_remote ::
  "node_id \<Rightarrow> 'c router \<Rightarrow> ('m, 'r) message_type \<Rightarrow> 'm \<Rightarrow> actor_address \<Rightarrow> pg_send_report \<times> 'c \<Rightarrow> (pg_send_report \<times> 'c) run" where
  "threads_cast_one_remote = cast_one_remote"

definition threads_call_one_remote ::
  "node_id \<Rightarrow> 'c router \<Rightarrow> ('m, 'r) message_type \<Rightarrow> 'm \<Rightarrow> actor_address \<Rightarrow> 'r pg_call_report \<times> u64 \<times> 'c
    \<Rightarrow> ('r pg_call_report \<times> u64 \<times> 'c) run" where
  "threads_call_one_remote here ro mt m a = (\<lambda>(rep, c).
     (if is_local here a then Returns (rep, c)
      else run_then (threads_remote_answer here mt (remote_global ro a) m c) (\<lambda>(r, c1). Returns (count_answer (actor_id a) r rep, c1))))"

definition threads_call_federated_scoped ::
  "(duration \<Rightarrow> ('m, 'r) calling \<Rightarrow> ('m, 'r) calling) \<Rightarrow> (actor_id \<Rightarrow> nat) \<Rightarrow> type_id \<Rightarrow> 'c router
    \<Rightarrow> ('m, 'r) message_type \<Rightarrow> string \<Rightarrow> string \<Rightarrow> 'm \<Rightarrow> ('m, 'r) calling \<times> u64 \<times> 'c
    \<Rightarrow> ('r pg_call_report \<times> ('m, 'r) calling \<times> u64 \<times> 'c) run" where
  "threads_call_federated_scoped later slot t ro mt scope grp m = (\<lambda>(st, c).
     run_then (threads_call_scoped later slot t scope grp m st) (\<lambda>(rep, (w1, sl1)).
       case group_addresses scope grp w1 of
         (addrs, w2) \<Rightarrow>
           run_then (run_each (threads_call_one_remote (wd_here w2) ro mt m) addrs (rep, c)) (\<lambda>(rep1, c1).
             Returns (rep1, (w2, sl1), c1))))"

definition threads_pool_start ::
  "'m env \<Rightarrow> actor_pool_builder \<Rightarrow> nat \<Rightarrow> (nat \<Rightarrow> child_spec) \<Rightarrow> 'm world \<Rightarrow> (actor_pool \<times> 'm dyn_state) run" where
  "threads_pool_start en = pool_start (on_threads en)"

section \<open>Facts\<close>

text \<open>The two runtimes get the same answers from remote members.\<close>

lemma threads_remote_answer_eq:
  "threads_remote_answer here mt (remote_global ro a) m st = remote_ref_request here mt (remote_global ro a) m st"
proof -
  obtain corr c where st: "st = (corr, c)" by fastforce
  show ?thesis
  proof (cases "wire_request (mt_remote_id mt) (mt_ser mt) a m corr")
    case (Inr env)
    obtain r c1 where "request_remote ro env c = (r, c1)" by fastforce
    then show ?thesis using Inr
      by (cases r) (simp_all add: st threads_remote_answer_def remote_request_over_wire remote_ref_request_raw_def
          remote_reply_def local_recipient_def remote_global_def)
  qed (simp_all add: st threads_remote_answer_def remote_request_over_wire remote_ref_request_raw_def
      local_recipient_def remote_global_def)
qed

lemma threads_federated_eq:
  "threads_call_one_federated = call_one_federated Threads" "threads_call_federated_scoped = call_federated_scoped Threads"
proof -
  have one: "threads_call_one_remote = call_one_remote"
    by (auto simp: fun_eq_iff threads_call_one_remote_def call_one_remote_def threads_remote_answer_eq)
  show "threads_call_one_federated = call_one_federated Threads"
    by (auto simp: fun_eq_iff threads_call_one_federated_def call_one_federated_def threads_select_federated_target_def
        threads_remote_answer_eq split: prod.split sum.split federated_target.split)
  show "threads_call_federated_scoped = call_federated_scoped Threads"
    by (auto simp: fun_eq_iff threads_call_federated_scoped_def call_federated_scoped_def threads_call_scoped_def one)
qed

lemma least_loaded_spec:
  assumes "best < i" "mn = (ps @ ds) ! best" "length ps = i" "\<forall>k < i. mn \<le> (ps @ ds) ! k" "\<forall>k < best. mn < (ps @ ds) ! k"
  shows "least_loaded i ds best mn < length (ps @ ds) \<and>
    (\<forall>k < length (ps @ ds). (ps @ ds) ! least_loaded i ds best mn \<le> (ps @ ds) ! k) \<and>
    (\<forall>k < least_loaded i ds best mn. (ps @ ds) ! least_loaded i ds best mn < (ps @ ds) ! k)"
  using assms
proof (induction ds arbitrary: i best mn ps)
  case Nil
  then show ?case by auto
next
  case (Cons d ds)
  have d: "(ps @ d # ds) ! i = d" using Cons.prems(3) by (simp add: nth_append)
  show ?case
  proof (cases "d < mn")
    case True
    have "\<forall>k < i. d < (ps @ d # ds) ! k" using Cons.prems(4) True by (meson less_le_trans)
    then have "\<forall>k < Suc i. d \<le> (ps @ d # ds) ! k" using d by (auto simp: less_Suc_eq)
    with \<open>\<forall>k < i. d < (ps @ d # ds) ! k\<close> True Cons.prems(3) d Cons.IH [of i "Suc i" d "ps @ [d]"] show ?thesis by simp
  next
    case False
    then have "\<forall>k < Suc i. mn \<le> (ps @ d # ds) ! k" using Cons.prems(4) d by (auto simp: less_Suc_eq)
    with False Cons.prems Cons.IH [of best "Suc i" mn "ps @ [d]"] show ?thesis by simp
  qed
qed

lemma select_least:
  assumes "depths \<noteq> []"
  obtains i where "select_member_index (length depths) LeastLoaded depths nxt = (Some i, nxt)" "i < length depths"
    "\<forall>k < length depths. depths ! i \<le> depths ! k" "\<forall>k < i. depths ! i < depths ! k"
proof -
  obtain d ds where ds: "depths = d # ds" using assms by (cases depths) auto
  from least_loaded_spec [of 0 1 d "[d]" ds] that [of "least_loaded 1 ds 0 d"] show thesis
    by (simp add: ds select_member_index_def)
qed

text \<open>The members that consecutive selections pick, while the number of members stays the same.\<close>

fun picks :: "nat \<Rightarrow> usize list \<Rightarrow> pool_dispatcher \<Rightarrow> nat option list" where
  "picks 0 depths d = []"
| "picks (Suc k) depths d = (case select_index depths d of (i, d') \<Rightarrow> i # picks k depths d')"

lemma picks_round_robin:
  assumes "pd_strategy d = RoundRobin" "depths \<noteq> []" "unat (pd_next d) + k < 2 ^ 64"
  shows "picks k depths d = map (\<lambda>j. Some ((unat (pd_next d) + j) mod length depths)) [0..<k]"
  using assms
proof (induction k arbitrary: d)
  case 0
  then show ?case by simp
next
  case (Suc k)
  let ?d = "d\<lparr>pd_next := pd_next d + 1\<rparr>"
  have nx: "unat (pd_next ?d) = Suc (unat (pd_next d))"
    using Suc.prems(3) by (simp add: unat_word_ariths)
  have "picks k depths ?d = map (\<lambda>j. Some ((Suc (unat (pd_next d)) + j) mod length depths)) [0..<k]"
    using Suc.IH [of ?d] Suc.prems nx by simp
  moreover have "[0..<Suc k] = 0 # map Suc [0..<k]" by (simp add: upt_conv_Cons map_Suc_upt del: upt_Suc)
  ultimately show ?case using Suc.prems by (simp add: select_index_def select_member_index_def comp_def del: upt_Suc)
qed

lemma join_typed [simp]: "pg_typed (snd (pg_join_scoped here scope grp h st)) = pg_typed st"
  by (simp add: pg_join_scoped_def Let_def)

lemma link_handles_completion: "cl_completion (link_handles here p i w a) = cl_completion (w a)"
  by (auto simp: link_handles_def take_self_from_peer_table_def Let_def split: option.splits)

text \<open>What starting a specification with a group does to the typed buckets, the ids and the living.\<close>

lemma spec_start_typed:
  assumes "spec_start_child s p w = Some (h, w')" "cs_pg_membership s = Some pm"
  shows "\<exists>rt t. cs_start s = StartLinked rt t \<and> h = ActorId (next_actor_id (wd_addr w)) \<and>
    wd_here w' = wd_here w \<and> next_actor_id (wd_addr w') = next_actor_id (wd_addr w) + 1 \<and>
    (\<forall>k t'. Process_Groups.at (pg_typed (wd_pg w')) (k, t') =
       (if k = \<lparr>gk_scope = pm_scope pm, gk_group = pm_group pm\<rparr> \<and> t' = t
        then AList.update (address_local (wd_here w) h) h (Process_Groups.at (pg_typed (wd_pg w)) (k, t'))
        else Process_Groups.at (pg_typed (wd_pg w)) (k, t'))) \<and>
    (\<forall>a. is_alive a (wd_cells w') \<longleftrightarrow> a = h \<or> is_alive a (wd_cells w))"
proof -
  from assms obtain rt t where st: "cs_start s = StartLinked rt t"
    by (auto simp: spec_start_child_def split: child_start.splits)
  let ?j = "pg_join_scoped (wd_here w) (pm_scope pm) (pm_group pm) (ActorId (next_actor_id (wd_addr w))) (wd_pg w)"
  obtain ev st1 where j: "?j = (ev, st1)" by fastforce
  have ty: "pg_typed st1 = pg_typed (wd_pg w)" using join_typed [of "wd_here w" "pm_scope pm" "pm_group pm"
        "ActorId (next_actor_id (wd_addr w))" "wd_pg w"] j by simp
  from assms st j show ?thesis
    by (auto simp: spec_start_child_def start_linked_to_handle_def spawn_actor_eq typed_join_scoped_def
        pg_typed_join_def store_typed_join_def ty link_handles_completion alive_simps cell_with_def split: if_splits)
qed

lemma worker_started:
  assumes "start_pool_worker en grp spec_for i (dy, w) = Returns (dy', w')"
  shows "\<exists>h. spec_start_child (pool_spec grp (spec_for i)) (en_self en) w = Some (h, w')"
proof (cases "dyn_start_child en (pool_spec grp (spec_for i)) None (dy, w)")
  case (Returns x)
  obtain r dy1 w1 where x: "x = (r, dy1, w1)" by (metis prod.collapse)
  from assms Returns x have "r \<noteq> Inl e" "w1 = w'" for e by (auto simp: start_pool_worker_def split: sum.splits)
  with Returns x show ?thesis
    by (auto simp: dyn_start_child_def Let_def split: if_splits option.splits)
qed (use assms in \<open>simp_all add: start_pool_worker_def\<close>)

lemma pool_start_parts:
  assumes "pool_start en pb n spec_for w = Returns (pool, dy, w')"
  obtains en1 dy0 w0 where "en_self en1 = ActorId (next_actor_id (wd_addr w))"
    "run_each (start_pool_worker en1 (pb_group pb) spec_for) [0..<n] (dy0, w0) = Returns (dy, w')"
    "wd_here w0 = wd_here w" "wd_pg w0 = wd_pg w" "next_actor_id (wd_addr w0) = next_actor_id (wd_addr w) + 1"
    "pd_scope (ap_dispatcher pool) = (case pb_scope pb of Some sc \<Rightarrow> sc | None \<Rightarrow> DEFAULT_SCOPE)"
    "pd_group (ap_dispatcher pool) = pb_group pb"
proof -
  let ?sid = "ActorId (next_actor_id (wd_addr w))" and ?w1 = "snd (spawn_actor (en_runtime en) unbounded w)"
  let ?en = "en\<lparr>en_self := ?sid\<rparr>"
  obtain dy0 w0 where d: "dyn_started ?en (dyn_new default_intensity (pb_max_children pb), ?w1) = Returns (dy0, w0)"
    by (simp add: dyn_started_def Let_def)
  have w0: "wd_here w0 = wd_here w" "wd_pg w0 = wd_pg w" "next_actor_id (wd_addr w0) = next_actor_id (wd_addr w) + 1"
    using d by (auto simp: dyn_started_def Let_def spawn_actor_eq register_supervision_actor_def split: option.splits prod.splits)
  from assms d have "run_each (start_pool_worker ?en (pb_group pb) spec_for) [0..<n] (dy0, w0) = Returns (dy, w')"
    "ap_dispatcher pool = (case pb_scope pb of Some scope \<Rightarrow> with_scope scope (dispatcher_new (pb_group pb) (pb_strategy pb))
        | None \<Rightarrow> dispatcher_new (pb_group pb) (pb_strategy pb))"
    by (cases "run_each (start_pool_worker ?en (pb_group pb) spec_for) [0..<n] (dy0, w0)";
        auto simp: pool_start_def Let_def spawn_actor_eq)+
  with that [of ?en dy0 w0] w0 show thesis
    by (simp add: with_scope_def dispatcher_new_def split: option.splits)
qed

definition pool_key :: "string \<Rightarrow> group_key" where
  "pool_key grp = \<lparr>gk_scope = DEFAULT_SCOPE, gk_group = grp\<rparr>"

definition worker_id :: "u64 \<Rightarrow> nat \<Rightarrow> actor_id" where
  "worker_id base j = ActorId (base + 1 + of_nat j)"

lemma worker_id_inject: "i < 2 ^ 64 \<Longrightarrow> j < 2 ^ 64 \<Longrightarrow> worker_id base i = worker_id base j \<longleftrightarrow> i = j"
  by (simp add: worker_id_def word_of_nat_eq_iff take_bit_nat_eq_self)

text \<open>After \<open>k\<close> workers of type \<open>t\<close> have been started.\<close>

definition workers_in :: "type_id \<Rightarrow> node_id \<Rightarrow> u64 \<Rightarrow> string \<Rightarrow> nat \<Rightarrow> 'm dyn_state \<Rightarrow> bool" where
  "workers_in t here base grp k = (\<lambda>(dy, w). wd_here w = here \<and> next_actor_id (wd_addr w) = base + 1 + of_nat k \<and>
     Process_Groups.at (pg_typed (wd_pg w)) (pool_key grp, t) =
       map (\<lambda>j. (address_local here (worker_id base j), worker_id base j)) [0..<k] \<and>
     (\<forall>j < k. is_alive (worker_id base j) (wd_cells w)))"

lemma workers_in_step:
  assumes "start_pool_worker en grp spec_for i (dy, w) = Returns (dy', w')" "workers_in t here base grp k (dy, w)"
    "cs_pg_membership (spec_for i) = None" "cs_start (spec_for i) = StartLinked rt t" "k < 2 ^ 64"
  shows "workers_in t here base grp (Suc k) (dy', w')"
proof -
  have pm: "cs_pg_membership (pool_spec grp (spec_for i)) = Some \<lparr>pm_scope = DEFAULT_SCOPE, pm_group = grp\<rparr>"
    "cs_start (pool_spec grp (spec_for i)) = StartLinked rt t"
    using assms(3,4) by (simp_all add: pool_spec_def with_pg_group_def with_pg_group_scoped_def)
  from worker_started [OF assms(1)] obtain h where h: "spec_start_child (pool_spec grp (spec_for i)) (en_self en) w = Some (h, w')" ..
  have hid: "h = worker_id base k" "wd_here w = here"
    using spec_start_typed [OF h pm(1)] assms(2) by (auto simp: workers_in_def worker_id_def)
  have fresh: "address_local here h \<notin> fst ` set (map (\<lambda>j. (address_local here (worker_id base j), worker_id base j)) [0..<k])"
  proof -
    have "worker_id base j \<noteq> worker_id base k" if "j < k" for j
      using that assms(5) worker_id_inject [of j k base] by simp
    then show ?thesis by (auto simp: hid(1) address_local_def dest: sym)
  qed
  show ?thesis
    using spec_start_typed [OF h pm(1)] assms(2) pm(2) hid alist_update_fresh [OF fresh, of h]
    by (auto simp: workers_in_def pool_key_def less_Suc_eq)
qed

lemma workers_in_members:
  assumes "workers_in t here base grp k (dy, w)"
  shows "pg_members_scoped t DEFAULT_SCOPE grp w = map (worker_id base) [0..<k]"
proof -
  have "pg_typed_members t DEFAULT_SCOPE grp (wd_pg w) = map (worker_id base) [0..<k]"
    using assms by (simp add: workers_in_def pool_key_def pg_typed_members_def store_typed_members_def)
  moreover have "filter (\<lambda>a. is_alive a (wd_cells w)) (map (worker_id base) [0..<k]) = map (worker_id base) [0..<k]"
    using assms by (intro filter_True) (auto simp: workers_in_def)
  ultimately show ?thesis by (simp add: pg_members_scoped_def)
qed

text \<open>A selection over live members picks one of them.\<close>

lemma pool_selection_index:
  assumes sel: "select_local_target t d w = (res, d')" and ms: "ms = pg_members_scoped t (pd_scope d) (pd_group d) w"
    and ne: "ms \<noteq> []"
  shows "\<exists>i < length ms. res = Inr (ms ! i) \<and>
    (pd_strategy d = LeastLoaded \<longrightarrow> (\<forall>k < length ms. mailbox_depth (ms ! i) w \<le> mailbox_depth (ms ! k) w))"
proof (cases "pd_strategy d")
  case RoundRobin
  with sel ne show ?thesis
    by (intro exI [of _ "unat (pd_next d) mod length ms"])
      (auto simp: select_local_target_def Let_def select_index_def select_member_index_def ms [symmetric])
next
  case LeastLoaded
  let ?ds = "map (\<lambda>a. mailbox_depth a w) ms"
  have "?ds \<noteq> []" using ne by simp
  then obtain i where "select_member_index (length ?ds) LeastLoaded ?ds (pd_next d) = (Some i, pd_next d)" "i < length ?ds"
    "\<forall>k < length ?ds. ?ds ! i \<le> ?ds ! k" "\<forall>k < i. ?ds ! i < ?ds ! k" by (rule select_least)
  with sel ne LeastLoaded show ?thesis
    by (intro exI [of _ i]) (auto simp: select_local_target_def Let_def select_index_def ms [symmetric])
qed

section \<open>Properties\<close>

text \<open>
  Where a pool sends a message. A selection reports no members exactly when the group has no live
  member of the type, and otherwise picks one of them. Under \<open>RoundRobin\<close>, \<open>n\<close> selections in a row
  over \<open>n\<close> members pick each of them once, until the counter wraps. Under \<open>LeastLoaded\<close> no member
  has a shorter queue than the one picked.
\<close>

lemma pool_selection_fair:
  assumes sel: "select_local_target t d w = (res, d')" and ms: "ms = pg_members_scoped t (pd_scope d) (pd_group d) w"
  shows "(res = Inl NoMembers \<longleftrightarrow> ms = []) \<and> (ms \<noteq> [] \<longrightarrow> (\<exists>a \<in> set ms. res = Inr a \<and> is_alive a (wd_cells w))) \<and>
    (pd_strategy d = RoundRobin \<and> ms \<noteq> [] \<and> unat (pd_next d) + length ms < 2 ^ 64 \<longrightarrow>
       mset (picks (length ms) (map (\<lambda>a. mailbox_depth a w) ms) d) = mset (map Some [0..<length ms])) \<and>
    (pd_strategy d = LeastLoaded \<longrightarrow> (\<forall>a b. res = Inr a \<and> b \<in> set ms \<longrightarrow> mailbox_depth a w \<le> mailbox_depth b w))"
proof -
  let ?ds = "map (\<lambda>a. mailbox_depth a w) ms" and ?n = "length ms"
  have none: "ms = [] \<Longrightarrow> res = Inl NoMembers" using sel ms by (simp add: select_local_target_def)
  have fair: "mset (picks ?n ?ds d) = mset (map Some [0..<?n])"
    if "pd_strategy d = RoundRobin" "ms \<noteq> []" "unat (pd_next d) + ?n < 2 ^ 64"
  proof -
    let ?f = "\<lambda>j. (unat (pd_next d) + j) mod ?n"
    have inj: "inj_on ?f {0..<?n}"
    proof (rule inj_onI)
      fix x y assume xy: "x \<in> {0..<?n}" "y \<in> {0..<?n}" "?f x = ?f y"
      then obtain p q where "unat (pd_next d) + x + ?n * p = unat (pd_next d) + y + ?n * q"
        using nat_mod_eq_iff [of "unat (pd_next d) + x" ?n] by blast
      then have "x mod ?n = y mod ?n" unfolding nat_mod_eq_iff by auto
      with xy show "x = y" by simp
    qed
    have "?f ` {0..<?n} = {0..<?n}"
      using inj that(2) by (intro endo_inj_surj) auto
    then have "mset (map ?f [0..<?n]) = mset [0..<?n]"
      using inj by (metis atLeastLessThan_upt distinct_map distinct_upt mset_eq_setD set_eq_iff_mset_eq_distinct set_map)
    then have "mset (map Some (map ?f [0..<?n])) = mset (map Some [0..<?n])" unfolding mset_map by simp
    moreover have "picks ?n ?ds d = map Some (map ?f [0..<?n])" using picks_round_robin [of d ?ds ?n] that by simp
    ultimately show ?thesis by metis
  qed
  have live: "a \<in> set ms \<Longrightarrow> is_alive a (wd_cells w)" for a by (simp add: ms pg_members_scoped_def)
  show ?thesis
  proof (cases "ms = []")
    case True
    then show ?thesis using none by auto
  next
    case False
    with pool_selection_index [OF sel ms] obtain i where "i < ?n" "res = Inr (ms ! i)"
      "pd_strategy d = LeastLoaded \<longrightarrow> (\<forall>k < ?n. mailbox_depth (ms ! i) w \<le> mailbox_depth (ms ! k) w)" by blast
    then show ?thesis using False live fair by (auto simp: in_set_conv_nth)
  qed
qed

definition pool_world :: "nat envelope world" where
  "pool_world = \<lparr>wd_here = NodeId ''n'', wd_addr = address_init, wd_cells = (\<lambda>_. new_cell),
     wd_pg = pg_empty, wd_pg_events = [], wd_corr = 1, wd_published = [], wd_sleeps = [], wd_broker = None,
     wd_registry = [], wd_names = named_empty, wd_name_events = [], wd_remote_links = (\<lambda>_. []), wd_tasks = [],
     wd_spawn = empty_spawn_store, wd_done_waits = []\<rparr>"

definition pool_env :: "nat envelope env" where
  "pool_env = \<lparr>en_runtime = Tasks, en_self = ActorId 0, en_sched = exit_sched (NodeId ''n''), en_rpc = down_rpc,
     en_wait = (\<lambda>sent a d. None)\<rparr>"

definition two_workers :: "nat envelope world" where
  "two_workers = pool_world\<lparr>wd_pg := pg_empty\<lparr>pg_typed := [((pool_key ''g'', 1),
     [(address_local (NodeId ''n'') (ActorId 5), ActorId 5), (address_local (NodeId ''n'') (ActorId 6), ActorId 6)])]\<rparr>\<rparr>"


lemma pool_world_starts:
  assumes "pb_max_children pb = None"
  shows "\<exists>pool dy w'. pool_start pool_env pb 1 (\<lambda>_. worker ''w'' 1 Permanent) pool_world = Returns (pool, dy, w')"
  using assms
  by (simp add: pool_start_def spawn_actor_eq Let_def dyn_started_def start_pool_worker_def dyn_start_child_def dyn_new_def
      over_max_def logic_new_def has_child_id_def pool_spec_def with_pg_group_def with_pg_group_scoped_def worker_def
      spec_start_child_def start_linked_to_handle_def)


text \<open>
  The \<open>scope\<close> of a pool builder makes the pool useless: the workers are put into the group in the
  default scope, the dispatcher looks in the configured one. Whatever the number of workers,
  every dispatch and every call of the started pool answers that it has no members.
\<close>

lemma scoped_pool_has_no_members:
  fixes w :: "'m envelope world" and later :: "duration \<Rightarrow> ('m, 'r) calling \<Rightarrow> ('m, 'r) calling"
  assumes run: "pool_start en pb n spec_for w = Returns (pool, dy, w')" and scope: "pb_scope pb = Some sc" "sc \<noteq> DEFAULT_SCOPE"
    and specs: "\<forall>i < n. cs_pg_membership (spec_for i) = None"
    and fresh: "pg_typed_members t sc (pb_group pb) (wd_pg w) = []"
  shows "dispatch rt t m (ap_dispatcher pool) w' = Returns (Inl NoMembers, ap_dispatcher pool, w') \<and>
    call_one rt later i t m (ap_dispatcher pool) (w', sl) = Returns (Inl NoMembers, ap_dispatcher pool, (w', sl))"
proof -
  let ?base = "next_actor_id (wd_addr w)" and ?grp = "pb_group pb"
  let ?I = "\<lambda>(_ :: nat) (st :: 'm envelope dyn_state). pg_typed_members t sc ?grp (wd_pg (snd st)) = []"
  from run obtain en1 dy0 w0 where "en_self en1 = ActorId ?base"
    and each: "run_each (start_pool_worker en1 ?grp spec_for) [0..<n] (dy0, w0) = Returns (dy, w')"
    and w0: "wd_here w0 = wd_here w" "wd_pg w0 = wd_pg w" "next_actor_id (wd_addr w0) = ?base + 1"
    and d: "pd_scope (ap_dispatcher pool) = (case pb_scope pb of Some sc \<Rightarrow> sc | None \<Rightarrow> DEFAULT_SCOPE)"
      "pd_group (ap_dispatcher pool) = ?grp" by (rule pool_start_parts)
  have "?I (length [0..<n]) (dy, w')"
  proof (rule run_each_keeps [where I = ?I, OF _ each])
    fix k x st st' assume k: "k < length [0..<n]" "x = [0..<n] ! k" "start_pool_worker en1 ?grp spec_for x st = Returns st'" "?I k st"
    then have pm: "cs_pg_membership (pool_spec ?grp (spec_for x)) = Some \<lparr>pm_scope = DEFAULT_SCOPE, pm_group = ?grp\<rparr>"
      using specs by (auto simp: pool_spec_def with_pg_group_def with_pg_group_scoped_def)
    from worker_started [of en1 ?grp spec_for x "fst st" "snd st" "fst st'" "snd st'"] k(3) obtain h where
      "spec_start_child (pool_spec ?grp (spec_for x)) (en_self en1) (snd st) = Some (h, snd st')" by auto
    from spec_start_typed [OF this pm] k(4) scope(2) show "?I (Suc k) st'"
      by (auto simp: pg_typed_members_def store_typed_members_def)
  qed (use fresh w0 in simp)
  then have "pg_members_scoped t (pd_scope (ap_dispatcher pool)) (pd_group (ap_dispatcher pool)) w' = []"
    using d scope by (simp add: pg_members_scoped_def)
  then show ?thesis by (simp add: dispatch_def call_one_def select_local_target_def)
qed

end
