(* ===== verification/Monitors.thy ===== *)
theory Monitors
  imports Actor_Calls Broker
begin

text \<open>
  Monitors of an actor on other actors (\<open>monitor\<close>, \<open>monitor_address\<close> and \<open>demonitor\<close> of
  \<open>tasks/actor.rs\<close> and \<open>threads/actor.rs\<close>, \<open>monitor.rs\<close>). A local monitor leaves a task (in the
  threads runtime a thread) behind that waits for the target, removes its entry from the
  owner's table and, if the shared flag is still set, sends the \<open>Down\<close>; between the last two the
  owner may run. The flags are cells on a heap of their own, shared by the table and the task.
  \<open>mn_delivered\<close> only records the tasks whose \<open>Down\<close> was accepted by the owner's mailbox.
\<close>

section \<open>State\<close>

record mon_task =
  mo_owner :: actor_id
  mo_ref :: u64
  mo_flag :: nat
  mo_target :: actor_id
  mo_reason :: "exit_reason option"

record 'm mon_node =
  mn_world :: "'m world"
  mn_next :: u64
  mn_flags :: "nat \<Rightarrow> bool"
  mn_alloc :: nat
  mn_tables :: "actor_id \<Rightarrow> u64 \<rightharpoonup> nat"
  mn_remote :: "actor_id \<Rightarrow> u64 \<rightharpoonup> actor_address"
  mn_tasks :: "mon_task list"
  mn_delivered :: "mon_task list"

definition mon_init :: "'m mon_node \<Rightarrow> bool" where
  "mon_init n \<longleftrightarrow> mn_next n = 1 \<and> mn_alloc n = 0 \<and> mn_tables n = (\<lambda>_. Map.empty) \<and> mn_remote n = (\<lambda>_. Map.empty) \<and>
     mn_tasks n = [] \<and> mn_delivered n = []"

section \<open>Operations\<close>

definition monitor_ref_next :: "'m mon_node \<Rightarrow> u64 \<times> 'm mon_node" where
  "monitor_ref_next n = (mn_next n, n\<lparr>mn_next := mn_next n + 1\<rparr>)"

text \<open>A fresh flag, set, in the table of the owner.\<close>

definition insert_monitor :: "actor_id \<Rightarrow> u64 \<Rightarrow> 'm mon_node \<Rightarrow> nat \<times> 'm mon_node" where
  "insert_monitor own r n =
     (mn_alloc n, n\<lparr>mn_flags := (mn_flags n)(mn_alloc n := True), mn_alloc := Suc (mn_alloc n),
        mn_tables := (mn_tables n)(own := (mn_tables n own)(r \<mapsto> mn_alloc n))\<rparr>)"

definition monitor :: "actor_id \<Rightarrow> actor_id \<Rightarrow> 'm mon_node \<Rightarrow> u64 \<times> 'm mon_node" where
  "monitor own target n =
     (case monitor_ref_next n of (r, n1) \<Rightarrow>
       (case insert_monitor own r n1 of (f, n2) \<Rightarrow>
         (r, n2\<lparr>mn_tasks := mn_tasks n2 @ [\<lparr>mo_owner = own, mo_ref = r, mo_flag = f, mo_target = target, mo_reason = None\<rparr>]\<rparr>)))"

text \<open>A local address that the broker does not know is a panic.\<close>

definition monitor_address :: "actor_id \<Rightarrow> actor_address \<Rightarrow> 'm mon_node \<Rightarrow> (u64 \<times> 'm mon_node) run" where
  "monitor_address own target n =
     (if is_local (wd_here (mn_world n)) target
      then (case broker_local_handle (actor_id target) (mn_world n) of
              None \<Rightarrow> Panics
            | Some h \<Rightarrow> Returns (monitor own h n))
      else case monitor_ref_next n of (r, n1) \<Rightarrow>
             (case insert_monitor own r n1 of (f, n2) \<Rightarrow>
               Returns (r, n2\<lparr>mn_remote := (mn_remote n2)(own := (mn_remote n2 own)(r \<mapsto> target)),
                 mn_world := publish_monitor (address_local (wd_here (mn_world n2)) own) target r (mn_world n2)\<rparr>)))"

definition demonitor :: "actor_id \<Rightarrow> u64 \<Rightarrow> 'm mon_node \<Rightarrow> 'm mon_node" where
  "demonitor own r n =
     (let n1 = (case mn_remote n own r of
                  None \<Rightarrow> n
                | Some target \<Rightarrow>
                    n\<lparr>mn_remote := (mn_remote n)(own := (mn_remote n own)(r := None)),
                      mn_world := publish_demonitor (address_local (wd_here (mn_world n)) own) target r (mn_world n)\<rparr>)
      in case mn_tables n1 own r of
           None \<Rightarrow> n1
         | Some f \<Rightarrow> n1\<lparr>mn_tables := (mn_tables n1)(own := (mn_tables n1 own)(r := None)),
                        mn_flags := (mn_flags n1)(f := False)\<rparr>)"

text \<open>The task: it wakes up when the target has exited; then it looks at the flag and sends.\<close>

definition monitor_wake :: "nat \<Rightarrow> 'm mon_node \<Rightarrow> 'm mon_node" where
  "monitor_wake k n =
     (let t = mn_tasks n ! k
      in n\<lparr>mn_tables := (mn_tables n)(mo_owner t := (mn_tables n (mo_owner t))(mo_ref t := None)),
           mn_tasks := (mn_tasks n)[k := t\<lparr>mo_reason := exit_reason_of (mo_target t) (wd_cells (mn_world n))\<rparr>]\<rparr>)"

definition monitor_send ::
  "mailbox_runtime \<Rightarrow> (down \<Rightarrow> 'm) \<Rightarrow> nat \<Rightarrow> 'm mon_node \<Rightarrow> 'm mon_node run" where
  "monitor_send rt mk k n =
     (let t = mn_tasks n ! k;
          n1 = n\<lparr>mn_tasks := vec_remove k (mn_tasks n)\<rparr>
      in if \<not> mn_flags n (mo_flag t) then Returns n1
         else run_then (post rt (mk \<lparr>dn_ref = mo_ref t, dn_reason = the (mo_reason t)\<rparr>) (wd_cells (mn_world n) (mo_owner t)))
           (\<lambda>(res, c).
             let n2 = n1\<lparr>mn_world := over_cells (\<lambda>cells. cells(mo_owner t := c)) (mn_world n1)\<rparr>
             in Returns (if is_ok res then n2\<lparr>mn_delivered := mn_delivered n2 @ [t]\<rparr> else n2)))"

section \<open>Interleavings\<close>

text \<open>
  Between these steps the rest of the node may change everything in the world, except that an
  exit reason, once published, stays.
\<close>

inductive mon_step :: "(down \<Rightarrow> 'm) \<Rightarrow> 'm mon_node \<Rightarrow> 'm mon_node \<Rightarrow> bool" for mk where
  set_local: "mon_step mk n (snd (monitor own target n))"
| set_address: "monitor_address own target n = Returns (r, n') \<Longrightarrow> mon_step mk n n'"
| unset: "mon_step mk n (demonitor own r n)"
| wake: "k < length (mn_tasks n) \<Longrightarrow> mo_reason (mn_tasks n ! k) = None \<Longrightarrow>
    exit_reason_of (mo_target (mn_tasks n ! k)) (wd_cells (mn_world n)) \<noteq> None \<Longrightarrow> mon_step mk n (monitor_wake k n)"
| deliver: "k < length (mn_tasks n) \<Longrightarrow> mo_reason (mn_tasks n ! k) \<noteq> None \<Longrightarrow>
    monitor_send rt mk k n = Returns n' \<Longrightarrow> mon_step mk n n'"
| others: "(\<And>a r. exit_reason_of a (wd_cells (mn_world n)) = Some r \<Longrightarrow> exit_reason_of a (wd_cells w') = Some r) \<Longrightarrow>
    mon_step mk n (n\<lparr>mn_world := w'\<rparr>)"

section \<open>The threads runtime\<close>

definition threads_monitor :: "actor_id \<Rightarrow> actor_id \<Rightarrow> 'm mon_node \<Rightarrow> u64 \<times> 'm mon_node" where
  "threads_monitor = monitor"

text \<open>There are no remote monitors in the threads runtime.\<close>

definition threads_demonitor :: "actor_id \<Rightarrow> u64 \<Rightarrow> 'm mon_node \<Rightarrow> 'm mon_node" where
  "threads_demonitor own r n =
     (case mn_tables n own r of
        None \<Rightarrow> n
      | Some f \<Rightarrow> n\<lparr>mn_tables := (mn_tables n)(own := (mn_tables n own)(r := None)), mn_flags := (mn_flags n)(f := False)\<rparr>)"

lemma threads_demonitor_eq: "mn_remote n own r = None \<Longrightarrow> threads_demonitor own r n = demonitor own r n"
  by (simp add: threads_demonitor_def demonitor_def)

section \<open>Facts\<close>

definition ref_of :: "nat \<Rightarrow> u64" where
  "ref_of f = of_nat f + 1"

lemma ref_of_inject: "f < 2 ^ 64 \<Longrightarrow> g < 2 ^ 64 \<Longrightarrow> ref_of f = ref_of g \<longleftrightarrow> f = g"
  by (simp add: ref_of_def word_of_nat_eq_iff take_bit_nat_eq_self)

text \<open>What a flag still in a table, waiting in a task, or used up by a delivery means.\<close>

definition noted :: "'m world \<Rightarrow> mon_task \<Rightarrow> bool" where
  "noted w t \<longleftrightarrow> (\<exists>r. mo_reason t = Some r \<and> exit_reason_of (mo_target t) (wd_cells w) = Some r)"

abbreviation all_tasks :: "'m mon_node \<Rightarrow> mon_task list" where
  "all_tasks n \<equiv> mn_tasks n @ mn_delivered n"

definition mon_inv :: "'m mon_node \<Rightarrow> bool" where
  "mon_inv n \<longleftrightarrow> mn_next n = ref_of (mn_alloc n) \<and>
     (\<forall>t \<in> set (all_tasks n). mo_flag t < mn_alloc n \<and> mo_ref t = ref_of (mo_flag t)) \<and>
     distinct (map mo_flag (all_tasks n)) \<and>
     (\<forall>own r f. mn_tables n own r = Some f \<longrightarrow> f < mn_alloc n \<and> r = ref_of f) \<and>
     (\<forall>own r. \<forall>t \<in> set (all_tasks n). mn_tables n own r = Some (mo_flag t) \<longrightarrow> mo_reason t = None \<and> mo_owner t = own) \<and>
     (\<forall>t \<in> set (mn_tasks n). mo_reason t \<noteq> None \<longrightarrow> noted (mn_world n) t) \<and>
     (\<forall>t \<in> set (mn_delivered n). noted (mn_world n) t)"

lemma mon_invI:
  assumes "mn_next n = ref_of (mn_alloc n)" "\<And>t. t \<in> set (all_tasks n) \<Longrightarrow> mo_flag t < mn_alloc n \<and> mo_ref t = ref_of (mo_flag t)"
    "distinct (map mo_flag (all_tasks n))" "\<And>own r f. mn_tables n own r = Some f \<Longrightarrow> f < mn_alloc n \<and> r = ref_of f"
    "\<And>own r t. t \<in> set (all_tasks n) \<Longrightarrow> mn_tables n own r = Some (mo_flag t) \<Longrightarrow> mo_reason t = None \<and> mo_owner t = own"
    "\<And>t. t \<in> set (mn_tasks n) \<Longrightarrow> mo_reason t \<noteq> None \<Longrightarrow> noted (mn_world n) t"
    "\<And>t. t \<in> set (mn_delivered n) \<Longrightarrow> noted (mn_world n) t"
  shows "mon_inv n"
  using assms unfolding mon_inv_def by blast

lemma mon_invD:
  assumes "mon_inv n"
  shows "mn_next n = ref_of (mn_alloc n)" "t \<in> set (all_tasks n) \<Longrightarrow> mo_flag t < mn_alloc n \<and> mo_ref t = ref_of (mo_flag t)"
    "distinct (map mo_flag (all_tasks n))" "mn_tables n own r = Some f \<Longrightarrow> f < mn_alloc n \<and> r = ref_of f"
    "t \<in> set (all_tasks n) \<Longrightarrow> mn_tables n own r = Some (mo_flag t) \<Longrightarrow> mo_reason t = None \<and> mo_owner t = own"
    "t \<in> set (mn_tasks n) \<Longrightarrow> mo_reason t \<noteq> None \<Longrightarrow> noted (mn_world n) t"
    "t \<in> set (mn_delivered n) \<Longrightarrow> noted (mn_world n) t"
  using assms unfolding mon_inv_def by blast+

lemma notedD: "noted w t \<Longrightarrow> mo_reason t \<noteq> None"
  by (auto simp: noted_def)

lemma noted_mono:
  "noted w t \<Longrightarrow> (\<And>a r. exit_reason_of a (wd_cells w) = Some r \<Longrightarrow> exit_reason_of a (wd_cells w') = Some r) \<Longrightarrow> noted w' t"
  by (auto simp: noted_def)

lemma ref_of_Suc: "ref_of (Suc f) = ref_of f + 1"
  by (simp add: ref_of_def)

lemma post_completion: "post rt e c = Returns (res, c') \<Longrightarrow> cl_completion c' = cl_completion c"
  by (auto simp: post_def split: blocking.splits)

lemma mon_inv_insert:
  assumes "mon_inv n" "monitor_ref_next n = (r, n1)" "insert_monitor own r n1 = (f, n2)"
  shows "mon_inv n2" "f = mn_alloc n" "r = ref_of f" "mn_alloc n2 = Suc f" "mn_tables n2 = (mn_tables n)(own := (mn_tables n own)(r \<mapsto> f))"
    "mn_tasks n2 = mn_tasks n" "mn_delivered n2 = mn_delivered n" "mn_world n2 = mn_world n" "mn_remote n2 = mn_remote n"
    "mn_next n2 = ref_of (Suc f)" "mn_flags n2 = (mn_flags n)(f := True)"
proof -
  have n1: "r = ref_of (mn_alloc n)" "n1 = n\<lparr>mn_next := mn_next n + 1\<rparr>"
    using assms(2) mon_invD(1) [OF assms(1)] by (auto simp: monitor_ref_next_def)
  then have n2: "n2 = n\<lparr>mn_next := ref_of (Suc (mn_alloc n)), mn_flags := (mn_flags n)(mn_alloc n := True), mn_alloc := Suc (mn_alloc n),
        mn_tables := (mn_tables n)(own := (mn_tables n own)(r \<mapsto> mn_alloc n))\<rparr>" and f: "f = mn_alloc n"
    using assms(3) mon_invD(1) [OF assms(1)] by (auto simp: insert_monitor_def ref_of_Suc)
  show "f = mn_alloc n" "r = ref_of f" "mn_alloc n2 = Suc f" "mn_tables n2 = (mn_tables n)(own := (mn_tables n own)(r \<mapsto> f))"
    "mn_tasks n2 = mn_tasks n" "mn_delivered n2 = mn_delivered n" "mn_world n2 = mn_world n" "mn_remote n2 = mn_remote n"
    "mn_next n2 = ref_of (Suc f)" "mn_flags n2 = (mn_flags n)(f := True)"
    using n1 f by (simp_all add: n2)
  have old: "mo_flag t \<noteq> mn_alloc n" if "t \<in> set (all_tasks n)" for t
    using mon_invD(2) [OF assms(1) that] by simp
  show "mon_inv n2"
  proof (rule mon_invI)
    fix t assume "t \<in> set (all_tasks n2)"
    then show "mo_flag t < mn_alloc n2 \<and> mo_ref t = ref_of (mo_flag t)" using mon_invD(2) [OF assms(1), of t] by (auto simp: n2)
  next
    fix o' r' g assume "mn_tables n2 o' r' = Some g"
    then show "g < mn_alloc n2 \<and> r' = ref_of g" using mon_invD(4) [OF assms(1), of o' r' g] n1(1) by (auto simp: n2 split: if_splits)
  next
    fix o' r' t assume "t \<in> set (all_tasks n2)" "mn_tables n2 o' r' = Some (mo_flag t)"
    then show "mo_reason t = None \<and> mo_owner t = o'" using mon_invD(5) [OF assms(1), of t o' r'] old [of t] by (auto simp: n2 split: if_splits)
  qed (use mon_invD(3,6,7) [OF assms(1)] in \<open>simp_all add: n2\<close>)
qed

lemma monitor_inv:
  assumes "mon_inv n" "monitor own target n = (r, n')"
  shows "mon_inv n'"
proof -
  obtain r1 n1 where s1: "monitor_ref_next n = (r1, n1)" by fastforce
  obtain f n2 where s2: "insert_monitor own r1 n1 = (f, n2)" by fastforce
  note i = mon_inv_insert [OF assms(1) s1 s2]
  let ?t = "\<lparr>mo_owner = own, mo_ref = r1, mo_flag = f, mo_target = target, mo_reason = None\<rparr>"
  have n': "n' = n2\<lparr>mn_tasks := mn_tasks n2 @ [?t]\<rparr>" using assms(2) s1 s2 by (auto simp: monitor_def)
  have old: "mo_flag t \<noteq> f" if "t \<in> set (all_tasks n2)" for t
    using mon_invD(2) [OF assms(1), of t] that i(2,6,7) by auto
  have own: "mn_tables n2 o' r' = Some f \<Longrightarrow> o' = own" for o' r'
    using mon_invD(4) [OF assms(1), of o' r' f] i(2,5) by (auto split: if_splits)
  have tasks: "t \<in> set (all_tasks n') \<longleftrightarrow> t = ?t \<or> t \<in> set (all_tasks n2)" for t by (auto simp: n')
  show ?thesis
  proof (rule mon_invI)
    fix t assume "t \<in> set (all_tasks n')"
    then show "mo_flag t < mn_alloc n' \<and> mo_ref t = ref_of (mo_flag t)"
      using tasks mon_invD(2) [OF i(1), of t] i(3,4) by (auto simp: n')
  next
    show "distinct (map mo_flag (all_tasks n'))" using mon_invD(3) [OF i(1)] old by (auto simp: n')
  next
    fix o' r' t assume "t \<in> set (all_tasks n')" "mn_tables n' o' r' = Some (mo_flag t)"
    then show "mo_reason t = None \<and> mo_owner t = o'" using tasks mon_invD(5) [OF i(1), of t o' r'] own by (auto simp: n')
  next
    fix t assume "t \<in> set (mn_tasks n')" "mo_reason t \<noteq> None"
    then show "noted (mn_world n') t" using mon_invD(6) [OF i(1), of t] by (auto simp: n')
  qed (use mon_invD(1,4,7) [OF i(1)] in \<open>auto simp: n'\<close>)
qed

text \<open>Dropping table entries and tasks keeps the invariant, and so does what keeps the exit reasons.\<close>

lemma mon_inv_sub:
  assumes "mon_inv n" "mn_alloc n' = mn_alloc n" "mn_next n' = mn_next n"
    "\<And>own r f. mn_tables n' own r = Some f \<Longrightarrow> mn_tables n own r = Some f"
    "set (mn_tasks n') \<subseteq> set (mn_tasks n)" "mn_delivered n' = mn_delivered n" "distinct (map mo_flag (all_tasks n'))"
    "\<And>a r. exit_reason_of a (wd_cells (mn_world n)) = Some r \<Longrightarrow> exit_reason_of a (wd_cells (mn_world n')) = Some r"
  shows "mon_inv n'"
proof (rule mon_invI)
  have tasks: "t \<in> set (all_tasks n') \<Longrightarrow> t \<in> set (all_tasks n)" for t using assms(5,6) by auto
  show "t \<in> set (all_tasks n') \<Longrightarrow> mo_flag t < mn_alloc n' \<and> mo_ref t = ref_of (mo_flag t)" for t
    using mon_invD(2) [OF assms(1) tasks] assms(2) by simp
  show "mn_tables n' own r = Some f \<Longrightarrow> f < mn_alloc n' \<and> r = ref_of f" for own r f
    using mon_invD(4) [OF assms(1) assms(4)] assms(2) by simp
  show "t \<in> set (all_tasks n') \<Longrightarrow> mn_tables n' own r = Some (mo_flag t) \<Longrightarrow> mo_reason t = None \<and> mo_owner t = own" for own r t
    using mon_invD(5) [OF assms(1) tasks assms(4)] by simp
  show "t \<in> set (mn_tasks n') \<Longrightarrow> mo_reason t \<noteq> None \<Longrightarrow> noted (mn_world n') t" for t
    using noted_mono [OF mon_invD(6) [OF assms(1), of t] assms(8)] assms(5) by blast
  show "t \<in> set (mn_delivered n') \<Longrightarrow> noted (mn_world n') t" for t
    using noted_mono [OF mon_invD(7) [OF assms(1), of t] assms(8)] assms(6) by simp
qed (use mon_invD(1) [OF assms(1)] assms(2,3,7) in simp_all)

lemma mon_inv_frame:
  assumes "mon_inv n" "mn_tables n' = mn_tables n" "mn_tasks n' = mn_tasks n" "mn_delivered n' = mn_delivered n"
    "mn_alloc n' = mn_alloc n" "mn_next n' = mn_next n"
    "\<And>a r. exit_reason_of a (wd_cells (mn_world n)) = Some r \<Longrightarrow> exit_reason_of a (wd_cells (mn_world n')) = Some r"
  shows "mon_inv n'"
  by (rule mon_inv_sub [OF assms(1,5,6)]) (use mon_invD(3) [OF assms(1)] assms in simp_all)

lemma demonitor_inv:
  assumes "mon_inv n"
  shows "mon_inv (demonitor own r n)"
proof -
  define n1 where "n1 = (case mn_remote n own r of
                  None \<Rightarrow> n
                | Some target \<Rightarrow>
                    n\<lparr>mn_remote := (mn_remote n)(own := (mn_remote n own)(r := None)),
                      mn_world := publish_demonitor (address_local (wd_here (mn_world n)) own) target r (mn_world n)\<rparr>)"
  have "mon_inv n1"
    by (rule mon_inv_frame [OF assms]) (auto simp: n1_def publish_demonitor_def publish_supervision_def split: option.splits)
  have "mon_inv (n1\<lparr>mn_tables := (mn_tables n1)(own := (mn_tables n1 own)(r := None)), mn_flags := fl\<rparr>)" for fl
    by (rule mon_inv_sub [OF \<open>mon_inv n1\<close>]) (use mon_invD(3) [OF \<open>mon_inv n1\<close>] in \<open>auto split: if_splits\<close>)
  with \<open>mon_inv n1\<close> show ?thesis by (simp add: demonitor_def n1_def [symmetric] Let_def split: option.splits)
qed

lemma wake_inv:
  assumes "mon_inv n" "k < length (mn_tasks n)" "mo_reason (mn_tasks n ! k) = None"
    "exit_reason_of (mo_target (mn_tasks n ! k)) (wd_cells (mn_world n)) \<noteq> None"
  shows "mon_inv (monitor_wake k n)"
proof -
  define t where "t = mn_tasks n ! k"
  define u where "u = t\<lparr>mo_reason := exit_reason_of (mo_target t) (wd_cells (mn_world n))\<rparr>"
  let ?ts = "(mn_tasks n)[k := u]"
  have tin: "t \<in> set (mn_tasks n)" using assms(2) by (simp add: t_def)
  have mem: "x \<in> set ?ts \<Longrightarrow> x = u \<or> x \<in> set (mn_tasks n)" for x using set_update_subset_insert [of "mn_tasks n" k u] by auto
  have fl: "map mo_flag ?ts = map mo_flag (mn_tasks n)"
    by (simp add: map_update u_def t_def list_update_same_conv assms(2))
  have "mo_flag u = mo_flag t" "mo_ref u = mo_ref t" "mo_owner u = mo_owner t" "mo_target u = mo_target t" by (simp_all add: u_def)
  moreover have "mn_tables n o' r' = Some (mo_flag t) \<Longrightarrow> o' = mo_owner t \<and> r' = mo_ref t" for o' r'
    using mon_invD(4) [OF assms(1), of o' r'] mon_invD(5) [OF assms(1), of t o' r'] mon_invD(2) [OF assms(1), of t] tin by auto
  ultimately have u: "mo_flag u = mo_flag t" "mo_ref u = mo_ref t" "mo_target u = mo_target t"
    and gone: "\<And>o' r'. mn_tables n o' r' = Some (mo_flag t) \<Longrightarrow> o' = mo_owner t \<and> r' = mo_ref t" by blast+
  let ?n = "monitor_wake k n"
  have n': "mn_tasks ?n = ?ts" "mn_delivered ?n = mn_delivered n" "mn_alloc ?n = mn_alloc n" "mn_next ?n = mn_next n"
    "mn_world ?n = mn_world n" "mn_tables ?n = (mn_tables n)(mo_owner t := (mn_tables n (mo_owner t))(mo_ref t := None))"
    by (simp_all add: monitor_wake_def Let_def t_def u_def)
  have mem': "x \<in> set (all_tasks ?n) \<Longrightarrow> x = u \<or> x \<in> set (all_tasks n)" for x using mem by (auto simp: n')
  have less: "mn_tables ?n o' r' = Some f \<Longrightarrow> mn_tables n o' r' = Some f \<and> \<not> (o' = mo_owner t \<and> r' = mo_ref t)" for o' r' f
    by (auto simp: n' split: if_splits)
  show ?thesis
  proof (rule mon_invI)
    fix x assume "x \<in> set (all_tasks ?n)"
    then show "mo_flag x < mn_alloc ?n \<and> mo_ref x = ref_of (mo_flag x)"
      using mem' [of x] mon_invD(2) [OF assms(1), of x] mon_invD(2) [OF assms(1), of t] tin by (auto simp: u n'(3))
  next
    fix o' r' x assume x: "x \<in> set (all_tasks ?n)" "mn_tables ?n o' r' = Some (mo_flag x)"
    then show "mo_reason x = None \<and> mo_owner x = o'"
      using mem' [OF x(1)] less [OF x(2)] gone [of o' r'] mon_invD(5) [OF assms(1), of x o' r'] by (auto simp: u)
  next
    fix x assume "x \<in> set (mn_tasks ?n)" "mo_reason x \<noteq> None"
    moreover have "noted (mn_world n) u" using assms(4) by (auto simp: noted_def u_def t_def)
    ultimately show "noted (mn_world ?n) x" using mem mon_invD(6) [OF assms(1), of x] by (auto simp: n'(1,5))
  next
    show "distinct (map mo_flag (all_tasks ?n))" using mon_invD(3) [OF assms(1)] fl unfolding n'(1,2) map_append by simp
  next
    fix o' r' f assume "mn_tables ?n o' r' = Some f"
    then show "f < mn_alloc ?n \<and> r' = ref_of f" using less mon_invD(4) [OF assms(1), of o' r' f] by (simp add: n'(3))
  qed (use mon_invD(1,7) [OF assms(1)] in \<open>auto simp: n'(2-5)\<close>)
qed

lemma vec_remove_parts: "k < length xs \<Longrightarrow> mset xs = add_mset (xs ! k) (mset (vec_remove k xs))"
  by (metis id_take_nth_drop mset.simps(2) mset_append union_mset_add_mset_right vec_remove_def)

lemma send_inv:
  assumes "mon_inv n" "k < length (mn_tasks n)" "mo_reason (mn_tasks n ! k) \<noteq> None" "monitor_send rt mk k n = Returns n'"
  shows "mon_inv n'"
proof -
  define t where "t = mn_tasks n ! k"
  let ?ts = "vec_remove k (mn_tasks n)"
  have ms: "mset (mn_tasks n) = add_mset t (mset ?ts)" using vec_remove_parts [OF assms(2)] by (simp add: t_def)
  then have sub: "set (mn_tasks n) = insert t (set ?ts)" by (metis set_mset_add_mset_insert set_mset_mset)
  have "mset (map mo_flag (mn_tasks n @ mn_delivered n)) = mset (map mo_flag (?ts @ mn_delivered n @ [t]))" by (simp add: ms)
  then have d: "distinct (map mo_flag (?ts @ mn_delivered n @ [t]))"
    using mon_invD(3) [OF assms(1)] by (metis mset_eq_imp_distinct_iff)
  have i1: "mon_inv (n\<lparr>mn_tasks := ?ts\<rparr>)"
    by (rule mon_inv_sub [OF assms(1)]) (use d sub in auto)
  have tin: "t \<in> set (all_tasks n)" "noted (mn_world n) t" using mon_invD(6) [OF assms(1), of t] sub assms(3) by (auto simp: t_def)
  show ?thesis
  proof (cases "mn_flags n (mo_flag t)")
    case False
    then show ?thesis using assms(4) i1 by (simp add: monitor_send_def t_def [symmetric] Let_def)
  next
    case True
    let ?p = "post rt (mk \<lparr>dn_ref = mo_ref t, dn_reason = the (mo_reason t)\<rparr>) (wd_cells (mn_world n) (mo_owner t))"
    obtain res c where p: "?p = Returns (res, c)"
      using assms(4) True by (cases ?p) (auto simp: monitor_send_def t_def [symmetric] Let_def)
    let ?w = "over_cells (\<lambda>cells. cells(mo_owner t := c)) (mn_world n)"
    have same: "exit_reason_of a (wd_cells ?w) = exit_reason_of a (wd_cells (mn_world n))" for a
      using post_completion [OF p] by (simp add: exit_reason_of_def)
    have i2: "mon_inv (n\<lparr>mn_tasks := ?ts, mn_world := ?w\<rparr>)" by (rule mon_inv_frame [OF i1]) (use same in auto)
    let ?n = "n\<lparr>mn_tasks := ?ts, mn_world := ?w, mn_delivered := mn_delivered n @ [t]\<rparr>"
    have "mon_inv ?n"
    proof (rule mon_invI)
      fix x assume "x \<in> set (all_tasks ?n)"
      then have "x \<in> set (all_tasks n)" using sub by auto
      from mon_invD(2) [OF assms(1) this] show "mo_flag x < mn_alloc ?n \<and> mo_ref x = ref_of (mo_flag x)" by simp
    next
      fix o' r' x assume "x \<in> set (all_tasks ?n)" "mn_tables ?n o' r' = Some (mo_flag x)"
      then show "mo_reason x = None \<and> mo_owner x = o'" using sub mon_invD(5) [OF assms(1), of x o' r'] by auto
    next
      fix x assume "x \<in> set (mn_delivered ?n)"
      then have "noted (mn_world n) x" using mon_invD(7) [OF assms(1), of x] tin(2) by auto
      then show "noted (mn_world ?n) x" using same by (simp add: noted_def)
    next
      fix x assume "x \<in> set (mn_tasks ?n)" "mo_reason x \<noteq> None"
      then show "noted (mn_world ?n) x" using mon_invD(6) [OF i2, of x] by simp
    next
      fix o' r' f assume "mn_tables ?n o' r' = Some f"
      then show "f < mn_alloc ?n \<and> r' = ref_of f" using mon_invD(4) [OF assms(1), of o' r' f] by simp
    qed (use mon_invD(1) [OF assms(1)] d in simp_all)
    with i2 True p assms(4) show ?thesis by (auto simp: monitor_send_def t_def [symmetric] Let_def split: if_splits)
  qed
qed

lemma monitor_address_cases:
  assumes "monitor_address own target n = Returns (r, n')"
  obtains (here) h where "monitor own h n = (r, n')"
  | (remote) n1 f n2 where "monitor_ref_next n = (r, n1)" "insert_monitor own r n1 = (f, n2)"
      "n' = n2\<lparr>mn_remote := (mn_remote n2)(own := (mn_remote n2 own)(r \<mapsto> target)),
         mn_world := publish_monitor (address_local (wd_here (mn_world n2)) own) target r (mn_world n2)\<rparr>"
  using assms by (auto simp: monitor_address_def split: if_splits option.splits prod.splits)

lemma monitor_address_inv:
  assumes "mon_inv n" "monitor_address own target n = Returns (r, n')"
  shows "mon_inv n'"
  using assms(2)
proof (cases rule: monitor_address_cases)
  case (here h)
  with assms(1) show ?thesis by (rule monitor_inv)
next
  case (remote n1 f n2)
  show ?thesis
    by (rule mon_inv_frame [OF mon_inv_insert(1) [OF assms(1) remote(1,2)]])
      (simp_all add: remote(3) publish_monitor_def publish_supervision_def)
qed

interpretation mon_safe: inductive_invariant mon_init "mon_step mk" mon_inv for mk
proof
  fix n :: "'a mon_node" assume "mon_init n"
  then show "mon_inv n" by (auto simp: mon_init_def mon_inv_def ref_of_def)
next
  fix n n' :: "'a mon_node" assume inv: "mon_inv n" and "mon_step mk n n'"
  from this(2) show "mon_inv n'"
  proof cases
    case (set_local own target)
    then show ?thesis using monitor_inv [OF inv, of own target] by (metis prod.collapse)
  qed (auto intro: inv monitor_address_inv demonitor_inv wake_inv send_inv mon_inv_frame)
qed

text \<open>A flag that was cleared before its \<open>Down\<close> was sent stays cleared, and the \<open>Down\<close> is never sent.\<close>

definition silenced :: "nat \<Rightarrow> 'm mon_node \<Rightarrow> bool" where
  "silenced f n \<longleftrightarrow> f < mn_alloc n \<and> \<not> mn_flags n f \<and> f \<notin> mo_flag ` set (mn_delivered n)"

lemma monitor_flags:
  assumes "monitor own target n = (r, n')"
  shows "mn_alloc n' = Suc (mn_alloc n)" "mn_flags n' = (mn_flags n)(mn_alloc n := True)" "mn_delivered n' = mn_delivered n"
  using assms by (auto simp: monitor_def monitor_ref_next_def insert_monitor_def)

lemma silenced_step:
  assumes "mon_step mk n n'" "silenced f n"
  shows "silenced f n'"
  using assms(1)
proof cases
  case (set_local own target)
  obtain r where m: "monitor own target n = (r, n')" using set_local by (metis prod.collapse)
  with monitor_flags [OF m] assms(2) show ?thesis by (auto simp: silenced_def)
next
  case (set_address own target r)
  then show ?thesis
  proof (cases rule: monitor_address_cases)
    case (here h)
    with monitor_flags [OF here] assms(2) show ?thesis by (auto simp: silenced_def)
  next
    case (remote n1 f n2)
    then show ?thesis using assms(2) by (auto simp: silenced_def monitor_ref_next_def insert_monitor_def)
  qed
next
  case (unset own r)
  then show ?thesis using assms(2) by (auto simp: silenced_def demonitor_def Let_def split: option.splits)
next
  case (wake k)
  then show ?thesis using assms(2) by (auto simp: silenced_def monitor_wake_def Let_def)
next
  case (deliver k rt)
  let ?t = "mn_tasks n ! k"
  let ?p = "post rt (mk \<lparr>dn_ref = mo_ref ?t, dn_reason = the (mo_reason ?t)\<rparr>) (wd_cells (mn_world n) (mo_owner ?t))"
  show ?thesis
    using deliver(3) assms(2)
    by (cases ?p) (auto simp: silenced_def monitor_send_def Let_def split: if_splits)
next
  case (others w')
  then show ?thesis using assms(2) by (auto simp: silenced_def)
qed

lemma silenced_steps: "(mon_step mk)\<^sup>*\<^sup>* n n' \<Longrightarrow> silenced f n \<Longrightarrow> silenced f n'"
  by (induction rule: rtranclp_induct) (auto intro: silenced_step)

lemma demonitor_silences:
  assumes "mon_inv n" "mn_tables n own r = Some f"
  shows "silenced f (demonitor own r n)" "mn_alloc (demonitor own r n) = mn_alloc n"
proof -
  have "f \<notin> mo_flag ` set (mn_delivered n)"
    using mon_invD(5) [OF assms(1)] mon_invD(7) [OF assms(1)] assms(2) notedD by fastforce
  then show "silenced f (demonitor own r n)" "mn_alloc (demonitor own r n) = mn_alloc n"
    using mon_invD(4) [OF assms(1,2)] assms(2) by (auto simp: silenced_def demonitor_def Let_def split: option.splits)
qed

lemma mon_inv_refs_unique:
  assumes "mon_inv n" "mn_alloc n \<le> 2 ^ 64"
  shows "distinct (map mo_ref (mn_delivered n))"
proof -
  have eq: "map mo_ref (mn_delivered n) = map (ref_of \<circ> mo_flag) (mn_delivered n)"
    using mon_invD(2) [OF assms(1)] by auto
  have "inj_on ref_of (mo_flag ` set (mn_delivered n))"
  proof (rule inj_onI)
    fix x y assume "x \<in> mo_flag ` set (mn_delivered n)" "y \<in> mo_flag ` set (mn_delivered n)" and eq: "ref_of x = ref_of y"
    then have "x < mn_alloc n" "y < mn_alloc n" using mon_invD(2) [OF assms(1)] by auto
    with assms(2) eq ref_of_inject [of x y] show "x = y" by simp
  qed
  moreover have "distinct (map mo_flag (mn_delivered n))" using mon_invD(3) [OF assms(1)] by simp
  ultimately show ?thesis unfolding eq by (simp add: distinct_map comp_inj_on)
qed

section \<open>Properties\<close>

text \<open>
  C9. Monitors on local actors, whatever the interleaving of monitoring and cancelling actors, of the
  tasks that wait and of everything else on the node, while fewer than 2^64 monitors have
  been set. At most one \<open>Down\<close> is delivered per monitor, and it carries the reason its
  target exited with. A monitor that is cancelled before its target was seen to exit never
  delivers one, in any continuation. A task that finds its flag set and the owner's
  mailbox open and unbounded puts the \<open>Down\<close> at the end of the owner's queue.
\<close>

theorem local_monitor_down_once:
  assumes reach: "reach mon_init (mon_step mk) n" and few: "mn_alloc n \<le> 2 ^ 64"
  shows "distinct (map mo_ref (mn_delivered n)) \<and>
    (\<forall>t \<in> set (mn_delivered n). \<exists>r. mo_reason t = Some r \<and> exit_reason_of (mo_target t) (wd_cells (mn_world n)) = Some r) \<and>
    (\<forall>own r n'. mn_tables n own r \<noteq> None \<and> (mon_step mk)\<^sup>*\<^sup>* (demonitor own r n) n' \<and> mn_alloc n' \<le> 2 ^ 64 \<longrightarrow>
       (\<forall>t \<in> set (mn_delivered n'). mo_ref t \<noteq> r)) \<and>
    (\<forall>k c. k < length (mn_tasks n) \<and> c = wd_cells (mn_world n) (mo_owner (mn_tasks n ! k)) \<and> mn_flags n (mo_flag (mn_tasks n ! k)) \<and>
       rx_alive (user (cl_mailbox c)) \<and> capacity (cl_limits c) = None \<longrightarrow>
       (\<exists>n'. monitor_send Tasks mk k n = Returns n' \<and>
          queue (user (cl_mailbox (wd_cells (mn_world n') (mo_owner (mn_tasks n ! k))))) =
            queue (user (cl_mailbox c)) @ [mk \<lparr>dn_ref = mo_ref (mn_tasks n ! k), dn_reason = the (mo_reason (mn_tasks n ! k))\<rparr>]))"
proof -
  have inv: "mon_inv n" using reach by (rule mon_safe.reach_invar)
  have silent: "\<forall>t \<in> set (mn_delivered n'). mo_ref t \<noteq> r"
    if "mn_tables n own r = Some f" "(mon_step mk)\<^sup>*\<^sup>* (demonitor own r n) n'" "mn_alloc n' \<le> 2 ^ 64" for own r f n'
  proof
    fix t assume t: "t \<in> set (mn_delivered n')"
    have inv': "mon_inv n'" using mon_safe.steps_invar [OF that(2) demonitor_inv [OF inv]] .
    have sil: "silenced f n'" using silenced_steps [OF that(2) demonitor_silences(1) [OF inv that(1)]] .
    have "r = ref_of f" using mon_invD(4) [OF inv that(1)] by simp
    moreover have "mo_flag t < mn_alloc n'" "mo_ref t = ref_of (mo_flag t)" using mon_invD(2) [OF inv', of t] t by auto
    moreover have "mo_flag t \<noteq> f" "f < mn_alloc n'" using sil t by (auto simp: silenced_def)
    ultimately show "mo_ref t \<noteq> r" using that(3) ref_of_inject [of "mo_flag t" f] by auto
  qed
  have send: "\<exists>n'. monitor_send Tasks mk k n = Returns n' \<and>
      queue (user (cl_mailbox (wd_cells (mn_world n') (mo_owner (mn_tasks n ! k))))) =
        queue (user (cl_mailbox c)) @ [mk \<lparr>dn_ref = mo_ref (mn_tasks n ! k), dn_reason = the (mo_reason (mn_tasks n ! k))\<rparr>]"
    if "c = wd_cells (mn_world n) (mo_owner (mn_tasks n ! k))" "mn_flags n (mo_flag (mn_tasks n ! k))"
      "rx_alive (user (cl_mailbox c))" "capacity (cl_limits c) = None" for k c
    using that by (simp add: monitor_send_def Let_def post_def send_user_on_def send_user_tasks_sync_def send_after_acquire_def chan_send_def)
  show ?thesis
    using mon_inv_refs_unique [OF inv few] mon_invD(7) [OF inv] silent send unfolding noted_def by blast
qed

definition mon_start :: "nat mon_node" where
  "mon_start = \<lparr>mn_world = demo_world, mn_next = 1, mn_flags = (\<lambda>_. False), mn_alloc = 0, mn_tables = (\<lambda>_. Map.empty),
     mn_remote = (\<lambda>_. Map.empty), mn_tasks = [], mn_delivered = []\<rparr>"

definition mon_watching :: "nat mon_node" where
  "mon_watching = snd (monitor (ActorId 1) (ActorId 2) mon_start)"

theorem local_monitor_down_once_witness:
  "mn_tables mon_watching (ActorId 1) 1 = Some 0 \<and>
   (\<exists>n'. monitor_send Tasks (\<lambda>d. 5) 0 mon_watching = Returns n' \<and>
      queue (user (cl_mailbox (wd_cells (mn_world n') (ActorId 1)))) = [5]) \<and>
   1 \<notin> mo_ref ` set (mn_delivered (demonitor (ActorId 1) 1 mon_watching))"
proof -
  have "reach mon_init (mon_step (\<lambda>d. 5 :: nat)) mon_start" by (rule reach_init) (simp add: mon_init_def mon_start_def)
  then have r: "reach mon_init (mon_step (\<lambda>d. 5 :: nat)) mon_watching"
    unfolding mon_watching_def by (rule reach_step) (rule set_local)
  have w: "mn_alloc mon_watching = 1" "mn_tables mon_watching (ActorId 1) 1 = Some 0"
    "mn_tasks mon_watching = [\<lparr>mo_owner = ActorId 1, mo_ref = 1, mo_flag = 0, mo_target = ActorId 2, mo_reason = None\<rparr>]"
    "mn_flags mon_watching 0" "mn_world mon_watching = demo_world"
    by (simp_all add: mon_watching_def mon_start_def monitor_def monitor_ref_next_def insert_monitor_def)
  have few: "mn_alloc mon_watching \<le> 2 ^ 64" by (simp add: w)
  have c: "rx_alive (user (cl_mailbox (wd_cells demo_world (ActorId 1))))" "capacity (cl_limits (wd_cells demo_world (ActorId 1))) = None"
    "queue (user (cl_mailbox (wd_cells demo_world (ActorId 1)))) = []"
    by (simp_all add: demo_world_def new_cell_def tasks_channel_def chan_new_def limits_new_def unbounded_def)
  note once = local_monitor_down_once [OF r few]
  have "mn_alloc (demonitor (ActorId 1) 1 mon_watching) \<le> 2 ^ 64" using few by (auto simp: demonitor_def w Let_def split: option.splits)
  then have "\<forall>t \<in> set (mn_delivered (demonitor (ActorId 1) 1 mon_watching)). mo_ref t \<noteq> 1"
    using once w(2) by blast
  moreover from once w c have "\<exists>n'. monitor_send Tasks (\<lambda>d. 5) 0 mon_watching = Returns n' \<and>
      queue (user (cl_mailbox (wd_cells (mn_world n') (ActorId 1)))) = [5]"
    by (metis (no_types, lifting) append_Nil length_Cons mon_task.select_convs(1,3) nth_Cons_0 zero_less_Suc)
  ultimately show ?thesis using w(2) by auto
qed

end
