(* ===== verification/Broker_Types.thy ===== *)
theory Broker_Types
  imports Broker
begin

text \<open>
  Typing of the supervision broker: what its tables relate, and that everything it publishes
  or replies is a message the other side accepts, over any sequence of inbound envelopes, exits
  of its children, tasks, registrations and other activity of the node.
\<close>

section \<open>The steps\<close>

text \<open>\<open>elsewhere\<close> is any other activity of the node: it leaves the broker and the outbound log alone.\<close>

inductive broker_step :: "(down \<Rightarrow> 'm) \<Rightarrow> 'm world \<Rightarrow> 'm world \<Rightarrow> bool" for mk where
  inbound: "wd_broker w = Some b \<Longrightarrow> is_ok (validate_envelope env) \<Longrightarrow> broker_apply mk env b w = Returns (r, w') \<Longrightarrow>
    broker_step mk w w'"
| child_exited: "wd_broker w = Some b \<Longrightarrow> broker_step mk w (propagate_child_exit ex b w)"
| task: "broker_step mk w (run_task t w)"
| registered: "register_supervision_actor a h w = (r, w') \<Longrightarrow> broker_step mk w w'"
| owner: "wd_broker w = Some b \<Longrightarrow> register_down_owner a b = (r, b') \<Longrightarrow> broker_step mk w (put_broker b' w)"
| unregistered: "wd_broker w = Some b \<Longrightarrow> broker_step mk w (put_broker (broker_unregister a b) w)"
| ready: "broker_step mk w (broker_started self w)"
| elsewhere: "wd_broker w' = wd_broker w \<Longrightarrow> wd_published w' = wd_published w \<Longrightarrow> wd_here w' = wd_here w \<Longrightarrow> broker_step mk w w'"

definition broker_init :: "'m world \<Rightarrow> bool" where
  "broker_init w \<longleftrightarrow> (\<exists>w0. w = snd (start_supervision_broker (wd_here w0) w0) \<and> wd_published w0 = [])"

section \<open>The invariant\<close>

definition broker_ok :: "node_id \<Rightarrow> broker \<Rightarrow> bool" where
  "broker_ok here b \<longleftrightarrow> br_local b = here \<and> (\<forall>a h. br_handles b a = Some h \<longrightarrow> h = a) \<and>
     dom (br_parents b) \<subseteq> dom (br_handles b)"

text \<open>A message that has somewhere to go and that the receiving node accepts.\<close>

definition deliverable :: "supervision_envelope \<Rightarrow> bool" where
  "deliverable env \<longleftrightarrow> is_ok (validate_envelope env) \<and> route_node (se_event env) \<noteq> None"

definition broker_typed :: "'m world \<Rightarrow> bool" where
  "broker_typed w \<longleftrightarrow> (\<forall>b. wd_broker w = Some b \<longrightarrow> broker_ok (wd_here w) b) \<and> (\<forall>env \<in> set (wd_published w). deliverable env)"

lemma deliverable_notices [simp]:
  "deliverable (child_exit_envelope a p reason)" "deliverable (down_envelope own r a reason)"
  by (simp_all add: deliverable_def validate_envelope_ok child_exit_envelope_def down_envelope_def)

lemma typed_frame:
  "broker_typed w \<Longrightarrow> wd_broker w' = wd_broker w \<Longrightarrow> wd_here w' = wd_here w \<Longrightarrow> wd_published w' = wd_published w \<Longrightarrow> broker_typed w'"
  by (simp add: broker_typed_def)

lemma typed_put: "broker_typed w \<Longrightarrow> broker_ok (wd_here w) b \<Longrightarrow> broker_typed (put_broker b w)"
  by (simp add: broker_typed_def)

lemma typed_publish: "broker_typed w \<Longrightarrow> deliverable env \<Longrightarrow> broker_typed (publish_supervision env w)"
  by (auto simp: broker_typed_def publish_supervision_def)

lemma typed_publish_all:
  "broker_typed w \<Longrightarrow> (\<And>x. deliverable (f x)) \<Longrightarrow> broker_typed (fold (\<lambda>x. publish_supervision (f x)) xs w)"
  by (induction xs arbitrary: w) (simp_all add: typed_publish)

lemma typed_cells [simp]: "broker_typed (over_cells f w) \<longleftrightarrow> broker_typed w"
  by (simp add: broker_typed_def over_cells_def)

lemma typed_async [simp]: "broker_typed (spawn_async_on_runtime t w) \<longleftrightarrow> broker_typed w"
  by (simp add: broker_typed_def)

lemma typedD: "broker_typed w \<Longrightarrow> wd_broker w = Some b \<Longrightarrow> broker_ok (wd_here w) b"
  by (simp add: broker_typed_def)

text \<open>Starting actors touches neither the broker nor the outbound log.\<close>

definition apart :: "'m world \<Rightarrow> 'm world \<Rightarrow> bool" where
  "apart w w' \<longleftrightarrow> wd_broker w' = wd_broker w \<and> wd_published w' = wd_published w \<and> wd_here w' = wd_here w"

lemma apart_refl [simp]: "apart w w"
  by (simp add: apart_def)

lemma apart_start: "apart w (snd (start_linked_to_handle rt p cfg w))" "apart w (snd (spawn_actor rt cfg w))"
  "apart w (snd (start_worker rt parent w))"
  by (auto simp: apart_def start_worker_def start_linked_to_handle_def spawn_actor_eq over_cells_def split: option.splits)

lemma apart_spec: "spec_start_child s p w = Some (h, w') \<Longrightarrow> apart w w'"
proof -
  assume "spec_start_child s p w = Some (h, w')"
  then obtain rt t w1 where w1: "start_linked_to_handle rt p (cs_mailbox s) w = (h, w1)"
    and w': "w' = (case cs_pg_membership s of None \<Rightarrow> w1 | Some pm \<Rightarrow> typed_join_scoped t (pm_scope pm) (pm_group pm) h w1)"
    by (auto simp: spec_start_child_def split: child_start.splits prod.splits)
  have "apart w w1" using apart_start(1) [of w rt p "cs_mailbox s"] w1 by simp
  with w' show ?thesis by (auto simp: apart_def typed_join_scoped_def split: option.splits prod.splits)
qed

lemma apart_dispatch:
  "(\<And>h w'. start w = Some (h, w') \<Longrightarrow> apart w w') \<Longrightarrow> dispatch_tasks_spawn ss start w = (r, w1) \<Longrightarrow> apart w w1"
  by (auto simp: dispatch_tasks_spawn_def split: if_splits option.splits)

lemma apart_on_runtime: "start_on_runtime (start_worker rt p) w = Returns (r, w1) \<Longrightarrow> apart w w1"
  using apart_start(3) [of w rt p]
  by (cases "start_worker rt p w") (auto simp: start_on_runtime_def dispatch_tasks_spawn_def split: caller.splits if_splits)

lemma apart_spawn_local: "spawn_local spec link parent w = Returns (r, w1) \<Longrightarrow> apart w w1"
proof (cases spec)
  case (WorkerSpec wt ini)
  assume "spawn_local spec link parent w = Returns (r, w1)"
  with WorkerSpec show ?thesis
    using apart_start(3) [of w Threads "if link then parent else None"]
    by (cases "start_worker Threads (if link then parent else None) w")
      (auto simp: spawn_worker_def Let_def tasks_worker_fn_def threads_worker_fn_def apart_on_runtime split: option.splits if_splits)
next
  case (NamedSpec name ov)
  assume "spawn_local spec link parent w = Returns (r, w1)"
  with NamedSpec consider "w1 = w"
    | p s where "dispatch_tasks_spawn (wd_spawn w) (spec_start_child s p) w = (r, w1)"
    | p s h where "spec_start_child s p w = Some (h, w1)"
    by (auto simp: spawn_named_spec_def Let_def split: option.splits if_splits sum.splits mailbox_runtime.splits)
  then show ?thesis
  proof cases
    case 2
    then show ?thesis by (rule apart_dispatch [rotated]) (rule apart_spec)
  qed (auto intro: apart_spec)
qed

section \<open>Every operation keeps it\<close>

lemma ok_monitors [simp]:
  "broker_ok here (b\<lparr>br_monitors := m\<rparr>) = broker_ok here b" "broker_ok here (b\<lparr>br_link_peers := l\<rparr>) = broker_ok here b"
  "broker_ok here (b\<lparr>br_link_waits := u\<rparr>) = broker_ok here b" "broker_ok here (b\<lparr>br_down_owners := d\<rparr>) = broker_ok here b"
  "broker_ok here (b\<lparr>br_exited := x\<rparr>) = broker_ok here b" "broker_ok here (set_broker_handle h b) = broker_ok here b"
  by (simp_all add: broker_ok_def set_broker_handle_def)

lemma ok_new [simp]: "broker_ok here (broker_new here)"
  by (simp add: broker_ok_def broker_new_def)

lemma ok_register: "broker_ok here b \<Longrightarrow> broker_register a h b = (r, b') \<Longrightarrow> broker_ok here b'"
  by (fastforce simp: broker_ok_def broker_register_def split: if_splits)

lemma ok_unregister: "broker_ok here b \<Longrightarrow> broker_ok here (broker_unregister a b)"
  by (auto simp: broker_ok_def broker_unregister_def)

lemma ok_parent: "broker_ok here b \<Longrightarrow> br_handles b h \<noteq> None \<Longrightarrow> broker_ok here (b\<lparr>br_parents := (br_parents b)(h \<mapsto> p)\<rparr>)"
  by (auto simp: broker_ok_def)

text \<open>The spawn of a child is always answered, and the answer is the one the requester expects.\<close>

lemma apply_spawn_typed:
  assumes ty: "broker_typed w" "wd_broker w = Some b" and cid: "cid \<noteq> 0"
    and run: "apply_spawn cid parent pl spec link b w = Returns (r, w')"
  shows "broker_typed w' \<and> (\<exists>reply. r = Inr (Some reply) \<and> se_correlation_id reply = cid \<and>
    ((\<exists>c. se_event reply = SpawnOk c) \<or> (\<exists>e. se_event reply = SpawnErr e)))"
proof -
  note ok = typedD [OF ty]
  consider "w' = w" "\<exists>e. r = Inr (spawn_err cid e)"
    | r1 w1 where "spawn_local spec link (if link then br_broker_handle b else None) w = Returns (r1, w1)"
      "(case r1 of Inl e \<Rightarrow> Returns (Inr (spawn_err cid e), w1)
         | Inr h \<Rightarrow> (case broker_register \<lparr>node = br_local b, actor_id = h\<rparr> h b of
              (Inl e, _) \<Rightarrow> Returns (Inl e, w1)
            | (Inr _, b1) \<Rightarrow> Returns (Inr (Some \<lparr>se_correlation_id = cid, se_event = SpawnOk \<lparr>node = br_local b, actor_id = h\<rparr>\<rparr>),
                put_broker (b1\<lparr>br_parents := (br_parents b1)(h \<mapsto> parent)\<rparr>) w1))) = Returns (r, w')"
    using run unfolding apply_spawn_def Let_def
    by (cases "spawn_local spec link (if link then br_broker_handle b else None) w") (force split: if_splits)+
  then show ?thesis
  proof cases
    case 1
    then show ?thesis using ty(1) by (auto simp: spawn_err_def)
  next
    case 2
    then have "apart w w1" by (intro apart_spawn_local)
    then have w1: "broker_typed w1" "wd_here w1 = wd_here w" using typed_frame [OF ty(1), of w1] by (auto simp: apart_def)
    show ?thesis
    proof (cases r1)
      case (Inl e)
      then show ?thesis using 2(2) w1 by (auto simp: spawn_err_def)
    next
      case (Inr h)
      let ?b1 = "b\<lparr>br_handles := (br_handles b)(h \<mapsto> h)\<rparr>"
      have reg: "broker_register \<lparr>node = br_local b, actor_id = h\<rparr> h b = (Inr (), ?b1)" by (simp add: broker_register_def)
      have "broker_ok (wd_here w) (?b1\<lparr>br_parents := (br_parents ?b1)(h \<mapsto> parent)\<rparr>)"
        by (rule ok_parent [OF ok_register [OF ok reg]]) simp
      with w1 have "broker_typed (put_broker (?b1\<lparr>br_parents := (br_parents ?b1)(h \<mapsto> parent)\<rparr>) w1)"
        by (intro typed_put) simp_all
      with 2(2) Inr reg show ?thesis by (auto simp del: fun_upd_apply)
    qed
  qed
qed

lemma apply_monitor_typed:
  assumes "broker_typed w" "wd_broker w = Some b" "apply_monitor own target r b w = (res, w')"
  shows "broker_typed w'"
  using assms(1,3) typedD [OF assms(1,2)]
  by (auto simp: apply_monitor_def publish_down_def split: if_splits option.splits intro!: typed_publish typed_put)

lemma apply_link_typed:
  assumes "broker_typed w" "wd_broker w = Some b" "apply_link x y b w = (res, w')"
  shows "broker_typed w'"
  using assms(1,3) typedD [OF assms(1,2)]
  by (auto simp: apply_link_def Let_def split: option.splits prod.splits if_splits intro!: typed_publish typed_put)

lemma apply_down_typed:
  assumes "broker_typed w" "apply_down mk own r reason b w = Returns (res, w')"
  shows "broker_typed w'"
  using assms by (auto simp: apply_down_def Let_def split: if_splits blocking.splits prod.splits)

lemma apply_child_exit_typed:
  assumes "broker_typed w" "apply_child_exit child parent reason b w = (res, w')"
  shows "broker_typed w'"
  using assms by (auto simp: apply_child_exit_def broker_typed_def split: if_splits option.splits prod.splits)

lemma unit_replyD: "unit_reply x = Returns (r, w') \<Longrightarrow> snd x = w' \<and> ((\<exists>e. r = Inl e) \<or> r = Inr None)"
  by (cases x; cases "fst x") (auto simp: unit_reply_def)

definition is_request :: "supervision_event \<Rightarrow> bool" where
  "is_request ev \<longleftrightarrow> (\<exists>p n s l. ev = SpawnRequest p n s l)"

lemma broker_apply_typed:
  assumes ty: "broker_typed w" "wd_broker w = Some b" and v: "is_ok (validate_envelope env)"
    and run: "broker_apply mk env b w = Returns (r, w')"
  shows "broker_typed w' \<and> (if is_request (se_event env) then \<exists>reply. r = Inr (Some reply) \<and> is_ok (validate_reply env reply)
    else (\<exists>e. r = Inl e) \<or> r = Inr None)"
proof (cases "se_event env")
  case (SpawnRequest p n sp l)
  with v have "se_correlation_id env \<noteq> 0" by (simp add: validate_envelope_ok)
  moreover have "apply_spawn (se_correlation_id env) p n sp l b w = Returns (r, w')"
    using run SpawnRequest by (simp add: broker_apply_def)
  ultimately show ?thesis
    using apply_spawn_typed [OF ty, of "se_correlation_id env" p n sp l r w'] SpawnRequest
    by (auto simp: validate_reply_ok is_request_def)
next
  case (SignalEv target sig)
  then show ?thesis
    using run ty(1) unit_replyD [of "apply_signal target sig b w" r w']
    by (auto simp: broker_apply_def apply_signal_def is_request_def split: if_splits option.splits)
next
  case (ChildExit child parent reason)
  then show ?thesis
    using run unit_replyD [of "apply_child_exit child parent reason b w" r w'] apply_child_exit_typed [OF ty(1), of child parent reason b]
    by (cases "apply_child_exit child parent reason b w") (auto simp: broker_apply_def is_request_def)
next
  case (MonitorEv own target ref)
  then show ?thesis
    using run unit_replyD [of "apply_monitor own target ref b w" r w'] apply_monitor_typed [OF ty, of own target ref]
    by (cases "apply_monitor own target ref b w") (auto simp: broker_apply_def is_request_def)
next
  case (DemonitorEv own target ref)
  then show ?thesis
    using run typed_put [OF ty(1)] typedD [OF ty] by (auto simp: broker_apply_def is_request_def apply_demonitor_def)
next
  case (DownEv own ref child reason)
  then obtain x w1 where d: "apply_down mk own ref reason b w = Returns (x, w1)" "unit_reply (x, w1) = Returns (r, w')"
    using run by (cases "apply_down mk own ref reason b w") (auto simp: broker_apply_def)
  then show ?thesis
    using DownEv unit_replyD [OF d(2)] apply_down_typed [OF ty(1) d(1)] by (auto simp: is_request_def)
next
  case (LinkEv x y)
  then show ?thesis
    using run unit_replyD [of "apply_link x y b w" r w'] apply_link_typed [OF ty, of x y]
    by (cases "apply_link x y b w") (auto simp: broker_apply_def is_request_def)
next
  case (UnlinkEv x y)
  then show ?thesis
    using run ty(1) typedD [OF ty]
    by (auto simp: broker_apply_def is_request_def apply_unlink_def split: option.splits prod.splits intro!: typed_put)
qed (use run ty(1) in \<open>auto simp: broker_apply_def is_request_def\<close>)

lemma run_task_typed: "broker_typed w \<Longrightarrow> broker_typed (run_task t w)"
  by (cases t)
    (auto simp: Let_def publish_down_def split: option.splits
      intro!: typed_publish typed_put typed_publish_all dest: typedD)

lemma broker_step_typed: "broker_step mk w w' \<Longrightarrow> broker_typed w \<Longrightarrow> broker_typed w'"
proof (induction rule: broker_step.induct)
  case (inbound w b env r w')
  then show ?case using broker_apply_typed [of w b env mk r w'] by blast
next
  case (child_exited w b ex)
  then show ?case
    using ok_unregister [OF typedD [of w b]]
    by (auto simp: propagate_child_exit_def Let_def split: option.splits intro!: typed_publish typed_put)
next
  case (task w t)
  then show ?case by (simp add: run_task_typed)
next
  case (registered a h w r w')
  then show ?case
    by (auto simp: register_supervision_actor_def split: option.splits prod.splits intro!: typed_put dest: typedD intro: ok_register)
next
  case (owner w b a r b')
  then show ?case
    using typedD [of w b] by (auto simp: register_down_owner_def split: if_splits intro!: typed_put)
next
  case (unregistered w b a)
  then show ?case using typedD [of w b] by (auto intro!: typed_put ok_unregister)
next
  case (ready w self)
  then show ?case by (auto simp: broker_started_def Let_def broker_typed_def over_cells_def)
next
  case (elsewhere w' w)
  then show ?case using typed_frame [of w w'] by blast
qed

interpretation br: inductive_invariant broker_init "broker_step mk" broker_typed for mk
proof unfold_locales
  show "broker_typed w" if "broker_init w" for w :: "'a world"
    using that by (auto simp: broker_init_def start_supervision_broker_def spawn_actor_eq broker_typed_def)
qed (rule broker_step_typed)

section \<open>Properties\<close>

text \<open>
  C25. The supervision broker stays well typed over any sequence of inbound envelopes, exits of its
  children, waiting tasks, registrations and other activity: it serves the node it was
  started on, the handle of an address is that address's actor, and every child with a remote
  parent has a handle. Everything it publishes has a node to go to and passes the
  validation there. A spawn request that the broker returns from is answered by a reply that passes the
  requester's validation; no other event gets a reply.
\<close>

theorem broker_speaks_protocol:
  assumes reach: "reach broker_init (broker_step mk) w" and b: "wd_broker w = Some b"
    and v: "is_ok (validate_envelope env)" and run: "broker_apply mk env b w = Returns (r, w')"
  shows "br_local b = wd_here w \<and> (\<forall>a h. br_handles b a = Some h \<longrightarrow> h = a) \<and> dom (br_parents b) \<subseteq> dom (br_handles b) \<and>
    (\<forall>e \<in> set (wd_published w'). is_ok (validate_envelope e) \<and> route_node (se_event e) \<noteq> None) \<and>
    (if is_request (se_event env) then \<exists>reply. r = Inr (Some reply) \<and> is_ok (validate_reply env reply)
     else (\<exists>e. r = Inl e) \<or> r = Inr None)"
proof -
  have ty: "broker_typed w" using reach by (rule br.reach_invar)
  then have "broker_ok (wd_here w) b" using b by (rule typedD)
  moreover note broker_apply_typed [OF ty b v run]
  ultimately show ?thesis by (auto simp: broker_ok_def broker_typed_def deliverable_def)
qed

definition fresh_node :: "nat world" where
  "fresh_node = snd (start_supervision_broker (NodeId ''b'') (demo_world\<lparr>wd_here := NodeId ''b'', wd_published := []\<rparr>))"

definition odd_request :: supervision_envelope where
  "odd_request = \<lparr>se_correlation_id = 9, se_event = SpawnRequest \<lparr>node = NodeId ''a'', actor_id = ActorId 1\<rparr> (NodeId ''c'')
     (WorkerSpec ''w'' []) True\<rparr>"

theorem broker_speaks_protocol_witness:
  "\<exists>reply. broker_apply (\<lambda>d. 0) odd_request (broker_new (NodeId ''b'')) fresh_node = Returns (Inr (Some reply), fresh_node) \<and>
     is_ok (validate_reply odd_request reply)"
proof -
  let ?text = "''placement node '' @ display_node (NodeId ''c'') @ '' does not match local node '' @ display_node (NodeId ''b'')"
  have reach: "reach broker_init (broker_step (\<lambda>d. 0)) fresh_node"
    by (rule reach_init) (unfold broker_init_def fresh_node_def, rule exI [of _ "demo_world\<lparr>wd_here := NodeId ''b'', wd_published := []\<rparr>"], simp)
  have b: "wd_broker fresh_node = Some (broker_new (NodeId ''b''))"
    by (simp add: fresh_node_def start_supervision_broker_def spawn_actor_eq)
  have v: "is_ok (validate_envelope odd_request)" "is_request (se_event odd_request)"
    by (simp_all add: validate_envelope_ok odd_request_def is_request_def) (rule exI [of _ True], rule TrueI)
  have run: "broker_apply (\<lambda>d. 0) odd_request (broker_new (NodeId ''b'')) fresh_node = Returns (Inr (spawn_err 9 ?text), fresh_node)"
    by (simp add: broker_apply_def odd_request_def apply_spawn_def broker_new_def)
  have "\<exists>reply. Inr (spawn_err 9 ?text) = (Inr (Some reply) :: transport_error + supervision_envelope option) \<and>
      is_ok (validate_reply odd_request reply)"
    using broker_speaks_protocol [OF reach b v(1) run] v(2) by argo
  then show ?thesis unfolding run by (elim exE conjE) (rule exI, rule conjI, simp_all)
qed

end
