(* ===== verification/Timers.thy ===== *)
theory Timers
  imports Actor_Calls
begin

text \<open>
  Timers (\<open>tasks/time.rs\<close>, \<open>threads/time.rs\<close>), messages on completion (\<open>send_message_on\<close> of the two
  \<open>actor.rs\<close>) and the forwarding of streams to an actor (\<open>tasks/stream.rs\<close>,
  \<open>threads/stream.rs\<close>). Each is a task or thread of its own beside the actor; what it sees is a
  list of observations, each with what everybody else did to the actor's cell since the last
  one. The list ends where the observation ends: the task is then still waiting.
\<close>

section \<open>Timers of the tasks runtime\<close>

text \<open>A poll of the timer's future: whether the timer was cancelled, and whether the sleep is over.\<close>

record 'e poll =
  po_rest :: "'e cell \<Rightarrow> 'e cell"
  po_cancelled :: bool
  po_elapsed :: bool

text \<open>\<open>select\<close> polls the cancellation first, so a sleep that is over at the same poll is lost.\<close>

primrec send_after :: "'m envelope poll list \<Rightarrow> 'm \<Rightarrow> 'm envelope cell \<Rightarrow> 'm envelope cell run" where
  "send_after [] m c = Returns c"
| "send_after (p # ps) m c =
     (let c1 = po_rest p c
      in if po_cancelled p \<or> cl_cancelled c1 then Returns c1
         else if po_elapsed p then run_then (context_send Tasks m c1) (\<lambda>(_, c2). Returns c2)
         else send_after ps m c1)"

primrec send_interval :: "'m envelope poll list \<Rightarrow> 'm \<Rightarrow> 'm envelope cell \<Rightarrow> 'm envelope cell run" where
  "send_interval [] m c = Returns c"
| "send_interval (p # ps) m c =
     (let c1 = po_rest p c
      in if po_cancelled p \<or> cl_cancelled c1 then Returns c1
         else if po_elapsed p then run_then (context_send Tasks m c1) (\<lambda>(_, c2). send_interval ps m c2)
         else send_interval ps m c1)"

text \<open>
  \<open>send_message_on\<close>: the same race with a future of the caller in place of the sleep; only the token
  of the actor ends it early.
\<close>

primrec send_message_on :: "'m envelope poll list \<Rightarrow> 'm \<Rightarrow> 'm envelope cell \<Rightarrow> 'm envelope cell run" where
  "send_message_on [] m c = Returns c"
| "send_message_on (p # ps) m c =
     (let c1 = po_rest p c
      in if cl_cancelled c1 then Returns c1
         else if po_elapsed p then run_then (context_send Tasks m c1) (\<lambda>(_, c2). Returns c2)
         else send_message_on ps m c1)"

section \<open>Timers of the threads runtime\<close>

text \<open>
  The thread waits on a channel that the cancellation callbacks of the timer's and of the actor's
  token write to; after a timeout it reads both flags once more.
\<close>

datatype wake = WakeTimeout | WakeMessage | WakeDisconnected

record 'e wait =
  wt_rest :: "'e cell \<Rightarrow> 'e cell"
  wt_wake :: wake
  wt_cancelled :: bool

primrec threads_send_after :: "'m envelope wait list \<Rightarrow> 'm \<Rightarrow> 'm envelope cell \<Rightarrow> 'm envelope cell run" where
  "threads_send_after [] m c = Returns c"
| "threads_send_after (w # ws) m c =
     (let c1 = wt_rest w c
      in case wt_wake w of
           WakeTimeout \<Rightarrow>
             if \<not> wt_cancelled w \<and> \<not> cl_cancelled c1 then run_then (context_send Threads m c1) (\<lambda>(_, c2). Returns c2)
             else Returns c1
         | WakeMessage \<Rightarrow> Returns c1
         | WakeDisconnected \<Rightarrow> Returns c1)"

primrec threads_send_interval :: "'m envelope wait list \<Rightarrow> 'm \<Rightarrow> 'm envelope cell \<Rightarrow> 'm envelope cell run" where
  "threads_send_interval [] m c = Returns c"
| "threads_send_interval (w # ws) m c =
     (let c1 = wt_rest w c
      in case wt_wake w of
           WakeTimeout \<Rightarrow>
             if wt_cancelled w \<or> cl_cancelled c1 then Returns c1
             else run_then (context_send Threads m c1) (\<lambda>(_, c2). threads_send_interval ws m c2)
         | WakeMessage \<Rightarrow> Returns c1
         | WakeDisconnected \<Rightarrow> Returns c1)"

text \<open>The closure runs, whatever happens meanwhile; then the token is read once.\<close>

definition threads_send_message_on ::
  "('m envelope cell \<Rightarrow> 'm envelope cell) \<Rightarrow> 'm \<Rightarrow> 'm envelope cell \<Rightarrow> 'm envelope cell run" where
  "threads_send_message_on meanwhile m c =
     (let c1 = meanwhile c
      in if cl_cancelled c1 then Returns c1 else run_then (context_send Threads m c1) (\<lambda>(_, c2). Returns c2))"

section \<open>Forwarding a stream\<close>

text \<open>
  Tasks runtime: a poll of the forwarding loop takes all items that are ready; it looks at the
  cancellation only before. The flag of the result says whether the loop goes on.
\<close>

primrec forward_ready :: "'m list \<Rightarrow> 'm envelope cell \<Rightarrow> (bool \<times> 'm envelope cell) run" where
  "forward_ready [] c = Returns (True, c)"
| "forward_ready (m # ms) c =
     run_then (context_send Tasks m c) (\<lambda>(res, c1).
       case res of Inr _ \<Rightarrow> forward_ready ms c1 | Inl _ \<Rightarrow> Returns (False, c1))"

record 'm stream_poll =
  sp_rest :: "'m envelope cell \<Rightarrow> 'm envelope cell"
  sp_ready :: "'m list"
  sp_finished :: bool

primrec spawn_listener :: "'m stream_poll list \<Rightarrow> 'm envelope cell \<Rightarrow> 'm envelope cell run" where
  "spawn_listener [] c = Returns c"
| "spawn_listener (p # ps) c =
     (let c1 = sp_rest p c
      in if cl_cancelled c1 then Returns c1
         else run_then (forward_ready (sp_ready p) c1) (\<lambda>(goes_on, c2).
                if goes_on \<and> \<not> sp_finished p then spawn_listener ps c2 else Returns c2))"

text \<open>Threads runtime: an item, the send, then the cancellation.\<close>

primrec threads_spawn_listener ::
  "(('m envelope cell \<Rightarrow> 'm envelope cell) \<times> 'm) list \<Rightarrow> 'm envelope cell \<Rightarrow> 'm envelope cell run" where
  "threads_spawn_listener [] c = Returns c"
| "threads_spawn_listener (it # items) c =
     run_then (context_send Threads (snd it) (fst it c)) (\<lambda>(res, c1).
       case res of
         Inl _ \<Rightarrow> Returns c1
       | Inr _ \<Rightarrow> if cl_cancelled c1 then Returns c1 else threads_spawn_listener items c1)"

section \<open>Facts\<close>

text \<open>
  An open mailbox without a bound takes every message. \<open>quiet\<close> is activity that leaves the user
  queue and its state alone, and cancels the actor or does not.
\<close>

definition open_box :: "'e cell \<Rightarrow> bool" where
  "open_box c \<longleftrightarrow> rx_alive (user (cl_mailbox c)) \<and> capacity (cl_limits c) = None"

definition quiet :: "('e cell \<Rightarrow> 'e cell) \<Rightarrow> bool" where
  "quiet f \<longleftrightarrow> (\<forall>c. user (cl_mailbox (f c)) = user (cl_mailbox c) \<and> cl_limits (f c) = cl_limits c \<and>
     cl_cancelled (f c) = (cl_cancelled c \<or> cl_cancelled (f new_cell)))"

abbreviation inbox :: "'e cell \<Rightarrow> 'e list" where
  "inbox c \<equiv> queue (user (cl_mailbox c))"

abbreviation plain :: "'m \<Rightarrow> 'm envelope" where
  "plain m \<equiv> \<lparr>ev_msg = m, ev_tx = None\<rparr>"

definition posted :: "'m \<Rightarrow> 'm envelope cell \<Rightarrow> 'm envelope cell" where
  "posted m c = c\<lparr>cl_mailbox := (cl_mailbox c)\<lparr>user := (user (cl_mailbox c))\<lparr>queue := inbox c @ [plain m]\<rparr>\<rparr>\<rparr>"

lemma posted_simps [simp]:
  "inbox (posted m c) = inbox c @ [plain m]" "open_box (posted m c) = open_box c" "cl_cancelled (posted m c) = cl_cancelled c"
  by (simp_all add: posted_def open_box_def)

lemma quietD:
  assumes "quiet f"
  shows "inbox (f c) = inbox c" "open_box (f c) = open_box c" "\<not> cl_cancelled c \<Longrightarrow> cl_cancelled (f c) = cl_cancelled (f new_cell)"
proof -
  have q: "user (cl_mailbox (f c)) = user (cl_mailbox c)" "cl_limits (f c) = cl_limits c"
    "cl_cancelled (f c) = (cl_cancelled c \<or> cl_cancelled (f new_cell))"
    using assms unfolding quiet_def by blast+
  show "inbox (f c) = inbox c" "open_box (f c) = open_box c" by (simp_all add: open_box_def q(1,2))
  show "\<not> cl_cancelled c \<Longrightarrow> cl_cancelled (f c) = cl_cancelled (f new_cell)" using q(3) by blast
qed

lemma open_send: "open_box c \<Longrightarrow> context_send rt m c = Returns (Inr (), posted m c)"
  by (cases rt)
    (simp_all add: context_send_def ref_send_def post_def send_user_on_def send_user_tasks_sync_def send_user_threads_def
      send_after_acquire_def chan_send_def open_box_def posted_def)

definition stops :: "'e poll \<Rightarrow> bool" where
  "stops p \<longleftrightarrow> po_cancelled p \<or> cl_cancelled (po_rest p new_cell)"

definition ticks :: "'e poll list \<Rightarrow> nat" where
  "ticks ps = length (filter po_elapsed (takeWhile (Not \<circ> stops) ps))"

definition fires :: "'e wait \<Rightarrow> bool" where
  "fires w \<longleftrightarrow> wt_wake w = WakeTimeout \<and> \<not> wt_cancelled w \<and> \<not> cl_cancelled (wt_rest w new_cell)"

lemma send_interval_ticks:
  assumes "\<forall>p \<in> set ps. quiet (po_rest p)" "open_box c" "\<not> cl_cancelled c"
  shows "\<exists>c'. send_interval ps m c = Returns c' \<and> inbox c' = inbox c @ replicate (ticks ps) (plain m) \<and> open_box c'"
  using assms
proof (induction ps arbitrary: c)
  case Nil
  then show ?case by (simp add: ticks_def)
next
  case (Cons p ps)
  let ?c1 = "po_rest p c"
  have q: "inbox ?c1 = inbox c" "open_box ?c1" "cl_cancelled ?c1 = cl_cancelled (po_rest p new_cell)"
    using quietD [of "po_rest p" c] Cons.prems by auto
  show ?case
  proof (cases "stops p")
    case True
    with q show ?thesis by (auto simp: stops_def ticks_def Let_def)
  next
    case False
    then have "\<not> cl_cancelled ?c1" using q(3) by (simp add: stops_def)
    with False q Cons.prems Cons.IH [of ?c1] Cons.IH [of "posted m ?c1"] show ?thesis
      by (simp add: stops_def ticks_def Let_def open_send)
  qed
qed

lemma send_after_ticks:
  assumes "\<forall>p \<in> set ps. quiet (po_rest p)" "open_box c" "\<not> cl_cancelled c"
  shows "\<exists>c'. send_after ps m c = Returns c' \<and> inbox c' = inbox c @ replicate (min 1 (ticks ps)) (plain m)"
  using assms
proof (induction ps arbitrary: c)
  case Nil
  then show ?case by (simp add: ticks_def)
next
  case (Cons p ps)
  let ?c1 = "po_rest p c"
  have q: "inbox ?c1 = inbox c" "open_box ?c1" "cl_cancelled ?c1 = cl_cancelled (po_rest p new_cell)"
    using quietD [of "po_rest p" c] Cons.prems by auto
  with Cons.prems Cons.IH [of ?c1] show ?case
    by (auto simp: stops_def ticks_def Let_def open_send min_def)
qed

lemma threads_interval_ticks:
  assumes "\<forall>w \<in> set ws. quiet (wt_rest w)" "open_box c" "\<not> cl_cancelled c"
  shows "\<exists>c'. threads_send_interval ws m c = Returns c' \<and>
    inbox c' = inbox c @ replicate (length (takeWhile fires ws)) (plain m) \<and> open_box c'"
  using assms
proof (induction ws arbitrary: c)
  case Nil
  then show ?case by simp
next
  case (Cons w ws)
  let ?c1 = "wt_rest w c"
  have q: "inbox ?c1 = inbox c" "open_box ?c1" "cl_cancelled ?c1 = cl_cancelled (wt_rest w new_cell)"
    using quietD [of "wt_rest w" c] Cons.prems by auto
  show ?case
  proof (cases "fires w")
    case False
    with q show ?thesis by (auto simp: fires_def Let_def split: wake.splits)
  next
    case True
    then have "\<not> cl_cancelled ?c1" using q(3) by (simp add: fires_def)
    with True q Cons.prems Cons.IH [of "posted m ?c1"] show ?thesis
      by (simp add: fires_def Let_def open_send)
  qed
qed

lemma threads_after_tick:
  assumes "\<forall>w \<in> set ws. quiet (wt_rest w)" "open_box c" "\<not> cl_cancelled c"
  shows "\<exists>c'. threads_send_after ws m c = Returns c' \<and>
    inbox c' = inbox c @ replicate (min 1 (length (takeWhile fires ws))) (plain m)"
proof (cases ws)
  case (Cons w ws')
  let ?c1 = "wt_rest w c"
  have q: "inbox ?c1 = inbox c" "open_box ?c1" "cl_cancelled ?c1 = cl_cancelled (wt_rest w new_cell)"
    using quietD [of "wt_rest w" c] assms Cons by auto
  then show ?thesis by (auto simp: Cons fires_def Let_def open_send split: wake.splits)
qed simp

text \<open>A message on completion is a single-shot timer that nobody else can cancel.\<close>

lemma send_message_on_after: "\<forall>p \<in> set ps. \<not> po_cancelled p \<Longrightarrow> send_message_on ps m c = send_after ps m c"
  by (induction ps arbitrary: c) (simp_all add: Let_def)

lemma threads_message_on:
  assumes "quiet f" "open_box c" "\<not> cl_cancelled c"
  shows "\<exists>c'. threads_send_message_on f m c = Returns c' \<and>
    inbox c' = inbox c @ (if cl_cancelled (f new_cell) then [] else [plain m])"
  using quietD [OF assms(1), of c] assms(2,3) by (simp add: threads_send_message_on_def Let_def open_send)

text \<open>A forwarding loop hands the items over in their order, up to the poll that sees a cancellation or the end.\<close>

lemma forward_ready_open:
  "open_box c \<Longrightarrow> \<exists>c'. forward_ready ms c = Returns (True, c') \<and> inbox c' = inbox c @ map plain ms \<and> open_box c' \<and>
     cl_cancelled c' = cl_cancelled c"
proof (induction ms arbitrary: c)
  case (Cons m ms)
  from Cons.IH [of "posted m c"] Cons.prems show ?case by (simp add: open_send)
qed simp

fun forwarded :: "'m stream_poll list \<Rightarrow> 'm list" where
  "forwarded [] = []"
| "forwarded (p # ps) =
     (if cl_cancelled (sp_rest p new_cell) then [] else sp_ready p @ (if sp_finished p then [] else forwarded ps))"

lemma spawn_listener_forwards:
  assumes "\<forall>p \<in> set ps. quiet (sp_rest p)" "open_box c" "\<not> cl_cancelled c"
  shows "\<exists>c'. spawn_listener ps c = Returns c' \<and> inbox c' = inbox c @ map plain (forwarded ps)"
  using assms
proof (induction ps arbitrary: c)
  case (Cons p ps)
  let ?c1 = "sp_rest p c"
  have q: "inbox ?c1 = inbox c" "open_box ?c1" "cl_cancelled ?c1 = cl_cancelled (sp_rest p new_cell)"
    using quietD [of "sp_rest p" c] Cons.prems by auto
  from forward_ready_open [OF q(2), of "sp_ready p"] obtain c2 where c2: "forward_ready (sp_ready p) ?c1 = Returns (True, c2)"
    "inbox c2 = inbox c @ map plain (sp_ready p)" "open_box c2" "cl_cancelled c2 = cl_cancelled (sp_rest p new_cell)"
    using q by auto
  with q Cons.prems Cons.IH [of c2] show ?case by (auto simp: Let_def)
qed simp

fun threads_forwarded :: "(('m envelope cell \<Rightarrow> 'm envelope cell) \<times> 'm) list \<Rightarrow> 'm list" where
  "threads_forwarded [] = []"
| "threads_forwarded (it # items) =
     snd it # (if cl_cancelled (fst it new_cell) then [] else threads_forwarded items)"

lemma threads_listener_forwards:
  assumes "\<forall>it \<in> set items. quiet (fst it)" "open_box c" "\<not> cl_cancelled c"
  shows "\<exists>c'. threads_spawn_listener items c = Returns c' \<and> inbox c' = inbox c @ map plain (threads_forwarded items)"
  using assms
proof (induction items arbitrary: c)
  case (Cons it items)
  let ?c1 = "fst it c"
  have q: "inbox ?c1 = inbox c" "open_box ?c1" "cl_cancelled ?c1 = cl_cancelled (fst it new_cell)"
    using quietD [of "fst it" c] Cons.prems by auto
  with Cons.prems Cons.IH [of "posted (snd it) ?c1"] show ?case by (auto simp: open_send)
qed simp

section \<open>Properties\<close>

text \<open>
  Timers and listeners stop with their actor. While the actor's mailbox is open, an interval timer
  adds one message per elapsed period, in both runtimes, up to the first observation that
  finds the timer or the actor cancelled, and nothing after it; a single-shot timer adds at most
  one. A listener hands its items over in their order; on the tasks runtime it hands over
  nothing once a poll has seen the cancellation, on the threads runtime at most one more item.
\<close>

lemma timers_stop_with_actor:
  assumes c: "open_box c" "\<not> cl_cancelled c" and ps: "\<forall>p \<in> set ps. quiet (po_rest p)" and ws: "\<forall>w \<in> set ws. quiet (wt_rest w)"
    and qs: "\<forall>q \<in> set qs. quiet (sp_rest q)" and its: "\<forall>it \<in> set items. quiet (fst it)"
  shows "\<exists>c1 c2 c3 c4 c5 c6.
    send_interval ps m c = Returns c1 \<and> inbox c1 = inbox c @ replicate (ticks ps) (plain m) \<and>
    send_after ps m c = Returns c2 \<and> inbox c2 = inbox c @ replicate (min 1 (ticks ps)) (plain m) \<and>
    threads_send_interval ws m c = Returns c3 \<and> inbox c3 = inbox c @ replicate (length (takeWhile fires ws)) (plain m) \<and>
    threads_send_after ws m c = Returns c4 \<and> inbox c4 = inbox c @ replicate (min 1 (length (takeWhile fires ws))) (plain m) \<and>
    spawn_listener qs c = Returns c5 \<and> inbox c5 = inbox c @ map plain (forwarded qs) \<and>
    threads_spawn_listener items c = Returns c6 \<and> inbox c6 = inbox c @ map plain (threads_forwarded items)"
  using send_interval_ticks [OF ps c] send_after_ticks [OF ps c] threads_interval_ticks [OF ws c] threads_after_tick [OF ws c]
    spawn_listener_forwards [OF qs c] threads_listener_forwards [OF its c] by metis

end
