(* ===== verification/Application.thy ===== *)
theory Application
  imports Node Exit_Waits
begin

text \<open>
  The application entry point (\<open>concurrency/src/application.rs\<close>) and the dispatcher of operating-system signals
  (\<open>shutdown_signal.rs\<close>) it relies on: an optional node, the user's startup callback, the registration of
  the root actors for shutdown signals, and waiting for the roots. The callback is a parameter: it acts on the process and
  returns the handles of the roots.
\<close>

section \<open>The dispatcher of shutdown signals\<close>

text \<open>
  The task (or thread) that waits for a signal: it is started by the first call, dispatches one
  signal, and ends. \<open>ds_waiting\<close> says whether it is waiting.
\<close>

record dispatcher =
  ds_registry :: signal_registry
  ds_waiting :: bool

definition dispatcher_new :: dispatcher where
  "dispatcher_new = \<lparr>ds_registry = signal_registry_new, ds_waiting = False\<rparr>"

definition spawn_shutdown_signal_dispatcher_tasks :: "dispatcher \<Rightarrow> dispatcher" where
  "spawn_shutdown_signal_dispatcher_tasks d =
     (case spawn_shutdown_signal_dispatcher (ds_registry d) of
        (start, g) \<Rightarrow> d\<lparr>ds_registry := g, ds_waiting := (ds_waiting d \<or> start)\<rparr>)"

definition spawn_shutdown_signal_dispatcher_threads :: "dispatcher \<Rightarrow> dispatcher" where
  "spawn_shutdown_signal_dispatcher_threads d =
     (case spawn_shutdown_signal_dispatcher (ds_registry d) of
        (start, g) \<Rightarrow> d\<lparr>ds_registry := g, ds_waiting := (ds_waiting d \<or> start)\<rparr>)"

text \<open>A signal arrives at the process.\<close>

definition os_signal_arrives :: "os_signal \<Rightarrow> dispatcher \<times> 'm cells \<Rightarrow> dispatcher \<times> 'm cells" where
  "os_signal_arrives sig = (\<lambda>(d, cells).
     if ds_waiting d
     then (case dispatch_shutdown_signal sig (ds_registry d, cells) of
             (g, cells1) \<Rightarrow> (d\<lparr>ds_registry := g, ds_waiting := False\<rparr>, cells1))
     else (d, cells))"

section \<open>Applications\<close>

datatype application_error = AppNode node_error | AppStartup string

record 'm application =
  ap_node :: "'m node option"
  ap_shutdown_handles :: "actor_id list"
  ap_signal_guards :: "u64 list"

record application_builder =
  ab_node_builder :: node_builder
  ab_use_node :: bool

definition application_builder_default :: application_builder where
  "application_builder_default = \<lparr>ab_node_builder = node_builder_default, ab_use_node = False\<rparr>"

definition app_name :: "node_id \<Rightarrow> application_builder \<Rightarrow> application_builder" where
  "app_name n b = b\<lparr>ab_use_node := True, ab_node_builder := builder_name n (ab_node_builder b)\<rparr>"

definition app_listen :: "string \<Rightarrow> application_builder \<Rightarrow> application_builder" where
  "app_listen a b = b\<lparr>ab_use_node := True, ab_node_builder := builder_listen a (ab_node_builder b)\<rparr>"

definition app_peer :: "node_id \<Rightarrow> string \<Rightarrow> application_builder \<Rightarrow> application_builder" where
  "app_peer n a b = b\<lparr>ab_use_node := True, ab_node_builder := builder_peer n a (ab_node_builder b)\<rparr>"

definition app_transport_libp2p :: "application_builder \<Rightarrow> application_builder" where
  "app_transport_libp2p b = b\<lparr>ab_use_node := True, ab_node_builder := transport_libp2p (ab_node_builder b)\<rparr>"

definition app_listen_libp2p :: "string \<Rightarrow> application_builder \<Rightarrow> application_builder" where
  "app_listen_libp2p a b = b\<lparr>ab_use_node := True, ab_node_builder := builder_listen_libp2p a (ab_node_builder b)\<rparr>"

definition app_libp2p_peer :: "node_id \<Rightarrow> string \<Rightarrow> string \<Rightarrow> application_builder \<Rightarrow> application_builder" where
  "app_libp2p_peer n i a b = b\<lparr>ab_use_node := True, ab_node_builder := builder_libp2p_peer n i a (ab_node_builder b)\<rparr>"

definition register_signal_shutdown :: "actor_id list \<Rightarrow> dispatcher \<Rightarrow> u64 list \<times> dispatcher" where
  "register_signal_shutdown hs d =
     (if hs = [] then ([], d)
      else let d1 = spawn_shutdown_signal_dispatcher_tasks d
           in case register_shutdown_on_signal hs (ds_registry d1) of (guards, g) \<Rightarrow> (guards, d1\<lparr>ds_registry := g\<rparr>))"

definition register_signal_shutdown_threads :: "actor_id list \<Rightarrow> dispatcher \<Rightarrow> u64 list \<times> dispatcher" where
  "register_signal_shutdown_threads hs d =
     (if hs = [] then ([], d)
      else let d1 = spawn_shutdown_signal_dispatcher_threads d
           in case register_shutdown_on_signal hs (ds_registry d1) of (guards, g) \<Rightarrow> (guards, d1\<lparr>ds_registry := g\<rparr>))"

text \<open>
  The process of an application: the node's process and the dispatcher that serves its
  signal registry.
\<close>

definition on_dispatcher :: "(dispatcher \<Rightarrow> 'a \<times> dispatcher) \<Rightarrow> 'm process \<times> bool \<Rightarrow> 'a \<times> 'm process \<times> bool" where
  "on_dispatcher f = (\<lambda>(p, waiting).
     (case f \<lparr>ds_registry = pr_signals p, ds_waiting = waiting\<rparr> of
        (v, d) \<Rightarrow> (v, p\<lparr>pr_signals := ds_registry d\<rparr>, ds_waiting d)))"

text \<open>\<open>build\<close> may start the dispatcher too, when the node builder carries handles; here it carries none.\<close>

definition start_with ::
  "(actor_id list \<Rightarrow> dispatcher \<Rightarrow> u64 list \<times> dispatcher)
    \<Rightarrow> (node_builder \<Rightarrow> 'm process \<Rightarrow> (node_error + 'm node) \<times> 'm process)
    \<Rightarrow> ('m node option \<Rightarrow> 'm process \<Rightarrow> (application_error + actor_id list) \<times> 'm process)
    \<Rightarrow> application_builder \<Rightarrow> 'm process \<times> bool \<Rightarrow> (application_error + 'm application) \<times> 'm process \<times> bool" where
  "start_with reg build_node startup b = (\<lambda>(p, waiting).
     (case (if ab_use_node b then apfst (map_sum AppNode Some) (build_node (ab_node_builder b) p) else (Inr None, p)) of
        (Inl e, p1) \<Rightarrow> (Inl e, p1, waiting)
      | (Inr nd, p1) \<Rightarrow>
          (case startup nd p1 of
             (Inl e, p2) \<Rightarrow> (Inl e, (case nd of None \<Rightarrow> p2 | Some n \<Rightarrow> snd (node_drop n p2)), waiting)
           | (Inr hs, p2) \<Rightarrow>
               (case on_dispatcher (reg hs) (p2, waiting) of
                  (guards, p3, waiting1) \<Rightarrow>
                    (Inr \<lparr>ap_node = nd, ap_shutdown_handles = hs, ap_signal_guards = guards\<rparr>, p3, waiting1)))))"

definition app_start ::
  "(node_builder \<Rightarrow> 'm process \<Rightarrow> (node_error + 'm node) \<times> 'm process)
    \<Rightarrow> ('m node option \<Rightarrow> 'm process \<Rightarrow> (application_error + actor_id list) \<times> 'm process)
    \<Rightarrow> application_builder \<Rightarrow> 'm process \<times> bool \<Rightarrow> (application_error + 'm application) \<times> 'm process \<times> bool" where
  "app_start = start_with register_signal_shutdown"

definition app_start_blocking ::
  "(node_builder \<Rightarrow> 'm process \<Rightarrow> (node_error + 'm node) \<times> 'm process)
    \<Rightarrow> ('m node option \<Rightarrow> 'm process \<Rightarrow> (application_error + actor_id list) \<times> 'm process)
    \<Rightarrow> application_builder \<Rightarrow> 'm process \<times> bool \<Rightarrow> (application_error + 'm application) \<times> 'm process \<times> bool" where
  "app_start_blocking = start_with register_signal_shutdown_threads"

definition app_readiness :: "bool \<Rightarrow> 'm application \<Rightarrow> 'm world \<Rightarrow> node_readiness option" where
  "app_readiness p2p_addrs ap w = map_option (\<lambda>nd. readiness p2p_addrs nd w) (ap_node ap)"

definition app_is_ready :: "bool \<Rightarrow> 'm application \<Rightarrow> 'm world \<Rightarrow> bool" where
  "app_is_ready p2p_addrs ap w = (case ap_node ap of None \<Rightarrow> True | Some nd \<Rightarrow> is_ready (readiness p2p_addrs nd w))"

text \<open>Waiting for the roots, over what the waits see of each.\<close>

definition app_run :: "(actor_id \<Rightarrow> completion) \<Rightarrow> 'm application \<Rightarrow> unit run" where
  "app_run see ap = run_each (\<lambda>h u. run_then (wait_exit_async False (see h)) (\<lambda>_. Returns ())) (ap_shutdown_handles ap) ()"

definition app_run_blocking :: "runtime_flavor \<Rightarrow> (actor_id \<Rightarrow> completion) \<Rightarrow> 'm application \<Rightarrow> unit run" where
  "app_run_blocking fl see ap =
     run_each (\<lambda>h u. run_then (wait_exit_blocking fl (see h)) (\<lambda>_. Returns ())) (ap_shutdown_handles ap) ()"

text \<open>At the end of \<open>run\<close> the application is dropped: its guards and its node.\<close>

definition app_drop :: "'m application \<Rightarrow> 'm process \<Rightarrow> 'm process" where
  "app_drop ap p =
     (let p1 = (case ap_node ap of None \<Rightarrow> p | Some nd \<Rightarrow> snd (node_drop nd p))
      in p1\<lparr>pr_signals := fold drop_signal_guard (ap_signal_guards ap) (pr_signals p1)\<rparr>)"

section \<open>Facts\<close>

lemma register_entries:
  "map snd (sg_entries (snd (register_shutdown_on_signal hs g))) = map snd (sg_entries g) @ hs"
proof (induction hs arbitrary: g)
  case (Cons h hs)
  then show ?case by (simp add: register_shutdown_signal_def split: prod.splits)
qed simp

lemma register_dispatcher [simp]: "sg_dispatcher (snd (register_shutdown_on_signal hs g)) = sg_dispatcher g"
  by (induction hs arbitrary: g) (simp_all add: register_shutdown_signal_def split: prod.splits)

lemma count_by_snd: "length (filter (\<lambda>(i, a). a = b) es) = count_list (map snd es) b"
  by (induction es) auto

lemma run_each_unit: "(\<And>x. x \<in> set xs \<Longrightarrow> f x () = Returns ()) \<Longrightarrow> run_each f xs () = Returns ()"
  by (induction xs) simp_all

text \<open>A signal that arrives while nobody waits for one reaches nobody, and later registrations do not change that.\<close>

lemma no_dispatcher_left:
  assumes "sg_dispatcher (ds_registry d)" "\<not> ds_waiting d"
  shows "sg_dispatcher (ds_registry (snd (register_signal_shutdown hs d)))" "\<not> ds_waiting (snd (register_signal_shutdown hs d))"
    "os_signal_arrives sig (d, cells) = (d, cells)"
proof -
  let ?g = "(ds_registry d)\<lparr>sg_dispatcher := True\<rparr>"
  show "sg_dispatcher (ds_registry (snd (register_signal_shutdown hs d)))"
    using assms(1) register_dispatcher [of hs ?g]
    by (cases "register_shutdown_on_signal hs ?g")
      (simp add: register_signal_shutdown_def spawn_shutdown_signal_dispatcher_tasks_def spawn_shutdown_signal_dispatcher_def Let_def)
  show "\<not> ds_waiting (snd (register_signal_shutdown hs d))" "os_signal_arrives sig (d, cells) = (d, cells)"
    using assms
    by (auto simp: register_signal_shutdown_def spawn_shutdown_signal_dispatcher_tasks_def spawn_shutdown_signal_dispatcher_def
        os_signal_arrives_def Let_def split: prod.splits)
qed

section \<open>Properties\<close>

text \<open>
  C35. The end of an application. The first operating-system signal after a start reaches every root
  that still listens, once per registration, and \<open>run\<close> returns when every root has
  exited. But the dispatcher serves one signal and is never started again: no later signal
  reaches anybody in the process, whatever is registered after the first, so a second
  application of the process cannot be stopped by a signal.
\<close>

theorem application_signal_once:
  assumes b: "\<not> ab_use_node b" and st: "startup None p = (Inr hs, p2)" "hs \<noteq> []" "\<not> sg_dispatcher (pr_signals p2)"
    and start: "app_start build_node startup b (p, waiting) = (res, p3, waiting3)"
    and arrives: "os_signal_arrives sig (\<lparr>ds_registry = pr_signals p3, ds_waiting = waiting3\<rparr>, cells) = (d, cells1)"
  shows "\<exists>ap. res = Inr ap \<and> ap_shutdown_handles ap = hs \<and>
    (\<forall>h. rx_alive (signal (cl_mailbox (cells h))) \<longrightarrow> (\<exists>n. n \<ge> count_list hs h \<and>
       queue (signal (cl_mailbox (cells1 h))) = queue (signal (cl_mailbox (cells h))) @ replicate n (OsShutdown sig))) \<and>
    (\<forall>see r. (\<forall>h \<in> set hs. exits_with (r h) (see h)) \<longrightarrow> app_run see ap = Returns ()) \<and>
    (\<forall>hs' sig' cs. os_signal_arrives sig' (snd (register_signal_shutdown hs' d), cs) = (snd (register_signal_shutdown hs' d), cs))"
proof -
  let ?d1 = "spawn_shutdown_signal_dispatcher_tasks \<lparr>ds_registry = pr_signals p2, ds_waiting = waiting\<rparr>"
  obtain gs g where reg: "register_shutdown_on_signal hs (ds_registry ?d1) = (gs, g)" by fastforce
  have d1: "ds_waiting ?d1" "sg_dispatcher (ds_registry ?d1)"
    using st(3) by (simp_all add: spawn_shutdown_signal_dispatcher_tasks_def spawn_shutdown_signal_dispatcher_def)
  let ?ap = "\<lparr>ap_node = None, ap_shutdown_handles = hs, ap_signal_guards = gs\<rparr>"
  have res: "res = Inr ?ap" "pr_signals p3 = g" "waiting3"
    using start b st reg d1(1)
    by (auto simp: app_start_def start_with_def on_dispatcher_def register_signal_shutdown_def Let_def)
  obtain es cells' where disp: "dispatch_entries sig (sg_entries g) cells = (es, cells')" by fastforce
  with arrives res have d: "cells1 = cells'" "ds_registry d = g\<lparr>sg_entries := es\<rparr>" "\<not> ds_waiting d"
    by (auto simp: os_signal_arrives_def dispatch_shutdown_signal_def)
  have entries: "map snd (sg_entries g) = map snd (sg_entries (ds_registry ?d1)) @ hs" "sg_dispatcher g"
    using register_entries [of hs "ds_registry ?d1"] register_dispatcher [of hs "ds_registry ?d1"] reg d1(2) by simp_all
  have told: "\<exists>n. n \<ge> count_list hs h \<and>
      queue (signal (cl_mailbox (cells1 h))) = queue (signal (cl_mailbox (cells h))) @ replicate n (OsShutdown sig)"
    if "rx_alive (signal (cl_mailbox (cells h)))" for h
    using dispatch_entries_spec [OF disp] that entries(1)
    by (intro exI [of _ "length (filter (\<lambda>(i, a). a = h) (sg_entries g))"]) (simp add: d(1) count_by_snd)
  have "app_run see ?ap = Returns ()" if "\<forall>h \<in> set hs. exits_with (r h) (see h)" for see r
    using that waits_agree(2) unfolding app_run_def by (intro run_each_unit) fastforce
  moreover have "os_signal_arrives sig' (snd (register_signal_shutdown hs' d), cs) = (snd (register_signal_shutdown hs' d), cs)" for hs' sig' cs
    using no_dispatcher_left(1,2) [of d hs'] no_dispatcher_left(3) [of "snd (register_signal_shutdown hs' d)"] d entries(2) by simp
  ultimately show ?thesis using res(1) told by auto
qed

definition quiet_process :: "nat process" where
  "quiet_process = \<lparr>pr_world = demo_world, pr_signals = signal_registry_new, pr_federated = False, pr_supervised = False\<rparr>"

theorem application_signal_once_witness:
  "\<exists>ap p3 d cells1. app_start (\<lambda>b p. (Inl NameAlreadySet, p)) (\<lambda>nd p. (Inr [ActorId 1], p)) application_builder_default (quiet_process, False)
       = (Inr ap, p3, True) \<and>
     os_signal_arrives CtrlC (\<lparr>ds_registry = pr_signals p3, ds_waiting = True\<rparr>, wd_cells demo_world) = (d, cells1) \<and>
     os_signal_arrives Terminate (snd (register_signal_shutdown [ActorId 2] d), cells1) = (snd (register_signal_shutdown [ActorId 2] d), cells1)"
proof -
  let ?start = "app_start (\<lambda>b p. (Inl NameAlreadySet, p)) (\<lambda>nd p. (Inr [ActorId 1], p)) application_builder_default (quiet_process, False)"
  obtain res p3 w3 where start: "?start = (res, p3, w3)" by (cases ?start) auto
  obtain d cells1 where arr: "os_signal_arrives CtrlC (\<lparr>ds_registry = pr_signals p3, ds_waiting = w3\<rparr>, wd_cells demo_world) = (d, cells1)"
    by fastforce
  have "w3" using start
    by (auto simp: app_start_def start_with_def on_dispatcher_def register_signal_shutdown_def Let_def application_builder_default_def
        spawn_shutdown_signal_dispatcher_tasks_def spawn_shutdown_signal_dispatcher_def quiet_process_def signal_registry_new_def
        split: prod.splits)
  moreover have "\<not> ab_use_node application_builder_default" "\<not> sg_dispatcher (pr_signals quiet_process)"
    by (simp_all add: application_builder_default_def quiet_process_def signal_registry_new_def)
  moreover note application_signal_once [OF _ _ _ _ start arr, of "[ActorId 1]" quiet_process]
  ultimately show ?thesis using start arr by fastforce
qed

end
