(* ===== verification/Macro_Types.thy ===== *)
theory Macro_Types
  imports Prelude
begin

text \<open>
  Names and types in the code that the macros generate (\<open>macros/src/lib.rs\<close>): the case conversions of
  identifiers, the classification of return types, and the qualification of the types of a protocol for the
  module of its messages. Types are the syntax trees of the \<open>syn\<close> crate, as far as the code takes
  them apart; what it only copies is kept as text. Identifiers are ASCII, where the methods of
  \<open>char\<close> test and convert the letters.
\<close>

section \<open>Identifiers\<close>

definition is_uppercase :: "char \<Rightarrow> bool" where
  "is_uppercase c \<longleftrightarrow> (65 :: nat) \<le> of_char c \<and> of_char c \<le> (90 :: nat)"

definition is_lowercase :: "char \<Rightarrow> bool" where
  "is_lowercase c \<longleftrightarrow> (97 :: nat) \<le> of_char c \<and> of_char c \<le> (122 :: nat)"

definition to_ascii_lowercase :: "char \<Rightarrow> char" where
  "to_ascii_lowercase c = (if is_uppercase c then char_of (of_char c + 32 :: nat) else c)"

definition to_uppercase :: "char \<Rightarrow> char" where
  "to_uppercase c = (if is_lowercase c then char_of (of_char c - 32 :: nat) else c)"

text \<open>The loop of \<open>to_snake_case\<close>, with the previous character.\<close>

fun snake_loop :: "char option \<Rightarrow> string \<Rightarrow> string" where
  "snake_loop prev [] = []"
| "snake_loop prev (ch # rest) =
     (if is_uppercase ch
      then (case prev of
              None \<Rightarrow> []
            | Some p \<Rightarrow> if is_lowercase p \<or> (case rest of c # _ \<Rightarrow> is_lowercase c | [] \<Rightarrow> False) then ''_'' else [])
           @ [to_ascii_lowercase ch]
      else [ch]) @ snake_loop (Some ch) rest"

definition to_snake_case :: "string \<Rightarrow> string" where
  "to_snake_case s = snake_loop None s"

fun split_underscore :: "string \<Rightarrow> string list" where
  "split_underscore [] = [[]]"
| "split_underscore (c # cs) =
     (if c = CHR ''_'' then [] # split_underscore cs
      else case split_underscore cs of [] \<Rightarrow> [[c]] | w # ws \<Rightarrow> (c # w) # ws)"

fun capitalize :: "string \<Rightarrow> string" where
  "capitalize [] = []"
| "capitalize (c # cs) = to_uppercase c # cs"

definition to_pascal_case :: "string \<Rightarrow> string" where
  "to_pascal_case s = concat (map capitalize (filter (\<lambda>w. w \<noteq> []) (split_underscore s)))"

definition strip_protocol_suffix :: "string \<Rightarrow> string" where
  "strip_protocol_suffix name =
     (let n = length name - 8 in if 8 \<le> length name \<and> drop n name = ''Protocol'' then take n name else name)"

definition remote_id_from_type :: "string \<Rightarrow> string" where
  "remote_id_from_type name = ''spawned.'' @ name @ ''/v1''"

section \<open>Types\<close>

datatype ty =
    TPath bool bool "segment list"
  | TRef string ty
  | TTuple "ty list"
  | TArray ty string
  | TSlice ty
  | TParen ty
  | TTraitObject "bound list"
  | TImplTrait "bound list"
  | TBareFn string "ty list" "ty option"
  | TOther string
and segment = Segment string path_args
and path_args = NoArgs | Angle "generic_arg list" | Parenthesized "ty list" "ty option"
and generic_arg = GType ty | GOther string
and bound = TraitBound bool "segment list" | OtherBound string

text \<open>In a path: whether it has a \<open>qself\<close>, whether it has a leading colon, its segments.\<close>

fun seg_ident :: "segment \<Rightarrow> string" where
  "seg_ident (Segment i a) = i"

definition unit_ty :: ty where
  "unit_ty = TTuple []"

fun is_unit_type :: "ty \<Rightarrow> bool" where
  "is_unit_type (TTuple elems) = (elems = [])"
| "is_unit_type _ = False"

definition inner_of :: "string \<Rightarrow> ty \<Rightarrow> ty option" where
  "inner_of wanted t =
     (case t of
        TPath _ _ segs \<Rightarrow>
          (if segs = [] then None
           else case last segs of
                  Segment i (Angle (GType inner # _)) \<Rightarrow> if i = wanted then Some inner else None
                | _ \<Rightarrow> None)
      | _ \<Rightarrow> None)"

definition extract_response_inner :: "ty \<Rightarrow> ty option" where
  "extract_response_inner t = inner_of ''Response'' t"

definition extract_result_inner :: "ty \<Rightarrow> ty option" where
  "extract_result_inner t = inner_of ''Result'' t"

datatype method_kind = SendKind | RequestKind ty

text \<open>A return type is \<open>None\<close> where it is omitted; the error is the type that is not supported.\<close>

fun classify_return_type :: "ty option \<Rightarrow> ty + method_kind" where
  "classify_return_type None = Inr SendKind"
| "classify_return_type (Some t) =
     (if is_unit_type t then Inr SendKind
      else case extract_response_inner t of
             Some inner \<Rightarrow> Inr (RequestKind inner)
           | None \<Rightarrow>
               (case extract_result_inner t of
                  Some inner \<Rightarrow> if is_unit_type inner then Inr SendKind else Inl t
                | None \<Rightarrow> Inl t))"

definition is_prelude_or_primitive :: "string \<Rightarrow> bool" where
  "is_prelude_or_primitive name \<longleftrightarrow> name \<in> set
     [''bool'', ''char'', ''str'', ''i8'', ''i16'', ''i32'', ''i64'', ''i128'', ''isize'',
      ''u8'', ''u16'', ''u32'', ''u64'', ''u128'', ''usize'', ''f32'', ''f64'',
      ''Box'', ''String'', ''Vec'', ''Option'', ''Some'', ''None'', ''Result'', ''Ok'', ''Err'', ''ToString'', ''ToOwned'']"

definition rooted :: "string \<Rightarrow> bool" where
  "rooted s \<longleftrightarrow> s \<in> set [''crate'', ''super'', ''self'', ''std'', ''core'', ''alloc'']"

definition super_segment :: segment where
  "super_segment = Segment ''super'' NoArgs"

text \<open>
  In a path type only the angle brackets of its segments are gone through (\<open>q_type_segment\<close>); in a
  trait bound the parentheses of \<open>Fn\<close> traits too (\<open>qualify_path_with_super\<close>).
\<close>

fun qualify_type_with_super :: "ty \<Rightarrow> ty"
  and q_type_segment :: "segment \<Rightarrow> segment"
  and q_type_args :: "path_args \<Rightarrow> path_args"
  and q_arg :: "generic_arg \<Rightarrow> generic_arg"
  and q_bound :: "bound \<Rightarrow> bound"
  and q_path_segment :: "segment \<Rightarrow> segment"
  and q_path_args :: "path_args \<Rightarrow> path_args" where
  "qualify_type_with_super (TPath qself colon segs) =
     (if qself \<or> colon then TPath qself colon segs
      else if segs \<noteq> [] \<and> rooted (seg_ident (hd segs)) then TPath qself colon segs
      else if segs \<noteq> [] \<and> is_prelude_or_primitive (seg_ident (hd segs)) then TPath False False (map q_type_segment segs)
      else TPath False False (super_segment # map q_type_segment segs))"
| "qualify_type_with_super (TRef r t) = TRef r (qualify_type_with_super t)"
| "qualify_type_with_super (TTuple ts) = TTuple (map qualify_type_with_super ts)"
| "qualify_type_with_super (TArray t n) = TArray (qualify_type_with_super t) n"
| "qualify_type_with_super (TSlice t) = TSlice (qualify_type_with_super t)"
| "qualify_type_with_super (TParen t) = TParen (qualify_type_with_super t)"
| "qualify_type_with_super (TTraitObject bs) = TTraitObject (map q_bound bs)"
| "qualify_type_with_super (TImplTrait bs) = TImplTrait (map q_bound bs)"
| "qualify_type_with_super (TBareFn r ts out) =
     TBareFn r (map qualify_type_with_super ts) (map_option qualify_type_with_super out)"
| "qualify_type_with_super (TOther s) = TOther s"
| "q_type_segment (Segment i a) = Segment i (q_type_args a)"
| "q_type_args NoArgs = NoArgs"
| "q_type_args (Angle gs) = Angle (map q_arg gs)"
| "q_type_args (Parenthesized ts out) = Parenthesized ts out"
| "q_arg (GType t) = GType (qualify_type_with_super t)"
| "q_arg (GOther s) = GOther s"
| "q_bound (TraitBound colon segs) = TraitBound colon (map q_path_segment segs)"
| "q_bound (OtherBound s) = OtherBound s"
| "q_path_segment (Segment i a) = Segment i (q_path_args a)"
| "q_path_args NoArgs = NoArgs"
| "q_path_args (Angle gs) = Angle (map q_arg gs)"
| "q_path_args (Parenthesized ts out) =
     Parenthesized (map qualify_type_with_super ts) (map_option qualify_type_with_super out)"

section \<open>Which names the messages of a protocol look up where\<close>

text \<open>
  The names that a type looks up in the module it stands in: the first segment of every path that
  neither starts from a root nor is known everywhere.
\<close>

definition head_name :: "segment list \<Rightarrow> string set" where
  "head_name segs = (case segs of
     [] \<Rightarrow> {}
   | sg # _ \<Rightarrow> if rooted (seg_ident sg) \<or> is_prelude_or_primitive (seg_ident sg) then {} else {seg_ident sg})"

fun local_names :: "ty \<Rightarrow> string set"
  and segment_names :: "segment \<Rightarrow> string set"
  and args_names :: "path_args \<Rightarrow> string set"
  and arg_names :: "generic_arg \<Rightarrow> string set"
  and bound_names :: "bound \<Rightarrow> string set" where
  "local_names (TPath qself colon segs) =
     (if qself \<or> colon then {} else head_name segs) \<union> \<Union> (set (map segment_names segs))"
| "local_names (TRef r t) = local_names t"
| "local_names (TTuple ts) = \<Union> (set (map local_names ts))"
| "local_names (TArray t n) = local_names t"
| "local_names (TSlice t) = local_names t"
| "local_names (TParen t) = local_names t"
| "local_names (TTraitObject bs) = \<Union> (set (map bound_names bs))"
| "local_names (TImplTrait bs) = \<Union> (set (map bound_names bs))"
| "local_names (TBareFn r ts out) =
     \<Union> (set (map local_names ts)) \<union> (case map_option local_names out of None \<Rightarrow> {} | Some N \<Rightarrow> N)"
| "local_names (TOther s) = {}"
| "segment_names (Segment i a) = args_names a"
| "args_names NoArgs = {}"
| "args_names (Angle gs) = \<Union> (set (map arg_names gs))"
| "args_names (Parenthesized ts out) =
     \<Union> (set (map local_names ts)) \<union> (case map_option local_names out of None \<Rightarrow> {} | Some N \<Rightarrow> N)"
| "arg_names (GType t) = local_names t"
| "arg_names (GOther s) = {}"
| "bound_names (TraitBound colon segs) = (if colon then {} else head_name segs) \<union> \<Union> (set (map segment_names segs))"
| "bound_names (OtherBound s) = {}"

text \<open>
  The names that qualification leaves in place: everything inside a path that starts from a root or a
  \<open>qself\<close>, everything in the parentheses of a path type, and the trait of a bound.
\<close>

fun left_names :: "ty \<Rightarrow> string set"
  and left_segment :: "segment \<Rightarrow> string set"
  and left_args :: "path_args \<Rightarrow> string set"
  and left_arg :: "generic_arg \<Rightarrow> string set"
  and left_bound :: "bound \<Rightarrow> string set"
  and left_path_segment :: "segment \<Rightarrow> string set"
  and left_path_args :: "path_args \<Rightarrow> string set" where
  "left_names (TPath qself colon segs) =
     (if qself \<or> colon \<or> (segs \<noteq> [] \<and> rooted (seg_ident (hd segs))) then \<Union> (set (map segment_names segs))
      else \<Union> (set (map left_segment segs)))"
| "left_names (TRef r t) = left_names t"
| "left_names (TTuple ts) = \<Union> (set (map left_names ts))"
| "left_names (TArray t n) = left_names t"
| "left_names (TSlice t) = left_names t"
| "left_names (TParen t) = left_names t"
| "left_names (TTraitObject bs) = \<Union> (set (map left_bound bs))"
| "left_names (TImplTrait bs) = \<Union> (set (map left_bound bs))"
| "left_names (TBareFn r ts out) =
     \<Union> (set (map left_names ts)) \<union> (case map_option left_names out of None \<Rightarrow> {} | Some N \<Rightarrow> N)"
| "left_names (TOther s) = {}"
| "left_segment (Segment i a) = left_args a"
| "left_args NoArgs = {}"
| "left_args (Angle gs) = \<Union> (set (map left_arg gs))"
| "left_args (Parenthesized ts out) = args_names (Parenthesized ts out)"
| "left_arg (GType t) = left_names t"
| "left_arg (GOther s) = {}"
| "left_bound (TraitBound colon segs) = (if colon then {} else head_name segs) \<union> \<Union> (set (map left_path_segment segs))"
| "left_bound (OtherBound s) = {}"
| "left_path_segment (Segment i a) = left_path_args a"
| "left_path_args NoArgs = {}"
| "left_path_args (Angle gs) = \<Union> (set (map left_arg gs))"
| "left_path_args (Parenthesized ts out) =
     \<Union> (set (map left_names ts)) \<union> (case map_option left_names out of None \<Rightarrow> {} | Some N \<Rightarrow> N)"

lemma seg_ident_q [simp]: "seg_ident (q_type_segment sg) = seg_ident sg" "seg_ident (q_path_segment sg) = seg_ident sg"
  by (cases sg; simp)+

lemma rooted_super [simp]: "rooted ''super''"
  by (simp add: rooted_def)

lemma head_name_q [simp]: "head_name (map q_type_segment segs) = head_name segs" "head_name (map q_path_segment segs) = head_name segs"
  by (cases segs; simp add: head_name_def)+

lemma head_name_super [simp]: "head_name (super_segment # segs) = {}"
  by (simp add: head_name_def super_segment_def)

lemma head_name_rooted: "segs \<noteq> [] \<Longrightarrow> rooted (seg_ident (hd segs)) \<Longrightarrow> head_name segs = {}"
  by (cases segs) (auto simp: head_name_def)

lemma head_name_prelude: "segs \<noteq> [] \<Longrightarrow> is_prelude_or_primitive (seg_ident (hd segs)) \<Longrightarrow> head_name segs = {}"
  by (cases segs) (auto simp: head_name_def)

lemma super_names [simp]: "segment_names super_segment = {}"
  by (simp add: super_segment_def)

text \<open>Exactly those names are looked up in the module of the messages; all others are looked up in its parent.\<close>

lemma qualified_names:
  "local_names (qualify_type_with_super t) = left_names t"
  "segment_names (q_type_segment sg) = left_segment sg"
  "args_names (q_type_args a) = left_args a"
  "arg_names (q_arg g) = left_arg g"
  "bound_names (q_bound b) = left_bound b"
  "segment_names (q_path_segment sg) = left_path_segment sg"
  "args_names (q_path_args a) = left_path_args a"
proof (induction t and sg and a and g and b and sg and a rule: qualify_type_with_super_q_type_segment_q_type_args_q_arg_q_bound_q_path_segment_q_path_args.induct)
  case (1 qself colon segs)
  then show ?case by (auto simp: head_name_rooted head_name_prelude)
next
  case (9 r ts out)
  then show ?case by (cases out) auto
next
  case (22 ts out)
  then show ?case by (cases out) auto
qed auto

lemma qualify_idem:
  "qualify_type_with_super (qualify_type_with_super t) = qualify_type_with_super t"
  "q_type_segment (q_type_segment sg) = q_type_segment sg"
  "q_type_args (q_type_args a) = q_type_args a"
  "q_arg (q_arg g) = q_arg g"
  "q_bound (q_bound b) = q_bound b"
  "q_path_segment (q_path_segment sg) = q_path_segment sg"
  "q_path_args (q_path_args a) = q_path_args a"
proof (induction t and sg and a and g and b and sg and a rule: qualify_type_with_super_q_type_segment_q_type_args_q_arg_q_bound_q_path_segment_q_path_args.induct)
  case (1 qself colon segs)
  then show ?case by (cases segs) (auto simp: super_segment_def)
next
  case (9 r ts out)
  then show ?case by (cases out) auto
next
  case (22 ts out)
  then show ?case by (cases out) auto
qed auto

section \<open>The names of the messages\<close>

text \<open>
  The usual names of methods: words of lower-case letters and digits that start with a letter,
  joined by underscores. Their messages have different names.
\<close>

definition word_ok :: "string \<Rightarrow> bool" where
  "word_ok w \<longleftrightarrow> w \<noteq> [] \<and> is_lowercase (hd w) \<and> (\<forall>c \<in> set (tl w). \<not> is_uppercase c \<and> c \<noteq> CHR ''_'')"

fun join :: "string list \<Rightarrow> string" where
  "join [] = []"
| "join [w] = w"
| "join (w # ws) = w @ ''_'' @ join ws"

definition method_name_ok :: "string \<Rightarrow> bool" where
  "method_name_ok s \<longleftrightarrow> (\<exists>ws. ws \<noteq> [] \<and> (\<forall>w \<in> set ws. word_ok w) \<and> s = join ws)"

lemma word_ok_no_underscore: "word_ok w \<Longrightarrow> CHR ''_'' \<notin> set w"
proof -
  have u: "\<not> is_lowercase (CHR ''_'')" by (simp add: is_lowercase_def)
  assume "word_ok w"
  then have "w \<noteq> []" "is_lowercase (hd w)" "CHR ''_'' \<notin> set (tl w)" unfolding word_ok_def by blast+
  then show ?thesis using u by (cases w) auto
qed

lemma split_word: "CHR ''_'' \<notin> set w \<Longrightarrow> split_underscore w = [w]"
  by (induction w) auto

lemma split_word_append: "CHR ''_'' \<notin> set w \<Longrightarrow> split_underscore (w @ CHR ''_'' # s) = w # split_underscore s"
  by (induction w) auto

lemma split_join: "ws \<noteq> [] \<Longrightarrow> \<forall>w \<in> set ws. CHR ''_'' \<notin> set w \<Longrightarrow> split_underscore (join ws) = ws"
  by (induction ws rule: join.induct) (auto simp: split_word split_word_append)

lemma pascal_join:
  assumes "ws \<noteq> []" "\<forall>w \<in> set ws. word_ok w"
  shows "to_pascal_case (join ws) = concat (map capitalize ws)"
proof -
  have "split_underscore (join ws) = ws" using assms by (intro split_join) (auto dest: word_ok_no_underscore)
  moreover have "filter (\<lambda>w. w \<noteq> []) ws = ws" using assms(2) by (auto simp: word_ok_def filter_id_conv)
  ultimately show ?thesis by (simp add: to_pascal_case_def)
qed

lemma of_char_less: "(of_char c :: nat) < 256"
  by (simp add: of_char_def)

lemma uppercase_lower:
  assumes "is_lowercase c"
  shows "is_uppercase (to_uppercase c)" "is_lowercase d \<Longrightarrow> to_uppercase c = to_uppercase d \<Longrightarrow> c = d"
proof -
  have up: "of_char (to_uppercase x) = (of_char x - 32 :: nat)" if "is_lowercase x" for x
  proof -
    have "(of_char x - 32 :: nat) < 256" using of_char_less [of x] by linarith
    with that show ?thesis by (simp add: to_uppercase_def of_char_of)
  qed
  show "is_uppercase (to_uppercase c)" using assms up [OF assms] by (auto simp: is_uppercase_def is_lowercase_def)
  assume d: "is_lowercase d" "to_uppercase c = to_uppercase d"
  then have "of_char c - 32 = (of_char d - 32 :: nat)" using up assms by metis
  moreover have "(97 :: nat) \<le> of_char c" "(97 :: nat) \<le> of_char d" using assms d unfolding is_lowercase_def by blast+
  ultimately have "of_char c = (of_char d :: nat)" by linarith
  then show "c = d" by (simp only: of_char_eq_iff)
qed

lemma capitalized_starts_upper:
  assumes "\<forall>w \<in> set ws. word_ok w" "concat (map capitalize ws) = c # cs"
  shows "is_uppercase c"
  using assms
proof (cases ws)
  case (Cons w ws')
  with assms(1) obtain x xs where "w = x # xs" "is_lowercase x" by (cases w) (auto simp: word_ok_def)
  with Cons assms(2) show ?thesis by (auto simp: uppercase_lower)
qed simp

lemma takeWhile_word:
  assumes "\<forall>w \<in> set ws. word_ok w" "\<forall>c \<in> set xs. \<not> is_uppercase c"
  shows "takeWhile (Not \<circ> is_uppercase) (xs @ concat (map capitalize ws)) = xs"
    "dropWhile (Not \<circ> is_uppercase) (xs @ concat (map capitalize ws)) = concat (map capitalize ws)"
proof -
  define cs where "cs = concat (map capitalize ws)"
  have "takeWhile (Not \<circ> is_uppercase) cs = []" "dropWhile (Not \<circ> is_uppercase) cs = cs"
    using capitalized_starts_upper [OF assms(1)] unfolding cs_def [symmetric] by (cases cs; simp)+
  then show "takeWhile (Not \<circ> is_uppercase) (xs @ concat (map capitalize ws)) = xs"
    "dropWhile (Not \<circ> is_uppercase) (xs @ concat (map capitalize ws)) = concat (map capitalize ws)"
    using assms(2) unfolding cs_def [symmetric] by (simp_all add: takeWhile_append dropWhile_append)
qed

lemma capitalized_inject:
  assumes "\<forall>w \<in> set ws. word_ok w" "\<forall>v \<in> set vs. word_ok v" "concat (map capitalize ws) = concat (map capitalize vs)"
  shows "ws = vs"
  using assms
proof (induction ws arbitrary: vs)
  case Nil
  have "vs = []"
  proof (rule ccontr)
    assume "vs \<noteq> []"
    then obtain v vs' where "vs = v # vs'" by (cases vs) auto
    moreover with Nil(2) obtain y ys where "v = y # ys" by (cases v) (auto simp: word_ok_def)
    ultimately show False using Nil(3) by simp
  qed
  then show ?case by simp
next
  case (Cons w ws)
  obtain x xs where w: "w = x # xs" "is_lowercase x" "\<forall>c \<in> set xs. \<not> is_uppercase c"
    using Cons.prems(1) by (cases w) (auto simp: word_ok_def)
  with Cons.prems obtain v vs' where vs: "vs = v # vs'" by (cases vs) auto
  obtain y ys where v: "v = y # ys" "is_lowercase y" "\<forall>c \<in> set ys. \<not> is_uppercase c"
    using Cons.prems(2) vs by (cases v) (auto simp: word_ok_def)
  from Cons.prems(3) have eq: "to_uppercase x = to_uppercase y"
    "xs @ concat (map capitalize ws) = ys @ concat (map capitalize vs')" by (simp_all add: w vs v)
  have "\<forall>w \<in> set ws. word_ok w" "\<forall>v \<in> set vs'. word_ok v" using Cons.prems vs by auto
  note tw = takeWhile_word [OF this(1) w(3)] takeWhile_word [OF this(2) v(3)]
  have "xs = ys" "concat (map capitalize ws) = concat (map capitalize vs')" using tw eq(2) by metis+
  moreover have "x = y" using uppercase_lower(2) [OF w(2) v(2) eq(1)] .
  ultimately show ?case using Cons.IH [of vs'] Cons.prems w v vs by auto
qed

lemma pascal_inject:
  assumes "method_name_ok s" "method_name_ok t" "to_pascal_case s = to_pascal_case t"
  shows "s = t"
proof -
  from assms(1,2) obtain ws vs where "ws \<noteq> []" "\<forall>w \<in> set ws. word_ok w" "s = join ws" "vs \<noteq> []" "\<forall>v \<in> set vs. word_ok v" "t = join vs"
    unfolding method_name_ok_def by blast
  with assms(3) show ?thesis using capitalized_inject [of ws vs] by (simp add: pascal_join)
qed

end
