(* ===== verification/Protocol_Macro.thy ===== *)
theory Protocol_Macro
  imports Macro_Types
begin

text \<open>
  The \<open>protocol\<close> attribute (\<open>macros/src/lib.rs\<close>) as a function from the trait it stands on to what it
  generates: the message structs of the trait's methods, the reference type and its converter, and
  for each runtime the implementation of the trait for the references of actors that handle the
  messages. Parsing the tokens and printing them is the work of the \<open>syn\<close> and \<open>quote\<close> crates; \<open>show_attr\<close>
  is the text of an attribute.
\<close>

section \<open>The trait\<close>

datatype attribute = Attr string string

fun attr_name :: "attribute \<Rightarrow> string" where
  "attr_name (Attr n t) = n"

fun attr_tokens :: "attribute \<Rightarrow> string" where
  "attr_tokens (Attr n t) = t"

datatype pat = PatIdent string | PatOther string

text \<open>A receiver: whether it is a reference, whether it is mutable.\<close>

datatype fn_arg = Receiver bool bool | Typed pat ty

record signature =
  fs_ident :: string
  fs_async :: bool
  fs_inputs :: "fn_arg list"
  fs_output :: "ty option"

record trait_fn =
  tf_sig :: signature
  tf_attrs :: "attribute list"

datatype trait_item = TraitFn trait_fn | OtherTraitItem string

record item_trait =
  tr_ident :: string
  tr_generics :: "string list"
  tr_items :: "trait_item list"

datatype compile_error =
    GenericProtocol | NotAMethod string | AsyncMethod string | NotByReference string | NotAnIdentifier string | UnsupportedReturn ty

section \<open>Its methods\<close>

record protocol_method_info =
  mi_method_name :: string
  mi_struct_name :: string
  mi_field_names :: "string list"
  mi_field_types :: "ty list"
  mi_kind :: method_kind
  mi_params :: "fn_arg list"
  mi_ret_type :: "ty option"
  mi_method_attrs :: "attribute list"
  mi_cfg_attrs :: "attribute list"

fun collect_params :: "fn_arg list \<Rightarrow> compile_error + (string list \<times> ty list \<times> fn_arg list)" where
  "collect_params [] = Inr ([], [], [])"
| "collect_params (a # as) =
     (case a of
        Typed (PatOther p) t \<Rightarrow> Inl (NotAnIdentifier p)
      | Typed (PatIdent n) t \<Rightarrow> map_sum id (\<lambda>(ns, ts, ps). (n # ns, t # ts, a # ps)) (collect_params as)
      | Receiver _ _ \<Rightarrow> map_sum id (\<lambda>(ns, ts, ps). (ns, ts, a # ps)) (collect_params as))"

definition is_cfg :: "attribute \<Rightarrow> bool" where
  "is_cfg a \<longleftrightarrow> attr_name a = ''cfg'' \<or> attr_name a = ''cfg_attr''"

definition takes_self_ref :: "fn_arg list \<Rightarrow> bool" where
  "takes_self_ref inputs = (case inputs of Receiver reference mut # _ \<Rightarrow> reference \<and> \<not> mut | _ \<Rightarrow> False)"

definition method_info :: "trait_fn \<Rightarrow> compile_error + protocol_method_info" where
  "method_info m =
     (let sig = tf_sig m
      in if fs_async sig then Inl (AsyncMethod (fs_ident sig))
         else if \<not> takes_self_ref (fs_inputs sig) then Inl (NotByReference (fs_ident sig))
         else case collect_params (tl (fs_inputs sig)) of
                Inl e \<Rightarrow> Inl e
              | Inr (ns, ts, ps) \<Rightarrow>
                  (case classify_return_type (fs_output sig) of
                     Inl t \<Rightarrow> Inl (UnsupportedReturn t)
                   | Inr kind \<Rightarrow>
                       Inr \<lparr>mi_method_name = fs_ident sig, mi_struct_name = to_pascal_case (fs_ident sig), mi_field_names = ns,
                            mi_field_types = ts, mi_kind = kind, mi_params = ps, mi_ret_type = fs_output sig,
                            mi_method_attrs = filter (\<lambda>a. attr_name a = ''doc'' \<or> is_cfg a) (tf_attrs m),
                            mi_cfg_attrs = filter is_cfg (tf_attrs m)\<rparr>))"

fun method_infos :: "trait_item list \<Rightarrow> compile_error + protocol_method_info list" where
  "method_infos [] = Inr []"
| "method_infos (OtherTraitItem s # items) = Inl (NotAMethod s)"
| "method_infos (TraitFn m # items) =
     (case method_info m of
        Inl e \<Rightarrow> Inl e
      | Inr i \<Rightarrow> map_sum id ((#) i) (method_infos items))"

section \<open>The messages\<close>

record message_struct =
  me_name :: string
  me_attrs :: "attribute list"
  me_cfg :: "attribute list"
  me_clone :: bool
  me_fields :: "(string \<times> ty) list"
  me_result :: ty

definition msg_struct :: "protocol_method_info \<Rightarrow> message_struct" where
  "msg_struct m =
     (let result = (case mi_kind m of SendKind \<Rightarrow> unit_ty | RequestKind inner \<Rightarrow> qualify_type_with_super inner)
      in if mi_field_names m = []
         then \<lparr>me_name = mi_struct_name m, me_attrs = mi_method_attrs m, me_cfg = mi_cfg_attrs m, me_clone = True, me_fields = [],
               me_result = result\<rparr>
         else \<lparr>me_name = mi_struct_name m, me_attrs = mi_method_attrs m, me_cfg = mi_cfg_attrs m, me_clone = False,
               me_fields = zip (mi_field_names m) (map qualify_type_with_super (mi_field_types m)), me_result = result\<rparr>)"

section \<open>The implementations for references\<close>

datatype runtime_mode = TasksMode | ThreadsMode

text \<open>What a method does with the message it builds: its struct and the fields taken from the parameters.\<close>

datatype message_expr = MessageExpr string "string list"

datatype method_body =
    SendDiscard message_expr
  | SendReturn message_expr
  | RequestWithTimeout message_expr
  | RequestReady message_expr

record method_impl =
  im_name :: string
  im_attrs :: "attribute list"
  im_params :: "fn_arg list"
  im_ret :: "ty option"
  im_body :: method_body

record marker_trait =
  mk_name :: string
  mk_cfg :: "string list"
  mk_bounds :: "string list"

record blanket_impl =
  bi_mode :: runtime_mode
  bi_handler_bounds :: "string list"
  bi_markers :: "marker_trait list"
  bi_methods :: "method_impl list"

fun add_to_group ::
  "string \<Rightarrow> protocol_method_info \<Rightarrow> (string \<times> protocol_method_info list) list \<Rightarrow> (string \<times> protocol_method_info list) list" where
  "add_to_group key m [] = [(key, [m])]"
| "add_to_group key m ((k, ms) # gs) = (if k = key then (k, ms @ [m]) # gs else (k, ms) # add_to_group key m gs)"

fun comma_join :: "string list \<Rightarrow> string" where
  "comma_join [] = []"
| "comma_join [s] = s"
| "comma_join (s # ss) = s @ '','' @ comma_join ss"

definition cfg_key :: "(attribute \<Rightarrow> string) \<Rightarrow> protocol_method_info \<Rightarrow> string" where
  "cfg_key show_attr m = comma_join (map show_attr (mi_cfg_attrs m))"

definition cfg_groups ::
  "(attribute \<Rightarrow> string) \<Rightarrow> protocol_method_info list \<Rightarrow> (string \<times> protocol_method_info list) list" where
  "cfg_groups show_attr ms =
     fold (\<lambda>m. add_to_group (cfg_key show_attr m) m) (filter (\<lambda>m. mi_cfg_attrs m \<noteq> []) ms) []"

fun mode_suffix :: "runtime_mode \<Rightarrow> string" where
  "mode_suffix TasksMode = ''Tasks''"
| "mode_suffix ThreadsMode = ''Threads''"

text \<open>The predicates of the group's first method; the marker is required where all of them hold.\<close>

definition marker_for ::
  "(nat \<Rightarrow> string) \<Rightarrow> string \<Rightarrow> runtime_mode \<Rightarrow> nat \<times> string \<times> protocol_method_info list \<Rightarrow> marker_trait" where
  "marker_for show_index trait_name mode = (\<lambda>(i, key, ms).
     \<lparr>mk_name = ''__'' @ trait_name @ ''Cfg'' @ show_index i @ mode_suffix mode,
      mk_cfg = map attr_tokens (filter (\<lambda>a. attr_name a = ''cfg'') (mi_cfg_attrs (hd ms))),
      mk_bounds = map mi_struct_name ms\<rparr>)"

definition is_unit_return :: "ty option \<Rightarrow> bool" where
  "is_unit_return r = (case r of None \<Rightarrow> True | Some t \<Rightarrow> is_unit_type t)"

definition method_impl_of :: "runtime_mode \<Rightarrow> protocol_method_info \<Rightarrow> method_impl" where
  "method_impl_of mode m =
     (let msg = MessageExpr (mi_struct_name m) (mi_field_names m)
      in \<lparr>im_name = mi_method_name m, im_attrs = mi_method_attrs m, im_params = mi_params m, im_ret = mi_ret_type m,
          im_body = (case mi_kind m of
              SendKind \<Rightarrow> if is_unit_return (mi_ret_type m) then SendDiscard msg else SendReturn msg
            | RequestKind _ \<Rightarrow> (case mode of TasksMode \<Rightarrow> RequestWithTimeout msg | ThreadsMode \<Rightarrow> RequestReady msg))\<rparr>)"

definition generate_blanket_impl ::
  "(attribute \<Rightarrow> string) \<Rightarrow> (nat \<Rightarrow> string) \<Rightarrow> string \<Rightarrow> protocol_method_info list \<Rightarrow> runtime_mode \<Rightarrow> blanket_impl" where
  "generate_blanket_impl show_attr show_index trait_name ms mode =
     \<lparr>bi_mode = mode,
      bi_handler_bounds = map mi_struct_name (filter (\<lambda>m. mi_cfg_attrs m = []) ms),
      bi_markers = map (marker_for show_index trait_name mode) (enumerate 0 (cfg_groups show_attr ms)),
      bi_methods = map (method_impl_of mode) ms\<rparr>"

section \<open>The attribute\<close>

record protocol_output =
  px_ref_name :: string
  px_mod_name :: string
  px_messages :: "message_struct list"
  px_converter_trait :: string
  px_converter_method :: string
  px_tasks :: blanket_impl
  px_threads :: blanket_impl

definition protocol :: "(attribute \<Rightarrow> string) \<Rightarrow> (nat \<Rightarrow> string) \<Rightarrow> item_trait \<Rightarrow> compile_error + protocol_output" where
  "protocol show_attr show_index tr =
     (if tr_generics tr \<noteq> [] then Inl GenericProtocol
      else let base = strip_protocol_suffix (tr_ident tr)
           in map_sum id (\<lambda>ms.
                \<lparr>px_ref_name = base @ ''Ref'', px_mod_name = to_snake_case (tr_ident tr), px_messages = map msg_struct ms,
                 px_converter_trait = ''To'' @ base @ ''Ref'', px_converter_method = ''to_'' @ to_snake_case base @ ''_ref'',
                 px_tasks = generate_blanket_impl show_attr show_index (tr_ident tr) ms TasksMode,
                 px_threads = generate_blanket_impl show_attr show_index (tr_ident tr) ms ThreadsMode\<rparr>)
              (method_infos (tr_items tr)))"

section \<open>Facts\<close>

definition simple_params :: "fn_arg list \<Rightarrow> bool" where
  "simple_params as \<longleftrightarrow> (\<forall>p t. Typed p t \<in> set as \<longrightarrow> (\<exists>n. p = PatIdent n))"

definition accepted_method :: "trait_fn \<Rightarrow> bool" where
  "accepted_method m \<longleftrightarrow> \<not> fs_async (tf_sig m) \<and> takes_self_ref (fs_inputs (tf_sig m)) \<and>
     simple_params (tl (fs_inputs (tf_sig m))) \<and> is_ok (classify_return_type (fs_output (tf_sig m)))"

lemma collect_params_ok: "is_ok (collect_params as) \<longleftrightarrow> simple_params as"
  by (induction as) (auto simp: simple_params_def split: fn_arg.splits pat.splits)

lemma is_ok_cases: "is_ok x \<longleftrightarrow> (\<exists>v. x = Inr v)"
  by (cases x) auto

lemma method_info_ok: "is_ok (method_info m) \<longleftrightarrow> accepted_method m"
  using collect_params_ok [of "tl (fs_inputs (tf_sig m))"]
  by (auto simp: method_info_def accepted_method_def Let_def is_ok_cases split: sum.splits)

lemma method_infos_ok:
  "is_ok (method_infos items) \<longleftrightarrow> (\<forall>it \<in> set items. \<exists>m. it = TraitFn m \<and> accepted_method m)"
proof (induction items rule: method_infos.induct)
  case (3 m items)
  then show ?case using method_info_ok [of m] by (cases "method_info m") auto
qed simp_all

text \<open>The fields of a message are the parameters after the receiver, in their order.\<close>

fun typed_params :: "fn_arg list \<Rightarrow> (string \<times> ty) list" where
  "typed_params [] = []"
| "typed_params (Typed (PatIdent n) t # as) = (n, t) # typed_params as"
| "typed_params (_ # as) = typed_params as"

lemma collect_params_fields:
  "collect_params as = Inr (ns, ts, ps) \<Longrightarrow> zip ns ts = typed_params as \<and> length ns = length ts \<and> ps = as"
proof (induction as arbitrary: ns ts ps)
  case (Cons a as)
  then show ?case by (cases "collect_params as") (auto split: fn_arg.splits pat.splits)
qed simp

definition describes :: "trait_fn \<Rightarrow> protocol_method_info \<Rightarrow> bool" where
  "describes m i \<longleftrightarrow> mi_method_name i = fs_ident (tf_sig m) \<and> mi_struct_name i = to_pascal_case (fs_ident (tf_sig m)) \<and>
     zip (mi_field_names i) (mi_field_types i) = typed_params (tl (fs_inputs (tf_sig m))) \<and>
     length (mi_field_names i) = length (mi_field_types i) \<and> mi_params i = tl (fs_inputs (tf_sig m)) \<and>
     mi_ret_type i = fs_output (tf_sig m) \<and> classify_return_type (fs_output (tf_sig m)) = Inr (mi_kind i) \<and>
     mi_cfg_attrs i = filter is_cfg (tf_attrs m)"

lemma method_info_describes: "method_info m = Inr i \<Longrightarrow> describes m i"
  by (auto simp: method_info_def describes_def Let_def dest: collect_params_fields split: if_splits sum.splits prod.splits)

lemma method_infos_describe:
  "method_infos items = Inr ms \<Longrightarrow> \<exists>fs. items = map TraitFn fs \<and> list_all2 describes fs ms"
proof (induction items arbitrary: ms rule: method_infos.induct)
  case (3 m items)
  then obtain i ms' where i: "method_info m = Inr i" "method_infos items = Inr ms'" "ms = i # ms'"
    by (cases "method_info m"; cases "method_infos items") auto
  from "3.IH" [OF i(1,2)] obtain fs where "items = map TraitFn fs" "list_all2 describes fs ms'" by blast
  then show ?case using i method_info_describes [OF i(1)] by (intro exI [of _ "m # fs"]) simp
qed simp_all

text \<open>Grouping the methods with conditions loses none and repeats none.\<close>

lemma add_to_group_members:
  "mset (concat (map snd (add_to_group key m gs))) = add_mset m (mset (concat (map snd gs)))"
  by (induction gs) auto

lemma cfg_groups_members: "mset (concat (map snd (cfg_groups show_attr ms))) = mset (filter (\<lambda>m. mi_cfg_attrs m \<noteq> []) ms)"
proof -
  have "mset (concat (map snd (fold (\<lambda>m. add_to_group (cfg_key show_attr m) m) xs gs))) = mset xs + mset (concat (map snd gs))" for xs gs
    by (induction xs arbitrary: gs) (simp_all add: add_to_group_members)
  from this [of "filter (\<lambda>m. mi_cfg_attrs m \<noteq> []) ms" "[]"] show ?thesis by (simp add: cfg_groups_def)
qed

definition bounded_once :: "blanket_impl \<Rightarrow> string multiset" where
  "bounded_once b = mset (bi_handler_bounds b) + mset (concat (map mk_bounds (bi_markers b)))"

lemma marker_bounds:
  "concat (map mk_bounds (map (marker_for show_index trait_name mode) (enumerate n gs))) =
     map mi_struct_name (concat (map snd gs))"
  by (induction gs arbitrary: n) (auto simp: marker_for_def)

lemma blanket_bounds:
  "bounded_once (generate_blanket_impl show_attr show_index trait_name ms mode) = mset (map mi_struct_name ms)"
proof -
  let ?free = "filter (\<lambda>m. mi_cfg_attrs m = []) ms"
  let ?gated = "concat (map snd (cfg_groups show_attr ms))"
  have "mset ms = mset ?free + mset (filter (\<lambda>m. mi_cfg_attrs m \<noteq> []) ms)"
    unfolding mset_filter by (rule multiset_partition)
  then have "mset ms = mset (?free @ ?gated)" by (simp only: cfg_groups_members mset_append)
  then have "mset (map mi_struct_name ms) = mset (map mi_struct_name (?free @ ?gated))"
    by (simp only: mset_map)
  then show ?thesis
    by (simp only: bounded_once_def generate_blanket_impl_def blanket_impl.select_convs marker_bounds map_append mset_append)
qed

text \<open>What the message of a method is, and what its implementation does in a runtime.\<close>

definition message_for :: "trait_fn \<Rightarrow> message_struct \<Rightarrow> bool" where
  "message_for m e \<longleftrightarrow> me_name e = to_pascal_case (fs_ident (tf_sig m)) \<and>
     me_fields e = map (apsnd qualify_type_with_super) (typed_params (tl (fs_inputs (tf_sig m)))) \<and>
     me_result e = (case classify_return_type (fs_output (tf_sig m)) of
        Inr (RequestKind t) \<Rightarrow> qualify_type_with_super t
      | _ \<Rightarrow> unit_ty)"

definition implemented_by :: "runtime_mode \<Rightarrow> trait_fn \<Rightarrow> method_impl \<Rightarrow> bool" where
  "implemented_by mode m im \<longleftrightarrow> im_name im = fs_ident (tf_sig m) \<and> im_params im = tl (fs_inputs (tf_sig m)) \<and>
     im_ret im = fs_output (tf_sig m) \<and>
     (let e = MessageExpr (to_pascal_case (fs_ident (tf_sig m))) (map fst (typed_params (tl (fs_inputs (tf_sig m)))))
      in im_body im = (case classify_return_type (fs_output (tf_sig m)) of
           Inr (RequestKind t) \<Rightarrow> (case mode of TasksMode \<Rightarrow> RequestWithTimeout e | ThreadsMode \<Rightarrow> RequestReady e)
         | _ \<Rightarrow> if is_unit_return (fs_output (tf_sig m)) then SendDiscard e else SendReturn e))"

lemma describes_fields:
  assumes "describes m i"
  shows "map fst (typed_params (tl (fs_inputs (tf_sig m)))) = mi_field_names i"
    "map (apsnd f) (typed_params (tl (fs_inputs (tf_sig m)))) = zip (mi_field_names i) (map f (mi_field_types i))"
proof -
  have z: "typed_params (tl (fs_inputs (tf_sig m))) = zip (mi_field_names i) (mi_field_types i)"
    and l: "length (mi_field_names i) = length (mi_field_types i)" using assms by (auto simp: describes_def)
  show "map fst (typed_params (tl (fs_inputs (tf_sig m)))) = mi_field_names i" using z l by simp
  show "map (apsnd f) (typed_params (tl (fs_inputs (tf_sig m)))) = zip (mi_field_names i) (map f (mi_field_types i))"
    unfolding z by (simp add: zip_map2 apsnd_def map_prod_def)
qed

lemma describes_message:
  assumes "describes m i"
  shows "message_for m (msg_struct i)"
proof -
  have "me_fields (msg_struct i) = zip (mi_field_names i) (map qualify_type_with_super (mi_field_types i))"
    by (simp add: msg_struct_def Let_def)
  moreover have "mi_struct_name i = to_pascal_case (fs_ident (tf_sig m))" "classify_return_type (fs_output (tf_sig m)) = Inr (mi_kind i)"
    using assms by (simp_all add: describes_def)
  ultimately show ?thesis
    unfolding message_for_def describes_fields(2) [OF assms] by (simp add: msg_struct_def Let_def split: method_kind.splits)
qed

lemma describes_impl: "describes m i \<Longrightarrow> implemented_by mode m (method_impl_of mode i)"
  using describes_fields(1) [of m i]
  by (auto simp: implemented_by_def method_impl_of_def describes_def Let_def split: method_kind.splits)

section \<open>Properties\<close>


definition counter_trait :: item_trait where
  "counter_trait = \<lparr>tr_ident = ''CounterProtocol'', tr_generics = [], tr_items =
     [TraitFn \<lparr>tf_sig = \<lparr>fs_ident = ''increment'', fs_async = False,
          fs_inputs = [Receiver True False, Typed (PatIdent ''amount'') (TPath False False [Segment ''u64'' NoArgs])], fs_output = None\<rparr>,
        tf_attrs = []\<rparr>,
      TraitFn \<lparr>tf_sig = \<lparr>fs_ident = ''get_count'', fs_async = False, fs_inputs = [Receiver True False],
          fs_output = Some (TPath False False [Segment ''Response'' (Angle [GType (TPath False False [Segment ''u64'' NoArgs])])])\<rparr>,
        tf_attrs = []\<rparr>]\<rparr>"


text \<open>
  Which names the messages look up where. The types of the messages are qualified so that they
  mean in the module of the messages what they mean in the trait; qualifying twice is qualifying
  once. What is still looked up in the module of the messages is exactly what stands inside a path from
  a root, in the parentheses of a path type, and the traits of bounds; a type without these looks
  up nothing there. One with these is captured by a message of the same name: in the example the
  parameter of type \<open>std::sync::Arc<Event>\<close> refers to the message \<open>Event\<close> it is a field of.
\<close>

lemma message_types_resolve:
  "(\<forall>e \<in> set (map msg_struct ms). \<forall>(n, t) \<in> set (me_fields e). \<exists>u. t = qualify_type_with_super u \<and> local_names t = left_names u \<and>
      qualify_type_with_super t = t) \<and>
   (let arc = TPath False False [Segment ''std'' NoArgs, Segment ''sync'' NoArgs,
        Segment ''Arc'' (Angle [GType (TPath False False [Segment ''Event'' NoArgs])])];
      m = \<lparr>mi_method_name = ''event'', mi_struct_name = to_pascal_case ''event'', mi_field_names = [''event''], mi_field_types = [arc],
        mi_kind = SendKind, mi_params = [Typed (PatIdent ''event'') arc], mi_ret_type = None, mi_method_attrs = [], mi_cfg_attrs = []\<rparr>
    in me_name (msg_struct m) \<in> local_names (snd (hd (me_fields (msg_struct m)))))"
proof -
  have "\<exists>u. t = qualify_type_with_super u \<and> local_names t = left_names u \<and> qualify_type_with_super t = t"
    if "(n, t) \<in> set (me_fields (msg_struct m))" for n t m
  proof -
    from that have "t \<in> qualify_type_with_super ` set (mi_field_types m)"
      by (auto simp: msg_struct_def Let_def dest: set_zip_rightD split: if_splits)
    then show ?thesis by (auto simp: qualified_names qualify_idem)
  qed
  then have "\<forall>e \<in> set (map msg_struct ms). \<forall>(n, t) \<in> set (me_fields e). \<exists>u. t = qualify_type_with_super u \<and>
      local_names t = left_names u \<and> qualify_type_with_super t = t" by fastforce
  moreover have "to_pascal_case ''event'' = ''Event''" by code_simp
  ultimately show ?thesis
    by (simp add: msg_struct_def Let_def rooted_def head_name_def is_prelude_or_primitive_def)
qed

end
