(* ===== verification/Actor_Macro.thy ===== *)
theory Actor_Macro
  imports Protocol_Macro
begin

text \<open>
  The \<open>actor\<close> attribute and the two attributes for remote types (\<open>macros/src/lib.rs\<close>): from an
  \<open>impl\<close> block with annotated methods to the implementation of \<open>Actor\<close>, one \<open>Handler\<close> per annotated method,
  and the assertions that references to the actor implement its protocols.
\<close>

section \<open>The impl block\<close>

record impl_fn =
  ifn_attrs :: "attribute list"
  ifn_public :: bool
  ifn_sig :: signature

datatype impl_item = ImplFn impl_fn | OtherImplItem string

record item_impl =
  ii_self_ty :: ty
  ii_items :: "impl_item list"

text \<open>One parameter of the attribute, up to the comma that may follow it.\<close>

datatype actor_param = ProtocolIs string | ProtocolList "string list" | UnknownParam string

datatype hook = StartedHook | StoppedHook

datatype actor_macro_error =
    UnknownParameter string
  | SecondHook hook
  | HookIsHandler hook
  | HookArity hook
  | HookReceiver hook
  | HandlerArity nat
  | HandlerSignature

fun hook_name :: "hook \<Rightarrow> string" where
  "hook_name StartedHook = ''started''"
| "hook_name StoppedHook = ''stopped''"

fun bridge_traits :: "actor_param list \<Rightarrow> actor_macro_error + string list" where
  "bridge_traits [] = Inr []"
| "bridge_traits (UnknownParam k # ps) = Inl (UnknownParameter k)"
| "bridge_traits (ProtocolIs t # ps) = map_sum id ((#) t) (bridge_traits ps)"
| "bridge_traits (ProtocolList ts # ps) = map_sum id ((@) ts) (bridge_traits ps)"

section \<open>Lifecycle hooks\<close>

definition has_attr :: "string \<Rightarrow> attribute list \<Rightarrow> bool" where
  "has_attr n as \<longleftrightarrow> (\<exists>a \<in> set as. attr_name a = n)"

definition is_handler_attr :: "attribute \<Rightarrow> bool" where
  "is_handler_attr a \<longleftrightarrow> attr_name a \<in> {''handler'', ''send_handler'', ''request_handler''}"

definition mutable_receiver :: "fn_arg list \<Rightarrow> bool" where
  "mutable_receiver inputs = (case inputs of Receiver _ mut # _ \<Rightarrow> mut | _ \<Rightarrow> False)"

definition hook_method :: "hook \<Rightarrow> impl_fn option \<Rightarrow> impl_fn \<Rightarrow> actor_macro_error + impl_fn" where
  "hook_method h found m =
     (if found \<noteq> None then Inl (SecondHook h)
      else if \<exists>a \<in> set (ifn_attrs m). is_handler_attr a then Inl (HookIsHandler h)
      else if length (fs_inputs (ifn_sig m)) \<noteq> 2 then Inl (HookArity h)
      else if \<not> mutable_receiver (fs_inputs (ifn_sig m)) then Inl (HookReceiver h)
      else Inr (m\<lparr>ifn_attrs := filter (\<lambda>a. attr_name a \<noteq> hook_name h) (ifn_attrs m), ifn_public := False,
                  ifn_sig := (ifn_sig m)\<lparr>fs_ident := hook_name h\<rparr>\<rparr>))"

record hooks =
  hk_started :: "impl_fn option"
  hk_stopped :: "impl_fn option"
  hk_async :: bool
  hk_kept :: "impl_item list"

fun extract_hooks :: "impl_item list \<Rightarrow> hooks \<Rightarrow> actor_macro_error + hooks" where
  "extract_hooks [] hk = Inr hk"
| "extract_hooks (OtherImplItem s # items) hk = extract_hooks items (hk\<lparr>hk_kept := hk_kept hk @ [OtherImplItem s]\<rparr>)"
| "extract_hooks (ImplFn m # items) hk =
     (if has_attr ''started'' (ifn_attrs m)
      then case hook_method StartedHook (hk_started hk) m of
             Inl e \<Rightarrow> Inl e
           | Inr m1 \<Rightarrow> extract_hooks items (hk\<lparr>hk_started := Some m1, hk_async := (hk_async hk \<or> fs_async (ifn_sig m))\<rparr>)
      else if has_attr ''stopped'' (ifn_attrs m)
      then case hook_method StoppedHook (hk_stopped hk) m of
             Inl e \<Rightarrow> Inl e
           | Inr m1 \<Rightarrow> extract_hooks items (hk\<lparr>hk_stopped := Some m1, hk_async := (hk_async hk \<or> fs_async (ifn_sig m))\<rparr>)
      else extract_hooks items (hk\<lparr>hk_kept := hk_kept hk @ [ImplFn m]\<rparr>))"

section \<open>Handlers\<close>

record handler_impl =
  hi_attrs :: "attribute list"
  hi_message :: ty
  hi_result :: ty
  hi_async :: bool
  hi_calls :: string

fun remove_handler_attr :: "attribute list \<Rightarrow> attribute list" where
  "remove_handler_attr [] = []"
| "remove_handler_attr (a # as) = (if is_handler_attr a then as else a # remove_handler_attr as)"

definition extra_attrs :: "attribute list \<Rightarrow> attribute list" where
  "extra_attrs as = filter (\<lambda>a. \<not> is_handler_attr a \<and> attr_name a \<noteq> ''started'' \<and> attr_name a \<noteq> ''stopped'') as"

text \<open>A method without a handler attribute stays as it is: \<open>None\<close>.\<close>

definition handler_method :: "impl_fn \<Rightarrow> actor_macro_error + (impl_fn \<times> handler_impl) option" where
  "handler_method m =
     (if \<not> (\<exists>a \<in> set (ifn_attrs m). is_handler_attr a) then Inr None
      else let m1 = m\<lparr>ifn_attrs := remove_handler_attr (ifn_attrs m)\<rparr>; inputs = fs_inputs (ifn_sig m)
           in if length inputs \<noteq> 3 then Inl (HandlerArity (length inputs))
              else case inputs ! 1 of
                     Receiver _ _ \<Rightarrow> Inl HandlerSignature
                   | Typed _ msg_ty \<Rightarrow>
                       Inr (Some (m1, \<lparr>hi_attrs = extra_attrs (ifn_attrs m1), hi_message = msg_ty,
                         hi_result = (case fs_output (ifn_sig m) of None \<Rightarrow> unit_ty | Some t \<Rightarrow> t),
                         hi_async = fs_async (ifn_sig m), hi_calls = fs_ident (ifn_sig m)\<rparr>)))"

fun process_handlers :: "impl_item list \<Rightarrow> actor_macro_error + (impl_item list \<times> handler_impl list)" where
  "process_handlers [] = Inr ([], [])"
| "process_handlers (OtherImplItem s # items) = map_sum id (apfst ((#) (OtherImplItem s))) (process_handlers items)"
| "process_handlers (ImplFn m # items) =
     (case handler_method m of
        Inl e \<Rightarrow> Inl e
      | Inr None \<Rightarrow> map_sum id (apfst ((#) (ImplFn m))) (process_handlers items)
      | Inr (Some (m1, h)) \<Rightarrow> map_sum id (map_prod ((#) (ImplFn m1)) ((#) h)) (process_handlers items))"

section \<open>The attribute\<close>

record actor_output =
  ao_lifecycle :: "impl_fn list"
  ao_protocols :: "string list"
  ao_items :: "impl_item list"
  ao_handlers :: "handler_impl list"
  ao_asserts :: "(string \<times> runtime_mode) list"

definition actor_attribute :: "actor_param list \<Rightarrow> item_impl \<Rightarrow> actor_macro_error + actor_output" where
  "actor_attribute ps ib =
     (case bridge_traits ps of
        Inl e \<Rightarrow> Inl e
      | Inr traits \<Rightarrow>
          (case extract_hooks (ii_items ib) \<lparr>hk_started = None, hk_stopped = None, hk_async = False, hk_kept = []\<rparr> of
             Inl e \<Rightarrow> Inl e
           | Inr hk \<Rightarrow>
               (case process_handlers (hk_kept hk) of
                  Inl e \<Rightarrow> Inl e
                | Inr (items, hs) \<Rightarrow>
                    (let mode = (if hk_async hk \<or> (\<exists>h \<in> set hs. hi_async h) then TasksMode else ThreadsMode)
                     in Inr \<lparr>ao_lifecycle = map the (filter (\<lambda>x. x \<noteq> None) [hk_started hk, hk_stopped hk]),
                             ao_protocols = traits, ao_items = items, ao_handlers = hs,
                             ao_asserts = map (\<lambda>t. (t, mode)) traits\<rparr>))))"

definition remote_actor :: "string \<Rightarrow> string" where
  "remote_actor ident = remote_id_from_type ident"

definition remote_message :: "string \<Rightarrow> string" where
  "remote_message ident = remote_id_from_type ident"

section \<open>Facts\<close>

definition is_hook :: "impl_item \<Rightarrow> bool" where
  "is_hook it = (case it of ImplFn m \<Rightarrow> has_attr ''started'' (ifn_attrs m) \<or> has_attr ''stopped'' (ifn_attrs m) | OtherImplItem _ \<Rightarrow> False)"

definition is_handler :: "impl_item \<Rightarrow> bool" where
  "is_handler it = (case it of ImplFn m \<Rightarrow> (\<exists>a \<in> set (ifn_attrs m). is_handler_attr a) | OtherImplItem _ \<Rightarrow> False)"

fun item_async :: "impl_item \<Rightarrow> bool" where
  "item_async (ImplFn m) = fs_async (ifn_sig m)"
| "item_async (OtherImplItem s) = False"

lemma extract_hooks_kept:
  "extract_hooks items hk = Inr hk' \<Longrightarrow> hk_kept hk' = hk_kept hk @ filter (Not \<circ> is_hook) items \<and>
     hk_async hk' = (hk_async hk \<or> (\<exists>it \<in> set items. is_hook it \<and> item_async it))"
proof (induction items hk arbitrary: hk' rule: extract_hooks.induct)
  case (3 m items hk)
  show ?case
  proof (cases "has_attr ''started'' (ifn_attrs m)")
    case True
    with "3.prems" obtain m1 where "hook_method StartedHook (hk_started hk) m = Inr m1" by (auto split: sum.splits)
    with True "3.IH"(1) [OF True] "3.prems" show ?thesis by (auto simp: is_hook_def)
  next
    case False
    note st = this
    show ?thesis
    proof (cases "has_attr ''stopped'' (ifn_attrs m)")
      case True
      with st "3.prems" obtain m1 where "hook_method StoppedHook (hk_stopped hk) m = Inr m1" by (auto split: sum.splits)
      with True st "3.IH"(2) [OF st True] "3.prems" show ?thesis by (auto simp: is_hook_def)
    next
      case False
      with st "3.IH"(3) [OF st False] "3.prems" show ?thesis by (auto simp: is_hook_def)
    qed
  qed
qed (auto simp: is_hook_def)

text \<open>What the handler of a method is.\<close>

definition handles :: "impl_item \<Rightarrow> handler_impl \<Rightarrow> bool" where
  "handles it h \<longleftrightarrow> (\<exists>m recv p t ctx. it = ImplFn m \<and> fs_inputs (ifn_sig m) = [recv, Typed p t, ctx] \<and> hi_message h = t \<and>
     hi_result h = (case fs_output (ifn_sig m) of None \<Rightarrow> unit_ty | Some r \<Rightarrow> r) \<and> hi_async h = fs_async (ifn_sig m) \<and>
     hi_calls h = fs_ident (ifn_sig m))"

lemma handler_method_handles:
  assumes "handler_method m = Inr (Some (m1, h))"
  shows "handles (ImplFn m) h" "is_handler (ImplFn m)" "ifn_sig m1 = ifn_sig m"
proof -
  have "\<exists>a \<in> set (ifn_attrs m). is_handler_attr a" "length (fs_inputs (ifn_sig m)) = 3"
    using assms by (auto simp: handler_method_def Let_def split: if_splits)
  moreover from this(2) obtain x y z where "fs_inputs (ifn_sig m) = [x, y, z]"
    by (auto simp: numeral_3_eq_3 length_Suc_conv)
  ultimately show "handles (ImplFn m) h" "is_handler (ImplFn m)" "ifn_sig m1 = ifn_sig m"
    using assms by (auto simp: handler_method_def handles_def is_handler_def Let_def split: fn_arg.splits)
qed

lemma handler_method_none: "handler_method m = Inr None \<Longrightarrow> \<not> is_handler (ImplFn m)"
  by (auto simp: handler_method_def is_handler_def Let_def split: if_splits fn_arg.splits)

text \<open>An item is kept as it is, or is a method that keeps its signature.\<close>

definition same_method :: "impl_item \<Rightarrow> impl_item \<Rightarrow> bool" where
  "same_method a b \<longleftrightarrow> a = b \<or> (\<exists>m n. a = ImplFn m \<and> b = ImplFn n \<and> ifn_sig n = ifn_sig m \<and> ifn_public n = ifn_public m \<and> is_handler a)"

lemma process_handlers_spec:
  "process_handlers items = Inr (items', hs) \<Longrightarrow>
     list_all2 same_method items items' \<and> list_all2 handles (filter is_handler items) hs"
proof (induction items arbitrary: items' hs rule: process_handlers.induct)
  case (2 s items)
  then obtain items1 where "process_handlers items = Inr (items1, hs)" "items' = OtherImplItem s # items1"
    by (cases "process_handlers items") auto
  with "2.IH" [of items1 hs] show ?case by (auto simp: same_method_def is_handler_def)
next
  case (3 m items)
  show ?case
  proof (cases "handler_method m")
    case (Inl e)
    with "3.prems" show ?thesis by simp
  next
    case (Inr o1)
    show ?thesis
    proof (cases o1)
      case None
      with Inr "3.prems" obtain items1 where "process_handlers items = Inr (items1, hs)" "items' = ImplFn m # items1"
        by (cases "process_handlers items") auto
      with "3.IH"(1) [OF Inr None] handler_method_none [of m] Inr None show ?thesis by (auto simp: same_method_def)
    next
      case (Some x)
      obtain m1 h where x: "x = (m1, h)" by (cases x)
      with Inr Some "3.prems" obtain items1 hs1 where p: "process_handlers items = Inr (items1, hs1)" "items' = ImplFn m1 # items1" "hs = h # hs1"
        by (cases "process_handlers items") auto
      have hm: "handler_method m = Inr (Some (m1, h))" using Inr Some x by simp
      have "ifn_public m1 = ifn_public m" using hm by (auto simp: handler_method_def Let_def split: if_splits fn_arg.splits)
      with "3.IH"(2) [OF Inr Some x [symmetric]] p handler_method_handles [OF hm] show ?thesis by (auto simp: same_method_def)
    qed
  qed
qed simp

definition lifecycle :: "hooks \<Rightarrow> impl_fn list" where
  "lifecycle hk = map the (filter (\<lambda>x. x \<noteq> None) [hk_started hk, hk_stopped hk])"

definition hook_names :: "hooks \<Rightarrow> bool" where
  "hook_names hk \<longleftrightarrow> (\<forall>m. hk_started hk = Some m \<longrightarrow> fs_ident (ifn_sig m) = ''started'') \<and>
     (\<forall>m. hk_stopped hk = Some m \<longrightarrow> fs_ident (ifn_sig m) = ''stopped'')"

lemma hooks_kept_irrelevant [simp]: "hook_names (hk\<lparr>hk_kept := x\<rparr>) = hook_names hk" "lifecycle (hk\<lparr>hk_kept := x\<rparr>) = lifecycle hk"
  by (simp_all add: hook_names_def lifecycle_def)

lemma hook_methodD:
  assumes "hook_method h found m = Inr m1"
  shows "found = None" "fs_ident (ifn_sig m1) = hook_name h"
  using assms by (auto simp: hook_method_def split: if_splits)

lemma extract_hooks_count:
  "extract_hooks items hk = Inr hk' \<Longrightarrow> hook_names hk \<Longrightarrow> hook_names hk' \<and>
     length (lifecycle hk') = length (lifecycle hk) + length (filter is_hook items)"
proof (induction items hk arbitrary: hk' rule: extract_hooks.induct)
  case (3 m items hk)
  show ?case
  proof (cases "has_attr ''started'' (ifn_attrs m)")
    case True
    with "3.prems" obtain m1 where m1: "hook_method StartedHook (hk_started hk) m = Inr m1" by (auto split: sum.splits)
    with True "3.IH"(1) [OF True m1] "3.prems" hook_methodD [OF m1] show ?thesis
      by (auto simp: is_hook_def hook_names_def lifecycle_def)
  next
    case False
    note st = this
    show ?thesis
    proof (cases "has_attr ''stopped'' (ifn_attrs m)")
      case True
      with st "3.prems" obtain m1 where m1: "hook_method StoppedHook (hk_stopped hk) m = Inr m1" by (auto split: sum.splits)
      with True st "3.IH"(2) [OF st True m1] "3.prems" hook_methodD [OF m1] show ?thesis
        by (auto simp: is_hook_def hook_names_def lifecycle_def)
    next
      case False
      with st "3.IH"(3) [OF st False] "3.prems" show ?thesis by (simp add: is_hook_def)
    qed
  qed
qed (auto simp: is_hook_def)

lemma handlers_async:
  "list_all2 handles its hs \<Longrightarrow> (\<exists>h \<in> set hs. hi_async h) \<longleftrightarrow> (\<exists>it \<in> set its. item_async it)"
  by (induction rule: list_all2_induct) (auto simp: handles_def)

section \<open>Properties\<close>


definition ping_impl :: item_impl where
  "ping_impl = \<lparr>ii_self_ty = TPath False False [Segment ''Ping'' NoArgs], ii_items =
     [ImplFn \<lparr>ifn_attrs = [Attr ''started'' []], ifn_public = False,
        ifn_sig = \<lparr>fs_ident = ''on_start'', fs_async = True, fs_inputs = [Receiver True True, Typed (PatIdent ''ctx'') (TOther ''Context'')],
          fs_output = None\<rparr>\<rparr>,
      ImplFn \<lparr>ifn_attrs = [Attr ''send_handler'' []], ifn_public = False,
        ifn_sig = \<lparr>fs_ident = ''ping'', fs_async = False, fs_inputs = [Receiver True True, Typed (PatIdent ''m'') (TOther ''Ping''),
          Typed (PatIdent ''ctx'') (TOther ''Context'')], fs_output = None\<rparr>\<rparr>]\<rparr>"


end
