(* ===== verification/Shutdown_Waits.thy ===== *)
theory Shutdown_Waits
  imports Remote_Spawn
begin

text \<open>
  The waits for the exit of a remote child (\<open>cluster/supervision_remote.rs\<close>): the process-wide table
  \<open>SHUTDOWN_WAITS\<close> with its one-place channels, and every party that runs
  \<open>shutdown_remote_and_wait\<close> or \<open>shutdown_remote_and_wait_blocking\<close> as a small program of its own. A
  schedule interleaves the atomic actions of these parties, their timeouts, and the broker that
  completes a wait when a \<open>ChildExit\<close> arrives (\<open>complete_remote_shutdown_wait\<close>). What a party
  does to the node otherwise is \<open>Remote_Spawn.shutdown_remote_on\<close>, which it refines.
\<close>

section \<open>The table of waits\<close>

text \<open>
  Channels are numbered in the order of their creation. The sender of a channel lives in the
  table and nowhere else, so a channel whose number is not in the table is disconnected.
\<close>

record wait_table =
  wt_waits :: "actor_id \<rightharpoonup> nat"
  wt_next :: nat
  wt_full :: "nat set"

definition waits_empty :: wait_table where
  "waits_empty = \<lparr>wt_waits = Map.empty, wt_next = 0, wt_full = {}\<rparr>"

definition complete_remote_shutdown_wait :: "actor_id \<Rightarrow> wait_table \<Rightarrow> wait_table" where
  "complete_remote_shutdown_wait a t =
     (case wt_waits t a of
        None \<Rightarrow> t
      | Some c \<Rightarrow> t\<lparr>wt_waits := (wt_waits t)(a := None), wt_full := insert c (wt_full t)\<rparr>)"

definition register_shutdown_wait :: "actor_id \<Rightarrow> wait_table \<Rightarrow> nat \<times> wait_table" where
  "register_shutdown_wait a t =
     (wt_next t, t\<lparr>wt_waits := (wt_waits t)(a \<mapsto> wt_next t), wt_next := Suc (wt_next t)\<rparr>)"

definition clear_shutdown_wait :: "actor_id \<Rightarrow> wait_table \<Rightarrow> wait_table" where
  "clear_shutdown_wait a t = t\<lparr>wt_waits := (wt_waits t)(a := None)\<rparr>"

text \<open>
  One look at a channel: the token, the end of its sender, or the end of the time there is. No
  result means that the receiver goes on waiting.
\<close>

definition wait_rx_blocking :: "bool \<Rightarrow> nat \<Rightarrow> actor_id \<Rightarrow> wait_table \<Rightarrow> (remote_shutdown_error + unit) option" where
  "wait_rx_blocking timed_out c a t =
     (if c \<in> wt_full t then Some (Inr ())
      else if wt_waits t a \<noteq> Some c then Some (Inl RsdInterrupted)
      else if timed_out then Some (Inl RsdTimeout)
      else None)"

section \<open>The waiting parties\<close>

datatype wait_pc =
    WtStart
  | WtSignal nat
  | WtWait nat bool
  | WtKill nat
  | WtReclear
  | WtReregister
  | WtClear "remote_shutdown_error + unit"
  | WtDone "remote_shutdown_error + unit"

text \<open>
  A party: the runtime whose function it runs, the child, the policy, where it is, what its
  waits gave and the signals it has published. \<open>WtWait c first\<close> receives on channel \<open>c\<close>.
\<close>

record wait_party =
  pt_runtime :: mailbox_runtime
  pt_child :: remote_child_handle
  pt_shutdown :: shutdown_type
  pt_pc :: wait_pc
  pt_outcomes :: "(remote_shutdown_error + unit) list"
  pt_signals :: "supervision_signal list"

abbreviation pt_id :: "wait_party \<Rightarrow> actor_id" where
  "pt_id p \<equiv> actor_id (rh_address (pt_child p))"

definition party :: "mailbox_runtime \<Rightarrow> remote_child_handle \<Rightarrow> shutdown_type \<Rightarrow> wait_party" where
  "party rt rh sd = \<lparr>pt_runtime = rt, pt_child = rh, pt_shutdown = sd, pt_pc = WtStart, pt_outcomes = [], pt_signals = []\<rparr>"

fun first_signal :: "shutdown_type \<Rightarrow> supervision_signal" where
  "first_signal BrutalKill = SigKill"
| "first_signal Infinity = SigShutdown"
| "first_signal (Timeout _) = SigShutdown"

text \<open>
  After the first wait: only a timed policy escalates, and the function of the tasks runtime
  only when the wait timed out.
\<close>

fun is_timeout :: "shutdown_type \<Rightarrow> bool" where
  "is_timeout (Timeout _) = True"
| "is_timeout _ = False"

definition escalates :: "mailbox_runtime \<Rightarrow> shutdown_type \<Rightarrow> remote_shutdown_error + unit \<Rightarrow> bool" where
  "escalates rt sd r \<longleftrightarrow> is_timeout sd \<and> (case rt of Tasks \<Rightarrow> r = Inl RsdTimeout | Threads \<Rightarrow> r \<noteq> Inr ())"

text \<open>The time given to a wait may end unless it is the wait of \<open>Infinity\<close>.\<close>

definition timed :: "wait_party \<Rightarrow> bool" where
  "timed p \<longleftrightarrow> pt_shutdown p \<noteq> Infinity"

definition received :: "nat \<Rightarrow> bool \<Rightarrow> remote_shutdown_error + unit \<Rightarrow> wait_party \<Rightarrow> wait_party" where
  "received c first r p = p\<lparr>pt_outcomes := pt_outcomes p @ [r],
     pt_pc := (if first \<and> escalates (pt_runtime p) (pt_shutdown p) r then WtKill c else WtClear r)\<rparr>"

text \<open>One atomic action of a party; \<open>timed_out\<close> tells that the time of its wait is over.\<close>

definition party_step :: "bool \<Rightarrow> wait_party \<Rightarrow> wait_table \<Rightarrow> wait_party \<times> wait_table" where
  "party_step timed_out p t =
     (case pt_pc p of
        WtStart \<Rightarrow> (case register_shutdown_wait (pt_id p) t of (c, t1) \<Rightarrow> (p\<lparr>pt_pc := WtSignal c\<rparr>, t1))
      | WtSignal c \<Rightarrow>
          (p\<lparr>pt_signals := pt_signals p @ [first_signal (pt_shutdown p)], pt_pc := WtWait c True\<rparr>, t)
      | WtWait c first \<Rightarrow>
          (case wait_rx_blocking (timed_out \<and> timed p) c (pt_id p) t of
             None \<Rightarrow> (p, t)
           | Some r \<Rightarrow> (received c first r p, t))
      | WtKill c \<Rightarrow>
          (p\<lparr>pt_signals := pt_signals p @ [SigKill],
             pt_pc := (case pt_runtime p of Threads \<Rightarrow> WtWait c False | Tasks \<Rightarrow> WtReclear)\<rparr>, t)
      | WtReclear \<Rightarrow> (p\<lparr>pt_pc := WtReregister\<rparr>, clear_shutdown_wait (pt_id p) t)
      | WtReregister \<Rightarrow>
          (case register_shutdown_wait (pt_id p) t of (c, t1) \<Rightarrow> (p\<lparr>pt_pc := WtWait c False\<rparr>, t1))
      | WtClear r \<Rightarrow> (p\<lparr>pt_pc := WtDone r\<rparr>, clear_shutdown_wait (pt_id p) t)
      | WtDone r \<Rightarrow> (p, t))"

section \<open>Schedules\<close>

datatype wait_event = Act nat | TimeOver nat | ExitArrives actor_address

record wait_sys =
  sy_parties :: "wait_party list"
  sy_table :: wait_table

definition act :: "bool \<Rightarrow> nat \<Rightarrow> wait_sys \<Rightarrow> wait_sys" where
  "act timed_out i s =
     (if i < length (sy_parties s)
      then (case party_step timed_out (sy_parties s ! i) (sy_table s) of
              (p, t) \<Rightarrow> \<lparr>sy_parties = (sy_parties s)[i := p], sy_table = t\<rparr>)
      else s)"

fun wait_step :: "wait_event \<Rightarrow> wait_sys \<Rightarrow> wait_sys" where
  "wait_step (Act i) s = act False i s"
| "wait_step (TimeOver i) s = act True i s"
| "wait_step (ExitArrives child) s = s\<lparr>sy_table := complete_remote_shutdown_wait (actor_id child) (sy_table s)\<rparr>"

definition run_waits :: "wait_event list \<Rightarrow> wait_sys \<Rightarrow> wait_sys" where
  "run_waits evs s = fold wait_step evs s"

definition waits_start :: "wait_party list \<Rightarrow> wait_sys" where
  "waits_start ps = \<lparr>sy_parties = ps, sy_table = waits_empty\<rparr>"

section \<open>An exit that arrives while a party listens is heard\<close>

definition listening :: "wait_party \<Rightarrow> bool" where
  "listening p \<longleftrightarrow>
     (case pt_pc p of WtSignal _ \<Rightarrow> True | WtWait _ _ \<Rightarrow> True | WtKill _ \<Rightarrow> pt_runtime p = Threads | _ \<Rightarrow> False)"

text \<open>The channel a party will look at next, and the moves it has left once the token is in it.\<close>

definition channel_of :: "wait_party \<Rightarrow> nat option" where
  "channel_of p =
     (case pt_pc p of WtSignal c \<Rightarrow> Some c | WtWait c _ \<Rightarrow> Some c
      | WtKill c \<Rightarrow> if pt_runtime p = Threads then Some c else None | _ \<Rightarrow> None)"

fun moves_left :: "wait_pc \<Rightarrow> nat" where
  "moves_left (WtWait _ _) = 2"
| "moves_left (WtClear _) = 1"
| "moves_left (WtDone _) = 0"
| "moves_left _ = 3"

definition heard :: "wait_party \<Rightarrow> wait_table \<Rightarrow> bool" where
  "heard p t \<longleftrightarrow> (\<exists>c \<in> wt_full t. channel_of p = Some c) \<or> pt_pc p = WtClear (Inr ()) \<or> pt_pc p = WtDone (Inr ())"

lemmas wait_defs = party_step_def register_shutdown_wait_def clear_shutdown_wait_def complete_remote_shutdown_wait_def
  wait_rx_blocking_def received_def

lemma listening_channel: "listening p \<longleftrightarrow> channel_of p \<noteq> None"
  by (simp add: listening_def channel_of_def split: wait_pc.split)

lemma full_mono: "wt_full t \<subseteq> wt_full (snd (party_step b p t))"
  "wt_full t \<subseteq> wt_full (complete_remote_shutdown_wait a t)"
  by (auto simp: wait_defs split: wait_pc.split option.split)

lemma party_step_keeps [simp]:
  "pt_child (fst (party_step b p t)) = pt_child p" "pt_runtime (fst (party_step b p t)) = pt_runtime p"
  "pt_shutdown (fst (party_step b p t)) = pt_shutdown p"
  by (simp_all add: wait_defs split: wait_pc.split option.split)

lemma heard_step:
  assumes "heard p t" "party_step b p t = (p', t')"
  shows "heard p' t'" "moves_left (pt_pc p') \<le> moves_left (pt_pc p) - 1"
  using assms
  by (auto simp: heard_def channel_of_def wait_defs escalates_def split: wait_pc.splits if_splits mailbox_runtime.splits)

lemma heard_done: "heard p t \<Longrightarrow> moves_left (pt_pc p) = 0 \<Longrightarrow> pt_pc p = WtDone (Inr ())"
  by (auto simp: heard_def channel_of_def split: wait_pc.splits)

lemma length_wait_step [simp]: "length (sy_parties (wait_step e s)) = length (sy_parties s)"
  by (cases e) (simp_all add: act_def split: prod.split)

lemma run_waits_simps [simp]:
  "run_waits [] s = s" "run_waits (e # evs) s = run_waits evs (wait_step e s)"
  "run_waits (evs1 @ evs2) s = run_waits evs2 (run_waits evs1 s)"
  by (simp_all add: run_waits_def)

lemma length_run_waits [simp]: "length (sy_parties (run_waits evs s)) = length (sy_parties s)"
  by (induction evs arbitrary: s) simp_all

text \<open>A step of the system as party \<open>i\<close> sees it.\<close>

lemma act_other: "i \<noteq> j \<Longrightarrow> sy_parties (act b j s) ! i = sy_parties s ! i"
  "sy_table (act b j s) = (if j < length (sy_parties s) then snd (party_step b (sy_parties s ! j) (sy_table s)) else sy_table s)"
  by (simp_all add: act_def split: prod.split)

lemma act_own: "i < length (sy_parties s) \<Longrightarrow>
    (sy_parties (act b i s) ! i, sy_table (act b i s)) = party_step b (sy_parties s ! i) (sy_table s)"
  by (simp add: act_def split: prod.split)

lemma heard_full: "heard p t \<Longrightarrow> wt_full t \<subseteq> wt_full t' \<Longrightarrow> heard p t'"
  by (auto simp: heard_def)

lemma heard_wait_step:
  fixes e
  assumes "heard (sy_parties s ! i) (sy_table s)" "i < length (sy_parties s)"
  defines "s' \<equiv> wait_step e s"
  shows "heard (sy_parties s' ! i) (sy_table s') \<and>
    moves_left (pt_pc (sy_parties s' ! i)) \<le> moves_left (pt_pc (sy_parties s ! i)) - (if e = Act i then 1 else 0)"
proof -
  have other: "heard (sy_parties (act b j s) ! i) (sy_table (act b j s)) \<and>
      pt_pc (sy_parties (act b j s) ! i) = pt_pc (sy_parties s ! i)" if "j \<noteq> i" for b j
    using that heard_full [OF assms(1) full_mono(1)] assms(1) by (simp add: act_other)
  have own: "heard (sy_parties (act b i s) ! i) (sy_table (act b i s)) \<and>
      moves_left (pt_pc (sy_parties (act b i s) ! i)) \<le> moves_left (pt_pc (sy_parties s ! i)) - 1" for b
    using heard_step [OF assms(1) act_own [OF assms(2), symmetric]] by blast
  show ?thesis
  proof (cases e)
    case (Act j)
    then show ?thesis using other [of j False] own [of False] by (cases "j = i") (auto simp: s'_def)
  next
    case (TimeOver j)
    then show ?thesis using other [of j True] own [of True] by (cases "j = i") (auto simp: s'_def)
  next
    case (ExitArrives child)
    then show ?thesis
      using heard_full [OF assms(1) full_mono(2)] by (simp add: s'_def)
  qed
qed

lemma heard_run:
  assumes "heard (sy_parties s ! i) (sy_table s)" "i < length (sy_parties s)"
    "moves_left (pt_pc (sy_parties s ! i)) \<le> count_list evs (Act i)"
  shows "pt_pc (sy_parties (run_waits evs s) ! i) = WtDone (Inr ())"
  using assms
proof (induction evs arbitrary: s)
  case Nil
  then show ?case using heard_done by simp
next
  case (Cons e evs)
  note st = heard_wait_step [OF Cons.prems(1,2), of e]
  show ?case unfolding run_waits_simps
    by (rule Cons.IH) (use st Cons.prems in \<open>auto split: if_splits\<close>)
qed

text \<open>
  Party \<open>i\<close> is the only one that waits for the actor id \<open>a\<close>: the channel it listens on holds the
  token or is the one the table has for \<open>a\<close>.
\<close>

definition tracked :: "nat \<Rightarrow> actor_id \<Rightarrow> wait_sys \<Rightarrow> bool" where
  "tracked i a s \<longleftrightarrow> i < length (sy_parties s) \<and> (\<forall>j < length (sy_parties s). pt_id (sy_parties s ! j) = a \<longleftrightarrow> j = i) \<and>
     (\<forall>c. channel_of (sy_parties s ! i) = Some c \<longrightarrow> c \<in> wt_full (sy_table s) \<or> wt_waits (sy_table s) a = Some c)"

lemma party_step_foreign: "pt_id p \<noteq> a \<Longrightarrow> wt_waits (snd (party_step b p t)) a = wt_waits t a"
  by (simp add: wait_defs split: wait_pc.split option.split)

lemma party_step_channel:
  assumes "\<And>c. channel_of p = Some c \<Longrightarrow> c \<in> wt_full t \<or> wt_waits t (pt_id p) = Some c"
    and "party_step b p t = (p', t')" "channel_of p' = Some c"
  shows "c \<in> wt_full t' \<or> wt_waits t' (pt_id p) = Some c"
  using assms(2,3) assms(1) [of c]
  by (auto simp: channel_of_def wait_defs split: wait_pc.splits if_splits mailbox_runtime.splits)

lemma party_child_act [simp]:
  "k < length (sy_parties s) \<Longrightarrow> pt_child (sy_parties (act b j s) ! k) = pt_child (sy_parties s ! k)"
  using act_own [of k s b] party_step_keeps(1) [of b "sy_parties s ! k" "sy_table s"]
  by (cases "k = j") (auto simp: act_other dest: arg_cong [where f = fst])

lemma length_act [simp]: "length (sy_parties (act b j s)) = length (sy_parties s)"
  by (simp add: act_def split: prod.split)

lemma tracked_act:
  assumes "tracked i a s"
  shows "tracked i a (act b j s)"
proof (cases "j = i")
  case True
  have i: "i < length (sy_parties s)" "pt_id (sy_parties s ! i) = a" using assms by (auto simp: tracked_def)
  show ?thesis using assms i True party_step_channel [OF _ act_own [OF i(1), symmetric, of b]]
    by (auto simp: tracked_def)
next
  case False
  have "pt_id (sy_parties s ! j) \<noteq> a" if "j < length (sy_parties s)" using assms that False by (auto simp: tracked_def)
  then show ?thesis using assms False full_mono(1) party_step_foreign
    by (fastforce simp: tracked_def act_other)
qed

lemma tracked_step: "tracked i a s \<Longrightarrow> tracked i a (wait_step e s)"
proof (cases e)
  case (ExitArrives child)
  then show "tracked i a s \<Longrightarrow> ?thesis"
    by (auto simp: tracked_def complete_remote_shutdown_wait_def split: option.split)
qed (simp_all add: tracked_act)

lemma tracked_run: "tracked i a s \<Longrightarrow> tracked i a (run_waits evs s)"
  by (induction evs arbitrary: s) (simp_all add: tracked_step)

lemma tracked_start:
  "i < length ps \<Longrightarrow> \<forall>j < length ps. pt_id (ps ! j) = a \<longleftrightarrow> j = i \<Longrightarrow> pt_pc (ps ! i) = WtStart \<Longrightarrow> tracked i a (waits_start ps)"
  by (simp add: tracked_def waits_start_def channel_of_def)

lemma exit_heard:
  assumes "tracked i a s" "listening (sy_parties s ! i)" "actor_id child = a"
  defines "s' \<equiv> wait_step (ExitArrives child) s"
  shows "heard (sy_parties s' ! i) (sy_table s')"
  using assms by (auto simp: tracked_def listening_channel heard_def complete_remote_shutdown_wait_def split: option.splits)


abbreviation child_at :: "string \<Rightarrow> u64 \<Rightarrow> remote_child_handle" where
  "child_at n k \<equiv> \<lparr>rh_address = \<lparr>node = NodeId n, actor_id = ActorId k\<rparr>, rh_parent = \<lparr>node = NodeId ''a'', actor_id = ActorId 1\<rparr>\<rparr>"


section \<open>What a finished party did to the node\<close>

text \<open>
  The waits as the functions of \<open>Remote_Spawn\<close> see them: after the \<open>k\<close>-th signal, the \<open>k\<close>-th outcome.
\<close>

definition rwait_of :: "(remote_shutdown_error + unit) list \<Rightarrow> nat \<Rightarrow> rwait" where
  "rwait_of outs n = (\<lambda>pub a t. let k = length pub - n in if 0 < k \<and> k \<le> length outs then Some (outs ! (k - 1)) else None)"

definition signal_all :: "remote_child_handle \<Rightarrow> supervision_signal list \<Rightarrow> 'm world \<Rightarrow> 'm world" where
  "signal_all rh sigs w = fold (\<lambda>sig. remote_signal_event sig rh) sigs w"

text \<open>What the outcomes and signals of a party are, wherever it is.\<close>

definition escalated :: "wait_party \<Rightarrow> bool" where
  "escalated p \<longleftrightarrow> is_timeout (pt_shutdown p) \<and> pt_signals p = [SigShutdown, SigKill] \<and> pt_outcomes p \<noteq> [] \<and>
     escalates (pt_runtime p) (pt_shutdown p) (hd (pt_outcomes p))"

definition party_ok :: "wait_party \<Rightarrow> bool" where
  "party_ok p \<longleftrightarrow>
     (case pt_pc p of
        WtStart \<Rightarrow> pt_signals p = [] \<and> pt_outcomes p = []
      | WtSignal _ \<Rightarrow> pt_signals p = [] \<and> pt_outcomes p = []
      | WtWait _ True \<Rightarrow> pt_signals p = [first_signal (pt_shutdown p)] \<and> pt_outcomes p = []
      | WtWait _ False \<Rightarrow> escalated p \<and> length (pt_outcomes p) = 1
      | WtKill _ \<Rightarrow> pt_signals p = [first_signal (pt_shutdown p)] \<and> length (pt_outcomes p) = 1 \<and>
          escalates (pt_runtime p) (pt_shutdown p) (hd (pt_outcomes p))
      | WtReclear \<Rightarrow> escalated p \<and> length (pt_outcomes p) = 1
      | WtReregister \<Rightarrow> escalated p \<and> length (pt_outcomes p) = 1
      | WtClear r \<Rightarrow> (pt_signals p = [first_signal (pt_shutdown p)] \<and> pt_outcomes p = [r] \<and>
            \<not> escalates (pt_runtime p) (pt_shutdown p) r) \<or> (escalated p \<and> (\<exists>o1. pt_outcomes p = [o1, r]))
      | WtDone r \<Rightarrow> (pt_signals p = [first_signal (pt_shutdown p)] \<and> pt_outcomes p = [r] \<and>
            \<not> escalates (pt_runtime p) (pt_shutdown p) r) \<or> (escalated p \<and> (\<exists>o1. pt_outcomes p = [o1, r])))"

lemma first_signal_timeout: "is_timeout sd \<Longrightarrow> first_signal sd = SigShutdown"
  by (cases sd) simp_all

lemma length_Suc_0: "length xs = Suc 0 \<longleftrightarrow> (\<exists>x. xs = [x])"
  by (cases xs) auto

lemma party_ok_step: "party_ok p \<Longrightarrow> party_ok (fst (party_step b p t))"
  by (cases "pt_pc p")
    (auto simp: party_ok_def escalated_def wait_defs first_signal_timeout length_Suc_0 escalates_def
      split: bool.splits mailbox_runtime.splits option.splits if_splits)

lemma party_ok_act:
  assumes "\<forall>p \<in> set (sy_parties s). party_ok p"
  shows "\<forall>p \<in> set (sy_parties (act b i s)). party_ok p"
proof (cases "i < length (sy_parties s)")
  case True
  have "party_ok (fst (party_step b (sy_parties s ! i) (sy_table s)))" using assms True party_ok_step by simp
  then show ?thesis using assms True by (auto simp: act_def split: prod.split dest!: set_update_subset_insert [THEN subsetD])
qed (use assms in \<open>simp add: act_def\<close>)

lemma party_ok_run: "\<forall>p \<in> set (sy_parties s). party_ok p \<Longrightarrow> \<forall>p \<in> set (sy_parties (run_waits evs s)). party_ok p"
proof (induction evs arbitrary: s)
  case (Cons e evs)
  have "\<forall>p \<in> set (sy_parties (wait_step e s)). party_ok p" using Cons.prems party_ok_act by (cases e) auto
  then show ?case using Cons.IH by simp
qed simp

lemma party_done_refines:
  assumes "party_ok p" "pt_pc p = WtDone r"
  shows "shutdown_remote_on (pt_runtime p) (rwait_of (pt_outcomes p) (length (wd_published w))) (pt_child p) (pt_shutdown p) w =
    Some (r, signal_all (pt_child p) (pt_signals p) w)"
  using assms
  by (cases "pt_runtime p"; cases "pt_shutdown p"; cases r)
    (auto simp: party_ok_def escalated_def escalates_def shutdown_remote_on_def shutdown_remote_and_wait_def
      shutdown_remote_and_wait_blocking_def rwait_of_def signal_all_def remote_kill_def remote_shutdown_def
      remote_signal_event_def publish_supervision_def Let_def split: sum.splits remote_shutdown_error.splits)

section \<open>A wait succeeds only on an exit\<close>

text \<open>
  \<open>f\<close> tells for whose actor id a channel was made, \<open>A\<close> holds the actor ids whose exits arrived.
\<close>

definition table_owned :: "(nat \<Rightarrow> actor_id) \<Rightarrow> actor_id set \<Rightarrow> wait_table \<Rightarrow> bool" where
  "table_owned f A t \<longleftrightarrow> (\<forall>a c. wt_waits t a = Some c \<longrightarrow> c < wt_next t \<and> f c = a) \<and>
     (\<forall>c \<in> wt_full t. c < wt_next t \<and> f c \<in> A)"

definition party_owned :: "(nat \<Rightarrow> actor_id) \<Rightarrow> actor_id set \<Rightarrow> nat \<Rightarrow> wait_party \<Rightarrow> bool" where
  "party_owned f A n p \<longleftrightarrow> (\<forall>c. channel_of p = Some c \<longrightarrow> c < n \<and> f c = pt_id p) \<and>
     (pt_pc p = WtClear (Inr ()) \<or> pt_pc p = WtDone (Inr ()) \<longrightarrow> pt_id p \<in> A)"

definition owned :: "actor_id set \<Rightarrow> wait_sys \<Rightarrow> bool" where
  "owned A s \<longleftrightarrow> (\<exists>f. table_owned f A (sy_table s) \<and> (\<forall>p \<in> set (sy_parties s). party_owned f A (wt_next (sy_table s)) p))"

lemma party_step_owned:
  assumes "table_owned f A t" "party_owned f A (wt_next t) p" "party_step b p t = (p', t')"
  shows "\<exists>f'. (\<forall>c < wt_next t. f' c = f c) \<and> wt_next t \<le> wt_next t' \<and> table_owned f' A t' \<and> party_owned f' A (wt_next t') p'"
proof (cases "pt_pc p = WtStart \<or> pt_pc p = WtReregister")
  case True
  let ?f = "f(wt_next t := pt_id p)"
  have t': "t' = t\<lparr>wt_waits := (wt_waits t)(pt_id p \<mapsto> wt_next t), wt_next := Suc (wt_next t)\<rparr>"
    and p': "channel_of p' = Some (wt_next t)" "pt_child p' = pt_child p" "pt_pc p' \<noteq> WtClear (Inr ())" "pt_pc p' \<noteq> WtDone (Inr ())"
    using True assms(3) by (auto simp: channel_of_def party_step_def register_shutdown_wait_def)
  have "table_owned ?f A t'" using assms(1) unfolding t' table_owned_def
    by (simp add: less_Suc_eq) (metis less_irrefl)
  moreover have "party_owned ?f A (wt_next t') p'" using p' by (simp add: party_owned_def t')
  ultimately show ?thesis using t' by (intro exI [of _ ?f]) simp
next
  case False
  then have "table_owned f A t' \<and> party_owned f A (wt_next t') p' \<and> wt_next t' = wt_next t"
    using assms
    by (auto simp: table_owned_def party_owned_def channel_of_def wait_defs escalates_def
        split: wait_pc.splits if_splits mailbox_runtime.splits)
  then show ?thesis by (intro exI [of _ f]) auto
qed

lemma party_owned_mono:
  assumes "party_owned f A n p" "\<forall>c < n. f' c = f c" "n \<le> n'" "A \<subseteq> A'"
  shows "party_owned f' A' n' p"
  using assms by (auto simp: party_owned_def)

lemma owned_act:
  assumes "owned A s"
  shows "owned A (act b i s)"
proof (cases "i < length (sy_parties s)")
  case True
  from assms obtain f where f: "table_owned f A (sy_table s)" "\<forall>p \<in> set (sy_parties s). party_owned f A (wt_next (sy_table s)) p"
    by (auto simp: owned_def)
  obtain p' t' where st: "party_step b (sy_parties s ! i) (sy_table s) = (p', t')" by fastforce
  from party_step_owned [OF f(1) _ st] f(2) True obtain f' where f':
    "\<forall>c < wt_next (sy_table s). f' c = f c" "wt_next (sy_table s) \<le> wt_next t'" "table_owned f' A t'" "party_owned f' A (wt_next t') p'"
    by auto
  have "party_owned f' A (wt_next t') q" if "q \<in> set ((sy_parties s)[i := p'])" for q
  proof (cases "q = p'")
    case False
    then have "q \<in> set (sy_parties s)" using that set_update_subset_insert by fastforce
    then show ?thesis using f(2) f'(1,2) party_owned_mono by blast
  qed (use f'(4) in simp)
  then show ?thesis unfolding owned_def using True st f'(3) by (intro exI [of _ f']) (auto simp: act_def)
qed (use assms in \<open>simp add: act_def\<close>)

definition arrived :: "wait_event list \<Rightarrow> actor_id set" where
  "arrived evs = {actor_id child | child. ExitArrives child \<in> set evs}"

lemma arrived_simps [simp]:
  "arrived [] = {}" "arrived (Act i # evs) = arrived evs" "arrived (TimeOver i # evs) = arrived evs"
  "arrived (ExitArrives child # evs) = insert (actor_id child) (arrived evs)"
  by (auto simp: arrived_def)

lemma owned_exit:
  assumes "owned A s"
  shows "owned (insert (actor_id child) A) (wait_step (ExitArrives child) s)"
proof -
  from assms obtain f where f: "table_owned f A (sy_table s)" "\<forall>p \<in> set (sy_parties s). party_owned f A (wt_next (sy_table s)) p"
    by (auto simp: owned_def)
  let ?t = "complete_remote_shutdown_wait (actor_id child) (sy_table s)"
  have "table_owned f (insert (actor_id child) A) ?t" "wt_next ?t = wt_next (sy_table s)"
    using f(1) by (auto simp: table_owned_def complete_remote_shutdown_wait_def split: option.split)
  then show ?thesis unfolding owned_def using f(2) party_owned_mono [of f A _ _ f]
    by (intro exI [of _ f]) (auto simp: subset_insertI)
qed

lemma owned_run: "owned A s \<Longrightarrow> owned (arrived evs \<union> A) (run_waits evs s)"
proof (induction evs arbitrary: s A)
  case (Cons e evs)
  have "owned (arrived [e] \<union> A) (wait_step e s)"
    using Cons.prems owned_act owned_exit by (cases e) auto
  from Cons.IH [OF this] show ?case by (cases e) (auto simp: Un_ac insert_commute)
qed simp

lemma wait_success_has_exit:
  assumes "\<forall>p \<in> set ps. pt_pc p = WtStart" "p \<in> set (sy_parties (run_waits evs (waits_start ps)))" "pt_pc p = WtDone (Inr ())"
  shows "\<exists>child. ExitArrives child \<in> set evs \<and> actor_id child = pt_id p"
proof -
  have "owned {} (waits_start ps)" using assms(1)
    by (auto simp: owned_def table_owned_def party_owned_def channel_of_def waits_start_def waits_empty_def)
  then have "owned (arrived evs) (run_waits evs (waits_start ps))" using owned_run by fastforce
  then show ?thesis using assms(2,3) unfolding owned_def party_owned_def arrived_def by fastforce
qed

lemma party_start_ok: "party_ok (party rt rh sd)" "pt_pc (party rt rh sd) = WtStart"
  by (simp_all add: party_ok_def party_def)

text \<open>
  C29. Each finished party of each schedule did to its node what \<open>shutdown_remote_on\<close> does when its
  waits have the outcomes that the table gave: the same result and the same signals in the same
  order, so that everything proved of the supervisors over \<open>shutdown_remote_on\<close> holds over the table.
  And it returned \<open>Ok\<close> only if an exit of an actor with the id of its child had arrived.
\<close>

theorem shutdown_waits_refine:
  assumes "p \<in> set (sy_parties (run_waits evs (waits_start (map (\<lambda>(rt, rh, sd). party rt rh sd) reqs))))" "pt_pc p = WtDone r"
  shows "shutdown_remote_on (pt_runtime p) (rwait_of (pt_outcomes p) (length (wd_published w))) (pt_child p) (pt_shutdown p) w =
      Some (r, signal_all (pt_child p) (pt_signals p) w) \<and>
    (r = Inr () \<longrightarrow> (\<exists>child. ExitArrives child \<in> set evs \<and> actor_id child = actor_id (rh_address (pt_child p))))"
proof -
  let ?ps = "map (\<lambda>(rt, rh, sd). party rt rh sd) reqs"
  have "\<forall>q \<in> set (sy_parties (waits_start ?ps)). party_ok q" and start: "\<forall>q \<in> set ?ps. pt_pc q = WtStart"
    by (auto simp: party_start_ok waits_start_def)
  then have "party_ok p" using party_ok_run assms(1) by blast
  note ref = party_done_refines [OF this assms(2)]
  have "\<exists>child. ExitArrives child \<in> set evs \<and> actor_id child = pt_id p" if "r = Inr ()"
    by (rule wait_success_has_exit [OF start assms(1)]) (use assms(2) that in simp)
  with ref show ?thesis by blast
qed

theorem shutdown_waits_refine_witness:
  "shutdown_remote_on Threads (rwait_of [Inl RsdTimeout, Inr ()] (length (wd_published demo_world))) (child_at ''b'' 5) (Timeout 7) demo_world =
     Some (Inr (), signal_all (child_at ''b'' 5) [SigShutdown, SigKill] demo_world)"
proof -
  let ?reqs = "[(Threads, child_at ''b'' 5, Timeout 7)]"
  let ?evs = "[Act 0, Act 0, TimeOver 0, Act 0, ExitArrives (rh_address (child_at ''b'' 5)), Act 0, Act 0]"
  let ?p = "\<lparr>pt_runtime = Threads, pt_child = child_at ''b'' 5, pt_shutdown = Timeout 7, pt_pc = WtDone (Inr ()),
    pt_outcomes = [Inl RsdTimeout, Inr ()], pt_signals = [SigShutdown, SigKill]\<rparr>"
  have "?p \<in> set (sy_parties (run_waits ?evs (waits_start (map (\<lambda>(rt, rh, sd). party rt rh sd) ?reqs))))"
    by (simp add: party_def waits_start_def act_def wait_defs waits_empty_def escalates_def timed_def)
  from shutdown_waits_refine [OF this, of "Inr ()"] show ?thesis by simp
qed

section \<open>Where exits are missed or confused\<close>

lemmas wait_run_simps = party_def waits_start_def act_def wait_defs waits_empty_def escalates_def timed_def

text \<open>
  C34. The table is keyed by the bare actor id, and ids are counted per node. The exit of an actor of
  any node whose id happens to be that of the waited-for child ends the wait with success, so a
  supervisor goes on as if its child were gone; and a second party that waits for a child
  with the same id on another node disconnects the first one, which fails at once, without its time
  being over. In the tasks function an exit that arrives between the kill and the
  second registration is lost as well, and a child that is gone is reported as a timeout.
\<close>

theorem shutdown_wait_confuses_nodes:
  assumes "actor_id other = actor_id (rh_address rh)" "actor_id (rh_address rh') = actor_id (rh_address rh)"
  shows "pt_pc (sy_parties (run_waits [Act 0, Act 0, ExitArrives other, Act 0, Act 0] (waits_start [party rt rh sd])) ! 0)
      = WtDone (Inr ()) \<and>
    pt_pc (sy_parties (run_waits [Act 0, Act 0, Act 1, Act 0, Act 0] (waits_start [party rt rh Infinity, party rt' rh' sd'])) ! 0)
      = WtDone (Inl RsdInterrupted) \<and>
    pt_pc (sy_parties (run_waits [Act 0, Act 0, TimeOver 0, Act 0, ExitArrives (rh_address rh), Act 0, Act 0, TimeOver 0, Act 0]
      (waits_start [party Tasks rh (Timeout d)])) ! 0) = WtDone (Inl RsdTimeout)"
proof (intro conjI)
  show "pt_pc (sy_parties (run_waits [Act 0, Act 0, ExitArrives other, Act 0, Act 0] (waits_start [party rt rh sd])) ! 0)
      = WtDone (Inr ())"
    using assms(1) by (auto simp: wait_run_simps split: mailbox_runtime.splits)
qed (use assms in \<open>simp_all add: wait_run_simps\<close>)

theorem shutdown_wait_confuses_nodes_witness:
  "pt_pc (sy_parties (run_waits [Act 0, Act 0, ExitArrives (rh_address (child_at ''c'' 5)), Act 0, Act 0]
     (waits_start [party Tasks (child_at ''b'' 5) Infinity])) ! 0) = WtDone (Inr ())"
  using shutdown_wait_confuses_nodes [of "rh_address (child_at ''c'' 5)" "child_at ''b'' 5" "child_at ''c'' 5" Tasks Infinity] by simp

end
