(* ===== verification/Group_Queries.thy ===== *)
theory Group_Queries
  imports Process_Groups "HOL-Library.Char_ord" "HOL-Library.List_Lexorder"
begin

text \<open>
  The queries of \<open>concurrency/src/pg.rs\<close> over groups and scopes, and the versions for the default
  scope. Names are sorted by their bytes. The key set of a hash map has each key once: the
  association list of the groups is read through \<open>remdups\<close>, in some order, which the sorting hides.
\<close>

definition member_addresses :: "(actor_id \<Rightarrow> bool) \<Rightarrow> string \<Rightarrow> 'v pg_store \<Rightarrow> actor_address list \<times> 'v pg_store" where
  "member_addresses alive grp st = member_addresses_scoped alive DEFAULT_SCOPE grp st"

definition get_members :: "(actor_id \<Rightarrow> bool) \<Rightarrow> string \<Rightarrow> 'v pg_store \<Rightarrow> actor_id list \<times> 'v pg_store" where
  "get_members alive grp st = get_members_scoped alive DEFAULT_SCOPE grp st"

definition get_local_members :: "(actor_id \<Rightarrow> bool) \<Rightarrow> string \<Rightarrow> 'v pg_store \<Rightarrow> actor_id list \<times> 'v pg_store" where
  "get_local_members alive grp st = get_local_members_scoped alive DEFAULT_SCOPE grp st"

definition group_keys :: "'v pg_store \<Rightarrow> group_key list" where
  "group_keys st = remdups (map fst (pg_groups st))"

definition which_groups_scoped :: "string \<Rightarrow> 'v pg_store \<Rightarrow> string list" where
  "which_groups_scoped scope st = sort (map gk_group (filter (\<lambda>k. gk_scope k = scope) (group_keys st)))"

definition which_groups :: "'v pg_store \<Rightarrow> string list" where
  "which_groups st = which_groups_scoped DEFAULT_SCOPE st"

definition which_scopes :: "'v pg_store \<Rightarrow> string list" where
  "which_scopes st = sort (remdups (map gk_scope (group_keys st)))"

section \<open>What the queries list\<close>

lemma group_keys: "distinct (group_keys st)" "set (group_keys st) = {k. map_of (pg_groups st) k \<noteq> None}"
  by (auto simp: group_keys_def map_of_eq_None_iff)

lemma which_groups_scoped:
  "sorted (which_groups_scoped scope st)" "distinct (which_groups_scoped scope st)"
  "g \<in> set (which_groups_scoped scope st) \<longleftrightarrow> map_of (pg_groups st) \<lparr>gk_scope = scope, gk_group = g\<rparr> \<noteq> None"
proof -
  have "inj_on gk_group {k :: group_key. gk_scope k = scope}" by (rule inj_onI) (simp add: group_key.equality)
  then show "distinct (which_groups_scoped scope st)"
    by (auto simp: which_groups_scoped_def distinct_map group_keys intro: inj_on_subset)
  show "g \<in> set (which_groups_scoped scope st) \<longleftrightarrow> map_of (pg_groups st) \<lparr>gk_scope = scope, gk_group = g\<rparr> \<noteq> None"
  proof
    assume "g \<in> set (which_groups_scoped scope st)"
    then obtain k where "map_of (pg_groups st) k \<noteq> None" "gk_scope k = scope" "gk_group k = g"
      by (auto simp: which_groups_scoped_def group_keys)
    then show "map_of (pg_groups st) \<lparr>gk_scope = scope, gk_group = g\<rparr> \<noteq> None" by (cases k) simp
  next
    assume "map_of (pg_groups st) \<lparr>gk_scope = scope, gk_group = g\<rparr> \<noteq> None"
    then have "\<lparr>gk_scope = scope, gk_group = g\<rparr> \<in> set (group_keys st)" by (simp add: group_keys)
    then have "\<lparr>gk_scope = scope, gk_group = g\<rparr> \<in> set (filter (\<lambda>k. gk_scope k = scope) (group_keys st))" by simp
    then show "g \<in> set (which_groups_scoped scope st)"
      unfolding which_groups_scoped_def set_sort by (metis group_key.select_convs(2) image_eqI set_map)
  qed
qed (simp add: which_groups_scoped_def)

lemma which_scopes:
  "sorted (which_scopes st)" "distinct (which_scopes st)"
  "scope \<in> set (which_scopes st) \<longleftrightarrow> which_groups_scoped scope st \<noteq> []"
  by (auto simp: which_scopes_def which_groups_scoped_def group_keys filter_empty_conv simp flip: set_empty)

text \<open>
  A group is listed from the first join of a local actor to the last leave of one, whatever remote
  members it has: the federated members of a group do not make it listed.
\<close>

lemma which_groups_join:
  "set (which_groups_scoped scope (snd (pg_join_scoped here scope g h st))) = insert g (set (which_groups_scoped scope st))"
  by (auto simp: which_groups_scoped(3) pg_join_scoped_def Let_def split: option.splits if_splits)

lemma which_groups_remote:
  "which_groups_scoped scope (apply_remote_join here scope' g a st) = which_groups_scoped scope st"
  by (auto simp: which_groups_scoped_def group_keys_def apply_remote_join_def Let_def split: option.splits)

end
