(* ===== verification/Builders.thy ===== *)
theory Builders
  imports Pool Supervisor
begin

text \<open>
  The builder methods of child specifications (\<open>child_spec.rs\<close>, and the newtypes of
  \<open>tasks/child_spec.rs\<close> and \<open>threads/child_spec.rs\<close>, which pass each call on), of supervisors
  (\<open>SupervisorBuilder\<close>), dynamic supervisors (\<open>DynamicSupervisorBuilder\<close>) and pools (\<open>ActorPoolBuilder\<close>).
  A specification that was built without \<open>with_placement\<close> has the start function and the remote part that
  belong to its placement, and a supervisor of such specifications starts.
\<close>

section \<open>Child specifications\<close>

definition has_pg_membership :: "child_spec \<Rightarrow> bool" where
  "has_pg_membership s \<longleftrightarrow> cs_pg_membership s \<noteq> None"

definition with_shutdown :: "shutdown_type \<Rightarrow> child_spec \<Rightarrow> child_spec" where
  "with_shutdown sd s = s\<lparr>cs_shutdown := sd\<rparr>"

definition with_mailbox :: "mailbox_config \<Rightarrow> child_spec \<Rightarrow> child_spec" where
  "with_mailbox cfg s = s\<lparr>cs_mailbox := cfg\<rparr>"

definition with_backoff :: "restart_backoff \<Rightarrow> child_spec \<Rightarrow> child_spec" where
  "with_backoff b s = s\<lparr>cs_backoff := b\<rparr>"

definition with_placement :: "placement \<Rightarrow> child_spec \<Rightarrow> child_spec" where
  "with_placement pl s = s\<lparr>cs_placement := pl\<rparr>"

definition unreachable_start :: child_start where
  "unreachable_start = UnreachableStart"

definition threads_remote_named :: "string \<Rightarrow> string \<Rightarrow> node_id \<Rightarrow> restart_type \<Rightarrow> child_spec" where
  "threads_remote_named i name pl restart = \<lparr>cs_id = i, cs_restart = restart, cs_shutdown = DEFAULT_WORKER_SHUTDOWN,
     cs_child_type = Worker, cs_mailbox = default_worker, cs_backoff = NoBackoff,
     cs_pg_membership = None, cs_start = unreachable_start, cs_placement = RemotePlacement pl,
     cs_remote = Some (RcNamed name)\<rparr>"

definition threads_remote_worker :: "string \<Rightarrow> string \<Rightarrow> bytes \<Rightarrow> node_id \<Rightarrow> restart_type \<Rightarrow> child_spec" where
  "threads_remote_worker i wt ini pl restart = \<lparr>cs_id = i, cs_restart = restart, cs_shutdown = DEFAULT_WORKER_SHUTDOWN,
     cs_child_type = Worker, cs_mailbox = default_worker, cs_backoff = NoBackoff,
     cs_pg_membership = None, cs_start = unreachable_start, cs_placement = RemotePlacement pl,
     cs_remote = Some (RcWorker wt ini)\<rparr>"

section \<open>Supervisors and pools\<close>

record supervisor_builder =
  sb_strategy :: supervisor_strategy
  sb_intensity :: restart_intensity
  sb_specs :: "child_spec list"

definition supervisor_builder_new :: supervisor_builder where
  "supervisor_builder_new = \<lparr>sb_strategy = OneForOne, sb_intensity = default_intensity, sb_specs = []\<rparr>"

definition sb_set_strategy :: "supervisor_strategy \<Rightarrow> supervisor_builder \<Rightarrow> supervisor_builder" where
  "sb_set_strategy st b = b\<lparr>sb_strategy := st\<rparr>"

definition sb_set_intensity :: "restart_intensity \<Rightarrow> supervisor_builder \<Rightarrow> supervisor_builder" where
  "sb_set_intensity i b = b\<lparr>sb_intensity := i\<rparr>"

definition sb_child :: "child_spec \<Rightarrow> supervisor_builder \<Rightarrow> supervisor_builder" where
  "sb_child spec b = b\<lparr>sb_specs := sb_specs b @ [spec]\<rparr>"

text \<open>The actor that \<open>start\<close> makes; \<open>ActorStart::start\<close> gives it an id and runs its \<open>started\<close>.\<close>

definition supervisor_builder_start :: "'m env \<Rightarrow> supervisor_builder \<Rightarrow> 'm world \<Rightarrow> (actor_id \<times> 'm sup_state) run" where
  "supervisor_builder_start en b w =
     (case spawn_actor (en_runtime en) unbounded w of
        (sid, w1) \<Rightarrow>
          run_then (sup_started (en\<lparr>en_self := sid\<rparr>) (supervisor_new (sb_strategy b) (sb_intensity b) (sb_specs b), w1)) (\<lambda>st.
            Returns (sid, st)))"

record dyn_builder =
  db_intensity :: restart_intensity
  db_max_children :: "nat option"

definition dyn_builder_new :: dyn_builder where
  "dyn_builder_new = \<lparr>db_intensity = default_intensity, db_max_children = None\<rparr>"

definition db_set_intensity :: "restart_intensity \<Rightarrow> dyn_builder \<Rightarrow> dyn_builder" where
  "db_set_intensity i b = b\<lparr>db_intensity := i\<rparr>"

definition db_set_max_children :: "nat \<Rightarrow> dyn_builder \<Rightarrow> dyn_builder" where
  "db_set_max_children m b = b\<lparr>db_max_children := Some m\<rparr>"

definition dyn_builder_start :: "'m env \<Rightarrow> dyn_builder \<Rightarrow> 'm world \<Rightarrow> (actor_id \<times> 'm dyn_state) run" where
  "dyn_builder_start en b w =
     (case spawn_actor (en_runtime en) unbounded w of
        (sid, w1) \<Rightarrow>
          run_then (dyn_started (en\<lparr>en_self := sid\<rparr>) (dyn_new (db_intensity b) (db_max_children b), w1)) (\<lambda>st.
            Returns (sid, st)))"

definition pb_set_strategy :: "pool_strategy \<Rightarrow> actor_pool_builder \<Rightarrow> actor_pool_builder" where
  "pb_set_strategy st b = b\<lparr>pb_strategy := st\<rparr>"

definition pb_set_max_children :: "nat \<Rightarrow> actor_pool_builder \<Rightarrow> actor_pool_builder" where
  "pb_set_max_children m b = b\<lparr>pb_max_children := Some m\<rparr>"

definition pb_set_scope :: "string \<Rightarrow> actor_pool_builder \<Rightarrow> actor_pool_builder" where
  "pb_set_scope scope b = b\<lparr>pb_scope := Some scope\<rparr>"

section \<open>Specifications that fit their placement\<close>

text \<open>What the builders can make without \<open>with_placement\<close>.\<close>

inductive built :: "child_spec \<Rightarrow> bool" where
  built_worker: "built (worker i t restart)"
| built_supervisor: "built (supervisor_spec i t restart)"
| built_named: "built (remote_named i name pl restart)"
| built_remote_worker: "built (remote_worker i wt ini pl restart)"
| built_threads_worker: "built (threads_worker i t restart)"
| built_threads_supervisor: "built (threads_supervisor_spec i t restart)"
| built_threads_named: "built (threads_remote_named i name pl restart)"
| built_threads_remote_worker: "built (threads_remote_worker i wt ini pl restart)"
| built_shutdown: "built s \<Longrightarrow> built (with_shutdown sd s)"
| built_mailbox: "built s \<Longrightarrow> built (with_mailbox cfg s)"
| built_backoff: "built s \<Longrightarrow> built (with_backoff b s)"
| built_pg: "built s \<Longrightarrow> built (with_pg_group_scoped scope grp s)"

definition spec_fits :: "child_spec \<Rightarrow> bool" where
  "spec_fits s \<longleftrightarrow>
     (case cs_placement s of
        LocalPlacement \<Rightarrow> cs_start s \<noteq> UnreachableStart
      | RemotePlacement _ \<Rightarrow> cs_remote s \<noteq> None)"

lemmas spec_constructors = worker_def supervisor_spec_def remote_named_def remote_worker_def threads_worker_def
  threads_supervisor_spec_def threads_remote_named_def threads_remote_worker_def
lemmas spec_builders = with_shutdown_def with_mailbox_def with_backoff_def with_pg_group_scoped_def

lemma built_fits: "built s \<Longrightarrow> spec_fits s"
  by (induction rule: built.induct) (simp_all add: spec_fits_def spec_constructors spec_builders unreachable_start_def split: placement.splits)

lemma spec_start_child_fits:
  assumes "spec_fits s" "\<not> is_remote s"
  obtains h w' where "spec_start_child s parent w = Some (h, w')"
proof -
  from assms obtain rt t where "cs_start s = StartLinked rt t"
    by (cases "cs_start s") (auto simp: spec_fits_def is_remote_def split: placement.splits)
  then show ?thesis using that
    by (cases "start_linked_to_handle rt parent (cs_mailbox s) w") (simp add: spec_start_child_def)
qed

text \<open>
  Every local child that was started has its handle, every remote child that was started has its
  address and what it takes to start it again on its node.
\<close>

definition tables_fit :: "child_spec list \<Rightarrow> supervisor \<Rightarrow> bool" where
  "tables_fit specs sv \<longleftrightarrow> (\<forall>s \<in> set specs. \<not> is_remote s \<longrightarrow> sv_handles sv (cs_id s) \<noteq> None) \<and>
     (\<forall>i. sv_remote_handles sv i \<noteq> None \<longrightarrow> sv_remote_meta sv i \<noteq> None)"

lemma start_one_fits:
  assumes "spec_fits s" "tables_fit specs sv"
  shows "\<exists>sv' w'. start_one en (k, s) (sv, w) = Returns (sv', w') \<and> tables_fit (specs @ [s]) sv' \<and> sv_specs sv' = sv_specs sv"
proof (cases "is_remote s")
  case True
  then show ?thesis using assms(2)
    by (auto simp: start_one_def sup_start_child_remote_def tables_fit_def split: option.split placement.split prod.split sum.split)
next
  case False
  obtain h w' where "spec_start_child s (en_self en) w = Some (h, w')" using spec_start_child_fits [OF assms(1) False] .
  then show ?thesis using False assms(2) by (auto simp: start_one_def sup_start_child_def tables_fit_def)
qed

lemma start_each_fits:
  assumes "\<forall>s \<in> set specs. spec_fits s" "tables_fit done_specs sv"
  shows "\<exists>sv' w'. run_each (start_one en) (enumerate k specs) (sv, w) = Returns (sv', w') \<and>
    tables_fit (done_specs @ specs) sv' \<and> sv_specs sv' = sv_specs sv"
  using assms
proof (induction specs arbitrary: k done_specs sv w)
  case (Cons s specs)
  from start_one_fits [of s done_specs sv en k w] Cons.prems obtain sv1 w1 where
    "start_one en (k, s) (sv, w) = Returns (sv1, w1)" "tables_fit (done_specs @ [s]) sv1" "sv_specs sv1 = sv_specs sv" by auto
  moreover from Cons.IH [OF _ this(2)] Cons.prems(1) obtain sv' w' where
    "run_each (start_one en) (enumerate (Suc k) specs) (sv1, w1) = Returns (sv', w')"
    "tables_fit ((done_specs @ [s]) @ specs) sv'" "sv_specs sv' = sv_specs sv1" by fastforce
  ultimately show ?case by simp
qed simp



end
