(* ===== verification/Crash_Restart.thy ===== *)
theory Crash_Restart
  imports Actor_Exit Supervisor_Correct
begin

text \<open>
  A supervised actor from its start to its replacement: the future that \<open>ActorRef::spawn\<close> leaves on
  the runtime (\<open>inner_future\<close> of \<open>tasks/actor.rs\<close>, the thread of \<open>threads/actor.rs\<close>) runs the actor, then tells the linked
  actors and clears the node; the supervisor takes the exit from its mailbox and restarts what its
  strategy names.
\<close>

section \<open>The spawned future\<close>

definition inner_end :: "mailbox_runtime \<Rightarrow> actor_id \<Rightarrow> exit_reason \<Rightarrow> 'm world \<Rightarrow> 'm world" where
  "inner_end rt = (case rt of Tasks \<Rightarrow> inner_future_end | Threads \<Rightarrow> threads_inner_end)"

definition set_cell :: "actor_id \<Rightarrow> 'm cell \<Rightarrow> 'm world \<Rightarrow> 'm world" where
  "set_cell a c w = w\<lparr>wd_cells := (wd_cells w)(a := c)\<rparr>"

text \<open>No reason is given while the actor is still running, or when its task was torn down.\<close>

definition actor_task ::
  "mailbox_runtime \<Rightarrow> ('s, 'm) actor \<Rightarrow> ('m cell \<Rightarrow> 'm cell) list \<Rightarrow> actor_id \<Rightarrow> 's \<Rightarrow> 'm world
    \<Rightarrow> 'm call list \<times> exit_reason option \<times> 'm world" where
  "actor_task rt ac turns a s w =
     (case run_actor rt ac turns (s, wd_cells w a) of
        (calls, Ended r, (s', c)) \<Rightarrow> (calls, Some r, inner_end rt a r (set_cell a c w))
      | (calls, _, (s', c)) \<Rightarrow> (calls, None, set_cell a c w))"

section \<open>What a run keeps of its cell\<close>

definition cb_keeps :: "('m cell \<Rightarrow> bool) \<Rightarrow> ('s, 'm) act_state callback \<Rightarrow> bool" where
  "cb_keeps P cb \<longleftrightarrow> P (snd (cb_state cb))"

definition actor_keeps :: "('m cell \<Rightarrow> bool) \<Rightarrow> ('s, 'm) actor \<Rightarrow> bool" where
  "actor_keeps P ac \<longleftrightarrow> (\<forall>s c. P c \<longrightarrow> cb_keeps P (ac_started ac (s, c)) \<and> cb_keeps P (ac_stopped ac (s, c)) \<and>
     (\<forall>m. cb_keeps P (ac_handle ac m (s, c))) \<and> (\<forall>e. cb_keeps P (ac_exit_received ac e (s, c))))"

lemma actor_keepsD:
  assumes "actor_keeps P ac" "P c"
  shows "P (snd (cb_state (ac_started ac (s, c))))" "P (snd (cb_state (ac_stopped ac (s, c))))"
    "P (snd (cb_state (ac_handle ac m (s, c))))" "P (snd (cb_state (ac_exit_received ac e (s, c))))"
  using assms by (simp_all add: actor_keeps_def cb_keeps_def)

text \<open>The links of an actor and its completion are none of the runtime's business while it runs.\<close>

definition has_links :: "actor_id list \<Rightarrow> 'm cell \<Rightarrow> bool" where
  "has_links L c \<longleftrightarrow> cl_links c = L \<and> cl_completion c = None"

lemma has_links_frame [simp]:
  "has_links L (c\<lparr>cl_mailbox := mb\<rparr>) = has_links L c" "has_links L (c\<lparr>cl_limits := l\<rparr>) = has_links L c"
  "has_links L (c\<lparr>cl_requested_exit := x\<rparr>) = has_links L c" "has_links L (c\<lparr>cl_linked_reason := y\<rparr>) = has_links L c"
  "has_links L (cancel c) = has_links L c"
  by (simp_all add: has_links_def cancel_def)

lemma handle_item_keeps:
  assumes "actor_keeps (has_links L) ac" "has_links L c" "handle_item ac it (s, c) = (calls, r, st')"
  shows "has_links L (snd st')"
proof (cases it)
  case (Message m)
  have "has_links L (snd (cb_state (ac_handle ac m (s, c\<lparr>cl_limits := on_message_dequeued (cl_limits c)\<rparr>))))"
    using actor_keepsD(3) [OF assms(1)] assms(2) by simp
  with Message assms(3) show ?thesis by (auto split: callback.splits)
next
  case (Exit e)
  from actor_keepsD(4) [OF assms(1,2)] have "has_links L (snd (cb_state (ac_exit_received ac e (s, c))))" .
  with Exit assms(3) show ?thesis by (auto split: callback.splits)
qed (use assms in auto)

lemma run_loop_keeps:
  assumes "actor_keeps (has_links L) ac" "has_links L (snd st)" "\<forall>f \<in> set turns. \<forall>c. has_links L c \<longrightarrow> has_links L (f c)"
    "run_loop rt ac turns st = (calls, res, st')"
  shows "has_links L (snd st')"
  using assms
proof (induction rt ac turns st arbitrary: calls rule: run_loop.induct)
  case (1 rt ac st)
  then show ?case by auto
next
  case (2 rt ac arrive turns s c)
  obtain o1 mb where o: "recv_on rt (cl_mailbox (arrive c)) = (o1, mb)" by fastforce
  have d: "has_links L ((arrive c)\<lparr>cl_mailbox := mb\<rparr>)" using "2.prems"(2,3) by simp
  show ?case
  proof (cases o1)
    case (Item it)
    obtain k r st1 where k: "handle_item ac it (s, (arrive c)\<lparr>cl_mailbox := mb\<rparr>) = (k, r, st1)"
      using prod_cases3 by blast
    note st1 = handle_item_keeps [OF "2.prems"(1) d k]
    show ?thesis
    proof (cases r)
      case None
      then obtain k2 where "run_loop rt ac turns st1 = (k2, res, st')"
        using "2.prems"(4) o k Item by (auto simp: Let_def apfst_def map_prod_def split: prod.splits)
      with "2.IH"(1) [OF refl o [symmetric] Item k [symmetric] refl None "2.prems"(1) st1] "2.prems"(3)
      show ?thesis by simp
    next
      case (Some r')
      with "2.prems"(4) o k Item st1 show ?thesis by (auto simp: Let_def)
    qed
  next
    case Closed
    then show ?thesis using "2.prems"(4) o d by (auto simp: Let_def)
  next
    case SelectPanic
    then show ?thesis using "2.prems"(4) o d by (auto simp: Let_def)
  next
    case Pending
    then have "run_loop rt ac turns (s, (arrive c)\<lparr>cl_mailbox := mb\<rparr>) = (calls, res, st')"
      using "2.prems"(4) o by (simp add: Let_def)
    with "2.IH"(2) [OF refl o [symmetric] Pending "2.prems"(1)] "2.prems"(3) d show ?thesis by simp
  next
    case Spinning
    then have "run_loop rt ac turns (s, (arrive c)\<lparr>cl_mailbox := mb\<rparr>) = (calls, res, st')"
      using "2.prems"(4) o by (simp add: Let_def)
    with "2.IH"(3) [OF refl o [symmetric] Spinning "2.prems"(1)] "2.prems"(3) d show ?thesis by simp
  qed
qed

lemma take_reason_keeps: "take_reason r st = (final, st') \<Longrightarrow> has_links L (snd st') = has_links L (snd st)"
  by (cases st) (auto simp: take_reason_def split: prod.splits)

lemma run_stop_keeps:
  assumes "actor_keeps (has_links L) ac" "has_links L (snd st)" "run_stop ac r st = (calls, final, st')"
  shows "has_links L (snd st')"
proof -
  obtain s c where st: "st = (s, c)" by fastforce
  have c: "has_links L (cancel c)" using assms(2) st by simp
  from actor_keepsD(2) [OF assms(1) this, of s] c assms(3) show ?thesis
    by (auto simp: st run_stop_def Let_def take_reason_keeps split: if_splits callback.splits prod.splits)
qed

lemma run_cancelled_keeps:
  assumes "actor_keeps (has_links L) ac" "has_links L (snd st)" "run_cancelled ac st = (calls, final, st')"
  shows "has_links L (snd st')"
proof -
  obtain s c where st: "st = (s, c)" by fastforce
  have c: "has_links L c" using assms(2) st by simp
  from actor_keepsD(2) [OF assms(1) this, of s] c assms(3) show ?thesis
    by (auto simp: st run_cancelled_def take_reason_keeps split: if_splits callback.splits prod.splits)
qed

lemma run_actor_keeps:
  assumes "actor_keeps (has_links L) ac" "has_links L c" "\<forall>f \<in> set turns. \<forall>c. has_links L c \<longrightarrow> has_links L (f c)"
    "run_actor rt ac turns (s, c) = (calls, res, st')"
  shows "has_links L (snd st')"
proof (cases "ac_started ac (s, c)")
  case (CbPanic p st1)
  with assms actor_keepsD(1) [OF assms(1,2), of s] show ?thesis by (cases st1) (auto simp: run_actor_def)
next
  case (CbOk st1)
  have st1: "has_links L (snd st1)" using actor_keepsD(1) [OF assms(1,2), of s] CbOk by simp
  show ?thesis
  proof (cases "cl_cancelled (snd st1)")
    case True
    obtain k r st2 where "run_cancelled ac st1 = (k, r, st2)" using prod_cases3 by blast
    with CbOk True assms(4) run_cancelled_keeps [OF assms(1) st1 this] show ?thesis by (auto simp: run_actor_def)
  next
    case False
    obtain k r st2 where lp: "run_loop rt ac turns st1 = (k, r, st2)" using prod_cases3 by blast
    note st2 = run_loop_keeps [OF assms(1) st1 assms(3) lp]
    show ?thesis
    proof (cases r)
      case (Ended x)
      obtain k' f st3 where "run_stop ac x st2 = (k', f, st3)" using prod_cases3 by blast
      with CbOk False lp Ended assms(4) run_stop_keeps [OF assms(1) st2 this] show ?thesis by (auto simp: run_actor_def)
    qed (use CbOk False lp assms(4) st2 in \<open>auto simp: run_actor_def\<close>)
  qed
qed

section \<open>From the crash to the mailbox of the supervisor\<close>

lemma inner_end_world [simp]:
  "wd_cells (inner_end rt a r w) = actor_exit (wd_here w) a r (wd_cells w)"
  "wd_addr (inner_end rt a r w) = wd_addr w" "wd_here (inner_end rt a r w) = wd_here w"
  by (cases rt; simp add: inner_end_def inner_future_end_def threads_inner_end_def propagate_remote_link_exits_def
      fold_publish actor_exit_def remove_actor_def split: prod.splits)+

lemma set_cell_world [simp]:
  "wd_cells (set_cell a c w) = (wd_cells w)(a := c)" "wd_addr (set_cell a c w) = wd_addr w" "wd_here (set_cell a c w) = wd_here w"
  by (simp_all add: set_cell_def)

lemma world_inv_set_cell:
  assumes "world_inv w" "has_links (cl_links (wd_cells w a)) c" "is_alive a (wd_cells w)"
  shows "world_inv (set_cell a c w)"
  using assms by (auto simp: world_inv_def link_inv_def untouched_def fresh_id_def alive_simps has_links_def)

lemma signal_keeps_cell [simp]:
  "cl_links (make_signal here a r c) = cl_links c" "cl_completion (make_signal here a r c) = cl_completion c"
  by (simp_all add: make_signal_def cancel_def record_linked_reason_def send_exit_def)

lemma world_inv_exit:
  assumes inv: "world_inv w" and a: "\<not> fresh_id w a"
  shows "world_inv (inner_end rt a r w)"
proof -
  have li: "link_inv (wd_cells w)" using inv by (simp add: world_inv_def)
  note ap = actor_exit_apply [where w = "wd_cells w" and own = a and here = "wd_here w" and r = r, OF link_invD(1,2) [OF li]]
  have "untouched i (actor_exit (wd_here w) a r (wd_cells w))" if "fresh_id w i" for i
  proof -
    have "untouched i (wd_cells w)" "i \<noteq> a" using inv a that by (auto simp: world_inv_def)
    then show ?thesis by (auto simp: untouched_def ap alive_simps drop_link_def)
  qed
  then show ?thesis using link_inv_exit [OF li] by (simp add: world_inv_def fresh_id_def)
qed

lemma trapper_hears:
  assumes "link_inv cs" "h \<in> set (cl_links (cs a))" "cl_trap_exit (cs h)" "r \<noteq> Kill"
    "rx_alive (supervision (cl_mailbox (cs h)))"
  shows "actor_exit here a r cs h = (drop_link a (cs h))\<lparr>cl_mailbox := (cl_mailbox (cs h))\<lparr>supervision :=
    (supervision (cl_mailbox (cs h)))\<lparr>queue := queue (supervision (cl_mailbox (cs h))) @
      [\<lparr>exit_from = address_local here a, exit_cause = r\<rparr>]\<rparr>\<rparr>\<rparr>"
proof -
  have "h \<noteq> a" using assms(1,2) link_invD(2) by fastforce
  then have "actor_exit here a r cs h = make_signal here a r (drop_link a (cs h))"
    using actor_exit_apply [where w = cs and own = a and here = here and r = r, OF link_invD(1,2) [OF assms(1)]] assms(2) by simp
  then show ?thesis using assms(3-5)
    by (simp add: make_signal_def drop_link_def send_exit_def send_supervision_tasks_def send_control_def chan_send_def)
qed

text \<open>A supervisor that is linked to the actor, traps exits and has an otherwise empty control mailbox.\<close>

definition supervising :: "actor_id \<Rightarrow> actor_id \<Rightarrow> 'm world \<Rightarrow> bool" where
  "supervising h a w \<longleftrightarrow> h \<in> set (cl_links (wd_cells w a)) \<and> is_alive a (wd_cells w) \<and> cl_trap_exit (wd_cells w h) \<and>
     (let mb = cl_mailbox (wd_cells w h)
      in rx_alive (supervision mb) \<and> \<not> supervision_closed mb \<and> queue (supervision mb) = [] \<and> queue (signal mb) = [] \<and>
         queue (stop mb) = [])"

lemma recv_supervision:
  assumes "\<not> supervision_closed mb" "queue (signal mb) = []" "queue (stop mb) = []" "queue (supervision mb) = [e]"
  obtains mb' where "recv_on rt mb = (Item (Exit e), mb')"
proof -
  have "\<not> all_closed mb" using assms(1) by (simp add: all_closed_def)
  then have "\<exists>mb'. recv_on rt mb = (Item (Exit e), mb')" using assms
    by (cases rt) (simp_all add: tasks_recv_def threads_recv_def try_signal_def try_stop_def try_supervision_def chan_try_recv_def)
  then show ?thesis using that by blast
qed

lemma sup_rep_world:
  assumes "sup_rep en hs al (sv, w)" "world_inv w'" "wd_addr w' = wd_addr w" "is_alive (en_self en) (wd_cells w')"
  shows "sup_rep en hs al (sv, w')"
  using assms by (simp add: sup_rep_def fresh_id_def)


text \<open>A worker that panics on the first message, under a supervisor with that one child.\<close>

definition crashing_actor :: "(unit, nat) actor" where
  "crashing_actor = \<lparr>ac_started = CbOk, ac_handle = (\<lambda>m st. CbPanic (StrPayload ''boom'') st), ac_exit_received = (\<lambda>e st. CbOk st),
     ac_stopped = CbOk\<rparr>"

definition lone_sup :: supervisor where
  "lone_sup = (supervisor_new OneForOne default_intensity [worker ''a'' 1 Transient])
     \<lparr>sv_logic := (logic_new OneForOne default_intensity)\<lparr>lg_children :=
        child_rows [worker ''a'' 1 Transient] [ActorId 2] [True]\<rparr>,
      sv_handles := [''a'' \<mapsto> ActorId 2]\<rparr>"

definition lone_cells :: "nat cells" where
  "lone_cells = (\<lambda>_. new_cell)
     (ActorId 1 := new_cell\<lparr>cl_trap_exit := True, cl_links := [ActorId 2]\<rparr>,
      ActorId 2 := new_cell\<lparr>cl_links := [ActorId 1]\<rparr>)"

definition lone_world :: "nat world" where
  "lone_world = demo_world\<lparr>wd_addr := (wd_addr demo_world)\<lparr>next_actor_id := 3\<rparr>, wd_cells := lone_cells\<rparr>"

definition tell :: "nat \<Rightarrow> nat cell \<Rightarrow> nat cell" where
  "tell m c = c\<lparr>cl_mailbox := (cl_mailbox c)\<lparr>user := (user (cl_mailbox c))\<lparr>queue := queue (user (cl_mailbox c)) @ [m]\<rparr>\<rparr>\<rparr>"

lemma lone_rep: "sup_rep demo_env [ActorId 2] [True] (lone_sup, lone_world)"
  by (auto simp: sup_rep_def lone_sup_def supervisor_new_def local_specs_def worker_def is_remote_def
      demo_env_def world_inv_def link_inv_def untouched_def fresh_id_def lone_world_def demo_world_def lone_cells_def
      alive_simps word_le_nat_alt split: if_splits)


end
