(* ===== verification/Actor_Start.thy ===== *)
theory Actor_Start
  imports World
begin

text \<open>
  The ways to start an actor (\<open>ActorStart\<close> of \<open>tasks/actor.rs\<close> and \<open>threads/actor.rs\<close>). The backend of a tasks actor decides
  which thread runs its future and nothing that other actors see; each start makes a new actor, and
  the linked ones link it to its parent afterwards.
\<close>

datatype backend = Async | Blocking | Thread

definition start_with_backend_and_mailbox :: "backend \<Rightarrow> mailbox_config \<Rightarrow> 'm world \<Rightarrow> actor_id \<times> 'm world" where
  "start_with_backend_and_mailbox b cfg w = spawn_actor Tasks cfg w"

definition start_with_mailbox :: "mailbox_config \<Rightarrow> 'm world \<Rightarrow> actor_id \<times> 'm world" where
  "start_with_mailbox cfg w = start_with_backend_and_mailbox Async cfg w"

definition start_with_backend :: "backend \<Rightarrow> 'm world \<Rightarrow> actor_id \<times> 'm world" where
  "start_with_backend b w = start_with_backend_and_mailbox b unbounded w"

definition actor_start :: "'m world \<Rightarrow> actor_id \<times> 'm world" where
  "actor_start w = start_with_backend Async w"

definition start_linked_with_mailbox :: "actor_id \<Rightarrow> mailbox_config \<Rightarrow> 'm world \<Rightarrow> actor_id \<times> 'm world" where
  "start_linked_with_mailbox parent cfg w = start_linked_to_handle Tasks parent cfg w"

definition start_linked :: "actor_id \<Rightarrow> 'm world \<Rightarrow> actor_id \<times> 'm world" where
  "start_linked parent w = start_linked_with_mailbox parent unbounded w"

section \<open>The threads runtime\<close>

definition threads_start_with_mailbox :: "mailbox_config \<Rightarrow> 'm world \<Rightarrow> actor_id \<times> 'm world" where
  "threads_start_with_mailbox cfg w = spawn_actor Threads cfg w"

definition threads_start :: "'m world \<Rightarrow> actor_id \<times> 'm world" where
  "threads_start w = threads_start_with_mailbox unbounded w"

definition threads_start_linked_to_handle :: "actor_id \<Rightarrow> mailbox_config \<Rightarrow> 'm world \<Rightarrow> actor_id \<times> 'm world" where
  "threads_start_linked_to_handle parent cfg w =
     (case threads_start_with_mailbox cfg w of (i, w1) \<Rightarrow> (i, over_cells (link_handles (wd_here w1) parent i) w1))"

definition threads_start_linked_with_mailbox :: "actor_id \<Rightarrow> mailbox_config \<Rightarrow> 'm world \<Rightarrow> actor_id \<times> 'm world" where
  "threads_start_linked_with_mailbox parent cfg w = threads_start_linked_to_handle parent cfg w"

definition threads_start_linked :: "actor_id \<Rightarrow> 'm world \<Rightarrow> actor_id \<times> 'm world" where
  "threads_start_linked parent w = threads_start_linked_with_mailbox parent unbounded w"

section \<open>What a linked start gives\<close>

lemma threads_linked_eq: "threads_start_linked_to_handle parent cfg w = start_linked_to_handle Threads parent cfg w"
  by (simp add: threads_start_linked_to_handle_def threads_start_with_mailbox_def start_linked_to_handle_def)

text \<open>
  In both runtimes a linked start gives a new live actor with an empty mailbox of the wanted capacity,
  linked to its parent and to nobody else, and the parent to it.
\<close>

lemma start_linked_gives:
  assumes "world_inv w" "\<not> fresh_id w parent"
    and "start_linked_with_mailbox parent cfg w = (i, w') \<or> threads_start_linked_with_mailbox parent cfg w = (i, w')"
  shows "fresh_id w i" "is_alive i (wd_cells w')" "cl_links (wd_cells w' i) = [parent]"
    "i \<in> set (cl_links (wd_cells w' parent))" "queue (user (cl_mailbox (wd_cells w' i))) = []"
proof -
  from assms(3) obtain rt where st: "start_linked_to_handle rt parent cfg w = (i, w')"
    by (auto simp: start_linked_with_mailbox_def threads_start_linked_with_mailbox_def threads_linked_eq)
  note c = start_linked_cells [OF assms(1,2) st]
  show "fresh_id w i" by (simp add: c(1) fresh_id_def)
  show "is_alive i (wd_cells w')" "cl_links (wd_cells w' i) = [parent]" "i \<in> set (cl_links (wd_cells w' parent))"
    "queue (user (cl_mailbox (wd_cells w' i))) = []"
    using c(2) by (simp_all add: c(3) cell_with_def push_link_def alive_simps tasks_channel_def chan_new_def)
qed

end
