(* ===== verification/Tcp_Listener.thy ===== *)
theory Tcp_Listener
  imports Tcp
begin

text \<open>
  The listener of the TCP transport (\<open>cluster/src/tcp/listener.rs\<close>): binding, the thread that accepts connections, and its
  shutdown. What the thread sees of the operating system and of the shutdown flag is a list of turns of
  its loop; the list ends where the observation ends. Each accepted connection gets a thread of its
  own, which runs \<open>serve_connection\<close>.
\<close>

section \<open>Accepting\<close>

datatype 'c accepted = AcceptOk 'c | AcceptWouldBlock | AcceptErr

text \<open>A turn: the flag at the head of the loop, what \<open>accept\<close> gives, the flag when an error is looked at.\<close>

record 'c accept_turn =
  at_shutdown :: bool
  at_result :: "'c accepted"
  at_error_shutdown :: bool

text \<open>The result tells whether the loop was left, and the connections it gave to threads.\<close>

fun accept_loop :: "'c accept_turn list \<Rightarrow> bool \<times> 'c list" where
  "accept_loop [] = (False, [])"
| "accept_loop (t # ts) =
     (if at_shutdown t then (True, [])
      else case at_result t of
             AcceptOk c \<Rightarrow> apsnd ((#) c) (accept_loop ts)
           | AcceptWouldBlock \<Rightarrow> accept_loop ts
           | AcceptErr \<Rightarrow> if at_error_shutdown t then (True, []) else accept_loop ts)"

section \<open>The listener\<close>

record 'a tcp_listener =
  tl_local_addr :: 'a
  tl_local_node :: node_id
  tl_shutdown :: bool
  tl_join :: bool

text \<open>What the operating system answers to \<open>bind\<close>, \<open>local_addr\<close>, \<open>set_nonblocking\<close> and the start of the thread.\<close>

record 'a bind_answers =
  ba_bind :: "string + unit"
  ba_local_addr :: "string + 'a"
  ba_nonblocking :: "string + unit"
  ba_thread :: "string + unit"

definition bind_with_control_plane :: "'a bind_answers \<Rightarrow> node_id \<Rightarrow> transport_error + 'a tcp_listener" where
  "bind_with_control_plane ba here =
     (case ba_bind ba of
        Inl e \<Rightarrow> Inl (TeIo e)
      | Inr _ \<Rightarrow>
          (case ba_local_addr ba of
             Inl e \<Rightarrow> Inl (TeIo e)
           | Inr addr \<Rightarrow>
               (case ba_nonblocking ba of
                  Inl e \<Rightarrow> Inl (TeIo e)
                | Inr _ \<Rightarrow>
                    (case ba_thread ba of
                       Inl e \<Rightarrow> Inl (TeIo e)
                     | Inr _ \<Rightarrow> Inr \<lparr>tl_local_addr = addr, tl_local_node = here, tl_shutdown = False, tl_join = True\<rparr>))))"

text \<open>\<open>shutdown\<close> sets the flag and joins the thread; \<open>turns\<close> is what the thread sees from then on.\<close>

definition listener_shutdown :: "'c accept_turn list \<Rightarrow> 'a tcp_listener \<Rightarrow> 'a tcp_listener run" where
  "listener_shutdown turns l =
     (let l1 = l\<lparr>tl_shutdown := True\<rparr>
      in if \<not> tl_join l1 then Returns l1
         else if fst (accept_loop turns) then Returns (l1\<lparr>tl_join := False\<rparr>) else Hangs)"

definition listener_drop :: "'a tcp_listener \<Rightarrow> 'a tcp_listener" where
  "listener_drop l = l\<lparr>tl_shutdown := True\<rparr>"

section \<open>Facts\<close>

fun accepted_in :: "'c accept_turn list \<Rightarrow> 'c list" where
  "accepted_in [] = []"
| "accepted_in (t # ts) = (case at_result t of AcceptOk c \<Rightarrow> c # accepted_in ts | _ \<Rightarrow> accepted_in ts)"

text \<open>
  Without a shutdown the loop never ends, whatever errors \<open>accept\<close> reports, and every connection gets its thread in the order
  of arrival; the first turn that finds the flag set ends it, and later connections are not served.
\<close>

lemma accept_loop_serves:
  assumes "\<forall>t \<in> set ts. \<not> at_shutdown t \<and> \<not> at_error_shutdown t"
  shows "accept_loop ts = (False, accepted_in ts)" "at_shutdown t \<Longrightarrow> accept_loop (ts @ t # us) = (True, accepted_in ts)"
  using assms by (induction ts) (auto split: accepted.split)

lemma shutdown_joins:
  assumes "turns = t # ts" "at_shutdown t \<or> (\<not> tl_join l)"
  shows "\<exists>l'. listener_shutdown turns l = Returns l' \<and> tl_shutdown l' \<and> \<not> tl_join l'"
  using assms by (auto simp: listener_shutdown_def Let_def)

lemma bind_ok:
  "is_ok (bind_with_control_plane ba n) \<longleftrightarrow> is_ok (ba_bind ba) \<and> is_ok (ba_local_addr ba) \<and> is_ok (ba_nonblocking ba) \<and> is_ok (ba_thread ba)"
  by (auto simp: bind_with_control_plane_def is_ok_def split: sum.splits)

end
