(* ===== verification/Observability.thy ===== *)
theory Observability
  imports Supervisor_Logic
begin

text \<open>
  The events and the metric hooks of supervision (\<open>concurrency/src/observability/mod.rs\<close>): the global recorder, what each
  function traces and which hook it calls. A recorder is a transformer of the metrics of its author; traced
  events are collected. Durations are milliseconds, as the events give them.
\<close>

section \<open>The recorder\<close>

record 'm supervision_recorder =
  sr_inc_restart :: "actor_id \<Rightarrow> string \<Rightarrow> bool \<Rightarrow> 'm \<Rightarrow> 'm"
  sr_inc_meltdown :: "actor_id \<Rightarrow> 'm \<Rightarrow> 'm"
  sr_record_remote_spawn :: "node_id \<Rightarrow> u64 \<Rightarrow> bool \<Rightarrow> 'm \<Rightarrow> 'm"
  sr_inc_remote_spawn_retry :: "node_id \<Rightarrow> 'm \<Rightarrow> 'm"

definition noop_recorder :: "'m supervision_recorder" where
  "noop_recorder = \<lparr>sr_inc_restart = (\<lambda>s c r. id), sr_inc_meltdown = (\<lambda>s. id), sr_record_remote_spawn = (\<lambda>p d ok. id),
     sr_inc_remote_spawn_retry = (\<lambda>p. id)\<rparr>"

datatype trace_level = LevelDebug | LevelInfo | LevelWarn

datatype trace_event =
    TraceChildExit actor_id string actor_id exit_reason
  | TraceRestartScheduled actor_id string u64 bool
  | TraceBatchTerminate actor_id supervisor_strategy "string list"
  | TraceMeltdown actor_id
  | TraceRemoteSpawn node_id string u64 bool
  | TraceRemoteSpawnRetry node_id u32 u32
  | TraceRemoteShutdownWait string string bool
  | TraceBrokerSpawn u64 string node_id
  | TraceBrokerChildExit string string string
  | TraceBrokerSignal string string

record 'm obs =
  ob_slot :: "'m supervision_recorder option"
  ob_metrics :: 'm
  ob_trace :: "(trace_level \<times> trace_event) list"

definition install_supervision_recorder :: "'m supervision_recorder \<Rightarrow> 'm obs \<Rightarrow> 'm obs \<times> bool" where
  "install_supervision_recorder r ob = (ob\<lparr>ob_slot := Some r\<rparr>, ob_slot ob = None)"

definition supervision_recorder_of :: "'m obs \<Rightarrow> 'm supervision_recorder" where
  "supervision_recorder_of ob = (case ob_slot ob of Some r \<Rightarrow> r | None \<Rightarrow> noop_recorder)"

section \<open>The events\<close>

definition trace :: "trace_level \<Rightarrow> trace_event \<Rightarrow> 'm obs \<Rightarrow> 'm obs" where
  "trace l e ob = ob\<lparr>ob_trace := ob_trace ob @ [(l, e)]\<rparr>"

definition record_with :: "('m supervision_recorder \<Rightarrow> 'm \<Rightarrow> 'm) \<Rightarrow> 'm obs \<Rightarrow> 'm obs" where
  "record_with f ob = ob\<lparr>ob_metrics := f (supervision_recorder_of ob) (ob_metrics ob)\<rparr>"

definition child_exit :: "actor_id \<Rightarrow> string \<Rightarrow> actor_id \<Rightarrow> exit_reason \<Rightarrow> 'm obs \<Rightarrow> 'm obs" where
  "child_exit supervisor child actor reason = trace LevelDebug (TraceChildExit supervisor child actor reason)"

definition restart_scheduled :: "actor_id \<Rightarrow> string \<Rightarrow> u64 \<Rightarrow> bool \<Rightarrow> 'm obs \<Rightarrow> 'm obs" where
  "restart_scheduled supervisor child backoff remote ob =
     record_with (\<lambda>r. sr_inc_restart r supervisor child remote)
       (trace LevelInfo (TraceRestartScheduled supervisor child backoff remote) ob)"

definition batch_terminate :: "actor_id \<Rightarrow> supervisor_strategy \<Rightarrow> string list \<Rightarrow> 'm obs \<Rightarrow> 'm obs" where
  "batch_terminate supervisor strategy ids = trace LevelInfo (TraceBatchTerminate supervisor strategy ids)"

definition meltdown :: "actor_id \<Rightarrow> 'm obs \<Rightarrow> 'm obs" where
  "meltdown supervisor ob = record_with (\<lambda>r. sr_inc_meltdown r supervisor) (trace LevelWarn (TraceMeltdown supervisor) ob)"

definition remote_spawn :: "node_id \<Rightarrow> string \<Rightarrow> u64 \<Rightarrow> bool \<Rightarrow> 'm obs \<Rightarrow> 'm obs" where
  "remote_spawn placement child duration ok ob =
     record_with (\<lambda>r. sr_record_remote_spawn r placement duration ok)
       (trace (if ok then LevelInfo else LevelWarn) (TraceRemoteSpawn placement child duration ok) ob)"

definition remote_spawn_retry :: "node_id \<Rightarrow> u32 \<Rightarrow> u32 \<Rightarrow> 'm obs \<Rightarrow> 'm obs" where
  "remote_spawn_retry placement attempt max_attempts ob =
     record_with (\<lambda>r. sr_inc_remote_spawn_retry r placement)
       (trace LevelWarn (TraceRemoteSpawnRetry placement attempt max_attempts) ob)"

definition remote_shutdown_wait :: "string \<Rightarrow> string \<Rightarrow> bool \<Rightarrow> 'm obs \<Rightarrow> 'm obs" where
  "remote_shutdown_wait child policy ok =
     trace (if ok then LevelDebug else LevelWarn) (TraceRemoteShutdownWait child policy ok)"

definition broker_spawn :: "u64 \<Rightarrow> string \<Rightarrow> node_id \<Rightarrow> 'm obs \<Rightarrow> 'm obs" where
  "broker_spawn correlation parent placement = trace LevelDebug (TraceBrokerSpawn correlation parent placement)"

definition broker_child_exit :: "string \<Rightarrow> string \<Rightarrow> string \<Rightarrow> 'm obs \<Rightarrow> 'm obs" where
  "broker_child_exit child parent reason = trace LevelDebug (TraceBrokerChildExit child parent reason)"

definition broker_signal :: "string \<Rightarrow> string \<Rightarrow> 'm obs \<Rightarrow> 'm obs" where
  "broker_signal target sig = trace LevelDebug (TraceBrokerSignal target sig)"

text \<open>The call that traces an event.\<close>

fun observe :: "trace_event \<Rightarrow> 'm obs \<Rightarrow> 'm obs" where
  "observe (TraceChildExit s c a r) = child_exit s c a r"
| "observe (TraceRestartScheduled s c b r) = restart_scheduled s c b r"
| "observe (TraceBatchTerminate s st ids) = batch_terminate s st ids"
| "observe (TraceMeltdown s) = meltdown s"
| "observe (TraceRemoteSpawn p c d ok) = remote_spawn p c d ok"
| "observe (TraceRemoteSpawnRetry p a m) = remote_spawn_retry p a m"
| "observe (TraceRemoteShutdownWait c s ok) = remote_shutdown_wait c s ok"
| "observe (TraceBrokerSpawn c p n) = broker_spawn c p n"
| "observe (TraceBrokerChildExit c p r) = broker_child_exit c p r"
| "observe (TraceBrokerSignal t s) = broker_signal t s"

lemmas observe_defs = child_exit_def restart_scheduled_def batch_terminate_def meltdown_def remote_spawn_def
  remote_spawn_retry_def remote_shutdown_wait_def broker_spawn_def broker_child_exit_def broker_signal_def trace_def record_with_def

section \<open>What a recorder sees\<close>

text \<open>
  A recorder that counts each kind of hook agrees with the trace: metrics and events never
  diverge, and calls without a hook leave the metrics alone.
\<close>

type_synonym counters = "nat \<times> nat \<times> nat \<times> nat"

definition counting :: "counters supervision_recorder" where
  "counting = \<lparr>sr_inc_restart = (\<lambda>s c r (a, b, d, e). (a + 1, b, d, e)), sr_inc_meltdown = (\<lambda>s (a, b, d, e). (a, b + 1, d, e)),
     sr_record_remote_spawn = (\<lambda>p t ok (a, b, d, e). (a, b, d + 1, e)), sr_inc_remote_spawn_retry = (\<lambda>p (a, b, d, e). (a, b, d, e + 1))\<rparr>"

fun counts :: "trace_event list \<Rightarrow> counters" where
  "counts es =
     (length (filter (\<lambda>e. case e of TraceRestartScheduled _ _ _ _ \<Rightarrow> True | _ \<Rightarrow> False) es),
      length (filter (\<lambda>e. case e of TraceMeltdown _ \<Rightarrow> True | _ \<Rightarrow> False) es),
      length (filter (\<lambda>e. case e of TraceRemoteSpawn _ _ _ _ \<Rightarrow> True | _ \<Rightarrow> False) es),
      length (filter (\<lambda>e. case e of TraceRemoteSpawnRetry _ _ _ \<Rightarrow> True | _ \<Rightarrow> False) es))"

lemma observe_frame: "ob_slot (observe e ob) = ob_slot ob" "map snd (ob_trace (observe e ob)) = map snd (ob_trace ob) @ [e]"
  by (cases e; simp add: observe_defs)+

lemma observe_counts:
  assumes "ob_slot ob = Some counting" "ob_metrics ob = counts (map snd (ob_trace ob))"
  shows "ob_metrics (observe e ob) = counts (map snd (ob_trace (observe e ob)))"
  using assms by (cases e) (simp_all add: observe_defs supervision_recorder_of_def counting_def)

lemma metrics_agree_with_trace:
  assumes "ob_slot ob = Some counting" "ob_metrics ob = counts (map snd (ob_trace ob))"
  shows "ob_metrics (fold observe es ob) = counts (map snd (ob_trace (fold observe es ob)))"
  using assms by (induction es arbitrary: ob) (simp_all add: observe_counts observe_frame del: counts.simps)

lemma unrecorded_metrics_stay: "ob_slot ob = None \<Longrightarrow> ob_metrics (fold observe es ob) = ob_metrics ob"
proof (induction es arbitrary: ob)
  case (Cons e es)
  have "ob_metrics (observe e ob) = ob_metrics ob"
    using Cons.prems by (cases e) (simp_all add: observe_defs supervision_recorder_of_def noop_recorder_def)
  then show ?case using Cons by (simp add: observe_frame)
qed simp

text \<open>
  Installing over a recorder answers \<open>false\<close>, and the new recorder has replaced the old one all the same.
\<close>

lemma second_install_replaces:
  "install_supervision_recorder r2 (fst (install_supervision_recorder r1 ob)) = (ob\<lparr>ob_slot := Some r2\<rparr>, False)"
  by (simp add: install_supervision_recorder_def)

end
