(* ===== verification/Example_Actors.thy ===== *)
theory Example_Actors
  imports Actor_Calls
begin

text \<open>
  Three of the example programs, as clients of the actor runtime: the bank (\<open>examples/bank\<close> and its copy for
  threads), the name server (\<open>examples/name_server\<close>) and the room of the chat (\<open>examples/chat_room\<close> and its copy). Each is a
  \<open>behaviour\<close> that \<open>Actor_Calls\<close> serves. Balances are 32-bit; whether their arithmetic is checked depends on the build
  profile and is an argument. The references to the users of a room are their actor ids, and the messages it
  sends to them are collected.
\<close>

section \<open>The bank\<close>

type_synonym i32 = "32 word"

datatype bank_out =
    Welcome string
  | Balance string i32
  | WithdrawOk string i32
  | Stopped

datatype bank_error =
    AlreadyACustomer string
  | NotACustomer string
  | InsufficientBalance string i32

datatype bank_msg = NewAccount string | Deposit string i32 | Withdraw string i32 | StopBank

type_synonym ledger = "string \<rightharpoonup> i32"

type_synonym ('s, 'm, 'r) handler_of = "('s, 'm envelope) act_state \<Rightarrow> ('r, ('s, 'm envelope) act_state) answer"

definition bank_new :: ledger where
  "bank_new = Map.empty"

definition bank_started :: "(ledger, 'm) act_state \<Rightarrow> (ledger, 'm) act_state callback" where
  "bank_started = (\<lambda>(s, c). CbOk (s(''main'' \<mapsto> 1000), c))"

text \<open>With checks an overflow panics, without them it wraps.\<close>

definition checked :: "bool \<Rightarrow> int \<Rightarrow> i32 \<Rightarrow> i32 option" where
  "checked chk exact v = (if chk \<and> sint v \<noteq> exact then None else Some v)"

definition handle_new_account :: "string \<Rightarrow> (ledger, bank_msg, bank_error + bank_out) handler_of" where
  "handle_new_account who = (\<lambda>(s, c).
     (case s who of
        Some _ \<Rightarrow> Answers (Inl (AlreadyACustomer who)) (s, c)
      | None \<Rightarrow> Answers (Inr (Welcome who)) (s(who \<mapsto> 0), c)))"

definition handle_deposit :: "bool \<Rightarrow> string \<Rightarrow> i32 \<Rightarrow> (ledger, bank_msg, bank_error + bank_out) handler_of" where
  "handle_deposit chk who amount = (\<lambda>(s, c).
     (case s who of
        Some current \<Rightarrow>
          (case checked chk (sint current + sint amount) (current + amount) of
             None \<Rightarrow> AnswerPanic (StrPayload ''attempt to add with overflow'') (s, c)
           | Some new_amount \<Rightarrow> Answers (Inr (Balance who new_amount)) (s(who \<mapsto> new_amount), c))
      | None \<Rightarrow> Answers (Inl (NotACustomer who)) (s, c)))"

definition handle_withdraw :: "bool \<Rightarrow> string \<Rightarrow> i32 \<Rightarrow> (ledger, bank_msg, bank_error + bank_out) handler_of" where
  "handle_withdraw chk who amount = (\<lambda>(s, c).
     (case s who of
        Some current \<Rightarrow>
          if sint current < sint amount then Answers (Inl (InsufficientBalance who current)) (s, c)
          else (case checked chk (sint current - sint amount) (current - amount) of
                  None \<Rightarrow> AnswerPanic (StrPayload ''attempt to subtract with overflow'') (s, c)
                | Some new_amount \<Rightarrow> Answers (Inr (WithdrawOk who new_amount)) (s(who \<mapsto> new_amount), c))
      | None \<Rightarrow> Answers (Inl (NotACustomer who)) (s, c)))"

definition handle_stop_bank :: "(ledger, bank_msg, bank_error + bank_out) handler_of" where
  "handle_stop_bank = (\<lambda>(s, c). Answers (Inr Stopped) (s, cancel c))"

fun bank_handle :: "bool \<Rightarrow> bank_msg \<Rightarrow> (ledger, bank_msg, bank_error + bank_out) handler_of" where
  "bank_handle chk (NewAccount who) = handle_new_account who"
| "bank_handle chk (Deposit who amount) = handle_deposit chk who amount"
| "bank_handle chk (Withdraw who amount) = handle_withdraw chk who amount"
| "bank_handle chk StopBank = handle_stop_bank"

definition bank :: "bool \<Rightarrow> (ledger, bank_msg, bank_error + bank_out) behaviour" where
  "bank chk = \<lparr>bh_started = bank_started, bh_handle = bank_handle chk, bh_exit_received = (\<lambda>e. CbOk), bh_stopped = CbOk\<rparr>"

section \<open>The name server and the chat room\<close>

datatype name_msg = AddName string string | FindName string

datatype find_result = Found string | NotFound

fun name_server_handle :: "name_msg \<Rightarrow> (string \<rightharpoonup> string, name_msg, unit + find_result) handler_of" where
  "name_server_handle (AddName k v) = (\<lambda>(s, c). Answers (Inl ()) (s(k \<mapsto> v), c))"
| "name_server_handle (FindName k) = (\<lambda>(s, c). Answers (Inr (case s k of Some v \<Rightarrow> Found v | None \<Rightarrow> NotFound)) (s, c))"

datatype room_msg = Say string string | AddMember string actor_id | Members

datatype room_answer = RoomOk | Names "string list"

text \<open>What the room delivers: to whom, from whom, and the text, in the order of the sends.\<close>

record room =
  rm_members :: "(string \<times> actor_id) list"
  rm_delivered :: "(actor_id \<times> string \<times> string) list"

fun room_handle :: "room_msg \<Rightarrow> (room, room_msg, room_answer) handler_of" where
  "room_handle (Say from body) = (\<lambda>(s, c).
     Answers RoomOk (s\<lparr>rm_delivered := rm_delivered s @ map (\<lambda>(_, u). (u, from, body)) (filter (\<lambda>(n, _). n \<noteq> from) (rm_members s))\<rparr>, c))"
| "room_handle (AddMember name usr) = (\<lambda>(s, c). Answers RoomOk (s\<lparr>rm_members := rm_members s @ [(name, usr)]\<rparr>, c))"
| "room_handle Members = (\<lambda>(s, c). Answers (Names (map fst (rm_members s))) (s, c))"

section \<open>The books of the bank\<close>

text \<open>A sequence of requests, until a handler panics: the replies and the ledger.\<close>

fun serve :: "bool \<Rightarrow> bank_msg list \<Rightarrow> (ledger, bank_msg envelope) act_state \<Rightarrow> (bank_error + bank_out) list \<times> ledger" where
  "serve chk [] st = ([], fst st)"
| "serve chk (m # ms) st =
     (case bank_handle chk m st of
        AnswerPanic p st1 \<Rightarrow> ([], fst st1)
      | Answers r st1 \<Rightarrow> apfst ((#) r) (serve chk ms st1))"

text \<open>What a request that was answered with a success moves into the account of \<open>who\<close>.\<close>

fun moved :: "string \<Rightarrow> bank_msg \<Rightarrow> bank_error + bank_out \<Rightarrow> int" where
  "moved who (Deposit w a) (Inr _) = (if w = who then sint a else 0)"
| "moved who (Withdraw w a) (Inr _) = (if w = who then - sint a else 0)"
| "moved who _ _ = 0"

definition balance :: "string \<Rightarrow> ledger \<Rightarrow> int" where
  "balance who s = (case s who of Some v \<Rightarrow> sint v | None \<Rightarrow> 0)"

lemma bank_handle_books:
  assumes "bank_handle True m (s, c) = Answers r (s', c')"
  shows "balance who s' = balance who s + moved who m r"
  using assms
  by (cases m)
    (auto simp: handle_new_account_def handle_deposit_def handle_withdraw_def handle_stop_bank_def checked_def balance_def
      split: option.splits if_splits)

lemma bank_panic_keeps: "bank_handle chk m (s, c) = AnswerPanic p (s', c') \<Longrightarrow> s' = s"
  by (cases m)
    (auto simp: handle_new_account_def handle_deposit_def handle_withdraw_def handle_stop_bank_def
      split: option.splits if_splits)

text \<open>
  With checked arithmetic the balance of everybody is, after any requests, what it was before plus
  the amounts of the requests that were answered with success.
\<close>

lemma bank_books:
  "serve True ms (s, c) = (rs, s') \<Longrightarrow> balance who s' = balance who s + (\<Sum>(m, r) \<leftarrow> zip ms rs. moved who m r)"
proof (induction ms arbitrary: s c rs)
  case (Cons m ms)
  show ?case
  proof (cases "bank_handle True m (s, c)")
    case (AnswerPanic p st1)
    then show ?thesis using Cons.prems bank_panic_keeps [of True m s c p] by (cases st1) auto
  next
    case (Answers r st1)
    obtain s1 c1 where st1: "st1 = (s1, c1)" by fastforce
    obtain rs1 where rs1: "serve True ms (s1, c1) = (rs1, s')" "rs = r # rs1"
      using Cons.prems Answers st1 by (cases "serve True ms (s1, c1)") auto
    from Cons.IH [OF rs1(1)] bank_handle_books [of m s c r s1 c1 who] Answers st1 rs1(2) show ?thesis by simp
  qed
qed simp

text \<open>No request with amounts that are not negative overdraws an account; one with a negative deposit does.\<close>

fun amount_ok :: "bank_msg \<Rightarrow> bool" where
  "amount_ok (Deposit w a) = (0 \<le> sint a)"
| "amount_ok (Withdraw w a) = (0 \<le> sint a)"
| "amount_ok _ = True"

lemma bank_not_overdrawn:
  assumes "bank_handle True m (s, c) = Answers r (s', c')" "amount_ok m" "\<forall>v \<in> ran s. 0 \<le> sint v"
  shows "\<forall>v \<in> ran s'. 0 \<le> sint v"
proof -
  have bal: "0 \<le> sint v" if "s w = Some v" for v w using assms(3) that by (auto simp: ran_def)
  show ?thesis using assms(1,2) bal
    by (cases m)
      (fastforce simp: handle_new_account_def handle_deposit_def handle_withdraw_def handle_stop_bank_def checked_def ran_def
        split: option.splits if_splits)+
qed

lemma negative_deposit_overdraws:
  "fst (serve True [NewAccount ''a'', Deposit ''a'' (- 5)] (bank_new, c)) = [Inr (Welcome ''a''), Inr (Balance ''a'' (- 5))]"
  by (simp add: handle_new_account_def handle_deposit_def bank_new_def checked_def)

text \<open>The request of a client is answered from the accounts in the slot of that request.\<close>

lemma bank_answers:
  assumes "bank_handle chk m (s, c) = Answers r (s', c')"
  shows "envelope_handle (bank chk) \<lparr>ev_msg = m, ev_tx = Some i\<rparr> ((s, sl), c) = CbOk ((s', sl(i := Replied r)), c')"
  using assms by (simp add: envelope_handle_def bank_def)

lemma name_server_finds:
  "name_server_handle (AddName k v) (s, c) = Answers (Inl ()) (s(k \<mapsto> v), c)"
  "name_server_handle (FindName k) (s(k \<mapsto> v), c) = Answers (Inr (Found v)) (s(k \<mapsto> v), c)"
  by simp_all

text \<open>Nobody hears what they said themselves, everybody else hears it once per membership.\<close>

lemma room_delivers:
  assumes "room_handle (Say from t) (s, c) = Answers r (s', c')"
  shows "\<exists>new. rm_delivered s' = rm_delivered s @ new \<and>
    (\<forall>u. count_list (map fst new) u = length (filter (\<lambda>(n, v). v = u \<and> n \<noteq> from) (rm_members s)))"
proof -
  have "count_list (map fst (map (\<lambda>(_, u). (u, from, t)) (filter (\<lambda>(n, _). n \<noteq> from) ms))) u =
      length (filter (\<lambda>(n, v). v = u \<and> n \<noteq> from) ms)" for ms :: "(string \<times> actor_id) list" and u
    by (induction ms) auto
  then show ?thesis using assms by auto
qed

end
