(* ===== verification/Spec2Isabelle.thy ===== *)
theory Spec2Isabelle
  imports Prelude Address Exit_Reason Mailbox Mailbox_Concurrent Links Link_Cascade Child_Spec Supervisor_Logic Process_Groups
    Protocol Registry Named_Registry World Remote_Spawn Supervisor Supervisor_Tables Supervisor_Correct
    Dynamic_Supervisor Dynamic_Correct Actor_Runtime Actor_Exit Broker Frame Tcp Tcp_Correct Remote_Ref Remote_Calls
    Shutdown_Signals Node Remote_Lifecycle Rt_Threads Actor_Calls Exit_Waits Pool Monitors Libp2p
    Broker_Types Timers Application Macro_Types Protocol_Macro
    Actor_Macro Shutdown_Waits Group_Queries Builders Crash_Restart Actor_Start
    Tcp_Listener Observability Example_Actors
begin

text \<open>
  A model of \<open>spawned\<close>, an Erlang-style actor framework in Rust, and proofs about it. The names of
  files below are relative to \<open>src/\<close>; \<open>c/\<close> stands for \<open>concurrency/src/\<close>.

  \<^bold>\<open>The program.\<close> Actors (\<open>c/tasks/actor.rs\<close> on an asynchronous runtime, \<open>c/threads/actor.rs\<close> on threads)
  own a mailbox of four channels, are linked and monitored, and end with an exit reason. Supervisors
  (\<open>c/supervisor\<close>, \<open>c/tasks/supervisor.rs\<close>, \<open>c/tasks/dynamic_supervisor.rs\<close> and their copies under \<open>c/threads\<close>) start, restart and stop
  children. Names (\<open>c/registry.rs\<close>, \<open>c/cluster/named_registry.rs\<close>) and process groups (\<open>c/pg.rs\<close>) find actors, pools (\<open>c/pool.rs\<close>)
  distribute messages over them. Nodes of a cluster exchange frames over TCP or libp2p (\<open>cluster/src\<close>); a
  broker on each node (\<open>c/cluster/supervision_broker.rs\<close>) carries spawn requests, links, monitors and exits between them. An
  application (\<open>c/application.rs\<close>) starts all that and ends on a signal. Macros (\<open>macros/src\<close>) generate protocols and actors.

  \<^bold>\<open>How the model is made.\<close> Each operation of the source is a function of the same name where HOL
  allows it, on records for the source's structures. A panic or a call that does not return is a value of
  \<open>run\<close> (\<open>Prelude\<close>), an error is the left of a sum. Integers that are counted in Rust have their width
  (\<open>u64\<close>, \<open>u32\<close>, \<open>usize\<close> are words). A hash map that is only looked up is a map; one that is iterated is an association list, and
  no theorem depends on its order. A handle is the id of an actor, and what its clones share is the
  actor's \<open>cell\<close>. The node is a record, \<open>world\<close>; what is published to other nodes is logged in it. The two runtimes differ
  in the primitives they wait with: operations take the runtime as an argument, and definitions named \<open>threads_\<dots>\<close> are the
  code of the threads runtime. Code that is not in the repository is a parameter: serializers (\<open>codec\<close>), sockets and
  peers, the libp2p swarm, the operating system's signals and clocks, and the callbacks of the user. What
  the theorems need of it is a named hypothesis (\<open>codec_ok\<close>, \<open>swarm_ok\<close>, \<open>sched_frame\<close>, \<open>terminating\<close>), and a witness
  instantiates it.

  Concurrency is explicit where the code shares memory: \<open>Mailbox_Concurrent\<close>, \<open>Rt_Threads\<close>, \<open>Monitors\<close> and \<open>Shutdown_Waits\<close> have
  step relations or schedules of atomic actions, with invariants over all interleavings (locale \<open>inductive_invariant\<close> of
  \<open>Prelude\<close>). Elsewhere an operation is atomic, and the rest of the system acts between operations, through
  arbitrary functions or lists of observations. There is no fuel: a loop recurses over its data or over the list of what it
  observes, and the end of that list means that it still waits. The serving loop of a connection
  recurses over the bytes it is given, with their number as the measure.

  \<^bold>\<open>Theories, in the order of the code.\<close>
  \<^item> \<open>Prelude\<close>: runs, invariants, lemmas on lists, association lists and words.
  \<^item> \<open>Address\<close> (\<open>address/src\<close>), \<open>Exit_Reason\<close> (\<open>c/error.rs\<close>, \<open>c/exit_request.rs\<close>).
  \<^item> \<open>Mailbox\<close>, \<open>Mailbox_Concurrent\<close> (\<open>c/mailbox.rs\<close>): receiving by priority in both runtimes (locale \<open>mailbox_receiver\<close>), the depth counter and
    the bound, one operation at a time and under interleaving; the lost wake-up of a blocked sender.
  \<^item> \<open>Links\<close>, \<open>Link_Cascade\<close> (\<open>c/link.rs\<close>, \<open>c/child_handle.rs\<close>): link tables, exit signals, cascades of exits.
  \<^item> \<open>Child_Spec\<close> (\<open>c/child_spec.rs\<close>), \<open>Supervisor_Logic\<close> (\<open>c/supervisor/mod.rs\<close>): restart and shutdown policies, the engine of strategies and
    restart intensity with its sliding window.
  \<^item> \<open>World\<close>, \<open>Actor_Start\<close>, \<open>Builders\<close>: the state of a node, child specifications and their builders, starting actors.
  \<^item> \<open>Supervisor\<close>, \<open>Supervisor_Tables\<close>, \<open>Supervisor_Correct\<close>: the static supervisor, the relation between its tables and the
    node, and what its callbacks do. \<open>Dynamic_Supervisor\<close>, \<open>Dynamic_Correct\<close>: the dynamic one.
  \<^item> \<open>Actor_Runtime\<close>, \<open>Actor_Exit\<close>, \<open>Actor_Calls\<close>, \<open>Exit_Waits\<close>, \<open>Monitors\<close>, \<open>Timers\<close>: the run of an actor over arbitrary callbacks, the end of its
    task, requests and their replies, waiting for an exit, monitors, timers and streams. \<open>Crash_Restart\<close> puts a run, its exit and
    the supervisor together. \<open>Rt_Threads\<close> (\<open>rt/src/threads\<close>): the cancellation token and the fan-out of signals.
  \<^item> \<open>Registry\<close>, \<open>Named_Registry\<close> (locale \<open>name_store\<close>), \<open>Process_Groups\<close>, \<open>Group_Queries\<close>, \<open>Pool\<close> (\<open>c/pool.rs\<close>, \<open>pool.rs\<close> and \<open>pg.rs\<close> of both runtimes).
  \<^item> \<open>Protocol\<close> (\<open>wire/src\<close>, \<open>cluster/src/protocol.rs\<close>, validation and routing of supervision events), \<open>Frame\<close>, \<open>Tcp\<close>, \<open>Tcp_Listener\<close>,
    \<open>Tcp_Correct\<close> (\<open>cluster/src/frame.rs\<close>, \<open>dispatch.rs\<close>, \<open>control.rs\<close>, \<open>tcp\<close>), \<open>Libp2p\<close> (\<open>cluster/src/libp2p\<close>), \<open>Remote_Ref\<close>, \<open>Remote_Calls\<close>
    (\<open>cluster/src/router.rs\<close>, \<open>c/cluster/remote_actor_ref.rs\<close>).
  \<^item> \<open>Remote_Spawn\<close>, \<open>Shutdown_Waits\<close> (\<open>c/cluster/remote_spawn.rs\<close>, \<open>supervision_remote.rs\<close>): starting and stopping children on other
    nodes; \<open>Broker\<close>, \<open>Broker_Types\<close>: the broker's tables and that it answers as the protocol says; \<open>Remote_Lifecycle\<close>: a
    child hosted for another node.
  \<^item> \<open>Shutdown_Signals\<close>, \<open>Node\<close>, \<open>Application\<close> (\<open>c/shutdown_signal.rs\<close>, \<open>c/cluster/node.rs\<close>, \<open>c/application.rs\<close>).
  \<^item> \<open>Macro_Types\<close>, \<open>Protocol_Macro\<close>, \<open>Actor_Macro\<close> (\<open>macros/src/lib.rs\<close>): over syntax trees of \<open>syn\<close>, from the input of \<open>#[protocol]\<close> and \<open>#[actor]\<close>
    to the items they generate.
  \<^item> \<open>Observability\<close> (\<open>c/observability\<close>): the metric hooks agree with the trace. \<open>Example_Actors\<close>: the bank, the name server and the
    chat room of \<open>examples\<close>, as clients of \<open>Actor_Calls\<close>.

  \<^bold>\<open>What is shown.\<close> Functional behaviour and life cycles: a crashed child is replaced, as its
  strategy says, from the panic in its handler to the new actor; supervisors start and stop their children; exits
  reach exactly the linked actors and cascades stop; every request is answered once its actor has
  stopped; monitors fire once; a remote child is started, supervised and its exit reported over TCP. Invariants and bounds: the capacity of a
  mailbox and the bound of a dynamic supervisor, the accounting of libp2p sends, retries. Refinement and
  equivalence: the registries and groups against maps and counters, remote requests against local ones, the intensity
  window against counting, the table of shutdown waits against the sequential function. Round trips, termination of the
  serving loop, types of the broker's replies. Where the code does not do what it means to, the theorem shows what it does: the
  lost wake-up, the link in the exit window, the batch restart that never completes, the double join that is never left,
  the shutdown wait that confuses nodes, the one signal that is served.

  \<^bold>\<open>Not modelled.\<close> The calls of tracing and metrics inside other operations, which have no result the program
  uses, and the setup of tracing (\<open>rt/src/tracing\<close>). The thin
  wrappers over tokio and \<open>std\<close> (\<open>rt/src/tasks\<close>, the channels of \<open>rt/src/threads\<close>) and re-exports: there is nothing of the program in
  them. Installing signal handlers, opening sockets, building the swarm: the operating system's and the libraries' part. The parsing and
  printing of tokens in the macros (\<open>syn\<close>, \<open>quote\<close>). Accessors of a field, \<open>Clone\<close> and \<open>Debug\<close> of shared handles, the warning about
  blocking futures of debug builds. Tests, and the examples beyond the three actors above: they start
  actors, sleep and print.
\<close>

section \<open>Remote supervision from end to end\<close>

text \<open>
  C3. A supervisor on one node starts a worker on another over TCP and hears of its death. The
  request succeeds; on the placement node the child is alive, linked to the broker and
  recorded with its parent. Whatever the child exits with, other than \<open>Kill\<close>, the broker there
  receives the exit and publishes one \<open>ChildExit\<close>, routed to the parent's node, and the broker of
  that node delivers it to the supervisor with the child's address and its reason. A child
  that exits with \<open>Kill\<close> instead cancels the broker of its node, and no exit is reported.
\<close>

theorem remote_spawn_end_to_end:
  assumes en: "meets en w w2 t0 t2" "dials en net tt t0" "ch_supervision (en_server en) = Some (broker_hook mk)"
    and rdy: "broker_ready h b t2" "wd_here t2 = en_there en" "startable wt ini (wd_spawn t2)" "next_actor_id (wd_addr t2) \<noteq> -1"
    and req: "length ini \<le> MAX_REMOTE_SPAWN_INIT_BYTES" "wd_corr w \<noteq> 0"
      "sent_as (en_codec en) (SupervisionFrame \<lparr>se_correlation_id = wd_corr w,
         se_event = SpawnRequest parent (en_there en) (WorkerSpec wt ini) True\<rparr>) qb"
    and rep: "encode_supervision (en_codec en) \<lparr>se_correlation_id = wd_corr w,
         se_event = SpawnOk (address_local (en_there en) (ActorId (next_actor_id (wd_addr t2))))\<rparr> = Inr bs"
      "length bs \<le> MAX_FRAME_SIZE"
  shows "\<exists>child b3 t3 inp e out.
    request_spawn (node_request (en_codec en) net tt w) (en_there en) parent (WorkerSpec wt ini) True w =
      (Inr child, w\<lparr>wd_corr := wd_corr w + 1\<rparr>) \<and>
    serve_connection (en_codec en) (en_there en) (en_handler en) (en_server en) None inp t0 = Returns (e, out, t3) \<and>
    node child = en_there en \<and> is_alive (actor_id child) (wd_cells t3) \<and> cl_links (wd_cells t3 (actor_id child)) = [h] \<and>
    wd_broker t3 = Some b3 \<and> br_parents b3 (actor_id child) = Some parent \<and>
    (\<forall>r t4. t4 = inner_future_end (actor_id child) r t3 \<longrightarrow>
       (r \<noteq> Kill \<longrightarrow>
          \<lparr>exit_from = child, exit_cause = r\<rparr> \<in> set (queue (supervision (cl_mailbox (wd_cells t4 h)))) \<and>
          wd_published (propagate_child_exit \<lparr>exit_from = child, exit_cause = r\<rparr> b3 t4) =
            wd_published t4 @ [child_exit_envelope child parent r]) \<and>
       (r = Kill \<longrightarrow> cl_cancelled (wd_cells t4 h) \<and>
          queue (supervision (cl_mailbox (wd_cells t4 h))) = queue (supervision (cl_mailbox (wd_cells t3 h)))) \<and>
       route_node (se_event (child_exit_envelope child parent r)) = Some (node parent) \<and>
       (\<forall>bp wp hp. node parent = br_local bp \<and> br_handles bp (actor_id parent) = Some hp \<and>
          rx_alive (supervision (cl_mailbox (wd_cells wp hp))) \<longrightarrow>
          (\<exists>wp'. apply_child_exit child parent (exit_reason_to_wire r) bp wp = (Inr (), wp') \<and>
             queue (supervision (cl_mailbox (wd_cells wp' hp))) =
               queue (supervision (cl_mailbox (wd_cells wp hp))) @ [\<lparr>exit_from = child, exit_cause = r\<rparr>])))"
proof -
  from spawn_over_tcp [OF en rdy req rep] obtain c b3 t3 inp e out where
    rq: "request_spawn (node_request (en_codec en) net tt w) (en_there en) parent (WorkerSpec wt ini) True w =
      (Inr (address_local (en_there en) c), w\<lparr>wd_corr := wd_corr w + 1\<rparr>)"
    and srv: "serve_connection (en_codec en) (en_there en) (en_handler en) (en_server en) None inp t0 = Returns (e, out, t3)"
    and ho: "hosted c parent h b3 t3" and here: "wd_here t3 = en_there en" by blast
  let ?child = "address_local (en_there en) c"
  have child: "?child = address_local (wd_here t3) c" using here by simp
  note life = hosted_life [OF ho _ child] and kill = hosted_exit_heard(2) [OF ho refl]
  have route: "route_node (se_event (child_exit_envelope ?child parent r)) = Some (node parent)" for r
    by (simp add: child_exit_envelope_def)
  have facts: "is_alive c (wd_cells t3)" "cl_links (wd_cells t3 c) = [h]" "wd_broker t3 = Some b3" "br_parents b3 c = Some parent"
    using ho by (simp_all add: hosted_def broker_ready_def)
  show ?thesis
    by (rule exI [of _ ?child], rule exI [of _ b3], rule exI [of _ t3], rule exI [of _ inp], rule exI [of _ e],
        rule exI [of _ out])
      (use rq srv facts route life kill child_exit_delivered in \<open>simp; blast\<close>)
qed

text \<open>
  An instance: two nodes \<open>a\<close> and \<open>b\<close>, a serializer for the frames of this exchange, a broker that
  is actor 1 of node \<open>b\<close>, and a worker type registered there on the threads runtime.
\<close>

definition spawn_request :: supervision_envelope where
  "spawn_request = \<lparr>se_correlation_id = 1, se_event =
     SpawnRequest \<lparr>node = NodeId ''a'', actor_id = ActorId 1\<rparr> (NodeId ''b'') (WorkerSpec ''w'' [7]) True\<rparr>"

definition spawn_reply :: supervision_envelope where
  "spawn_reply = \<lparr>se_correlation_id = 1, se_event = SpawnOk (address_local (NodeId ''b'') (ActorId 2))\<rparr>"

definition spawn_codec :: codec where
  "spawn_codec = demo_codec\<lparr>
     ser_frame := table_ser [(RegistryFrame (RegSnapshot []), [3]), (PgFrame (PgSnapshot []), [4]),
       (SupervisionFrame spawn_request, [5])],
     de_frame := table_de [(RegistryFrame (RegSnapshot []), [3]), (PgFrame (PgSnapshot []), [4]),
       (SupervisionFrame spawn_request, [5])],
     ser_supervision := table_ser [(spawn_reply, [9])], de_supervision := table_de [(spawn_reply, [9])]\<rparr>"

lemma spawn_codec_ok: "codec_ok spawn_codec"
proof -
  have "de_frame spawn_codec bs = Inr x" if "ser_frame spawn_codec x = Inr bs" for x bs
    using that unfolding spawn_codec_def by (simp del: map_of.simps) (erule table_roundtrip [rotated], simp)
  moreover have "de_supervision spawn_codec bs = Inr x" if "ser_supervision spawn_codec x = Inr bs" for x bs
    using that unfolding spawn_codec_def by (simp del: map_of.simps) (erule table_roundtrip [rotated], simp)
  moreover have "de_handshake spawn_codec bs = Inr x" if "ser_handshake spawn_codec x = Inr bs" for x bs
    using that demo_codec_ok by (simp add: codec_ok_def spawn_codec_def)
  moreover have "de_reply spawn_codec bs = Inr x" if "ser_reply spawn_codec x = Inr bs" for x bs
    using that demo_codec_ok by (simp add: codec_ok_def spawn_codec_def)
  ultimately show ?thesis unfolding codec_ok_def by blast
qed

definition spawn_broker :: broker where
  "spawn_broker = (broker_new (NodeId ''b''))\<lparr>br_broker_handle := Some (ActorId 1)\<rparr>"

definition host_world :: "nat world" where
  "host_world = demo_world\<lparr>wd_here := NodeId ''b'', wd_broker := Some spawn_broker,
     wd_addr := address_init\<lparr>next_actor_id := 2\<rparr>,
     wd_cells := (\<lambda>_. new_cell)(ActorId 1 := new_cell\<lparr>cl_trap_exit := True\<rparr>),
     wd_spawn := empty_spawn_store\<lparr>ss_threads_workers := [''w'' \<mapsto> (\<lambda>_. None)]\<rparr>\<rparr>"

definition asking_world :: "nat world" where
  "asking_world = demo_world\<lparr>wd_here := NodeId ''a''\<rparr>"

definition spawn_ends :: "(nat world, nat world) ends" where
  "spawn_ends = \<lparr>en_codec = spawn_codec, en_here = NodeId ''a'', en_there = NodeId ''b'',
     en_client = node_control (\<lambda>_. 0), en_server = node_control (\<lambda>_. 0), en_handler = address_dispatch Map.empty\<rparr>"

definition spawn_net :: "string \<Rightarrow> string + socket" where
  "spawn_net addr = Inr (new_socket (serving spawn_codec (NodeId ''b'') (address_dispatch Map.empty) (node_control (\<lambda>_. 0)) host_world))"

definition spawn_tcp :: "nat world tcp_transport" where
  "spawn_tcp = \<lparr>tt_local = NodeId ''a'', tt_peers = [(NodeId ''b'', ''host:1'')], tt_connections = Map.empty,
     tt_control = node_control (\<lambda>_. 0)\<rparr>"

lemma node_control_sel [simp]:
  "ch_registry (node_control mk) = Some node_registry_hook" "ch_pg (node_control mk) = Some node_pg_hook"
  "ch_registry_snapshot (node_control mk) = Some (\<lambda>w. local_snapshot (wd_names w))"
  "ch_pg_snapshot (node_control mk) = Some (\<lambda>w. local_pg_snapshot (wd_pg w))"
  "ch_supervision (node_control mk) = Some (broker_hook mk)"
  by (simp_all add: node_control_def with_supervision_def control_federated_def)

lemma spawn_meets: "meets spawn_ends asking_world asking_world host_world host_world"
proof -
  have snaps: "registry_snapshot_event (node_control (\<lambda>_. 0)) v = RegSnapshot []"
    "pg_snapshot_event (node_control (\<lambda>_. 0)) v = PgSnapshot []"
    if "v = asking_world \<or> v = host_world" for v :: "nat world"
    using that by (auto simp: registry_snapshot_event_def pg_snapshot_event_def local_snapshot_def local_pg_snapshot_def
        asking_world_def host_world_def demo_world_def named_empty_def pg_empty_def List.map_filter_def)
  have gr: "greets spawn_codec (NodeId ''a'') (node_control (\<lambda>_. 0)) asking_world [1] [3] [4]"
    "greets spawn_codec (NodeId ''b'') (node_control (\<lambda>_. 0)) host_world [2] [3] [4]"
    by (simp_all add: greets_def sent_as_def spawn_codec_def demo_codec_def Let_def table_ser_def encode_handshake_def
        encode_cluster_frame_def snaps MAX_FRAME_SIZE_def handshake_local_def)
  have dec: "decode_cluster_frame spawn_codec [3] = Inr (RegistryFrame (RegSnapshot []))"
    "decode_cluster_frame spawn_codec [4] = Inr (PgFrame (PgSnapshot []))"
    by (simp_all add: spawn_codec_def table_de_def decode_cluster_frame_def)
  show ?thesis
    unfolding meets_def
    by (rule conjI [OF _ exI [of _ "[1]", OF exI [of _ "[3]", OF exI [of _ "[4]", OF exI [of _ "[2]",
          OF exI [of _ "[3]", OF exI [of _ "[4]", OF exI [of _ asking_world, OF exI [of _ host_world]]]]]]]]])
      (simp_all add: spawn_ends_def spawn_codec_ok gr snaps apply_registry_event_def apply_pg_event_def node_registry_hook_def
        node_pg_hook_def apply_registry_snapshot_def apply_pg_snapshot_def dec)
qed

theorem remote_spawn_end_to_end_witness:
  "\<exists>child b3 t3. request_spawn (node_request spawn_codec spawn_net spawn_tcp asking_world) (NodeId ''b'')
      \<lparr>node = NodeId ''a'', actor_id = ActorId 1\<rparr> (WorkerSpec ''w'' [7]) True asking_world =
      (Inr child, asking_world\<lparr>wd_corr := 2\<rparr>) \<and> is_alive (actor_id child) (wd_cells (t3 :: nat world)) \<and>
    br_parents (b3 :: broker) (actor_id (child :: actor_address)) = Some \<lparr>node = NodeId ''a'', actor_id = ActorId 1\<rparr>"
proof -
  let ?p = "\<lparr>node = NodeId ''a'', actor_id = ActorId 1\<rparr>"
  have di: "dials spawn_ends spawn_net spawn_tcp host_world" "ch_supervision (en_server spawn_ends) = Some (broker_hook (\<lambda>_. 0))"
    by (simp_all add: dials_def spawn_ends_def spawn_tcp_def spawn_net_def)
  have rdy: "broker_ready (ActorId 1) spawn_broker host_world" "wd_here host_world = en_there spawn_ends"
    "startable ''w'' [7] (wd_spawn host_world)" "next_actor_id (wd_addr host_world) \<noteq> -1"
    by (auto simp: broker_ready_def host_world_def spawn_broker_def broker_new_def world_inv_def link_inv_def untouched_def
        fresh_id_def demo_world_def alive_simps startable_def empty_spawn_store_def spawn_ends_def word_le_nat_alt new_cell_def
        tasks_channel_def chan_new_def)
  have enc: "length [7 :: u8] \<le> MAX_REMOTE_SPAWN_INIT_BYTES" "wd_corr asking_world \<noteq> 0"
    "sent_as (en_codec spawn_ends) (SupervisionFrame \<lparr>se_correlation_id = wd_corr asking_world,
       se_event = SpawnRequest ?p (en_there spawn_ends) (WorkerSpec ''w'' [7]) True\<rparr>) [5]"
    "encode_supervision (en_codec spawn_ends) \<lparr>se_correlation_id = wd_corr asking_world,
       se_event = SpawnOk (address_local (en_there spawn_ends) (ActorId (next_actor_id (wd_addr host_world))))\<rparr> = Inr [9]"
    "length [9 :: u8] \<le> MAX_FRAME_SIZE"
    by (simp_all add: MAX_REMOTE_SPAWN_INIT_BYTES_def MAX_FRAME_SIZE_def asking_world_def demo_world_def sent_as_def
        spawn_ends_def spawn_codec_def encode_cluster_frame_def encode_supervision_def table_ser_def spawn_request_def
        spawn_reply_def host_world_def)
  from remote_spawn_end_to_end [OF spawn_meets di rdy enc] obtain child :: actor_address and b3 :: broker
      and t3 :: "nat world" where
    "request_spawn (node_request (en_codec spawn_ends) spawn_net spawn_tcp asking_world) (en_there spawn_ends) ?p
       (WorkerSpec ''w'' [7]) True asking_world = (Inr child, asking_world\<lparr>wd_corr := wd_corr asking_world + 1\<rparr>)"
    "is_alive (actor_id child) (wd_cells t3)" "br_parents b3 (actor_id child) = Some ?p"
    by (elim exE conjE) (rule that; assumption)
  moreover have "en_codec spawn_ends = spawn_codec" "en_there spawn_ends = NodeId ''b''" "wd_corr asking_world + 1 = 2"
    by (simp_all add: spawn_ends_def asking_world_def demo_world_def)
  ultimately show ?thesis by auto
qed

end
